(* ===== verification/Go_Prelude.thy ===== *)
theory Go_Prelude
  imports Main
begin

text \<open>
  Shared vocabulary of the development: the result type of fallible Go functions, Go strings
  as byte lists, the part of the packages \<open>strings\<close>, \<open>unicode/utf8\<close> and \<open>strconv\<close> the
  program calls, and generic list facts.

  A Go \<open>string\<close> is a sequence of bytes; it is modelled by HOL's \<open>string\<close> (a list of
  8-bit \<open>char\<close>s), so \<open>length\<close> counts bytes as \<open>len\<close> does. Runes are code points (\<open>nat\<close>).

  \<^item> \<open>decode_rune\<close>, \<open>runes\<close>, \<open>encode_rune\<close>, \<open>utf8_valid\<close>: UTF-8 as Go's
    \<open>DecodeRuneInString\<close>, \<open>range\<close> loop, \<open>AppendRune\<close>, \<open>ValidString\<close>.
  \<^item> \<open>trim_space\<close>: \<open>strings.TrimSpace\<close> over the white space of \<open>unicode.IsSpace\<close>.
  \<^item> \<open>to_lower\<close>, \<open>to_upper\<close>: the two case maps on ASCII letters and on the four other
    code points whose image is an ASCII letter; other non-ASCII code points are kept. The result
    agrees with Go's wherever it is compared with an ASCII literal, which is how the program
    uses it.
\<close>

named_theorems go_simps \<open>unfolding rules of the modelled Go library functions\<close>

type_synonym go_string = string
type_synonym rune = nat
type_synonym ('e, 'a) result = "'e + 'a"

abbreviation byte_of :: "char \<Rightarrow> nat" where
  "byte_of c \<equiv> of_char c"

abbreviation Err :: "'e \<Rightarrow> 'e + 'a" where
  "Err \<equiv> Inl"

abbreviation Ok :: "'a \<Rightarrow> 'e + 'a" where
  "Ok \<equiv> Inr"

section \<open>Results\<close>

definition res_bind :: "('e, 'a) result \<Rightarrow> ('a \<Rightarrow> ('e, 'b) result) \<Rightarrow> ('e, 'b) result" where
  "res_bind r f = (case r of Inl e \<Rightarrow> Inl e | Inr a \<Rightarrow> f a)"

lemma res_bind_simps [simp]:
  "res_bind (Inl e) f = Inl e" "res_bind (Inr a) f = f a"
  by (simp_all add: res_bind_def)

lemma res_bind_Inr_iff: "res_bind r f = Inr b \<longleftrightarrow> (\<exists>a. r = Inr a \<and> f a = Inr b)"
  by (cases r) simp_all

definition is_ok :: "('e, 'a) result \<Rightarrow> bool" where
  "is_ok r = (case r of Inl _ \<Rightarrow> False | Inr _ \<Rightarrow> True)"

lemma is_ok_simps [simp]: "\<not> is_ok (Inl e)" "is_ok (Inr a)"
  by (simp_all add: is_ok_def)

section \<open>UTF-8\<close>

text \<open>\<open>utf8.RuneError\<close>, the replacement character U+FFFD.\<close>

definition rune_error :: rune where
  "rune_error = 65533"

definition in_range :: "nat \<Rightarrow> nat \<Rightarrow> nat \<Rightarrow> bool" where
  "in_range lo hi n \<longleftrightarrow> lo \<le> n \<and> n \<le> hi"

text \<open>
  The accepted range of the second byte depends on the first one (no overlong forms, no
  surrogates, nothing above U+10FFFF); \<open>utf8_lo\<close> and \<open>utf8_hi\<close> are the table
  \<open>acceptRanges\<close>.
\<close>

definition utf8_lo :: "nat \<Rightarrow> nat" where
  "utf8_lo b0 = (if b0 = 224 then 160 else if b0 = 240 then 144 else 128)"

definition utf8_hi :: "nat \<Rightarrow> nat" where
  "utf8_hi b0 = (if b0 = 237 then 159 else if b0 = 244 then 143 else 191)"

definition decode_bytes :: "nat list \<Rightarrow> rune \<times> nat" where
  "decode_bytes bs =
     (case bs of
        [] \<Rightarrow> (rune_error, 0)
      | b0 # t0 \<Rightarrow>
          if b0 < 128 then (b0, 1)
          else if in_range 194 223 b0 then
            (case t0 of b1 # _ \<Rightarrow>
               if in_range 128 191 b1 then ((b0 - 192) * 64 + (b1 - 128), 2) else (rune_error, 1)
             | [] \<Rightarrow> (rune_error, 1))
          else if in_range 224 239 b0 then
            (case t0 of b1 # b2 # _ \<Rightarrow>
               if in_range (utf8_lo b0) (utf8_hi b0) b1 \<and> in_range 128 191 b2
               then ((b0 - 224) * 4096 + (b1 - 128) * 64 + (b2 - 128), 3) else (rune_error, 1)
             | _ \<Rightarrow> (rune_error, 1))
          else if in_range 240 244 b0 then
            (case t0 of b1 # b2 # b3 # _ \<Rightarrow>
               if in_range (utf8_lo b0) (utf8_hi b0) b1 \<and> in_range 128 191 b2 \<and> in_range 128 191 b3
               then ((b0 - 240) * 262144 + (b1 - 128) * 4096 + (b2 - 128) * 64 + (b3 - 128), 4)
               else (rune_error, 1)
             | _ \<Rightarrow> (rune_error, 1))
          else (rune_error, 1))"

definition decode_rune :: "go_string \<Rightarrow> rune \<times> nat" where
  "decode_rune s = decode_bytes (map of_char s)"

lemma decode_bytes_size_pos: "bs \<noteq> [] \<Longrightarrow> 0 < snd (decode_bytes bs)"
  by (auto simp: decode_bytes_def split: list.splits)

lemma decode_bytes_size_le: "snd (decode_bytes bs) \<le> length bs"
  by (auto simp: decode_bytes_def split: list.splits)

lemma decode_rune_size_pos [simp]: "s \<noteq> [] \<Longrightarrow> 0 < snd (decode_rune s)"
  by (simp add: decode_rune_def decode_bytes_size_pos)

lemma decode_rune_size_le: "snd (decode_rune s) \<le> length s"
  using decode_bytes_size_le [of "map of_char s"] by (simp add: decode_rune_def)

lemma decode_rune_Nil [simp]: "decode_rune [] = (rune_error, 0)"
  by (simp add: decode_rune_def decode_bytes_def)

lemma decode_rune_ascii [simp]: "byte_of c < 128 \<Longrightarrow> decode_rune (c # cs) = (byte_of c, 1)"
  by (simp add: decode_rune_def decode_bytes_def)

text \<open>The rune sequence a \<open>for range\<close> loop over a string visits.\<close>

function runes :: "go_string \<Rightarrow> rune list" where
  "runes s = (if s = [] then []
              else fst (decode_rune s) # runes (drop (snd (decode_rune s)) s))"
  by pat_completeness auto
termination
  by (relation "measure length") (auto simp: decode_rune_size_le intro!: diff_less)

declare runes.simps [simp del]

lemma runes_Nil [simp]: "runes [] = []"
  by (simp add: runes.simps)

lemma runes_ascii_Cons [simp]: "byte_of c < 128 \<Longrightarrow> runes (c # cs) = byte_of c # runes cs"
  by (simp add: runes.simps [of "c # cs"])

text \<open>\<open>utf8.ValidString\<close>: no position decodes to an error of width 1.\<close>

function utf8_valid :: "go_string \<Rightarrow> bool" where
  "utf8_valid s = (if s = [] then True
     else decode_rune s \<noteq> (rune_error, 1) \<and> utf8_valid (drop (snd (decode_rune s)) s))"
  by pat_completeness auto
termination
  by (relation "measure length") (auto simp: decode_rune_size_le intro!: diff_less)

declare utf8_valid.simps [simp del]

lemma utf8_valid_Nil [simp]: "utf8_valid []"
  by (simp add: utf8_valid.simps)

text \<open>\<open>utf8.AppendRune\<close>; surrogates and values above U+10FFFF become U+FFFD.\<close>

definition rune_ok :: "rune \<Rightarrow> bool" where
  "rune_ok r \<longleftrightarrow> r < 55296 \<or> (57344 \<le> r \<and> r < 1114112)"

definition encode_bytes :: "rune \<Rightarrow> nat list" where
  "encode_bytes r =
     (if r < 128 then [r]
      else if r < 2048 then [192 + r div 64, 128 + r mod 64]
      else if \<not> rune_ok r then [239, 191, 189]
      else if r < 65536 then [224 + r div 4096, 128 + r div 64 mod 64, 128 + r mod 64]
      else [240 + r div 262144, 128 + r div 4096 mod 64, 128 + r div 64 mod 64, 128 + r mod 64])"

definition encode_rune :: "rune \<Rightarrow> go_string" where
  "encode_rune r = map char_of (encode_bytes r)"

text \<open>The conversion \<open>string(rs)\<close> of a rune slice.\<close>

definition string_of_runes :: "rune list \<Rightarrow> go_string" where
  "string_of_runes rs = concat (map encode_rune rs)"

lemma encode_bytes_lt_256: "b \<in> set (encode_bytes r) \<Longrightarrow> b < 256"
proof -
  have "r div 64 mod 64 < 64" "r mod 64 < 64" "r div 4096 mod 64 < 64" by simp_all
  then show "b \<in> set (encode_bytes r) \<Longrightarrow> b < 256"
    by (auto simp: encode_bytes_def rune_ok_def split: if_splits)
qed

lemma bytes_of_encode_rune [simp]: "map of_char (encode_rune r) = encode_bytes r"
proof -
  have "map (\<lambda>b. of_char (char_of b :: char)) (encode_bytes r) = map (\<lambda>b. b) (encode_bytes r)"
    by (rule map_cong [OF refl]) (simp add: encode_bytes_lt_256 of_char_of)
  then show ?thesis by (simp add: encode_rune_def o_def)
qed

lemma encode_rune_nonempty [simp]: "encode_rune r \<noteq> []"
  by (simp add: encode_rune_def encode_bytes_def)

lemma encode_rune_ascii: "r < 128 \<Longrightarrow> encode_rune r = [char_of r]"
  by (simp add: encode_rune_def encode_bytes_def)

end
