(* ===== verification/Go_Utf8.thy ===== *)
theory Go_Utf8
  imports Go_Prelude
begin

text \<open>
  UTF-8 encoding and decoding are inverse to each other: decoding the encoding of a rune list
  gives the runes back, and a valid string is the encoding of the runes it decodes to. Both
  directions are used by the UTF-16 codec and by the string predicates.
\<close>

section \<open>One rune\<close>

text \<open>The six-bit groups of a code point, taken apart and put together again.\<close>

lemma base64_3: "r div 4096 * 4096 + r div 64 mod 64 * 64 + r mod 64 = (r :: nat)"
proof -
  have "r div 4096 = r div 64 div 64" by (simp add: div_mult2_eq [symmetric])
  moreover have "r div 64 div 64 * 64 + r div 64 mod 64 = r div 64" by simp
  moreover have "r div 64 * 64 + r mod 64 = r" by simp
  ultimately show ?thesis by linarith
qed

lemma base64_4:
  "r div 262144 * 262144 + r div 4096 mod 64 * 4096 + r div 64 mod 64 * 64 + r mod 64 = (r :: nat)"
proof -
  have "r div 262144 = r div 4096 div 64" by (simp add: div_mult2_eq [symmetric])
  moreover have "r div 4096 div 64 * 64 + r div 4096 mod 64 = r div 4096" by simp
  ultimately show ?thesis using base64_3 [of r] by linarith
qed

lemma base64_digits:
  assumes "d < 64" and "c < 64"
  shows "(a * 64 + d) div 64 = (a :: nat)" and "(a * 64 + d) mod 64 = d"
    and "(a * 4096 + c * 64 + d) div 64 = a * 64 + c" and "(a * 4096 + c * 64 + d) mod 64 = d"
    and "(a * 4096 + c * 64 + d) div 4096 = a"
proof -
  have e: "a * 4096 + c * 64 + d = (a * 64 + c) * 64 + d" by simp
  show "(a * 64 + d) div 64 = a" "(a * 64 + d) mod 64 = d" using assms by simp_all
  have x: "(x * 64 + d) div 64 = x" "(x * 64 + d) mod 64 = d" for x
    using assms by simp_all
  show q: "(a * 4096 + c * 64 + d) div 64 = a * 64 + c" and "(a * 4096 + c * 64 + d) mod 64 = d"
    unfolding e by (rule x)+
  have "(a * 4096 + c * 64 + d) div 4096 = (a * 4096 + c * 64 + d) div 64 div 64"
    by (simp add: div_mult2_eq [symmetric])
  then show "(a * 4096 + c * 64 + d) div 4096 = a" using assms q by simp
qed

lemma continuation_byte:
  assumes "in_range 128 191 b"
  obtains c where "b = 128 + c" and "c < 64"
  using assms by (intro that [of "b - 128"]) (auto simp: in_range_def)

lemma lead_byte_range:
  assumes "c < 64"
  shows "a < 16 \<Longrightarrow> (a = 0 \<longrightarrow> 32 \<le> c) \<Longrightarrow> (a = 13 \<longrightarrow> c < 32) \<Longrightarrow>
      in_range (utf8_lo (224 + a)) (utf8_hi (224 + a)) (128 + c)"
    and "a < 5 \<Longrightarrow> (a = 0 \<longrightarrow> 16 \<le> c) \<Longrightarrow> (a = 4 \<longrightarrow> c < 16) \<Longrightarrow>
      in_range (utf8_lo (240 + a)) (utf8_hi (240 + a)) (128 + c)"
  using assms by (auto simp: in_range_def utf8_lo_def utf8_hi_def)

lemma decode_encode_2:
  assumes "a < 32" "2 \<le> a" "c < 64" "r = a * 64 + c"
  shows "decode_bytes (encode_bytes r @ t) = (r, length (encode_bytes r))"
proof -
  have "encode_bytes r = [192 + a, 128 + c]"
    using assms base64_digits(1,2) [of c 0 a] by (simp add: encode_bytes_def)
  then show ?thesis using assms by (simp add: decode_bytes_def in_range_def)
qed

lemma decode_encode_3:
  assumes "a < 16" "c < 64" "d < 64" "r = a * 4096 + c * 64 + d" "2048 \<le> r" "rune_ok r"
  shows "decode_bytes (encode_bytes r @ t) = (r, length (encode_bytes r))"
proof -
  have enc: "encode_bytes r = [224 + a, 128 + c, 128 + d]"
    using assms(1-5) base64_digits(3,4,5) [of d c a] assms(6) by (simp add: encode_bytes_def)
  have "in_range (utf8_lo (224 + a)) (utf8_hi (224 + a)) (128 + c)"
    using assms unfolding rune_ok_def by (intro lead_byte_range(1)) auto
  moreover have "in_range 128 191 (128 + d)" "in_range 224 239 (224 + a)"
    "\<not> in_range 194 223 (224 + a)" "\<not> 224 + a < 128"
    using assms(1,3) by (simp_all add: in_range_def)
  ultimately show ?thesis unfolding enc by (simp add: decode_bytes_def assms(4))
qed

lemma decode_encode_4:
  assumes "a < 5" "c < 64" "d < 64" "f < 64" "r = a * 262144 + c * 4096 + d * 64 + f"
    "65536 \<le> r" "rune_ok r"
  shows "decode_bytes (encode_bytes r @ t) = (r, length (encode_bytes r))"
proof -
  have e: "r = (a * 64 + c) * 4096 + d * 64 + f" using assms(5) by simp
  note q = base64_digits(3,4,5) [OF assms(4,3), of "a * 64 + c", folded e]
  have "r div 262144 = r div 4096 div 64" by (simp add: div_mult2_eq [symmetric])
  then have top: "r div 262144 = a" using q(3) assms(2) by simp
  have mid: "r div 64 mod 64 = d" "r mod 64 = f" "r div 4096 mod 64 = c"
    using q assms(2,3) by (simp_all only: mod_mult_self3 mod_less)
  have enc: "encode_bytes r = [240 + a, 128 + c, 128 + d, 128 + f]"
    using assms(6,7) by (simp add: encode_bytes_def mid top)
  have "in_range (utf8_lo (240 + a)) (utf8_hi (240 + a)) (128 + c)"
    using assms unfolding rune_ok_def by (intro lead_byte_range(2)) auto
  moreover have "in_range 128 191 (128 + d)" "in_range 128 191 (128 + f)" "in_range 240 244 (240 + a)"
    "\<not> in_range 194 223 (240 + a)" "\<not> in_range 224 239 (240 + a)" "\<not> 240 + a < 128"
    using assms(1,3,4) by (simp_all add: in_range_def)
  ultimately show ?thesis unfolding enc by (simp add: decode_bytes_def assms(5))
qed

lemma decode_encode_bytes:
  assumes "rune_ok r"
  shows "decode_bytes (encode_bytes r @ t) = (r, length (encode_bytes r))"
proof -
  have m: "x mod 64 < 64" for x :: nat by simp
  have r2: "r = r div 64 * 64 + r mod 64" by simp
  have lt: "r < 1114112" using assms by (auto simp: rune_ok_def)
  consider "r < 128" | "128 \<le> r" "r < 2048" | "2048 \<le> r" "r < 65536" | "65536 \<le> r"
    by linarith
  then show ?thesis
  proof cases
    case 1
    then show ?thesis by (simp add: encode_bytes_def decode_bytes_def)
  next
    case 2
    then have "2 \<le> r div 64" "r div 64 < 32" using r2 m [of r] by linarith+
    then show ?thesis using m r2 by (intro decode_encode_2)
  next
    case 3
    then have "r div 4096 < 16" by (simp add: less_mult_imp_div_less)
    then show ?thesis
      using 3(1) assms by (rule decode_encode_3 [OF _ m m base64_3 [symmetric]])
  next
    case 4
    have "r div 262144 < 5" using base64_4 [of r] lt by linarith
    then show ?thesis
      using 4 assms by (rule decode_encode_4 [OF _ m m m base64_4 [symmetric]])
  qed
qed

lemma decode_encode_rune:
  assumes "rune_ok r"
  shows "decode_rune (encode_rune r @ t) = (r, length (encode_rune r))"
proof -
  have "length (encode_rune r) = length (encode_bytes r)" by (simp add: encode_rune_def)
  with decode_encode_bytes [OF assms] show ?thesis by (simp add: decode_rune_def)
qed

section \<open>Rune sequences\<close>

lemma string_of_runes_simps [simp]:
  "string_of_runes [] = []"
  "string_of_runes (r # rs) = encode_rune r @ string_of_runes rs"
  "string_of_runes (xs @ ys) = string_of_runes xs @ string_of_runes ys"
  by (simp_all add: string_of_runes_def)

lemma runes_string_of_runes:
  "list_all rune_ok rs \<Longrightarrow> runes (string_of_runes rs) = rs"
  by (induction rs) (simp_all add: runes.simps [of "encode_rune _ @ _"] decode_encode_rune)

lemma rune_error_size_one: "encode_rune rune_error = map char_of [239::nat, 191, 189]"
  by (simp add: encode_rune_def encode_bytes_def rune_error_def rune_ok_def)

lemma utf8_valid_string_of_runes:
  "list_all rune_ok rs \<Longrightarrow> utf8_valid (string_of_runes rs)"
proof (induction rs)
  case Nil
  show ?case by simp
next
  case (Cons r rs)
  have "(r, length (encode_rune r)) \<noteq> (rune_error, 1)"
    using rune_error_size_one by auto
  with Cons show ?case
    by (simp add: utf8_valid.simps [of "encode_rune _ @ _"] decode_encode_rune)
qed

section \<open>Valid strings\<close>

lemma encode_decode_bytes:
  assumes "bs \<noteq> []" and "decode_bytes bs \<noteq> (rune_error, 1)" and "\<forall>b \<in> set bs. b < 256"
  shows "encode_bytes (fst (decode_bytes bs)) = take (snd (decode_bytes bs)) bs
         \<and> rune_ok (fst (decode_bytes bs))"
proof -
  obtain b0 t0 where bs: "bs = b0 # t0" using assms(1) by (cases bs) auto
  consider "b0 < 128" | "in_range 194 223 b0" | "in_range 224 239 b0" | "in_range 240 244 b0"
    using assms(2) bs by (auto simp: decode_bytes_def split: if_splits)
  then show ?thesis
  proof cases
    case 1
    then show ?thesis by (simp add: bs decode_bytes_def encode_bytes_def rune_ok_def)
  next
    case 2
    then obtain b1 t where t0: "t0 = b1 # t" and b1: "in_range 128 191 b1"
      using assms(2) bs by (auto simp: decode_bytes_def in_range_def split: list.splits if_splits)
    from b1 obtain c where c: "b1 = 128 + c" "c < 64" by (rule continuation_byte)
    define a where "a = b0 - 192"
    have a: "b0 = 192 + a" "2 \<le> a" "a < 32" using 2 by (auto simp: in_range_def a_def)
    have "\<not> a * 64 + c < 128" "a * 64 + c < 2048" using a c by simp_all
    then show ?thesis using a c base64_digits(1,2) [of c 0 a]
      by (simp add: bs t0 decode_bytes_def encode_bytes_def in_range_def rune_ok_def)
  next
    case 3
    then have nb: "\<not> b0 < 128" "\<not> in_range 194 223 b0" by (auto simp: in_range_def)
    obtain b1 b2 t where t0: "t0 = b1 # b2 # t"
      and r1: "in_range (utf8_lo b0) (utf8_hi b0) b1" and b2: "in_range 128 191 b2"
      using assms(2) 3 nb by (auto simp: bs decode_bytes_def split: list.splits if_splits)
    have b1: "in_range 128 191 b1"
      using r1 by (auto simp: in_range_def utf8_lo_def utf8_hi_def split: if_splits)
    from b1 obtain c where c: "b1 = 128 + c" "c < 64" by (rule continuation_byte)
    from b2 obtain d where d: "b2 = 128 + d" "d < 64" by (rule continuation_byte)
    define a where "a = b0 - 224"
    have a: "b0 = 224 + a" "a < 16" using 3 by (auto simp: in_range_def a_def)
    let ?r = "a * 4096 + c * 64 + d"
    have dec: "decode_bytes bs = (?r, 3)"
      using nb 3 r1 b2 a c d by (simp add: bs t0 decode_bytes_def)
    have lo: "\<not> ?r < 2048" "?r < 65536"
      using r1 a c d by (auto simp: in_range_def utf8_lo_def split: if_splits)
    have ok: "rune_ok ?r"
      using r1 a c d by (cases "a = 13") (auto simp: in_range_def utf8_hi_def rune_ok_def)
    have "encode_bytes ?r = [224 + a, 128 + c, 128 + d]"
      using lo ok c d base64_digits(3,4,5) [of d c a] by (simp add: encode_bytes_def)
    then show ?thesis using ok a c d by (simp add: dec) (simp add: bs t0)
  next
    case 4
    then have nb: "\<not> b0 < 128" "\<not> in_range 194 223 b0" "\<not> in_range 224 239 b0"
      by (auto simp: in_range_def)
    obtain b1 b2 b3 t where t0: "t0 = b1 # b2 # b3 # t"
      and r1: "in_range (utf8_lo b0) (utf8_hi b0) b1"
      and b2: "in_range 128 191 b2" and b3: "in_range 128 191 b3"
      using assms(2) 4 nb by (auto simp: bs decode_bytes_def split: list.splits if_splits)
    have b1: "in_range 128 191 b1"
      using r1 by (auto simp: in_range_def utf8_lo_def utf8_hi_def split: if_splits)
    from b1 obtain c where c: "b1 = 128 + c" "c < 64" by (rule continuation_byte)
    from b2 obtain d where d: "b2 = 128 + d" "d < 64" by (rule continuation_byte)
    from b3 obtain f where f: "b3 = 128 + f" "f < 64" by (rule continuation_byte)
    define a where "a = b0 - 240"
    have a: "b0 = 240 + a" "a < 5" using 4 by (auto simp: in_range_def a_def)
    let ?r = "a * 262144 + c * 4096 + d * 64 + f"
    have dec: "decode_bytes bs = (?r, 4)"
      using nb 4 r1 b2 b3 a c d f by (simp add: bs t0 decode_bytes_def)
    have lo: "\<not> ?r < 65536" "?r < 1114112"
      using r1 a c d f by (auto simp: in_range_def utf8_lo_def utf8_hi_def split: if_splits)
    have e: "?r = (a * 64 + c) * 4096 + d * 64 + f" by simp
    note q = base64_digits(3,4,5) [OF f(2) d(2), of "a * 64 + c", folded e]
    have digits: "?r div 64 mod 64 = d" "?r mod 64 = f" "?r div 4096 = a * 64 + c"
      using q d(2) by (simp_all only: mod_mult_self3 mod_less)
    have "?r div 262144 = ?r div 4096 div 64" by (simp add: div_mult2_eq [symmetric])
    then have top: "?r div 262144 = a" using digits c by simp
    have "rune_ok ?r" using lo by (simp add: rune_ok_def)
    moreover from this have "encode_bytes ?r = [240 + a, 128 + c, 128 + d, 128 + f]"
      using lo c digits top by (simp add: encode_bytes_def)
    ultimately show ?thesis using a c d f by (simp add: dec) (simp add: bs t0)
  qed
qed

lemma encode_decode_rune:
  assumes "s \<noteq> []" and "decode_rune s \<noteq> (rune_error, 1)"
  shows "encode_rune (fst (decode_rune s)) = take (snd (decode_rune s)) s"
    and "rune_ok (fst (decode_rune s))"
proof -
  have "\<forall>b \<in> set (map of_char s). (b :: nat) < 256"
    by auto
  with encode_decode_bytes [of "map of_char s"] assms
  have enc: "encode_bytes (fst (decode_rune s)) = take (snd (decode_rune s)) (map of_char s)"
    and ok: "rune_ok (fst (decode_rune s))"
    by (auto simp: decode_rune_def)
  show "rune_ok (fst (decode_rune s))" by (rule ok)
  have "map char_of (take n (map of_char s :: nat list)) = take n s" for n
    by (simp add: take_map o_def)
  with enc show "encode_rune (fst (decode_rune s)) = take (snd (decode_rune s)) s"
    by (simp add: encode_rune_def)
qed

lemma utf8_valid_runes:
  "utf8_valid s \<Longrightarrow> string_of_runes (runes s) = s \<and> list_all rune_ok (runes s)"
proof (induction s rule: utf8_valid.induct)
  case (1 s)
  show ?case
  proof (cases "s = []")
    case False
    with "1.prems" have v: "decode_rune s \<noteq> (rune_error, 1)"
      "utf8_valid (drop (snd (decode_rune s)) s)"
      by (simp_all add: utf8_valid.simps [of s])
    with False "1.IH" encode_decode_rune [OF False v(1)] show ?thesis
      by (simp add: runes.simps [of s])
  qed simp
qed

lemma utf8_valid_iff: "utf8_valid s \<longleftrightarrow> (\<exists>rs. list_all rune_ok rs \<and> s = string_of_runes rs)"
  using utf8_valid_runes utf8_valid_string_of_runes by metis

end
