(* ===== verification/Go_Strings.thy ===== *)
theory Go_Strings
  imports Go_Utf8
begin

text \<open>
  The functions of the package \<open>strings\<close> the program calls, on byte lists: trimming, prefix,
  suffix and substring tests, ASCII case mapping, searching and splitting at a byte, joining; and
  \<open>strconv.Atoi\<close> / \<open>fmt\<close>'s \<open>%0nd\<close> on decimal digits. The lemmas say what trimming
  removes, that splitting is undone by appending, and that padding and reading digits agree.
\<close>

section \<open>Searching\<close>

definition has_prefix :: "go_string \<Rightarrow> go_string \<Rightarrow> bool" where
  "has_prefix s p \<longleftrightarrow> take (length p) s = p"

definition has_suffix :: "go_string \<Rightarrow> go_string \<Rightarrow> bool" where
  "has_suffix s p \<longleftrightarrow> length p \<le> length s \<and> drop (length s - length p) s = p"

fun contains :: "go_string \<Rightarrow> go_string \<Rightarrow> bool" where
  "contains [] p = (p = [])"
| "contains (c # s) p = (has_prefix (c # s) p \<or> contains s p)"

text \<open>\<open>strings.IndexByte\<close>; \<open>None\<close> is the result \<open>-1\<close>.\<close>

fun index_byte :: "go_string \<Rightarrow> char \<Rightarrow> nat option" where
  "index_byte [] b = None"
| "index_byte (c # s) b = (if c = b then Some 0 else map_option Suc (index_byte s b))"

lemma contains_iff: "contains s p \<longleftrightarrow> (\<exists>u v. s = u @ p @ v)"
proof (induction s)
  case (Cons c s)
  have "has_prefix (c # s) p \<longleftrightarrow> (\<exists>v. c # s = p @ v)"
    unfolding has_prefix_def by (metis append_eq_conv_conj append_take_drop_id)
  with Cons show ?case
    by (auto simp: Cons_eq_append_conv)
qed auto

lemma index_byte_None [simp]: "index_byte s b = None \<longleftrightarrow> b \<notin> set s"
  by (induction s) auto

lemma index_byte_Some:
  "index_byte s b = Some i \<Longrightarrow> i < length s \<and> s ! i = b \<and> b \<notin> set (take i s)"
  by (induction s arbitrary: i) (auto split: if_splits)

lemma index_byte_split:
  "index_byte s b = Some i \<Longrightarrow> s = take i s @ b # drop (Suc i) s"
  using index_byte_Some [of s b i] id_take_nth_drop [of i s] by simp

lemma index_byte_append: "b \<notin> set u \<Longrightarrow> index_byte (u @ b # v) b = Some (length u)"
  by (induction u) auto

text \<open>\<open>strings.Split(s, sep)\<close> with a one-byte separator: always at least one part.\<close>

fun split_byte :: "char \<Rightarrow> go_string \<Rightarrow> go_string list" where
  "split_byte b [] = [[]]"
| "split_byte b (c # s) =
     (if c = b then [] # split_byte b s
      else (case split_byte b s of [] \<Rightarrow> [[c]] | w # ws \<Rightarrow> (c # w) # ws))"

lemma split_byte_nonempty [simp]: "split_byte b s \<noteq> []"
  by (induction s) (auto split: list.splits)

lemma split_byte_none: "b \<notin> set s \<Longrightarrow> split_byte b s = [s]"
  by (induction s) auto

fun join :: "go_string \<Rightarrow> go_string list \<Rightarrow> go_string" where
  "join sep [] = []"
| "join sep [w] = w"
| "join sep (w # v # ws) = w @ sep @ join sep (v # ws)"

lemma join_split_byte: "join [b] (split_byte b s) = s"
proof (induction s)
  case (Cons c s)
  obtain w ws where "split_byte b s = w # ws" by (cases "split_byte b s") auto
  with Cons show ?case by (cases ws) auto
qed simp

section \<open>Case mapping\<close>

definition lower_char :: "char \<Rightarrow> char" where
  "lower_char c = (if 65 \<le> byte_of c \<and> byte_of c \<le> 90 then char_of (byte_of c + 32) else c)"

definition upper_char :: "char \<Rightarrow> char" where
  "upper_char c = (if 97 \<le> byte_of c \<and> byte_of c \<le> 122 then char_of (byte_of c - 32) else c)"

text \<open>U+212A (Kelvin sign) and U+0130 (dotted capital I) are the non-ASCII code points that
  \<open>unicode.ToLower\<close> maps to ASCII letters; U+0131 and U+017F those of \<open>unicode.ToUpper\<close>.\<close>

fun to_lower :: "go_string \<Rightarrow> go_string" where
  "to_lower [] = []"
| "to_lower (c # cs) =
     (if c = CHR 0xE2 \<and> take 2 cs = [CHR 0x84, CHR 0xAA] then CHR ''k'' # to_lower (drop 2 cs)
      else if c = CHR 0xC4 \<and> take 1 cs = [CHR 0xB0] then CHR ''i'' # to_lower (drop 1 cs)
      else lower_char c # to_lower cs)"

fun to_upper :: "go_string \<Rightarrow> go_string" where
  "to_upper [] = []"
| "to_upper (c # cs) =
     (if c = CHR 0xC4 \<and> take 1 cs = [CHR 0xB1] then CHR ''I'' # to_upper (drop 1 cs)
      else if c = CHR 0xC5 \<and> take 1 cs = [CHR 0xBF] then CHR ''S'' # to_upper (drop 1 cs)
      else upper_char c # to_upper cs)"

text \<open>\<open>strings.EqualFold\<close> against an ASCII word: equality of the lower-cased strings.\<close>

definition equal_fold :: "go_string \<Rightarrow> go_string \<Rightarrow> bool" where
  "equal_fold s t \<longleftrightarrow> to_lower s = to_lower t"

definition is_ascii :: "go_string \<Rightarrow> bool" where
  "is_ascii s \<longleftrightarrow> list_all (\<lambda>c. byte_of c < (128::nat)) s"

lemma to_lower_ascii: "is_ascii s \<Longrightarrow> to_lower s = map lower_char s"
  by (induction s) (auto simp: is_ascii_def)

lemma lower_char_lit:
  "65 \<le> (byte_of c :: nat) \<Longrightarrow> byte_of c \<le> (90 :: nat) \<Longrightarrow> byte_of d = (byte_of c + 32 :: nat) \<Longrightarrow> lower_char c = d"
  unfolding lower_char_def by (metis char_of_char)

lemma upper_char_lit:
  "97 \<le> (byte_of c :: nat) \<Longrightarrow> byte_of c \<le> (122 :: nat) \<Longrightarrow> byte_of d = (byte_of c - 32 :: nat) \<Longrightarrow> upper_char c = d"
  unfolding upper_char_def by (metis char_of_char)

lemma case_char_keep [simp]:
  "(byte_of c :: nat) < 65 \<or> 90 < (byte_of c :: nat) \<Longrightarrow> lower_char c = c"
  "(byte_of c :: nat) < 97 \<or> 122 < (byte_of c :: nat) \<Longrightarrow> upper_char c = c"
  by (auto simp: lower_char_def upper_char_def)

lemma lower_char_letters [simp]:
  "lower_char (CHR ''A'') = CHR ''a''"
  "lower_char (CHR ''B'') = CHR ''b''"
  "lower_char (CHR ''C'') = CHR ''c''"
  "lower_char (CHR ''D'') = CHR ''d''"
  "lower_char (CHR ''E'') = CHR ''e''"
  "lower_char (CHR ''F'') = CHR ''f''"
  "lower_char (CHR ''G'') = CHR ''g''"
  "lower_char (CHR ''H'') = CHR ''h''"
  "lower_char (CHR ''I'') = CHR ''i''"
  "lower_char (CHR ''J'') = CHR ''j''"
  "lower_char (CHR ''K'') = CHR ''k''"
  "lower_char (CHR ''L'') = CHR ''l''"
  "lower_char (CHR ''M'') = CHR ''m''"
  "lower_char (CHR ''N'') = CHR ''n''"
  "lower_char (CHR ''O'') = CHR ''o''"
  "lower_char (CHR ''P'') = CHR ''p''"
  "lower_char (CHR ''Q'') = CHR ''q''"
  "lower_char (CHR ''R'') = CHR ''r''"
  "lower_char (CHR ''S'') = CHR ''s''"
  "lower_char (CHR ''T'') = CHR ''t''"
  "lower_char (CHR ''U'') = CHR ''u''"
  "lower_char (CHR ''V'') = CHR ''v''"
  "lower_char (CHR ''W'') = CHR ''w''"
  "lower_char (CHR ''X'') = CHR ''x''"
  "lower_char (CHR ''Y'') = CHR ''y''"
  "lower_char (CHR ''Z'') = CHR ''z''"
  by (rule lower_char_lit; simp)+

lemma upper_char_letters [simp]:
  "upper_char (CHR ''a'') = CHR ''A''"
  "upper_char (CHR ''b'') = CHR ''B''"
  "upper_char (CHR ''c'') = CHR ''C''"
  "upper_char (CHR ''d'') = CHR ''D''"
  "upper_char (CHR ''e'') = CHR ''E''"
  "upper_char (CHR ''f'') = CHR ''F''"
  "upper_char (CHR ''g'') = CHR ''G''"
  "upper_char (CHR ''h'') = CHR ''H''"
  "upper_char (CHR ''i'') = CHR ''I''"
  "upper_char (CHR ''j'') = CHR ''J''"
  "upper_char (CHR ''k'') = CHR ''K''"
  "upper_char (CHR ''l'') = CHR ''L''"
  "upper_char (CHR ''m'') = CHR ''M''"
  "upper_char (CHR ''n'') = CHR ''N''"
  "upper_char (CHR ''o'') = CHR ''O''"
  "upper_char (CHR ''p'') = CHR ''P''"
  "upper_char (CHR ''q'') = CHR ''Q''"
  "upper_char (CHR ''r'') = CHR ''R''"
  "upper_char (CHR ''s'') = CHR ''S''"
  "upper_char (CHR ''t'') = CHR ''T''"
  "upper_char (CHR ''u'') = CHR ''U''"
  "upper_char (CHR ''v'') = CHR ''V''"
  "upper_char (CHR ''w'') = CHR ''W''"
  "upper_char (CHR ''x'') = CHR ''X''"
  "upper_char (CHR ''y'') = CHR ''Y''"
  "upper_char (CHR ''z'') = CHR ''Z''"
  by (rule upper_char_lit; simp)+

lemma lower_char_idem [simp]: "lower_char (lower_char c) = lower_char c"
  by (auto simp: lower_char_def)

lemma lower_char_ascii [simp]: "byte_of c < (128::nat) \<Longrightarrow> byte_of (lower_char c) < (128::nat)"
  by (auto simp: lower_char_def)

lemma to_lower_ascii_idem: "is_ascii s \<Longrightarrow> to_lower (to_lower s) = to_lower s"
proof -
  assume a: "is_ascii s"
  then have "is_ascii (map lower_char s)" by (auto simp: is_ascii_def list_all_iff)
  with a show ?thesis by (simp add: to_lower_ascii o_def)
qed

section \<open>Trimming\<close>

text \<open>\<open>unicode.IsSpace\<close>: the Latin-1 cases and the property White\_Space above them.\<close>

definition is_space :: "rune \<Rightarrow> bool" where
  "is_space r \<longleftrightarrow> r \<in> {9, 10, 11, 12, 13, 32, 133, 160, 5760, 8232, 8233, 8239, 8287, 12288}
     \<or> (8192 \<le> r \<and> r \<le> 8202)"

function trim_left :: "go_string \<Rightarrow> go_string" where
  "trim_left s =
     (if s = [] then []
      else if is_space (fst (decode_rune s)) then trim_left (drop (snd (decode_rune s)) s)
      else s)"
  by pat_completeness auto
termination
  by (relation "measure length") (auto simp: decode_rune_size_le intro!: diff_less)

declare trim_left.simps [simp del]

text \<open>\<open>utf8.DecodeLastRuneInString\<close>: step back over at most three continuation bytes.\<close>

definition rune_start :: "char \<Rightarrow> bool" where
  "rune_start c \<longleftrightarrow> \<not> in_range 128 191 (byte_of c)"

fun scan_back :: "go_string \<Rightarrow> nat \<Rightarrow> nat \<Rightarrow> nat" where
  "scan_back s 0 k = 0"
| "scan_back s (Suc j) k =
     (if k = 0 then j else if rune_start (s ! j) then j else scan_back s j (k - 1))"

definition decode_last_rune :: "go_string \<Rightarrow> rune \<times> nat" where
  "decode_last_rune s =
     (if s = [] then (rune_error, 0)
      else if byte_of (last s) < (128::nat) then (byte_of (last s), 1)
      else let start = scan_back s (length s - 1) 3;
               (r, size) = decode_rune (drop start s)
           in if start + size \<noteq> length s then (rune_error, 1) else (r, size))"

function trim_right :: "go_string \<Rightarrow> go_string" where
  "trim_right s =
     (if s = [] then []
      else let (r, size) = decode_last_rune s
           in if is_space r \<and> 0 < size then trim_right (take (length s - size) s) else s)"
  by pat_completeness auto
termination
  by (relation "measure length") auto

declare trim_right.simps [simp del]

definition trim_space :: "go_string \<Rightarrow> go_string" where
  "trim_space s = trim_right (trim_left s)"

text \<open>\<open>strings.TrimRight\<close> with a set of ASCII bytes.\<close>

definition trim_right_bytes :: "char set \<Rightarrow> go_string \<Rightarrow> go_string" where
  "trim_right_bytes B s = rev (dropWhile (\<lambda>c. c \<in> B) (rev s))"

lemma trim_left_Nil [simp]: "trim_left [] = []"
  by (simp add: trim_left.simps)

lemma trim_right_Nil [simp]: "trim_right [] = []"
  by (simp add: trim_right.simps)

lemma trim_left_keep:
  "s = [] \<or> (byte_of (hd s) < (128::nat) \<and> \<not> is_space (byte_of (hd s))) \<Longrightarrow> trim_left s = s"
  by (cases s) (auto simp: trim_left.simps)

lemma trim_right_keep:
  "s = [] \<or> (byte_of (last s) < (128::nat) \<and> \<not> is_space (byte_of (last s))) \<Longrightarrow> trim_right s = s"
  by (cases s) (auto simp: trim_right.simps decode_last_rune_def)

text \<open>A string whose ends are printable ASCII is unchanged by trimming.\<close>

lemma trim_space_keep:
  "s = [] \<or> (byte_of (hd s) < (128::nat) \<and> \<not> is_space (byte_of (hd s)) \<and>
     byte_of (last s) < (128::nat) \<and> \<not> is_space (byte_of (last s))) \<Longrightarrow> trim_space s = s"
  by (auto simp: trim_space_def trim_left_keep trim_right_keep)

lemma trim_right_bytes_Nil [simp]: "trim_right_bytes B [] = []"
  by (simp add: trim_right_bytes_def)

lemma trim_right_bytes_idem [simp]: "trim_right_bytes B (trim_right_bytes B s) = trim_right_bytes B s"
  by (simp add: trim_right_bytes_def)

lemma trim_right_bytes_id: "s = [] \<or> last s \<notin> B \<Longrightarrow> trim_right_bytes B s = s"
  by (cases s rule: rev_cases) (auto simp: trim_right_bytes_def)

lemma trim_right_bytes_replicate [simp]:
  "c \<in> B \<Longrightarrow> trim_right_bytes B (s @ replicate n c) = trim_right_bytes B s"
  by (induction n) (simp_all add: trim_right_bytes_def dropWhile_append)

section \<open>Decimal digits\<close>

definition is_digit :: "char \<Rightarrow> bool" where
  "is_digit c \<longleftrightarrow> 48 \<le> byte_of c \<and> byte_of c \<le> (57::nat)"

definition digit_val :: "char \<Rightarrow> nat" where
  "digit_val c = byte_of c - 48"

definition digit_char :: "nat \<Rightarrow> char" where
  "digit_char d = char_of (48 + d)"

definition digits_val :: "go_string \<Rightarrow> nat" where
  "digits_val s = foldl (\<lambda>n c. 10 * n + digit_val c) 0 s"

lemma digit_char_props [simp]:
  assumes "d < 10"
  shows "is_digit (digit_char d)" and "digit_val (digit_char d) = d"
  using assms by (simp_all add: is_digit_def digit_char_def digit_val_def)

lemma digit_char_val [simp]: "is_digit c \<Longrightarrow> digit_char (digit_val c) = c"
  by (simp add: is_digit_def digit_char_def digit_val_def)

lemma digit_char_lit: "is_digit c \<Longrightarrow> digit_val c = d \<Longrightarrow> digit_char d = c"
  using digit_char_val by blast

lemma digit_char_literals [simp]:
  "digit_char 0 = CHR ''0''" "digit_char (Suc 0) = CHR ''1''" "digit_char 2 = CHR ''2''"
  "digit_char 3 = CHR ''3''" "digit_char 4 = CHR ''4''" "digit_char 5 = CHR ''5''"
  "digit_char 6 = CHR ''6''" "digit_char 7 = CHR ''7''" "digit_char 8 = CHR ''8''"
  "digit_char 9 = CHR ''9''"
  by (rule digit_char_lit; simp add: is_digit_def digit_val_def)+

text \<open>Evaluation of the trimming functions on literals.\<close>

lemmas trim_eval = trim_space_def trim_left.simps trim_right.simps decode_last_rune_def is_space_def

lemma digit_val_lt [simp]: "is_digit c \<Longrightarrow> digit_val c < 10"
  by (auto simp: is_digit_def digit_val_def)

lemma digits_val_Nil [simp]: "digits_val [] = 0"
  by (simp add: digits_val_def)

lemma digits_val_snoc [simp]: "digits_val (s @ [c]) = 10 * digits_val s + digit_val c"
  by (simp add: digits_val_def)

lemma digits_val_append: "digits_val (s @ t) = digits_val s * 10 ^ length t + digits_val t"
  by (induction t rule: rev_induct) (simp_all add: append_assoc [symmetric] del: append_assoc)

text \<open>\<open>strconv.Atoi\<close>: an optional sign, then at least one digit; \<open>None\<close> is the error. The
  error \<open>ErrRange\<close> beyond 64 bits is not reached here: every caller passes at most a few bytes.\<close>

definition atoi :: "go_string \<Rightarrow> int option" where
  "atoi s =
     (let neg = (s \<noteq> [] \<and> hd s = CHR ''-'');
          t = (if s \<noteq> [] \<and> (hd s = CHR ''-'' \<or> hd s = CHR ''+'') then tl s else s)
      in if t \<noteq> [] \<and> list_all is_digit t
         then Some (if neg then - int (digits_val t) else int (digits_val t)) else None)"

lemma is_digit_not_sign: "is_digit c \<Longrightarrow> c \<noteq> CHR ''-'' \<and> c \<noteq> CHR ''+''"
  by (auto simp: is_digit_def)

lemma atoi_digits: "s \<noteq> [] \<Longrightarrow> list_all is_digit s \<Longrightarrow> atoi s = Some (int (digits_val s))"
  by (cases s) (auto simp: atoi_def dest: is_digit_not_sign)

text \<open>\<open>fmt\<close>'s verbs \<open>%d\<close> and \<open>%0nd\<close> on a natural number.\<close>

fun show_nat :: "nat \<Rightarrow> go_string" where
  "show_nat n = (if n < 10 then [digit_char n] else show_nat (n div 10) @ [digit_char (n mod 10)])"

declare show_nat.simps [simp del]

definition pad_zero :: "nat \<Rightarrow> go_string \<Rightarrow> go_string" where
  "pad_zero w s = replicate (w - length s) (CHR ''0'') @ s"

definition fmt_0d :: "nat \<Rightarrow> nat \<Rightarrow> go_string" where
  "fmt_0d w n = pad_zero w (show_nat n)"

lemma show_nat_digits [simp]: "list_all is_digit (show_nat n)"
  by (induction n rule: show_nat.induct) (subst show_nat.simps, auto)

lemma show_nat_nonempty [simp]: "show_nat n \<noteq> []"
  by (subst show_nat.simps) auto

lemma digits_val_show_nat [simp]: "digits_val (show_nat n) = n"
proof (induction n rule: show_nat.induct)
  case (1 n)
  then show ?case
    by (subst show_nat.simps) (auto simp: digits_val_def)
qed

lemma digits_val_zeros [simp]: "digits_val (replicate k (CHR ''0'') @ s) = digits_val s"
  by (induction s rule: rev_induct)
     (simp_all add: append_assoc [symmetric] del: append_assoc,
      induction k, simp_all add: replicate_append_same [symmetric] digit_val_def)

lemma length_show_nat_le: "n < 10 ^ w \<Longrightarrow> 0 < w \<Longrightarrow> length (show_nat n) \<le> w"
proof (induction w arbitrary: n)
  case (Suc w)
  show ?case
  proof (cases "n < 10")
    case True
    then show ?thesis by (subst show_nat.simps) simp
  next
    case False
    have "n div 10 < 10 ^ w" using Suc.prems by (simp add: less_mult_imp_div_less)
    moreover have "0 < w" using False Suc.prems by (cases w) auto
    ultimately have "length (show_nat (n div 10)) \<le> w" by (rule Suc.IH)
    with False show ?thesis by (subst show_nat.simps) simp
  qed
qed simp

lemma length_fmt_0d: "n < 10 ^ w \<Longrightarrow> 0 < w \<Longrightarrow> length (fmt_0d w n) = w"
  using length_show_nat_le [of n w] by (simp add: fmt_0d_def pad_zero_def)

lemma digits_val_fmt_0d [simp]: "digits_val (fmt_0d w n) = n"
  by (simp add: fmt_0d_def pad_zero_def)

lemma fmt_0d_digits [simp]: "list_all is_digit (fmt_0d w n)"
  using show_nat_digits [of n] by (auto simp: fmt_0d_def pad_zero_def list_all_iff is_digit_def)

lemma fmt_0d_nonempty [simp]: "fmt_0d w n \<noteq> []"
  by (simp add: fmt_0d_def pad_zero_def)

lemma atoi_fmt_0d [simp]: "atoi (fmt_0d w n) = Some (int n)"
  by (simp add: atoi_digits)

text \<open>Digit strings of one length with one value are equal.\<close>

lemma decimal_digit_unique:
  "10 * a + x = 10 * b + y \<Longrightarrow> x < 10 \<Longrightarrow> y < 10 \<Longrightarrow> a = b \<and> x = (y :: nat)"
  by presburger

lemma digits_val_inj:
  "length s = length t \<Longrightarrow> list_all is_digit s \<Longrightarrow> list_all is_digit t \<Longrightarrow>
   digits_val s = digits_val t \<Longrightarrow> s = t"
proof (induction s arbitrary: t rule: rev_induct)
  case (snoc c s)
  from snoc.prems(1) obtain u d where t: "t = u @ [d]" by (cases t rule: rev_cases) auto
  have cd: "digit_val c < 10" "digit_val d < 10" using snoc.prems(2,3) t by simp_all
  have "10 * digits_val s + digit_val c = 10 * digits_val u + digit_val d"
    using snoc.prems(4) t by simp
  then have "digits_val s = digits_val u \<and> digit_val c = digit_val d"
    by (rule decimal_digit_unique [OF _ cd])
  then have eq: "digits_val s = digits_val u" "digit_val c = digit_val d" by simp_all
  have "digit_char (digit_val c) = c" "digit_char (digit_val d) = d"
    using snoc.prems(2,3) t by simp_all
  with eq(2) have "c = d" by metis
  moreover have "s = u"
    using snoc.prems(1,2,3) t eq(1) by (intro snoc.IH) simp_all
  ultimately show ?case using t by simp
qed simp

lemma digits_val_bound: "list_all is_digit s \<Longrightarrow> digits_val s < 10 ^ length s"
proof (induction s rule: rev_induct)
  case (snoc c s)
  then have "digits_val s + 1 \<le> 10 ^ length s" "digit_val c < 10" by auto
  then show ?case by simp
qed simp

lemma fmt_0d_digits_val: "s \<noteq> [] \<Longrightarrow> list_all is_digit s \<Longrightarrow> fmt_0d (length s) (digits_val s) = s"
  by (rule digits_val_inj) (simp_all add: length_fmt_0d digits_val_bound)

end
