(* ===== verification/Backend_Types.thy ===== *)
theory Backend_Types
  imports Go_Strings "HOL-Library.Word"
begin

text \<open>
  The vocabulary of \<open>internal/backend\<close>: SDK versions and capabilities (\<open>types.go\<close>,
  \<open>sdkbackend/version.go\<close>), the redaction policy \<open>IsSensitiveKey\<close> with the redacting log
  view of connection parameters, the ABAP type codes, the date and time scalars, the direction
  mask, function descriptors, the error categories (\<open>category.go\<close>) and the SDK error payload
  (\<open>sdkerror.go\<close>).

  A Go map that is iterated is a list of pairs in iteration order with distinct keys. The
  structured log value \<open>slog.Value\<close> is a tree; its leaf for arbitrary Go values is polymorphic.
\<close>

section \<open>Versions and capabilities\<close>

record version =
  Major :: nat
  Minor :: nat
  PatchLevel :: nat

definition zero_version :: version where
  "zero_version = \<lparr>Major = 0, Minor = 0, PatchLevel = 0\<rparr>"

definition at_least :: "version \<Rightarrow> nat \<Rightarrow> nat \<Rightarrow> nat \<Rightarrow> bool" where
  "at_least v major minor patch =
     (if Major v \<noteq> major then Major v > major
      else if Minor v \<noteq> minor then Minor v > minor
      else PatchLevel v \<ge> patch)"

definition version_is_zero :: "version \<Rightarrow> bool" where
  "version_is_zero v \<longleftrightarrow> Major v = 0 \<and> Minor v = 0 \<and> PatchLevel v = 0"

definition version_string :: "version \<Rightarrow> go_string" where
  "version_string v =
     (if version_is_zero v then ''no-sdk''
      else show_nat (Major v) @ ''.'' @ show_nat (Minor v) @ '' PL'' @ show_nat (PatchLevel v))"

record capabilities =
  WebSocketRFC :: bool
  Throughput :: bool
  BgRFC :: bool
  UTCLongCap :: bool
  FastSerialization :: bool

definition no_capabilities :: capabilities where
  "no_capabilities = \<lparr>WebSocketRFC = False, Throughput = False, BgRFC = False,
     UTCLongCap = False, FastSerialization = False\<rparr>"

text \<open>\<open>RfcGetVersion\<close> reports 7500 for 7.50; the triple it fills is the argument.\<close>

definition sdk_version :: "nat \<Rightarrow> nat \<Rightarrow> nat \<Rightarrow> version" where
  "sdk_version rawMajor rawMinor rawPatch =
     (if rawMajor = 0 then zero_version
      else \<lparr>Major = rawMajor div 1000, Minor = (rawMajor div 10) mod 100, PatchLevel = rawPatch\<rparr>)"

definition sdk_capabilities :: "version \<Rightarrow> capabilities" where
  "sdk_capabilities v =
     \<lparr>WebSocketRFC = at_least v 7 50 10, Throughput = at_least v 7 53 0, BgRFC = at_least v 7 50 5,
      UTCLongCap = at_least v 7 50 0, FastSerialization = at_least v 7 50 11\<rparr>"

text \<open>\<open>AtLeast\<close> is the lexicographic order on the triple, so it is a total preorder and every
  capability is monotone in the version.\<close>

definition version_le :: "version \<Rightarrow> version \<Rightarrow> bool" where
  "version_le w v \<longleftrightarrow> at_least v (Major w) (Minor w) (PatchLevel w)"

lemma at_least_lex:
  "at_least v a b c \<longleftrightarrow>
     (a < Major v \<or> (a = Major v \<and> (b < Minor v \<or> (b = Minor v \<and> c \<le> PatchLevel v))))"
  by (auto simp: at_least_def)

lemma at_least_mono: "version_le w v \<Longrightarrow> at_least w a b c \<Longrightarrow> at_least v a b c"
  by (auto simp: at_least_lex version_le_def)

lemma version_le_total: "version_le v w \<or> version_le w v"
  by (auto simp: at_least_lex version_le_def)

section \<open>Redaction\<close>

definition SensitiveKeys :: "go_string list" where
  "SensitiveKeys = [''passwd'', ''password'', ''mysapsso2'', ''x509cert'', ''snc_myname'',
     ''snc_partnername'', ''snc_sso'', ''tls_client_pse'', ''tls_trust_all'', ''saml2'', ''bearer'']"

definition SensitivePrefixes :: "go_string list" where
  "SensitivePrefixes = [''passwd'', ''password'', ''secret'', ''bearer'', ''saml'', ''x509'',
     ''snc'', ''tls_'', ''mysapsso'']"

definition SensitiveSuffixes :: "go_string list" where
  "SensitiveSuffixes = [''_token'', ''_secret'', ''_key'', ''_credential'', ''_credentials'',
     ''_password'', ''_passwd'']"

definition IsSensitiveKey :: "go_string \<Rightarrow> bool" where
  "IsSensitiveKey k =
     (let lk = to_lower (trim_space k)
      in if lk = [] then False
         else if list_ex (\<lambda>s. s = lk) SensitiveKeys then True
         else if list_ex (\<lambda>p. has_prefix lk p) SensitivePrefixes then True
         else list_ex (\<lambda>s. has_suffix lk s) SensitiveSuffixes)"

text \<open>The placeholder, in UTF-8.\<close>

definition RedactedPlaceholder :: go_string where
  "RedactedPlaceholder = [CHR 0xC2, CHR 0xAB] @ ''redacted'' @ [CHR 0xC2, CHR 0xBB]"

datatype 'a slog_val =
    SlogString go_string
  | SlogInt int
  | SlogTime
  | SlogAny 'a
  | SlogGroup "(go_string \<times> 'a slog_val) list"

type_synonym 'a slog_attr = "go_string \<times> 'a slog_val"
type_synonym bparams = "(go_string \<times> go_string) list"

definition bparams_LogValue :: "bparams \<Rightarrow> 'a slog_val" where
  "bparams_LogValue p =
     SlogGroup (map (\<lambda>(k, v).
       if IsSensitiveKey k then (k, SlogString RedactedPlaceholder) else (k, SlogString v)) p)"

text \<open>The policy depends only on the trimmed, lower-cased key.\<close>

lemma IsSensitiveKey_cong:
  "to_lower (trim_space k) = to_lower (trim_space k') \<Longrightarrow> IsSensitiveKey k = IsSensitiveKey k'"
  by (simp add: IsSensitiveKey_def)

lemma has_prefix_append [simp]: "has_prefix (p @ u) p"
  by (simp add: has_prefix_def)

lemma has_suffix_append [simp]: "has_suffix (u @ p) p"
  by (simp add: has_suffix_def)

lemma sensitive_affix_nonempty:
  "p \<in> set SensitivePrefixes \<union> set SensitiveSuffixes \<Longrightarrow> p \<noteq> []"
  by (auto simp: SensitivePrefixes_def SensitiveSuffixes_def)

lemma IsSensitiveKey_prefix:
  assumes "to_lower (trim_space k) = p @ u" and "p \<in> set SensitivePrefixes"
  shows "IsSensitiveKey k"
proof -
  have "list_ex (\<lambda>q. has_prefix (p @ u) q) SensitivePrefixes"
    unfolding list_ex_iff using assms(2) has_prefix_append by blast
  moreover have "p \<noteq> []" using assms(2) sensitive_affix_nonempty by blast
  ultimately show ?thesis using assms(1) by (simp add: IsSensitiveKey_def Let_def)
qed

lemma IsSensitiveKey_suffix:
  assumes "to_lower (trim_space k) = u @ p" and "p \<in> set SensitiveSuffixes"
  shows "IsSensitiveKey k"
proof -
  have "list_ex (\<lambda>q. has_suffix (u @ p) q) SensitiveSuffixes"
    unfolding list_ex_iff using assms(2) has_suffix_append by blast
  moreover have "p \<noteq> []" using assms(2) sensitive_affix_nonempty by blast
  ultimately show ?thesis using assms(1) by (simp add: IsSensitiveKey_def Let_def)
qed

section \<open>ABAP types\<close>

datatype rfc_type =
    TypeChar | TypeDate | TypeBCD | TypeTime | TypeByte | TypeTable | TypeNum | TypeFloat
  | TypeInt | TypeInt2 | TypeInt1 | TypeStructure | TypeDecF16 | TypeDecF34 | TypeXMLData
  | TypeString | TypeXString | TypeInt8 | TypeUTCLong | TypeOther nat

fun rfc_code :: "rfc_type \<Rightarrow> nat" where
  "rfc_code TypeChar = 0" | "rfc_code TypeDate = 1" | "rfc_code TypeBCD = 2"
| "rfc_code TypeTime = 3" | "rfc_code TypeByte = 4" | "rfc_code TypeTable = 5"
| "rfc_code TypeNum = 6" | "rfc_code TypeFloat = 7" | "rfc_code TypeInt = 8"
| "rfc_code TypeInt2 = 9" | "rfc_code TypeInt1 = 10" | "rfc_code TypeStructure = 17"
| "rfc_code TypeDecF16 = 23" | "rfc_code TypeDecF34 = 24" | "rfc_code TypeXMLData = 28"
| "rfc_code TypeString = 29" | "rfc_code TypeXString = 30" | "rfc_code TypeInt8 = 31"
| "rfc_code TypeUTCLong = 32" | "rfc_code (TypeOther n) = n"

fun rfc_type_String :: "rfc_type \<Rightarrow> go_string" where
  "rfc_type_String TypeChar = ''RFCTYPE_CHAR''"
| "rfc_type_String TypeDate = ''RFCTYPE_DATE''"
| "rfc_type_String TypeBCD = ''RFCTYPE_BCD''"
| "rfc_type_String TypeTime = ''RFCTYPE_TIME''"
| "rfc_type_String TypeByte = ''RFCTYPE_BYTE''"
| "rfc_type_String TypeTable = ''RFCTYPE_TABLE''"
| "rfc_type_String TypeNum = ''RFCTYPE_NUM''"
| "rfc_type_String TypeFloat = ''RFCTYPE_FLOAT''"
| "rfc_type_String TypeInt = ''RFCTYPE_INT''"
| "rfc_type_String TypeInt2 = ''RFCTYPE_INT2''"
| "rfc_type_String TypeInt1 = ''RFCTYPE_INT1''"
| "rfc_type_String TypeStructure = ''RFCTYPE_STRUCTURE''"
| "rfc_type_String TypeDecF16 = ''RFCTYPE_DECF16''"
| "rfc_type_String TypeDecF34 = ''RFCTYPE_DECF34''"
| "rfc_type_String TypeXMLData = ''RFCTYPE_XMLDATA''"
| "rfc_type_String TypeString = ''RFCTYPE_STRING''"
| "rfc_type_String TypeXString = ''RFCTYPE_XSTRING''"
| "rfc_type_String TypeInt8 = ''RFCTYPE_INT8''"
| "rfc_type_String TypeUTCLong = ''RFCTYPE_UTCLONG''"
| "rfc_type_String (TypeOther n) = ''RFCTYPE_UNKNOWN('' @ show_nat n @ '')''"

record date =
  Year :: "16 word"
  Month :: "16 word"
  Day :: "16 word"

record gtime =
  Hour :: "8 word"
  Minute :: "8 word"
  Second :: "8 word"

definition zero_date :: date where
  "zero_date = \<lparr>Year = 0, Month = 0, Day = 0\<rparr>"

definition zero_time :: gtime where
  "zero_time = \<lparr>Hour = 0, Minute = 0, Second = 0\<rparr>"

definition date_IsZero :: "date \<Rightarrow> bool" where
  "date_IsZero d \<longleftrightarrow> Year d = 0 \<and> Month d = 0 \<and> Day d = 0"

definition time_IsZero :: "gtime \<Rightarrow> bool" where
  "time_IsZero t \<longleftrightarrow> Hour t = 0 \<and> Minute t = 0 \<and> Second t = 0"

lemma date_IsZero_iff: "date_IsZero d \<longleftrightarrow> d = zero_date"
  by (cases d) (simp add: date_IsZero_def zero_date_def)

lemma time_IsZero_iff: "time_IsZero t \<longleftrightarrow> t = zero_time"
  by (cases t) (simp add: time_IsZero_def zero_time_def)

section \<open>Directions and descriptors\<close>

text \<open>\<open>Direction\<close> is a bit mask; \<open>dir_bit m d\<close> is \<open>m & d != 0\<close> for a one-bit \<open>d\<close>.\<close>

type_synonym direction = "8 word"

definition DirImport :: direction where "DirImport = 1"
definition DirExport :: direction where "DirExport = 2"
definition DirChanging :: direction where "DirChanging = 4"
definition DirTables :: direction where "DirTables = 8"
definition DirReturn :: direction where "DirReturn = 16"

definition DirAllResults :: direction where
  "DirAllResults = or (or (or DirExport DirChanging) DirTables) DirReturn"

definition dir_bit :: "direction \<Rightarrow> direction \<Rightarrow> bool" where
  "dir_bit m d \<longleftrightarrow> and m d \<noteq> 0"

datatype type_desc = TypeDesc (td_Name: go_string) (td_Fields: "field_desc list")
  and field_desc = FieldDesc (fd_Name: go_string) (fd_Type: rfc_type) (fd_Length: nat)
    (fd_Decimals: nat) (fd_Offset: nat) (fd_TypeDesc: "type_desc option")

record param_desc =
  pd_Name :: go_string
  pd_Type :: rfc_type
  pd_Direction :: direction
  pd_Length :: nat
  pd_Decimals :: nat
  pd_Optional :: bool
  pd_TypeDesc :: "type_desc option"

record func_desc =
  fn_Name :: go_string
  fn_Parameters :: "param_desc list"

section \<open>Error categories\<close>

datatype category =
    CategoryUnknown | CategoryLogon | CategoryCommunication | CategoryABAPApp
  | CategoryABAPRuntime | CategoryABAPClassic | CategoryABAPClass | CategoryExtAuthz
  | CategoryExtApp | CategoryExtRuntime | CategoryBrokenConn | CategoryTimeout
  | CategoryCancelled | CategoryMarshal | CategoryConfig | CategorySDKUnavailable
  | CategoryUnsupported

fun category_String :: "category \<Rightarrow> go_string" where
  "category_String CategoryLogon = ''logon''"
| "category_String CategoryCommunication = ''communication''"
| "category_String CategoryABAPApp = ''abap_application''"
| "category_String CategoryABAPRuntime = ''abap_runtime''"
| "category_String CategoryABAPClassic = ''abap_classic''"
| "category_String CategoryABAPClass = ''abap_class''"
| "category_String CategoryExtAuthz = ''external_authz''"
| "category_String CategoryExtApp = ''external_application''"
| "category_String CategoryExtRuntime = ''external_runtime''"
| "category_String CategoryBrokenConn = ''broken_conn''"
| "category_String CategoryTimeout = ''timeout''"
| "category_String CategoryCancelled = ''cancelled''"
| "category_String CategoryMarshal = ''marshal''"
| "category_String CategoryConfig = ''config''"
| "category_String CategorySDKUnavailable = ''sdk_unavailable''"
| "category_String CategoryUnsupported = ''unsupported''"
| "category_String CategoryUnknown = ''unknown''"

lemma category_String_inj: "category_String c = category_String c' \<Longrightarrow> c = c'"
  by (cases c; cases c') simp_all

record sdk_error_info =
  Code :: int
  Group :: nat
  Key :: go_string
  Message :: go_string
  AbapMsgClass :: go_string
  AbapMsgType :: go_string
  AbapMsgNumber :: go_string
  AbapMsgV1 :: go_string
  AbapMsgV2 :: go_string
  AbapMsgV3 :: go_string
  AbapMsgV4 :: go_string

text \<open>The values of \<open>RFC_ERROR_GROUP\<close>.\<close>

definition GroupOK :: nat where "GroupOK = 0"
definition GroupAbapApplicationFailure :: nat where "GroupAbapApplicationFailure = 1"
definition GroupAbapRuntimeFailure :: nat where "GroupAbapRuntimeFailure = 2"
definition GroupLogonFailure :: nat where "GroupLogonFailure = 3"
definition GroupCommunicationFailure :: nat where "GroupCommunicationFailure = 4"
definition GroupExternalRuntimeFailure :: nat where "GroupExternalRuntimeFailure = 5"
definition GroupExternalApplicationFailure :: nat where "GroupExternalApplicationFailure = 6"
definition GroupExternalAuthorizationFailure :: nat where "GroupExternalAuthorizationFailure = 7"

lemmas group_defs =
  GroupOK_def GroupAbapApplicationFailure_def GroupAbapRuntimeFailure_def GroupLogonFailure_def
  GroupCommunicationFailure_def GroupExternalRuntimeFailure_def
  GroupExternalApplicationFailure_def GroupExternalAuthorizationFailure_def

end
