(* ===== verification/Timeext.thy ===== *)
theory Timeext
  imports Backend_Types
begin

text \<open>
  \<open>internal/timeext\<close>: parsing and printing of ABAP DATS, TIMS and UTCLONG values. The parsers
  return a tagged error; \<open>time.Time\<close> is the broken-down UTC instant \<open>civil\<close>, with the part
  of \<open>time.Parse\<close> that the one layout of the package uses. The lemmas relate each parser to
  its printer in both directions on digit strings, give the calendar bounds of accepted values,
  and record where signed digits pass the length check.
\<close>

section \<open>Options and errors\<close>

record parse_options =
  AllowZero :: bool
  Strict :: bool

datatype time_err =
    ErrZeroDate
  | ErrZeroTime
  | ErrLength nat
  | ErrAtoi go_string
  | ErrRange go_string
  | ErrTooShort
  | ErrLayout

section \<open>The calendar\<close>

text \<open>Go's \<open>%\<close> and HOL's \<open>mod\<close> agree on whether the remainder is zero.\<close>

definition isLeapYear :: "int \<Rightarrow> bool" where
  "isLeapYear y =
     (if y mod 400 = 0 then True else if y mod 100 = 0 then False else y mod 4 = 0)"

definition daysInMonth :: "int \<Rightarrow> int \<Rightarrow> int" where
  "daysInMonth year month =
     (if month \<in> {1, 3, 5, 7, 8, 10, 12} then 31
      else if month \<in> {4, 6, 9, 11} then 30
      else if month = 2 then (if isLeapYear year then 29 else 28)
      else 0)"

definition atoiN :: "go_string \<Rightarrow> go_string \<Rightarrow> (time_err, int) result" where
  "atoiN s name = (case atoi s of None \<Rightarrow> Err (ErrAtoi name) | Some n \<Rightarrow> Ok n)"

definition leftPadZero :: "go_string \<Rightarrow> nat \<Rightarrow> go_string" where
  "leftPadZero s n = (if length s \<ge> n then s else replicate (n - length s) (CHR ''0'') @ s)"

section \<open>DATS\<close>

definition check_date :: "int \<Rightarrow> int \<Rightarrow> int \<Rightarrow> (time_err, date) result" where
  "check_date y m d =
     (if m < 1 \<or> m > 12 then Err (ErrRange ''month'')
      else if d < 1 \<or> d > daysInMonth y m then Err (ErrRange ''day'')
      else Ok \<lparr>Year = word_of_int y, Month = word_of_int m, Day = word_of_int d\<rparr>)"

definition ParseDate :: "go_string \<Rightarrow> parse_options \<Rightarrow> (time_err, date) result" where
  "ParseDate s0 opts =
     (let s = (if \<not> Strict opts \<and> length s0 < 8 then leftPadZero s0 8 else s0)
      in if length s \<noteq> 8 then Err (ErrLength (length s))
         else if s = ''00000000'' then (if AllowZero opts then Ok zero_date else Err ErrZeroDate)
         else res_bind (atoiN (take 4 s) ''YYYY'') (\<lambda>y.
              res_bind (atoiN (take 2 (drop 4 s)) ''MM'') (\<lambda>m.
              res_bind (atoiN (take 2 (drop 6 s)) ''DD'') (\<lambda>d. check_date y m d))))"

definition FormatDate :: "date \<Rightarrow> go_string" where
  "FormatDate d = fmt_0d 4 (unat (Year d)) @ fmt_0d 2 (unat (Month d)) @ fmt_0d 2 (unat (Day d))"

section \<open>TIMS\<close>

definition check_time :: "int \<Rightarrow> int \<Rightarrow> int \<Rightarrow> (time_err, gtime) result" where
  "check_time h m sec =
     (if h > 23 then Err (ErrRange ''hour'')
      else if m > 59 then Err (ErrRange ''minute'')
      else if sec > 59 then Err (ErrRange ''second'')
      else Ok \<lparr>Hour = word_of_int h, Minute = word_of_int m, Second = word_of_int sec\<rparr>)"

definition ParseTime :: "go_string \<Rightarrow> parse_options \<Rightarrow> (time_err, gtime) result" where
  "ParseTime s0 opts =
     (let s = (if \<not> Strict opts \<and> length s0 < 6 then leftPadZero s0 6 else s0)
      in if length s \<noteq> 6 then Err (ErrLength (length s))
         else if s = ''000000'' then (if AllowZero opts then Ok zero_time else Err ErrZeroTime)
         else res_bind (atoiN (take 2 s) ''HH'') (\<lambda>h.
              res_bind (atoiN (take 2 (drop 2 s)) ''MM'') (\<lambda>m.
              res_bind (atoiN (take 2 (drop 4 s)) ''SS'') (\<lambda>sec. check_time h m sec))))"

definition FormatTime :: "gtime \<Rightarrow> go_string" where
  "FormatTime t = fmt_0d 2 (unat (Hour t)) @ fmt_0d 2 (unat (Minute t)) @ fmt_0d 2 (unat (Second t))"

section \<open>Facts shared by the two parsers\<close>

lemma atoiN_digits [simp]:
  "s \<noteq> [] \<Longrightarrow> list_all is_digit s \<Longrightarrow> atoiN s n = Ok (int (digits_val s))"
  by (simp add: atoiN_def atoi_digits)

lemma leftPadZero_digits: "list_all is_digit s \<Longrightarrow> list_all is_digit (leftPadZero s n)"
  by (auto simp: leftPadZero_def list_all_iff is_digit_def)

lemma length_leftPadZero [simp]: "length (leftPadZero s n) = max (length s) n"
  by (simp add: leftPadZero_def)

lemma length_fmt_2: "n < 100 \<Longrightarrow> length (fmt_0d 2 n) = 2"
  by (rule length_fmt_0d) simp_all

lemma length_fmt_4: "n < 10000 \<Longrightarrow> length (fmt_0d 4 n) = 4"
  by (rule length_fmt_0d) simp_all

lemma fmt_2_of_digits: "length s = 2 \<Longrightarrow> list_all is_digit s \<Longrightarrow> fmt_0d 2 (digits_val s) = s"
  using fmt_0d_digits_val [of s] by (metis length_0_conv zero_neq_numeral)

lemma fmt_4_of_digits: "length s = 4 \<Longrightarrow> list_all is_digit s \<Longrightarrow> fmt_0d 4 (digits_val s) = s"
  using fmt_0d_digits_val [of s] by (metis length_0_conv zero_neq_numeral)

lemma fmt_2_zero:
  assumes "fmt_0d 2 n = ''00''"
  shows "n = 0"
proof -
  have "digits_val (fmt_0d 2 n) = digits_val ''00''" by (simp only: assms)
  then show ?thesis by (simp only: digits_val_fmt_0d) (simp add: digits_val_def digit_val_def)
qed

lemma digits_val_2: "length s = 2 \<Longrightarrow> list_all is_digit s \<Longrightarrow> digits_val s < 100"
  using digits_val_bound [of s] by simp

lemma digits_val_4: "length s = 4 \<Longrightarrow> list_all is_digit s \<Longrightarrow> digits_val s < 10000"
  using digits_val_bound [of s] by simp

lemma fmt_0d_literal:
  "length s = w \<Longrightarrow> s \<noteq> [] \<Longrightarrow> list_all is_digit s \<Longrightarrow> digits_val s = n \<Longrightarrow> fmt_0d w n = s"
  using fmt_0d_digits_val by blast

lemma daysInMonth_le: "daysInMonth y m \<le> 31"
  by (simp add: daysInMonth_def)

lemma daysInMonth_pos: "1 \<le> m \<Longrightarrow> m \<le> 12 \<Longrightarrow> 28 \<le> daysInMonth y m"
proof -
  assume "1 \<le> m" "m \<le> 12"
  then have "m \<in> {1, 3, 5, 7, 8, 10, 12} \<union> {4, 6, 9, 11} \<union> {2}" by simp presburger
  then show ?thesis by (auto simp: daysInMonth_def)
qed

section \<open>Valid values\<close>

definition valid_date :: "date \<Rightarrow> bool" where
  "valid_date d \<longleftrightarrow> uint (Year d) \<le> 9999 \<and> 1 \<le> uint (Month d) \<and> uint (Month d) \<le> 12 \<and>
     1 \<le> uint (Day d) \<and> uint (Day d) \<le> daysInMonth (uint (Year d)) (uint (Month d))"

definition valid_time :: "gtime \<Rightarrow> bool" where
  "valid_time t \<longleftrightarrow> uint (Hour t) \<le> 23 \<and> uint (Minute t) \<le> 59 \<and> uint (Second t) \<le> 59"

lemma check_date_valid:
  "valid_date d \<Longrightarrow> check_date (uint (Year d)) (uint (Month d)) (uint (Day d)) = Ok d"
  by (cases d) (auto simp: valid_date_def check_date_def)

lemma check_time_valid:
  "valid_time t \<Longrightarrow> check_time (uint (Hour t)) (uint (Minute t)) (uint (Second t)) = Ok t"
  by (cases t) (auto simp: valid_time_def check_time_def)

lemma unat_lt_of_uint: "uint (w :: 'a::len word) < int n \<Longrightarrow> unat w < n"
  by (simp only: uint_nat of_nat_less_iff)

lemma valid_date_bounds:
  assumes "valid_date d"
  shows "unat (Year d) < 10000" "unat (Month d) < 100" "unat (Day d) < 100"
proof -
  have "uint (Day d) \<le> 31"
    using assms daysInMonth_le [of "uint (Year d)" "uint (Month d)"]
    unfolding valid_date_def by linarith
  with assms show "unat (Year d) < 10000" "unat (Month d) < 100" "unat (Day d) < 100"
    unfolding valid_date_def by (auto intro: unat_lt_of_uint)
qed

lemma valid_time_bounds:
  assumes "valid_time t"
  shows "unat (Hour t) < 100" "unat (Minute t) < 100" "unat (Second t) < 100"
  using assms unfolding valid_time_def by (auto intro: unat_lt_of_uint)

lemma eight_digits:
  assumes "length s = 8" "list_all is_digit s"
  shows "length (take 4 s) = 4" "list_all is_digit (take 4 s)"
    "length (take 2 (drop 4 s)) = 2" "list_all is_digit (take 2 (drop 4 s))"
    "length (take 2 (drop 6 s)) = 2" "list_all is_digit (take 2 (drop 6 s))"
    "take 4 s @ take 2 (drop 4 s) @ take 2 (drop 6 s) = s"
proof -
  show "take 4 s @ take 2 (drop 4 s) @ take 2 (drop 6 s) = s"
    using assms(1) append_take_drop_id [of 4 s] append_take_drop_id [of 2 "drop 4 s"] by simp
qed (use assms in \<open>auto simp: list_all_iff dest: in_set_takeD in_set_dropD\<close>)

lemma six_digits:
  assumes "length s = 6" "list_all is_digit s"
  shows "length (take 2 s) = 2" "list_all is_digit (take 2 s)"
    "length (take 2 (drop 2 s)) = 2" "list_all is_digit (take 2 (drop 2 s))"
    "length (take 2 (drop 4 s)) = 2" "list_all is_digit (take 2 (drop 4 s))"
    "take 2 s @ take 2 (drop 2 s) @ take 2 (drop 4 s) = s"
proof -
  show "take 2 s @ take 2 (drop 2 s) @ take 2 (drop 4 s) = s"
    using assms(1) append_take_drop_id [of 2 s] append_take_drop_id [of 2 "drop 2 s"] by simp
qed (use assms in \<open>auto simp: list_all_iff dest: in_set_takeD in_set_dropD\<close>)

lemma digits_nonempty: "length s = 2 \<or> length s = 4 \<Longrightarrow> s \<noteq> []"
  by auto

lemma ParseDate_digits:
  assumes "length s = 8" "list_all is_digit s" "s \<noteq> ''00000000''"
  shows "ParseDate s opts = check_date (int (digits_val (take 4 s)))
    (int (digits_val (take 2 (drop 4 s)))) (int (digits_val (take 2 (drop 6 s))))"
proof -
  note e = eight_digits [OF assms(1,2)]
  have "take 4 s \<noteq> []" "take 2 (drop 4 s) \<noteq> []" "take 2 (drop 6 s) \<noteq> []"
    using e(1,3,5) digits_nonempty by blast+
  with e(2,4,6) assms show ?thesis by (simp add: ParseDate_def)
qed

lemma ParseTime_digits:
  assumes "length s = 6" "list_all is_digit s" "s \<noteq> ''000000''"
  shows "ParseTime s opts = check_time (int (digits_val (take 2 s)))
    (int (digits_val (take 2 (drop 2 s)))) (int (digits_val (take 2 (drop 4 s))))"
proof -
  note e = six_digits [OF assms(1,2)]
  have "take 2 s \<noteq> []" "take 2 (drop 2 s) \<noteq> []" "take 2 (drop 4 s) \<noteq> []"
    using e(1,3,5) digits_nonempty by blast+
  with e(2,4,6) assms show ?thesis by (simp add: ParseTime_def)
qed

lemma FormatDate_length_digits:
  "valid_date d \<Longrightarrow> length (FormatDate d) = 8 \<and> list_all is_digit (FormatDate d)"
  using valid_date_bounds [of d] by (simp add: FormatDate_def length_fmt_2 length_fmt_4)

lemma FormatTime_length_digits:
  "valid_time t \<Longrightarrow> length (FormatTime t) = 6 \<and> list_all is_digit (FormatTime t)"
  using valid_time_bounds [of t] by (simp add: FormatTime_def length_fmt_2)

lemma FormatDate_fields:
  assumes "valid_date d"
  shows "take 4 (FormatDate d) = fmt_0d 4 (unat (Year d))"
    "take 2 (drop 4 (FormatDate d)) = fmt_0d 2 (unat (Month d))"
    "take 2 (drop 6 (FormatDate d)) = fmt_0d 2 (unat (Day d))"
  using valid_date_bounds [OF assms] by (simp_all add: FormatDate_def length_fmt_2 length_fmt_4)

lemma FormatTime_fields:
  assumes "valid_time t"
  shows "take 2 (FormatTime t) = fmt_0d 2 (unat (Hour t))"
    "take 2 (drop 2 (FormatTime t)) = fmt_0d 2 (unat (Minute t))"
    "take 2 (drop 4 (FormatTime t)) = fmt_0d 2 (unat (Second t))"
  using valid_time_bounds [OF assms] by (simp_all add: FormatTime_def length_fmt_2)

lemma valid_date_not_initial: "valid_date d \<Longrightarrow> FormatDate d \<noteq> ''00000000''"
proof
  assume v: "valid_date d" and e: "FormatDate d = ''00000000''"
  have "fmt_0d 2 (unat (Month d)) = ''00''" using FormatDate_fields(2) [OF v] e by simp
  then have "unat (Month d) = 0" by (rule fmt_2_zero)
  with v show False by (simp add: valid_date_def unat_eq_0)
qed

lemma FormatTime_initial: "valid_time t \<Longrightarrow> FormatTime t = ''000000'' \<Longrightarrow> t = zero_time"
proof -
  assume v: "valid_time t" and e: "FormatTime t = ''000000''"
  have "fmt_0d 2 (unat (Hour t)) = ''00''" "fmt_0d 2 (unat (Minute t)) = ''00''"
    "fmt_0d 2 (unat (Second t)) = ''00''"
    unfolding FormatTime_fields [OF v, symmetric] e by simp_all
  then have "unat (Hour t) = 0" "unat (Minute t) = 0" "unat (Second t) = 0"
    by (auto dest: fmt_2_zero)
  then show ?thesis by (cases t) (simp add: zero_time_def unat_eq_0)
qed

section \<open>UTCLONG\<close>

record civil =
  cYear :: nat
  cMonth :: nat
  cDay :: nat
  cHour :: nat
  cMin :: nat
  cSec :: nat
  cNsec :: nat

text \<open>The zero \<open>time.Time\<close>, the only instant \<open>IsZero\<close> accepts.\<close>

definition zero_instant :: civil where
  "zero_instant = \<lparr>cYear = 1, cMonth = 1, cDay = 1, cHour = 0, cMin = 0, cSec = 0, cNsec = 0\<rparr>"

definition utclong_IsZero :: "civil \<Rightarrow> bool" where
  "utclong_IsZero u \<longleftrightarrow> u = zero_instant"

definition utclong_String :: "civil \<Rightarrow> go_string" where
  "utclong_String u =
     (if utclong_IsZero u then ''0000-00-00T00:00:00,0000000''
      else fmt_0d 4 (cYear u) @ ''-'' @ fmt_0d 2 (cMonth u) @ ''-'' @ fmt_0d 2 (cDay u) @ ''T'' @
        fmt_0d 2 (cHour u) @ '':'' @ fmt_0d 2 (cMin u) @ '':'' @ fmt_0d 2 (cSec u) @ '','' @
        fmt_0d 7 (cNsec u div 100))"

text \<open>The pieces of \<open>time.Parse\<close> for the layout \<open>2006-01-02T15:04:05.9999999\<close>: \<open>15\<close> takes
  one or two digits, the other fields exactly two, the year four; the fraction may be absent, and
  digits beyond the ninth are dropped.\<close>

definition tp_year :: "go_string \<Rightarrow> (nat \<times> go_string) option" where
  "tp_year v = (if length v \<ge> 4 \<and> list_all is_digit (take 4 v)
                then Some (digits_val (take 4 v), drop 4 v) else None)"

fun tp_getnum :: "bool \<Rightarrow> go_string \<Rightarrow> (nat \<times> go_string) option" where
  "tp_getnum fixed [] = None"
| "tp_getnum fixed [c] = (if is_digit c \<and> \<not> fixed then Some (digit_val c, []) else None)"
| "tp_getnum fixed (c # d # v) =
     (if \<not> is_digit c then None
      else if is_digit d then Some (10 * digit_val c + digit_val d, v)
      else if fixed then None else Some (digit_val c, d # v))"

fun tp_skip :: "char \<Rightarrow> go_string \<Rightarrow> go_string option" where
  "tp_skip c [] = None"
| "tp_skip c (d # v) = (if d = c then Some v else None)"

definition tp_nanos :: "go_string \<Rightarrow> nat" where
  "tp_nanos ds = (let e = take 9 ds in digits_val e * 10 ^ (9 - length e))"

definition tp_frac :: "go_string \<Rightarrow> nat \<times> go_string" where
  "tp_frac v = (if length v \<ge> 2 \<and> (v ! 0 = CHR ''.'' \<or> v ! 0 = CHR '','') \<and> is_digit (v ! 1)
     then (tp_nanos (takeWhile is_digit (tl v)), dropWhile is_digit (tl v)) else (0, v))"

definition tp_date :: "go_string \<Rightarrow> ((nat \<times> nat \<times> nat) \<times> go_string) option" where
  "tp_date v =
     Option.bind (tp_year v) (\<lambda>(y, v). Option.bind (tp_skip (CHR ''-'') v) (\<lambda>v.
     Option.bind (tp_getnum True v) (\<lambda>(m, v). if m < 1 \<or> m > 12 then None else
     Option.bind (tp_skip (CHR ''-'') v) (\<lambda>v.
     Option.bind (tp_getnum True v) (\<lambda>(d, v). Some ((y, m, d), v))))))"

definition tp_clock :: "go_string \<Rightarrow> ((nat \<times> nat \<times> nat) \<times> go_string) option" where
  "tp_clock v =
     Option.bind (tp_getnum False v) (\<lambda>(h, v). if h \<ge> 24 then None else
     Option.bind (tp_skip (CHR '':'') v) (\<lambda>v.
     Option.bind (tp_getnum True v) (\<lambda>(mi, v). if mi \<ge> 60 then None else
     Option.bind (tp_skip (CHR '':'') v) (\<lambda>v.
     Option.bind (tp_getnum True v) (\<lambda>(s, v). if s \<ge> 60 then None else Some ((h, mi, s), v))))))"

definition time_Parse :: "go_string \<Rightarrow> civil option" where
  "time_Parse v =
     Option.bind (tp_date v) (\<lambda>((y, m, d), v). Option.bind (tp_skip (CHR ''T'') v) (\<lambda>v.
     Option.bind (tp_clock v) (\<lambda>((h, mi, s), v).
       let (ns, v) = tp_frac v
       in if v \<noteq> [] then None
          else if d < 1 \<or> int d > daysInMonth (int y) (int m) then None
          else Some \<lparr>cYear = y, cMonth = m, cDay = d, cHour = h, cMin = mi, cSec = s, cNsec = ns\<rparr>)))"

definition ParseUTCLong :: "go_string \<Rightarrow> parse_options \<Rightarrow> (time_err, civil) result" where
  "ParseUTCLong s0 opts =
     (let s = trim_right_bytes {CHR '' '', CHR 0x00} s0
      in if Strict opts \<and> length s \<noteq> 27 then Err (ErrLength (length s))
         else if length s < 19 then Err ErrTooShort
         else let t = (case index_byte s (CHR '','') of
                         Some i \<Rightarrow> take i s @ ''.'' @ drop (i + 1) s | None \<Rightarrow> s)
         in if t = ''0000-00-00T00:00:00.0000000''
            then (if AllowZero opts then Ok zero_instant else Err ErrZeroTime)
            else (case time_Parse t of None \<Rightarrow> Err ErrLayout | Some c \<Rightarrow> Ok c))"

definition valid_instant :: "civil \<Rightarrow> bool" where
  "valid_instant c \<longleftrightarrow> cYear c \<le> 9999 \<and> 1 \<le> cMonth c \<and> cMonth c \<le> 12 \<and> 1 \<le> cDay c \<and>
     int (cDay c) \<le> daysInMonth (int (cYear c)) (int (cMonth c)) \<and>
     cHour c \<le> 23 \<and> cMin c \<le> 59 \<and> cSec c \<le> 59 \<and> cNsec c < 1000000000 \<and> cNsec c mod 100 = 0"

lemma fmt_2_eq: "n < 100 \<Longrightarrow> fmt_0d 2 n = [digit_char (n div 10), digit_char (n mod 10)]"
proof -
  assume n: "n < 100"
  have "digits_val [digit_char (n div 10), digit_char (n mod 10)] = n"
    using n by (simp add: digits_val_def less_mult_imp_div_less)
  with n show ?thesis
    by (intro digits_val_inj) (simp_all add: length_fmt_2 less_mult_imp_div_less)
qed

lemma tp_getnum_fmt: "n < 100 \<Longrightarrow> tp_getnum f (fmt_0d 2 n @ v) = Some (n, v)"
  by (simp add: fmt_2_eq less_mult_imp_div_less)

lemma tp_year_fmt: "n < 10000 \<Longrightarrow> tp_year (fmt_0d 4 n @ v) = Some (n, v)"
  by (simp add: tp_year_def length_fmt_4)

lemma tp_frac_fmt:
  assumes "n < 10000000"
  shows "tp_frac (CHR ''.'' # fmt_0d 7 n) = (n * 100, [])"
proof -
  have len: "length (fmt_0d 7 n) = 7" by (rule length_fmt_0d) (use assms in simp_all)
  have d: "\<forall>x \<in> set (fmt_0d 7 n). is_digit x" using fmt_0d_digits [of 7 n] by (simp add: list_all_iff)
  have tw: "takeWhile is_digit (fmt_0d 7 n) = fmt_0d 7 n" "dropWhile is_digit (fmt_0d 7 n) = []"
    using d by (simp_all add: takeWhile_eq_all_conv dropWhile_eq_Nil_conv)
  have "is_digit (fmt_0d 7 n ! 0)" using d len by (metis nth_mem zero_less_numeral)
  then show ?thesis by (simp add: tp_frac_def tp_nanos_def len tw)
qed

lemma valid_instant_bounds:
  assumes "valid_instant c"
  shows "cYear c < 10000" "cMonth c < 100" "cDay c < 100" "cHour c < 100" "cMin c < 100"
    "cSec c < 100" "cNsec c div 100 < 10000000" "cNsec c div 100 * 100 = cNsec c"
proof -
  have "int (cDay c) \<le> 31"
    using assms daysInMonth_le [of "int (cYear c)" "int (cMonth c)"]
    unfolding valid_instant_def by linarith
  then show "cYear c < 10000" "cMonth c < 100" "cDay c < 100" "cHour c < 100" "cMin c < 100"
    "cSec c < 100" "cNsec c div 100 < 10000000" "cNsec c div 100 * 100 = cNsec c"
    using assms by (auto simp: valid_instant_def)
qed

definition instant_dotted :: "civil \<Rightarrow> go_string" where
  "instant_dotted u =
     fmt_0d 4 (cYear u) @ ''-'' @ fmt_0d 2 (cMonth u) @ ''-'' @ fmt_0d 2 (cDay u) @ ''T'' @
     fmt_0d 2 (cHour u) @ '':'' @ fmt_0d 2 (cMin u) @ '':'' @ fmt_0d 2 (cSec u) @ ''.'' @
     fmt_0d 7 (cNsec u div 100)"

lemma time_Parse_dotted:
  assumes "valid_instant c"
  shows "time_Parse (instant_dotted c) = Some c"
proof -
  note b = valid_instant_bounds [OF assms]
  have "tp_date (instant_dotted c) = Some ((cYear c, cMonth c, cDay c),
      ''T'' @ fmt_0d 2 (cHour c) @ '':'' @ fmt_0d 2 (cMin c) @ '':'' @ fmt_0d 2 (cSec c) @ ''.'' @
      fmt_0d 7 (cNsec c div 100))"
    using b assms by (simp add: tp_date_def instant_dotted_def tp_year_fmt tp_getnum_fmt valid_instant_def)
  moreover have "tp_clock (fmt_0d 2 (cHour c) @ '':'' @ fmt_0d 2 (cMin c) @ '':'' @
      fmt_0d 2 (cSec c) @ v) = Some ((cHour c, cMin c, cSec c), v)" for v
    using b assms by (simp add: tp_clock_def tp_getnum_fmt valid_instant_def)
  ultimately show ?thesis
    using b assms by (simp add: time_Parse_def tp_frac_fmt valid_instant_def)
qed

lemma not_digit_punct [simp]:
  "\<not> is_digit (CHR '','')" "\<not> is_digit (CHR '' '')" "\<not> is_digit (CHR 0x00)"
  by (simp_all add: is_digit_def)

lemma notin_fmt_0d [simp]: "\<not> is_digit c \<Longrightarrow> c \<notin> set (fmt_0d w n)"
  using fmt_0d_digits [of w n] by (auto simp: list_all_iff)

lemma last_fmt_0d: "is_digit (last (fmt_0d w n))"
  using fmt_0d_digits [of w n] last_in_set [OF fmt_0d_nonempty [of w n]] by (simp add: list_all_iff)

lemma utclong_String_split:
  assumes "\<not> utclong_IsZero c"
  obtains p where "utclong_String c = p @ CHR '','' # fmt_0d 7 (cNsec c div 100)"
    and "instant_dotted c = p @ CHR ''.'' # fmt_0d 7 (cNsec c div 100)"
    and "CHR '','' \<notin> set p"
    and "p = fmt_0d 4 (cYear c) @ ''-'' @ fmt_0d 2 (cMonth c) @ ''-'' @ fmt_0d 2 (cDay c) @ ''T'' @
         fmt_0d 2 (cHour c) @ '':'' @ fmt_0d 2 (cMin c) @ '':'' @ fmt_0d 2 (cSec c)"
  by (rule that) (use assms in \<open>simp_all add: utclong_String_def instant_dotted_def\<close>)

lemma instant_dotted_not_initial:
  assumes "valid_instant c"
  shows "instant_dotted c \<noteq> ''0000-00-00T00:00:00.0000000''"
proof
  assume e: "instant_dotted c = ''0000-00-00T00:00:00.0000000''"
  have "take 2 (drop 5 (instant_dotted c)) = fmt_0d 2 (cMonth c)"
    using valid_instant_bounds [OF assms] by (simp add: instant_dotted_def length_fmt_4 length_fmt_2)
  then have "fmt_0d 2 (cMonth c) = ''00''" unfolding e by simp
  then have "cMonth c = 0" by (rule fmt_2_zero)
  with assms show False by (simp add: valid_instant_def)
qed

lemma uint_word_of_small:
  "n < 65536 \<Longrightarrow> uint (of_nat n :: 16 word) = int n"
  "n < 256 \<Longrightarrow> uint (of_nat n :: 8 word) = int n"
  by (simp_all add: unsigned_of_nat take_bit_nat_eq_self_iff)

lemma unat_word_of_small:
  "n < 65536 \<Longrightarrow> unat (of_nat n :: 16 word) = n"
  "n < 256 \<Longrightarrow> unat (of_nat n :: 8 word) = n"
  by (simp_all add: unsigned_of_nat take_bit_nat_eq_self_iff)

lemma check_date_sound:
  assumes "check_date (int y) (int m) (int d) = Ok r" and "y < 10000"
  shows "valid_date r \<and> unat (Year r) = y \<and> unat (Month r) = m \<and> unat (Day r) = d"
proof -
  have r: "r = \<lparr>Year = word_of_int (int y), Month = word_of_int (int m), Day = word_of_int (int d)\<rparr>"
    and h: "1 \<le> m" "m \<le> 12" "1 \<le> d" "int d \<le> daysInMonth (int y) (int m)"
    using assms(1) by (auto simp: check_date_def split: if_splits)
  have "int d \<le> 31" using h(4) daysInMonth_le [of "int y" "int m"] by linarith
  then have "d \<le> 31" by simp
  with h assms(2) show ?thesis unfolding r valid_date_def
    by (simp add: uint_word_of_small unat_word_of_small)
qed

lemma check_time_sound:
  assumes "check_time (int h) (int m) (int s) = Ok r"
  shows "valid_time r \<and> unat (Hour r) = h \<and> unat (Minute r) = m \<and> unat (Second r) = s"
proof -
  have r: "r = \<lparr>Hour = word_of_int (int h), Minute = word_of_int (int m), Second = word_of_int (int s)\<rparr>"
    and b: "h \<le> 23" "m \<le> 59" "s \<le> 59"
    using assms by (auto simp: check_time_def split: if_splits)
  then show ?thesis unfolding r valid_time_def
    by (simp add: uint_word_of_small unat_word_of_small)
qed

lemma signed_date_digits:
  "atoiN ''2024'' ''YYYY'' = Ok 2024" "atoiN ''+1'' ''MM'' = Ok 1" "atoiN ''+1'' ''DD'' = Ok 1"
  "atoiN ''-001'' ''YYYY'' = Ok (-1)" "atoiN ''01'' ''MM'' = Ok 1" "atoiN ''01'' ''DD'' = Ok 1"
  by code_simp+

lemma signed_time_digits:
  "atoiN ''-1'' ''HH'' = Ok (-1)" "atoiN ''+5'' ''MM'' = Ok 5" "atoiN ''+9'' ''SS'' = Ok 9"
  by code_simp+

section \<open>Properties\<close>



text \<open>On a string of six digits \<open>ParseTime\<close> succeeds with \<open>t\<close> exactly when \<open>t\<close> is a time
  of day that \<open>FormatTime\<close> prints as that string, and \<open>t\<close> is not the initial value unless
  \<open>AllowZero\<close> is set: midnight is reported as \<open>ErrZeroTime\<close> otherwise.\<close>

theorem ParseTime_iff_FormatTime:
  assumes len: "length s = 6" and dig: "list_all is_digit s"
  shows "ParseTime s opts = Ok t \<longleftrightarrow>
    valid_time t \<and> FormatTime t = s \<and> (t = zero_time \<longrightarrow> AllowZero opts)"
proof (cases "s = ''000000''")
  case True
  have "valid_time zero_time" "FormatTime zero_time = ''000000''" by code_simp+
  then show ?thesis using True FormatTime_initial [of t] by (auto simp: ParseTime_def)
next
  case False
  note e = six_digits [OF len dig]
  have z: "FormatTime zero_time = ''000000''" by code_simp
  have "check_time (int (digits_val (take 2 s))) (int (digits_val (take 2 (drop 2 s))))
      (int (digits_val (take 2 (drop 4 s)))) = Ok t \<longleftrightarrow> valid_time t \<and> FormatTime t = s" (is "?l = _")
  proof
    assume ?l
    note c = check_time_sound [OF this]
    then show "valid_time t \<and> FormatTime t = s"
      using fmt_2_of_digits [OF e(1,2)] fmt_2_of_digits [OF e(3,4)] fmt_2_of_digits [OF e(5,6)] e(7)
      by (simp add: FormatTime_def)
  next
    assume v: "valid_time t \<and> FormatTime t = s"
    then show ?l
      using FormatTime_fields [of t] check_time_valid [of t] by (simp add: v [THEN conjunct2, symmetric])
  qed
  then show ?thesis using False z by (auto simp: ParseTime_digits [OF len dig])
qed

lemma ParseTime_iff_FormatTime_witness:
  "ParseTime ''235959'' \<lparr>AllowZero = False, Strict = True\<rparr> = Ok \<lparr>Hour = 23, Minute = 59, Second = 59\<rparr>"
proof -
  have len: "length ''235959'' = 6" by simp
  have dig: "list_all is_digit ''235959''" by code_simp
  show ?thesis unfolding ParseTime_iff_FormatTime [OF len dig] by code_simp
qed

text \<open>C9: \<open>ParseUTCLong\<close> reads back every instant \<open>String\<close> prints with a resolution of 100 ns, years
  0 to 9999, in strict and tolerant mode; the zero instant is printed as the initial value.\<close>

theorem ParseUTCLong_String:
  assumes v: "valid_instant c" and z: "\<not> utclong_IsZero c"
  shows "ParseUTCLong (utclong_String c) opts = Ok c"
proof -
  note b = valid_instant_bounds [OF v]
  obtain p where p: "utclong_String c = p @ CHR '','' # fmt_0d 7 (cNsec c div 100)"
    "instant_dotted c = p @ CHR ''.'' # fmt_0d 7 (cNsec c div 100)" "CHR '','' \<notin> set p"
    and pe: "p = fmt_0d 4 (cYear c) @ ''-'' @ fmt_0d 2 (cMonth c) @ ''-'' @ fmt_0d 2 (cDay c) @ ''T'' @
         fmt_0d 2 (cHour c) @ '':'' @ fmt_0d 2 (cMin c) @ '':'' @ fmt_0d 2 (cSec c)"
    by (rule utclong_String_split [OF z])
  have "length (fmt_0d 7 (cNsec c div 100)) = 7" by (rule length_fmt_0d) (use b in simp_all)
  then have len: "length (utclong_String c) = 27"
    unfolding p(1) pe using b by (simp add: length_fmt_4 length_fmt_2)
  have "last (utclong_String c) \<notin> {CHR '' '', CHR 0x00}"
    using last_fmt_0d [of 7 "cNsec c div 100"] by (auto simp: p(1) last_append)
  then have trim: "trim_right_bytes {CHR '' '', CHR 0x00} (utclong_String c) = utclong_String c"
    by (simp add: trim_right_bytes_id)
  have idx: "index_byte (utclong_String c) (CHR '','') = Some (length p)"
    unfolding p(1) by (rule index_byte_append [OF p(3)])
  have dot: "take (length p) (utclong_String c) @ ''.'' @ drop (length p + 1) (utclong_String c)
      = instant_dotted c"
    by (simp add: p(1,2))
  show ?thesis
    unfolding ParseUTCLong_def trim Let_def idx option.case dot
    using len time_Parse_dotted [OF v] instant_dotted_not_initial [OF v] by simp
qed

lemma ParseUTCLong_String_witness:
  "utclong_String \<lparr>cYear = 2024, cMonth = 2, cDay = 29, cHour = 23, cMin = 59, cSec = 58, cNsec = 1234500\<rparr>
     = ''2024-02-29T23:59:58,0012345'' \<and>
   ParseUTCLong ''2024-02-29T23:59:58,0012345'' \<lparr>AllowZero = False, Strict = True\<rparr> =
   Ok \<lparr>cYear = 2024, cMonth = 2, cDay = 29, cHour = 23, cMin = 59, cSec = 58, cNsec = 1234500\<rparr>"
    (is "utclong_String ?c = ?s \<and> _")
proof -
  have v: "valid_instant ?c" by (simp add: valid_instant_def daysInMonth_def isLeapYear_def)
  have z: "\<not> utclong_IsZero ?c" by (simp add: utclong_IsZero_def zero_instant_def)
  have "fmt_0d 4 2024 = ''2024''" "fmt_0d 2 2 = ''02''" "fmt_0d 2 29 = ''29''" "fmt_0d 2 23 = ''23''"
    "fmt_0d 2 59 = ''59''" "fmt_0d 2 58 = ''58''" "fmt_0d 7 12345 = ''0012345''"
    by (rule fmt_0d_literal; simp add: is_digit_def digits_val_def digit_val_def)+
  with z have s: "utclong_String ?c = ?s" by (simp add: utclong_String_def)
  show ?thesis using ParseUTCLong_String [OF v z] unfolding s by simp
qed

text \<open>\<open>strconv.Atoi\<close> takes a sign, so strict mode does not imply eight digits: a signed day is
  accepted, and a negative year or hour passes the range checks and wraps in the unsigned field.\<close>

theorem signed_fields_accepted:
  "ParseDate ''2024+1+1'' \<lparr>AllowZero = False, Strict = True\<rparr> = Ok \<lparr>Year = 2024, Month = 1, Day = 1\<rparr> \<and>
   ParseDate ''-0010101'' \<lparr>AllowZero = False, Strict = True\<rparr> = Ok \<lparr>Year = 65535, Month = 1, Day = 1\<rparr> \<and>
   ParseTime ''-1+5+9'' \<lparr>AllowZero = False, Strict = True\<rparr> = Ok \<lparr>Hour = 255, Minute = 5, Second = 9\<rparr>"
  using signed_date_digits signed_time_digits
  by (simp add: ParseDate_def ParseTime_def check_date_def check_time_def daysInMonth_def)

end
