(* ===== verification/Bcd.thy ===== *)
theory Bcd
  imports Backend_Types Complex_Main
begin

text \<open>
  \<open>internal/bcd\<close>: the decimal literals that cross the API as strings. \<open>bcd_Parse\<close> is the
  normaliser with its precision and scale limits, \<open>bcd_Format\<close> the printer of rationals
  (\<open>big.Rat\<close> as numerator and positive denominator), \<open>Negate\<close> and \<open>IsZero\<close> the
  helpers. The lemmas describe the canonical form, show that a literal keeps its value and that the
  canonical form of a value is unique.
\<close>

section \<open>Helpers\<close>

datatype bcd_err =
    EmptyString
  | LoneSign
  | NonDigitInteger go_string
  | NonDigitFraction go_string
  | NoDigits
  | ScaleExceeded nat int
  | PrecisionExceeded nat int

definition splitOnce :: "go_string \<Rightarrow> char \<Rightarrow> go_string \<times> go_string \<times> bool" where
  "splitOnce s sep =
     (case index_byte s sep of None \<Rightarrow> (s, [], False)
      | Some i \<Rightarrow> (take i s, drop (i + 1) s, True))"

definition allDigits :: "go_string \<Rightarrow> bool" where
  "allDigits s = list_all is_digit s"

definition stripLeadingZeros :: "go_string \<Rightarrow> go_string" where
  "stripLeadingZeros s = dropWhile (\<lambda>c. c = CHR ''0'') s"

definition stripTrailingZeros :: "go_string \<Rightarrow> go_string" where
  "stripTrailingZeros s = rev (dropWhile (\<lambda>c. c = CHR ''0'') (rev s))"

section \<open>Parse\<close>

definition comma_to_dot :: "go_string \<Rightarrow> go_string" where
  "comma_to_dot s =
     (case index_byte s (CHR '','') of
        Some i \<Rightarrow> if \<not> contains s ''.'' then take i s @ ''.'' @ drop (i + 1) s else s
      | None \<Rightarrow> s)"

text \<open>The limits of the destination field and the output, on the normalised parts.\<close>

definition bcd_emit :: "bool \<Rightarrow> go_string \<Rightarrow> go_string \<Rightarrow> int \<Rightarrow> int \<Rightarrow> (bcd_err, go_string) result" where
  "bcd_emit neg intPart fracPart precision scale =
     (if scale \<ge> 0 \<and> int (length fracPart) > scale then Err (ScaleExceeded (length fracPart) scale)
      else let total = (if intPart = ''0'' \<and> length fracPart > 0 then length fracPart
                        else length intPart + length fracPart)
      in if precision > 0 \<and> int total > precision then Err (PrecisionExceeded total precision)
      else let sign = (if intPart = ''0'' \<and> fracPart = [] then [] else if neg then ''-'' else [])
      in if fracPart = [] then Ok (sign @ intPart) else Ok (sign @ intPart @ ''.'' @ fracPart))"

definition bcd_Parse :: "go_string \<Rightarrow> int \<Rightarrow> int \<Rightarrow> (bcd_err, go_string) result" where
  "bcd_Parse s0 precision scale =
     (let s = comma_to_dot (trim_space s0)
      in if s = [] then Err EmptyString
      else let neg = (hd s = CHR ''-'');
               t = (if hd s = CHR ''+'' \<or> hd s = CHR ''-'' then tl s else s)
      in if t = [] then Err LoneSign
      else let (intPart, fracPart, hasFrac) = splitOnce t (CHR ''.'')
      in if \<not> allDigits intPart then Err (NonDigitInteger intPart)
      else if hasFrac \<and> \<not> allDigits fracPart then Err (NonDigitFraction fracPart)
      else if intPart = [] \<and> fracPart = [] then Err NoDigits
      else let i1 = (if intPart = [] then ''0'' else intPart);
               i2 = stripLeadingZeros i1;
               i3 = (if i2 = [] then ''0'' else i2);
               f1 = stripTrailingZeros fracPart
      in bcd_emit neg i3 f1 precision scale)"

section \<open>Negate, IsZero, Format\<close>

definition bcd_Negate :: "go_string \<Rightarrow> go_string" where
  "bcd_Negate s0 =
     (let s = trim_space s0
      in if s = [] \<or> s = ''0'' \<or> s = ''0.0'' then s
         else if hd s = CHR ''-'' then tl s
         else if hd s = CHR ''+'' then ''-'' @ tl s
         else ''-'' @ s)"

definition bcd_IsZero :: "go_string \<Rightarrow> bool" where
  "bcd_IsZero s0 =
     (let s = trim_space s0
      in if s = [] then False
         else let t = (if hd s = CHR ''+'' \<or> hd s = CHR ''-'' then tl s else s)
              in list_all (\<lambda>c. c = CHR ''0'' \<or> c = CHR ''.'') t)"

text \<open>\<open>big.Rat.FloatString\<close>: the quotient, then the scaled remainder rounded up from one half.\<close>

definition float_string :: "int \<Rightarrow> nat \<Rightarrow> nat \<Rightarrow> go_string" where
  "float_string a b prec =
     (let sign = (if a < 0 then ''-'' else []); n = nat (abs a);
          q = n div b; p = 10 ^ prec; r = n mod b * p; f = r div b;
          f1 = (if b \<le> 2 * (r mod b) then f + 1 else f);
          (q2, f2) = (if f1 \<ge> p then (q + 1, f1 - p) else (q, f1))
      in if prec = 0 then sign @ show_nat q2 else sign @ show_nat q2 @ ''.'' @ fmt_0d prec f2)"

definition bcd_Format :: "(int \<times> nat) option \<Rightarrow> int \<Rightarrow> go_string" where
  "bcd_Format r scale =
     (case r of None \<Rightarrow> [] | Some (a, b) \<Rightarrow> float_string a b (nat (if scale < 0 then 0 else scale)))"

section \<open>The accepted literals\<close>

definition is_sign :: "go_string \<Rightarrow> bool" where
  "is_sign s \<longleftrightarrow> s \<in> {[], ''+'', ''-''}"

inductive bcd_literal :: "go_string \<Rightarrow> bool \<Rightarrow> go_string \<Rightarrow> go_string \<Rightarrow> bool" where
  integer: "is_sign sg \<Longrightarrow> allDigits ip \<Longrightarrow> ip \<noteq> [] \<Longrightarrow> bcd_literal (sg @ ip) (sg = ''-'') ip []"
| decimal: "is_sign sg \<Longrightarrow> allDigits ip \<Longrightarrow> allDigits fp \<Longrightarrow> ip \<noteq> [] \<or> fp \<noteq> [] \<Longrightarrow>
    sep = CHR ''.'' \<or> sep = CHR '','' \<Longrightarrow> bcd_literal (sg @ ip @ sep # fp) (sg = ''-'') ip fp"

inductive_cases bcd_literalE: "bcd_literal s neg ip fp"

definition norm_int :: "go_string \<Rightarrow> go_string" where
  "norm_int ip = (let i = stripLeadingZeros (if ip = [] then ''0'' else ip)
                  in if i = [] then ''0'' else i)"

definition lit_value :: "bool \<Rightarrow> go_string \<Rightarrow> go_string \<Rightarrow> rat" where
  "lit_value neg ip fp =
     (if neg then -1 else 1) * (of_nat (digits_val ip) + of_nat (digits_val fp) / 10 ^ length fp)"

definition render :: "bool \<Rightarrow> go_string \<Rightarrow> go_string \<Rightarrow> go_string" where
  "render neg ip fp = (if neg then ''-'' else []) @ ip @ (if fp = [] then [] else CHR ''.'' # fp)"

definition canonical :: "bool \<Rightarrow> go_string \<Rightarrow> go_string \<Rightarrow> bool" where
  "canonical neg ip fp \<longleftrightarrow> allDigits ip \<and> ip \<noteq> [] \<and> (ip = ''0'' \<or> hd ip \<noteq> CHR ''0'') \<and>
     allDigits fp \<and> (fp = [] \<or> last fp \<noteq> CHR ''0'') \<and> (neg \<longrightarrow> \<not> (ip = ''0'' \<and> fp = []))"

lemma allDigits_append [simp]: "allDigits (s @ t) \<longleftrightarrow> allDigits s \<and> allDigits t"
  by (simp add: allDigits_def)

lemma allDigits_notin: "allDigits s \<Longrightarrow> \<not> is_digit c \<Longrightarrow> c \<notin> set s"
  by (auto simp: allDigits_def list_all_iff)

lemma punct_not_digit [simp]:
  "\<not> is_digit (CHR ''.'')" "\<not> is_digit (CHR '','')" "\<not> is_digit (CHR ''+'')" "\<not> is_digit (CHR ''-'')"
  by (simp_all add: is_digit_def)

lemma index_byte_notin [simp]: "b \<notin> set s \<Longrightarrow> index_byte s b = None"
  by simp

lemma contains_dot: "contains s ''.'' \<longleftrightarrow> CHR ''.'' \<in> set s"
  unfolding contains_iff by (auto simp: in_set_conv_decomp)

lemma sign_ip_notin:
  "is_sign sg \<Longrightarrow> allDigits ip \<Longrightarrow> c = CHR ''.'' \<or> c = CHR '','' \<Longrightarrow> c \<notin> set (sg @ ip)"
  using allDigits_notin [of ip c] by (auto simp: is_sign_def)

text \<open>A literal with the comma replaced is the same literal with a point.\<close>

lemma comma_to_dot_literal:
  assumes "is_sign sg" "allDigits ip" "allDigits fp" "sep = CHR ''.'' \<or> sep = CHR '',''"
  shows "comma_to_dot (sg @ ip @ sep # fp) = sg @ ip @ CHR ''.'' # fp"
proof (cases "sep = CHR '',''")
  case True
  have n: "CHR '','' \<notin> set (sg @ ip)" "CHR ''.'' \<notin> set (sg @ ip)" "CHR ''.'' \<notin> set fp"
    using assms sign_ip_notin allDigits_notin by auto
  have "index_byte ((sg @ ip) @ CHR '','' # fp) (CHR '','') = Some (length (sg @ ip))"
    by (rule index_byte_append [OF n(1)])
  with True n show ?thesis by (simp add: comma_to_dot_def contains_dot)
next
  case False
  with assms(4) have "contains (sg @ ip @ sep # fp) ''.''" by (simp add: contains_dot)
  then show ?thesis using False assms(4) by (auto simp: comma_to_dot_def split: option.split)
qed

lemma comma_to_dot_integer:
  "is_sign sg \<Longrightarrow> allDigits ip \<Longrightarrow> comma_to_dot (sg @ ip) = sg @ ip"
proof -
  assume "is_sign sg" "allDigits ip"
  then have "CHR '','' \<notin> set (sg @ ip)"
    using sign_ip_notin [of sg ip "CHR '',''"] by blast
  then show ?thesis by (simp add: comma_to_dot_def)
qed

lemma comma_to_dot_cases:
  obtains "comma_to_dot s = s"
  | u v where "s = u @ CHR '','' # v" "comma_to_dot s = u @ CHR ''.'' # v" "CHR ''.'' \<notin> set s"
proof (cases "index_byte s (CHR '','')")
  case None
  then have "CHR '','' \<notin> set s" by simp
  then show ?thesis using that(1) by (simp add: comma_to_dot_def)
next
  case (Some i)
  show ?thesis
  proof (cases "contains s ''.''")
    case True
    then show ?thesis using that(1) Some by (simp add: comma_to_dot_def)
  next
    case False
    have "s = take i s @ CHR '','' # drop (Suc i) s" by (rule index_byte_split [OF Some])
    moreover have "comma_to_dot s = take i s @ CHR ''.'' # drop (Suc i) s"
      using Some False by (simp add: comma_to_dot_def)
    moreover have "CHR ''.'' \<notin> set s" using False by (simp add: contains_dot)
    ultimately show ?thesis by (rule that(2))
  qed
qed

text \<open>The body of \<open>bcd_Parse\<close> after the replacement, on a string with a point or none.\<close>

definition parse_pointed :: "go_string \<Rightarrow> int \<Rightarrow> int \<Rightarrow> (bcd_err, go_string) result" where
  "parse_pointed s precision scale =
     (if s = [] then Err EmptyString
      else let t = (if hd s = CHR ''+'' \<or> hd s = CHR ''-'' then tl s else s)
      in if t = [] then Err LoneSign
      else let (ip, fp, hasFrac) = splitOnce t (CHR ''.'')
      in if \<not> allDigits ip then Err (NonDigitInteger ip)
      else if hasFrac \<and> \<not> allDigits fp then Err (NonDigitFraction fp)
      else if ip = [] \<and> fp = [] then Err NoDigits
      else bcd_emit (hd s = CHR ''-'') (norm_int ip) (stripTrailingZeros fp) precision scale)"

lemma bcd_Parse_pointed: "bcd_Parse s p sc = parse_pointed (comma_to_dot (trim_space s)) p sc"
  by (auto simp: bcd_Parse_def parse_pointed_def norm_int_def Let_def split: prod.split)

lemma splitOnce_append: "c \<notin> set u \<Longrightarrow> splitOnce (u @ c # v) c = (u, v, True)"
  by (simp add: splitOnce_def index_byte_append)

lemma splitOnce_none: "c \<notin> set u \<Longrightarrow> splitOnce u c = (u, [], False)"
  by (simp add: splitOnce_def)

lemma splitOnce_eq:
  "splitOnce t c = (u, v, h) \<Longrightarrow> (h \<and> t = u @ c # v) \<or> (\<not> h \<and> t = u \<and> v = [])"
  using index_byte_split [of t c] by (auto simp: splitOnce_def split: option.splits)

lemma sign_split:
  "s \<noteq> [] \<Longrightarrow> \<exists>sg. is_sign sg \<and> s = sg @ (if hd s = CHR ''+'' \<or> hd s = CHR ''-'' then tl s else s)
     \<and> (hd s = CHR ''-'') = (sg = ''-'')"
  by (cases s) (auto simp: is_sign_def)

lemma signed_head:
  assumes "is_sign sg" "t \<noteq> []" "hd t \<noteq> CHR ''+''" "hd t \<noteq> CHR ''-''"
  shows "hd (sg @ t) = CHR ''-'' \<longleftrightarrow> sg = ''-''"
    "(if hd (sg @ t) = CHR ''+'' \<or> hd (sg @ t) = CHR ''-'' then tl (sg @ t) else sg @ t) = t"
  using assms by (auto simp: is_sign_def)

lemma digit_head: "allDigits ip \<Longrightarrow> ip \<noteq> [] \<Longrightarrow> hd ip \<noteq> CHR ''+'' \<and> hd ip \<noteq> CHR ''-''"
  by (cases ip) (auto simp: allDigits_def)

lemma parse_pointed_decimal:
  assumes "is_sign sg" "allDigits ip" "allDigits fp" "ip \<noteq> [] \<or> fp \<noteq> []"
  shows "parse_pointed (sg @ ip @ CHR ''.'' # fp) p sc =
    bcd_emit (sg = ''-'') (norm_int ip) (stripTrailingZeros fp) p sc"
proof -
  let ?t = "ip @ CHR ''.'' # fp"
  have h: "hd ?t \<noteq> CHR ''+''" "hd ?t \<noteq> CHR ''-''"
    using digit_head [OF assms(2)] by (cases ip; simp)+
  have "CHR ''.'' \<notin> set ip" using assms(2) allDigits_notin by simp
  then show ?thesis
    using assms h signed_head [OF assms(1), of ?t]
    unfolding parse_pointed_def by (auto simp add: splitOnce_append simp del: hd_append2)
qed

lemma parse_pointed_integer:
  assumes "is_sign sg" "allDigits ip" "ip \<noteq> []"
  shows "parse_pointed (sg @ ip) p sc = bcd_emit (sg = ''-'') (norm_int ip) [] p sc"
proof -
  have h: "hd ip \<noteq> CHR ''+''" "hd ip \<noteq> CHR ''-''" using digit_head [OF assms(2,3)] by simp_all
  have "CHR ''.'' \<notin> set ip" using assms(2) allDigits_notin by simp
  moreover have "stripTrailingZeros [] = []" by (simp add: stripTrailingZeros_def)
  ultimately show ?thesis
    using assms h signed_head [OF assms(1), of ip]
    unfolding parse_pointed_def by (simp add: splitOnce_none del: hd_append2)
qed

lemma parse_pointed_Ok:
  assumes "parse_pointed s p sc = Ok r"
  obtains sg ip fp where "is_sign sg" "allDigits ip" "allDigits fp" "ip \<noteq> [] \<or> fp \<noteq> []"
    "(s = sg @ ip \<and> fp = []) \<or> s = sg @ ip @ CHR ''.'' # fp"
    "bcd_emit (sg = ''-'') (norm_int ip) (stripTrailingZeros fp) p sc = Ok r"
proof -
  have ne: "s \<noteq> []" using assms by (auto simp: parse_pointed_def)
  define t where "t = (if hd s = CHR ''+'' \<or> hd s = CHR ''-'' then tl s else s)"
  obtain sg where sg: "is_sign sg" "s = sg @ t" "(hd s = CHR ''-'') = (sg = ''-'')"
    using sign_split [OF ne] unfolding t_def by blast
  obtain ip fp h where sp: "splitOnce t (CHR ''.'') = (ip, fp, h)" by (cases "splitOnce t (CHR ''.'')") auto
  have "t \<noteq> [] \<and> allDigits ip \<and> (h \<longrightarrow> allDigits fp) \<and> \<not> (ip = [] \<and> fp = []) \<and>
      bcd_emit (hd s = CHR ''-'') (norm_int ip) (stripTrailingZeros fp) p sc = Ok r"
    using assms ne unfolding parse_pointed_def t_def [symmetric] by (simp add: sp split: if_splits)
  then show ?thesis
    using splitOnce_eq [OF sp] sg that [of sg ip fp] by (auto simp: allDigits_def)
qed

lemma literal_comma:
  assumes "is_sign sg" "allDigits ip" "allDigits fp"
    and e: "u @ CHR ''.'' # v = sg @ ip @ CHR ''.'' # fp" and u: "CHR ''.'' \<notin> set u"
  shows "u = sg @ ip \<and> v = fp"
proof -
  have "CHR ''.'' \<notin> set (sg @ ip)" using assms(1,2) sign_ip_notin by blast
  then have "index_byte ((sg @ ip) @ CHR ''.'' # fp) (CHR ''.'') = Some (length (sg @ ip))"
    by (rule index_byte_append)
  moreover have "index_byte (u @ CHR ''.'' # v) (CHR ''.'') = Some (length u)"
    using u by (rule index_byte_append)
  ultimately have "length u = length (sg @ ip)" using e by simp
  with e show ?thesis by (metis append.assoc append_eq_append_conv list.inject)
qed

lemma literal_parse:
  assumes "bcd_literal t neg ip fp"
  shows "parse_pointed (comma_to_dot t) p sc = bcd_emit neg (norm_int ip) (stripTrailingZeros fp) p sc"
  using assms
proof cases
  case (integer sg)
  then show ?thesis
    by (simp add: comma_to_dot_integer parse_pointed_integer stripTrailingZeros_def)
next
  case (decimal sg sep)
  show ?thesis
    unfolding decimal(1) comma_to_dot_literal [OF decimal(3-5,7)] decimal(2)
    by (rule parse_pointed_decimal [OF decimal(3-6)])
qed

lemma bcd_Parse_iff:
  "bcd_Parse s precision scale = Ok r \<longleftrightarrow>
   (\<exists>neg ip fp. bcd_literal (trim_space s) neg ip fp \<and>
      bcd_emit neg (norm_int ip) (stripTrailingZeros fp) precision scale = Ok r)"
proof
  let ?t = "trim_space s"
  assume "bcd_Parse s precision scale = Ok r"
  then have "parse_pointed (comma_to_dot ?t) precision scale = Ok r" by (simp add: bcd_Parse_pointed)
  then obtain sg ip fp where l: "is_sign sg" "allDigits ip" "allDigits fp" "ip \<noteq> [] \<or> fp \<noteq> []"
    and s: "(comma_to_dot ?t = sg @ ip \<and> fp = []) \<or> comma_to_dot ?t = sg @ ip @ CHR ''.'' # fp"
    and r: "bcd_emit (sg = ''-'') (norm_int ip) (stripTrailingZeros fp) precision scale = Ok r"
    by (rule parse_pointed_Ok)
  have "bcd_literal ?t (sg = ''-'') ip fp"
  proof (cases rule: comma_to_dot_cases [of ?t])
    case 1
    show ?thesis using s
    proof
      assume "comma_to_dot ?t = sg @ ip \<and> fp = []"
      then show ?thesis using bcd_literal.integer [OF l(1,2)] l(4) 1 by simp
    next
      assume "comma_to_dot ?t = sg @ ip @ CHR ''.'' # fp"
      then show ?thesis using bcd_literal.decimal [OF l, of "CHR ''.''"] 1 by simp
    qed
  next
    case (2 u v)
    have "CHR ''.'' \<in> set (comma_to_dot ?t)" unfolding 2(2) by simp
    with s sign_ip_notin [OF l(1,2)] have "comma_to_dot ?t = sg @ ip @ CHR ''.'' # fp"
      by metis
    then have "u @ CHR ''.'' # v = sg @ ip @ CHR ''.'' # fp" unfolding 2(2) .
    moreover have "CHR ''.'' \<notin> set u" using 2(1,3) by simp
    ultimately have "u = sg @ ip \<and> v = fp" by (rule literal_comma [OF l(1-3)])
    with 2(1) have "?t = sg @ ip @ CHR '','' # fp" by simp
    then show ?thesis using bcd_literal.decimal [OF l, of "CHR '',''"] by simp
  qed
  with r show "\<exists>neg ip fp. bcd_literal ?t neg ip fp \<and>
      bcd_emit neg (norm_int ip) (stripTrailingZeros fp) precision scale = Ok r" by blast
next
  let ?t = "trim_space s"
  assume "\<exists>neg ip fp. bcd_literal ?t neg ip fp \<and>
      bcd_emit neg (norm_int ip) (stripTrailingZeros fp) precision scale = Ok r"
  then obtain neg ip fp where l: "bcd_literal ?t neg ip fp"
    and r: "bcd_emit neg (norm_int ip) (stripTrailingZeros fp) precision scale = Ok r" by blast
  have "parse_pointed (comma_to_dot ?t) precision scale =
      bcd_emit neg (norm_int ip) (stripTrailingZeros fp) precision scale"
    by (rule literal_parse [OF l])
  with r show "bcd_Parse s precision scale = Ok r" by (simp add: bcd_Parse_pointed)
qed

section \<open>The canonical form\<close>

lemma norm_int_props:
  assumes "allDigits ip"
  shows "allDigits (norm_int ip)" "norm_int ip \<noteq> []" "norm_int ip = ''0'' \<or> hd (norm_int ip) \<noteq> CHR ''0''"
    "digits_val (norm_int ip) = digits_val ip"
proof -
  let ?i = "if ip = [] then ''0'' else ip"
  have z: "digits_val ''0'' = 0" "allDigits ''0''" by (simp_all add: digits_val_def digit_val_def allDigits_def is_digit_def)
  have d: "allDigits ?i" "digits_val ?i = digits_val ip" using assms z by auto
  have sv: "digits_val (stripLeadingZeros u) = digits_val u" for u
    by (induction u) (auto simp: stripLeadingZeros_def digits_val_def digit_val_def)
  have sd: "allDigits (stripLeadingZeros ?i)"
    using d(1) by (auto simp: stripLeadingZeros_def allDigits_def list_all_iff dest: set_dropWhileD)
  show "allDigits (norm_int ip)" "norm_int ip \<noteq> []"
    "digits_val (norm_int ip) = digits_val ip"
    using sd sv [of ?i] d(2) z by (auto simp: norm_int_def Let_def)
  show "norm_int ip = ''0'' \<or> hd (norm_int ip) \<noteq> CHR ''0''"
    using hd_dropWhile [of "\<lambda>c. c = CHR ''0''" ?i]
    by (auto simp: norm_int_def Let_def stripLeadingZeros_def)
qed

lemma stripTrailingZeros_split: "\<exists>k. fp = stripTrailingZeros fp @ replicate k (CHR ''0'')"
proof (induction fp rule: rev_induct)
  case (snoc c fp)
  show ?case
  proof (cases "c = CHR ''0''")
    case True
    from snoc obtain k where "fp = stripTrailingZeros fp @ replicate k (CHR ''0'')" by blast
    then have "fp @ [c] = stripTrailingZeros fp @ replicate k (CHR ''0'') @ [CHR ''0'']"
      using True by (metis append_assoc)
    also have "replicate k (CHR ''0'') @ [CHR ''0''] = replicate (Suc k) (CHR ''0'')"
      by (simp add: replicate_append_same)
    also have "stripTrailingZeros fp = stripTrailingZeros (fp @ [c])"
      using True by (simp add: stripTrailingZeros_def)
    finally show ?thesis by blast
  next
    case False
    then have "stripTrailingZeros (fp @ [c]) = fp @ [c]" by (simp add: stripTrailingZeros_def)
    then show ?thesis by (metis append_Nil2 replicate_0)
  qed
qed (simp add: stripTrailingZeros_def)

lemma stripTrailingZeros_props:
  assumes "allDigits fp"
  shows "allDigits (stripTrailingZeros fp)"
    "stripTrailingZeros fp = [] \<or> last (stripTrailingZeros fp) \<noteq> CHR ''0''"
    "length (stripTrailingZeros fp) \<le> length fp"
proof -
  show "allDigits (stripTrailingZeros fp)"
    using assms by (auto simp: stripTrailingZeros_def allDigits_def list_all_iff dest: set_dropWhileD)
  show "stripTrailingZeros fp = [] \<or> last (stripTrailingZeros fp) \<noteq> CHR ''0''"
    using hd_dropWhile [of "\<lambda>c. c = CHR ''0''" "rev fp"] by (auto simp: stripTrailingZeros_def last_rev)
  show "length (stripTrailingZeros fp) \<le> length fp"
    using length_dropWhile_le [of _ "rev fp"] by (simp add: stripTrailingZeros_def)
qed

lemma frac_value_replicate:
  "(of_nat (digits_val (u @ replicate k (CHR ''0''))) :: rat) / 10 ^ length (u @ replicate k (CHR ''0'')) =
   of_nat (digits_val u) / 10 ^ length u"
proof (induction k)
  case (Suc k)
  have r: "u @ replicate (Suc k) (CHR ''0'') = (u @ replicate k (CHR ''0'')) @ ''0''"
    by (simp add: replicate_append_same)
  show ?case unfolding r using Suc by (simp add: digit_val_def del: append_assoc)
qed simp

lemma frac_value_strip:
  "(of_nat (digits_val (stripTrailingZeros fp)) :: rat) / 10 ^ length (stripTrailingZeros fp) =
   of_nat (digits_val fp) / 10 ^ length fp"
  using stripTrailingZeros_split [of fp] frac_value_replicate [of "stripTrailingZeros fp"] by metis

lemma lit_value_norm:
  "allDigits ip \<Longrightarrow> lit_value neg (norm_int ip) (stripTrailingZeros fp) = lit_value neg ip fp"
  by (simp add: lit_value_def norm_int_props(4) frac_value_strip)

lemma bcd_emit_render:
  assumes "bcd_emit neg ip fp p sc = Ok r"
  shows "r = render (neg \<and> \<not> (ip = ''0'' \<and> fp = [])) ip fp"
    "0 \<le> sc \<Longrightarrow> int (length fp) \<le> sc"
    "0 < p \<Longrightarrow> int (if ip = ''0'' \<and> fp \<noteq> [] then length fp else length ip + length fp) \<le> p"
  using assms by (auto simp: bcd_emit_def render_def Let_def split: if_splits)

lemma bcd_Parse_render:
  assumes "bcd_Parse s p sc = Ok r"
  obtains neg ip fp where "bcd_literal (trim_space s) neg ip fp" "allDigits ip" "allDigits fp"
    "r = render (neg \<and> \<not> (norm_int ip = ''0'' \<and> stripTrailingZeros fp = [])) (norm_int ip) (stripTrailingZeros fp)"
    "bcd_emit neg (norm_int ip) (stripTrailingZeros fp) p sc = Ok r"
proof -
  obtain neg ip fp where l: "bcd_literal (trim_space s) neg ip fp"
    and r: "bcd_emit neg (norm_int ip) (stripTrailingZeros fp) p sc = Ok r"
    using assms unfolding bcd_Parse_iff by blast
  have "allDigits ip" "allDigits fp" using l by (auto elim: bcd_literalE simp: allDigits_def)
  then show ?thesis using that [OF l _ _ bcd_emit_render(1) [OF r] r] by simp
qed

lemma canonical_norm:
  "allDigits ip \<Longrightarrow> allDigits fp \<Longrightarrow>
   canonical (neg \<and> \<not> (norm_int ip = ''0'' \<and> stripTrailingZeros fp = [])) (norm_int ip) (stripTrailingZeros fp)"
  using norm_int_props [of ip] stripTrailingZeros_props [of fp] by (auto simp: canonical_def)

lemma digits_val_lower:
  "allDigits s \<Longrightarrow> s \<noteq> [] \<Longrightarrow> hd s \<noteq> CHR ''0'' \<Longrightarrow> 10 ^ (length s - 1) \<le> digits_val s"
proof (induction s rule: rev_induct)
  case (snoc c s)
  show ?case
  proof (cases "s = []")
    case True
    with snoc.prems have "is_digit c" "c \<noteq> CHR ''0''" by (simp_all add: allDigits_def)
    moreover have "digit_char 0 = CHR ''0''" using digit_char_val [of "CHR ''0''"] by (simp add: is_digit_def digit_val_def)
    ultimately have "digit_val c \<noteq> 0" using digit_char_val [of c] by metis
    with True show ?thesis using digits_val_snoc [of "[]" c] by simp
  next
    case False
    with snoc have "10 ^ (length s - 1) \<le> digits_val s" by simp
    moreover have "(10::nat) ^ length s = 10 * 10 ^ (length s - 1)"
      using False by (cases s) simp_all
    ultimately show ?thesis by simp
  qed
qed simp

lemma int_part_unique:
  assumes "allDigits i" "i \<noteq> []" "i = ''0'' \<or> hd i \<noteq> CHR ''0''"
    and "allDigits j" "j \<noteq> []" "j = ''0'' \<or> hd j \<noteq> CHR ''0''"
    and v: "digits_val i = digits_val j"
  shows "i = j"
proof -
  have z: "digits_val ''0'' = 0" by (simp add: digits_val_def digit_val_def)
  have pos: "digits_val s > 0" if "allDigits s" "s \<noteq> []" "hd s \<noteq> CHR ''0''" for s
    using digits_val_lower [OF that] by (meson le_trans less_le_trans not_le zero_less_numeral zero_less_power)
  have len: "length s \<le> length t"
    if "allDigits s" "s \<noteq> []" "hd s \<noteq> CHR ''0''" "allDigits t" "digits_val s = digits_val t" for s t
  proof -
    have "10 ^ (length s - 1) \<le> digits_val t" using digits_val_lower [OF that(1-3)] that(5) by simp
    also have "digits_val t < 10 ^ length t" using digits_val_bound [of t] that(4) by (simp add: allDigits_def)
    finally have "length s - 1 < length t" by (simp add: power_less_imp_less_exp)
    then show ?thesis by simp
  qed
  show ?thesis
  proof (cases "i = ''0'' \<or> j = ''0''")
    case True
    with v z pos assms show ?thesis by (metis less_irrefl)
  next
    case False
    with assms len [of i j] len [of j i] have "length i = length j" by simp
    then show ?thesis using assms(1,4) v by (auto intro: digits_val_inj simp: allDigits_def)
  qed
qed

lemma frac_unique_le:
  assumes f: "allDigits f" "f = [] \<or> last f \<noteq> CHR ''0''" and g: "allDigits g" "g = [] \<or> last g \<noteq> CHR ''0''"
    and v: "(of_nat (digits_val f) :: rat) / 10 ^ length f = of_nat (digits_val g) / 10 ^ length g"
    and le: "length f \<le> length g"
  shows "f = g"
proof -
  let ?h = "f @ replicate (length g - length f) (CHR ''0'')"
  have len: "length ?h = length g" using le by simp
  have "(of_nat (digits_val ?h) :: rat) / 10 ^ length ?h = of_nat (digits_val g) / 10 ^ length g"
    unfolding frac_value_replicate by (rule v)
  then have "digits_val ?h = digits_val g" unfolding len by simp
  moreover have "allDigits ?h" using f(1)
    by (auto simp: allDigits_def list_all_iff is_digit_def set_replicate_conv_if split: if_splits)
  ultimately have "?h = g" using g(1) len by (intro digits_val_inj) (simp_all add: allDigits_def)
  then show ?thesis using g(2)
    by (cases "length g - length f") (auto simp flip: replicate_append_same)
qed

lemma frac_unique:
  assumes "allDigits f" "f = [] \<or> last f \<noteq> CHR ''0''" "allDigits g" "g = [] \<or> last g \<noteq> CHR ''0''"
    and "(of_nat (digits_val f) :: rat) / 10 ^ length f = of_nat (digits_val g) / 10 ^ length g"
  shows "f = g"
  using frac_unique_le [OF assms] frac_unique_le [OF assms(3,4,1,2) assms(5) [symmetric]] nat_le_linear by metis

lemma frac_bounds:
  assumes "allDigits f"
  shows "0 \<le> (of_nat (digits_val f) :: rat) / 10 ^ length f" "(of_nat (digits_val f) :: rat) / 10 ^ length f < 1"
proof -
  have "digits_val f < 10 ^ length f" using assms digits_val_bound by (simp add: allDigits_def)
  then have "(of_nat (digits_val f) :: rat) < of_nat (10 ^ length f)" by (simp only: of_nat_less_iff)
  then show "(of_nat (digits_val f) :: rat) / 10 ^ length f < 1" by simp
qed simp

lemma magnitude_unique:
  assumes c: "canonical m i f" "canonical n j g" and v: "lit_value False i f = lit_value False j g"
  shows "i = j \<and> f = g"
proof -
  let ?F = "(of_nat (digits_val f) :: rat) / 10 ^ length f" and ?G = "(of_nat (digits_val g) :: rat) / 10 ^ length g"
  have "allDigits f" "allDigits g" using c by (auto simp: canonical_def)
  note b = frac_bounds [OF this(1)] frac_bounds [OF this(2)]
  have e: "of_nat (digits_val i) + ?F = of_nat (digits_val j) + ?G" using v by (simp add: lit_value_def)
  have "\<not> m < n" if "of_nat m + F = of_nat n + G" "0 \<le> G" "F < 1" for m n and F G :: rat
  proof
    assume "m < n"
    then have "(of_nat m :: rat) + 1 \<le> of_nat n" by (metis Suc_leI of_nat_Suc of_nat_le_iff add.commute)
    with that show False by linarith
  qed
  from this [OF e b(3,2)] this [OF e [symmetric] b(1,4)]
  have "digits_val i = digits_val j" by linarith
  with e c show ?thesis
    using int_part_unique [of i j] frac_unique [of f g] by (simp add: canonical_def)
qed

lemma lit_value_sign: "lit_value True i f = - lit_value False i f"
  by (simp add: lit_value_def)

lemma lit_value_nonneg: "allDigits f \<Longrightarrow> 0 \<le> lit_value False i f"
  by (simp add: lit_value_def)

lemma canonical_neg_nonzero:
  assumes "canonical True i f"
  shows "lit_value False i f \<noteq> 0"
proof
  assume "lit_value False i f = 0"
  then have "lit_value False i f = lit_value False ''0'' []"
    by (simp add: lit_value_def digits_val_def digit_val_def)
  moreover have "canonical False ''0'' []" by (simp add: canonical_def allDigits_def is_digit_def)
  ultimately have "i = ''0'' \<and> f = []" using magnitude_unique [OF assms] by blast
  with assms show False by (simp add: canonical_def)
qed

lemma canonical_unique:
  assumes c: "canonical m i f" "canonical n j g" and v: "lit_value m i f = lit_value n j g"
  shows "m = n \<and> i = j \<and> f = g"
proof -
  have nn: "0 \<le> lit_value False i f" "0 \<le> lit_value False j g"
    using c by (auto simp: canonical_def lit_value_nonneg)
  have "m = n" using c v nn canonical_neg_nonzero [of i f] canonical_neg_nonzero [of j g]
    by (cases m; cases n) (auto simp: lit_value_sign)
  moreover have "lit_value False i f = lit_value False j g"
    using v \<open>m = n\<close> by (cases n) (simp_all add: lit_value_sign)
  ultimately show ?thesis using magnitude_unique [OF c] by simp
qed

lemma render_inject:
  assumes "canonical m i f" "canonical n j g" "render m i f = render n j g"
  shows "m = n \<and> i = j \<and> f = g"
proof -
  have d: "i \<noteq> []" "j \<noteq> []" "hd i \<noteq> CHR ''-''" "hd j \<noteq> CHR ''-''" "CHR ''.'' \<notin> set i" "CHR ''.'' \<notin> set j"
    using assms(1,2) digit_head allDigits_notin by (auto simp: canonical_def)
  have hd: "hd (render m i f) = CHR ''-'' \<longleftrightarrow> m" "hd (render n j g) = CHR ''-'' \<longleftrightarrow> n"
    using d by (auto simp: render_def)
  with assms(3) have mn: "m = n" by simp
  have "splitOnce (i @ (if f = [] then [] else CHR ''.'' # f)) (CHR ''.'') = (i, f, f \<noteq> [])"
    using d(5) by (simp add: splitOnce_append splitOnce_none)
  moreover have "splitOnce (j @ (if g = [] then [] else CHR ''.'' # g)) (CHR ''.'') = (j, g, g \<noteq> [])"
    using d(6) by (simp add: splitOnce_append splitOnce_none)
  moreover have "i @ (if f = [] then [] else CHR ''.'' # f) = j @ (if g = [] then [] else CHR ''.'' # g)"
    using assms(3) unfolding mn render_def by (cases n) simp_all
  ultimately show ?thesis using mn by simp
qed

lemma render_iff_value:
  assumes "canonical m i f" "canonical n j g"
  shows "render m i f = render n j g \<longleftrightarrow> lit_value m i f = lit_value n j g"
  using render_inject [OF assms] canonical_unique [OF assms] by blast

lemma canonical_literal:
  assumes "canonical neg ip fp"
  shows "bcd_literal (render neg ip fp) neg ip fp"
proof -
  let ?sg = "if neg then ''-'' else []"
  have s: "is_sign ?sg" "(?sg = ''-'') = neg" by (simp_all add: is_sign_def)
  show ?thesis
  proof (cases "fp = []")
    case True
    then show ?thesis using assms bcd_literal.integer [OF s(1), of ip] s(2)
      by (simp add: canonical_def render_def)
  next
    case False
    then show ?thesis using assms bcd_literal.decimal [OF s(1), of ip fp "CHR ''.''"] s(2)
      by (simp add: canonical_def render_def)
  qed
qed

lemma digit_not_space: "is_digit c \<Longrightarrow> byte_of c < (128::nat) \<and> \<not> is_space (byte_of c)"
  by (auto simp: is_digit_def is_space_def)

lemma trim_canonical:
  assumes "canonical neg ip fp"
  shows "trim_space (render neg ip fp) = render neg ip fp"
proof (rule trim_space_keep, rule disjI2, intro conjI)
  have ip: "ip \<noteq> []" "is_digit (hd ip)" "is_digit (last ip)" "fp \<noteq> [] \<Longrightarrow> is_digit (last fp)"
    using assms by (auto simp: canonical_def allDigits_def list_all_iff)
  have l: "is_digit (last (render neg ip fp))"
    using ip by (auto simp: render_def)
  have h: "is_digit (hd (render neg ip fp)) \<or> hd (render neg ip fp) = CHR ''-''"
    using ip by (auto simp: render_def)
  show "byte_of (last (render neg ip fp)) < (128::nat)" "\<not> is_space (byte_of (last (render neg ip fp)))"
    using digit_not_space [OF l] by simp_all
  show "byte_of (hd (render neg ip fp)) < (128::nat)" "\<not> is_space (byte_of (hd (render neg ip fp)))"
    using h digit_not_space [of "hd (render neg ip fp)"] by (auto simp: is_space_def)
qed

lemma canonical_norm_id:
  assumes "canonical neg ip fp"
  shows "norm_int ip = ip" "stripTrailingZeros fp = fp"
proof -
  show "norm_int ip = ip"
    using assms by (cases ip) (auto simp: canonical_def norm_int_def stripLeadingZeros_def Let_def)
  show "stripTrailingZeros fp = fp"
    using assms by (cases fp rule: rev_cases) (auto simp: canonical_def stripTrailingZeros_def)
qed

lemmas bcd_eval = bcd_Parse_def trim_eval comma_to_dot_def has_prefix_def splitOnce_def allDigits_def
  is_digit_def stripLeadingZeros_def stripTrailingZeros_def bcd_emit_def

lemma bcd_Parse_canonical_cases:
  assumes "bcd_Parse s p sc = Ok r"
  obtains neg ip fp where "bcd_literal (trim_space s) neg ip fp" "allDigits ip" "allDigits fp"
    "r = render (neg \<and> \<not> (norm_int ip = ''0'' \<and> stripTrailingZeros fp = [])) (norm_int ip) (stripTrailingZeros fp)"
    "canonical (neg \<and> \<not> (norm_int ip = ''0'' \<and> stripTrailingZeros fp = [])) (norm_int ip) (stripTrailingZeros fp)"
    "bcd_emit neg (norm_int ip) (stripTrailingZeros fp) p sc = Ok r"
  using bcd_Parse_render [OF assms] canonical_norm by metis

lemma lit_value_signed_zero:
  "allDigits ip \<Longrightarrow>
   lit_value (neg \<and> \<not> (norm_int ip = ''0'' \<and> stripTrailingZeros fp = [])) (norm_int ip) (stripTrailingZeros fp)
   = lit_value neg ip fp"
proof (cases "norm_int ip = ''0'' \<and> stripTrailingZeros fp = []")
  case True
  assume "allDigits ip"
  then have "lit_value neg ip fp = lit_value neg ''0'' []"
    using lit_value_norm [of ip neg fp] True by simp
  then show ?thesis using True by (simp add: lit_value_def digits_val_def digit_val_def)
qed (simp add: lit_value_norm)

lemma bcd_literal_digits: "bcd_literal s neg ip fp \<Longrightarrow> allDigits ip \<and> allDigits fp"
  by (auto elim: bcd_literalE simp: allDigits_def)

text \<open>A string reads as at most one value: the literal relation is a function up to its value.\<close>

lemma parse_literal_unique:
  assumes "bcd_literal t m i f" "bcd_literal t n j g"
  shows "lit_value m i f = lit_value n j g"
proof -
  have e: "bcd_emit m (norm_int i) (stripTrailingZeros f) 0 (-1) =
      bcd_emit n (norm_int j) (stripTrailingZeros g) 0 (-1)"
    using literal_parse [OF assms(1)] literal_parse [OF assms(2)] by metis
  have "is_ok (bcd_emit m (norm_int i) (stripTrailingZeros f) 0 (-1))"
    by (simp add: bcd_emit_def Let_def)
  then obtain r where r: "bcd_emit m (norm_int i) (stripTrailingZeros f) 0 (-1) = Ok r"
    by (cases "bcd_emit m (norm_int i) (stripTrailingZeros f) 0 (-1)") simp_all
  note d = bcd_literal_digits [OF assms(1)] bcd_literal_digits [OF assms(2)]
  have "render (m \<and> \<not> (norm_int i = ''0'' \<and> stripTrailingZeros f = [])) (norm_int i) (stripTrailingZeros f)
      = render (n \<and> \<not> (norm_int j = ''0'' \<and> stripTrailingZeros g = [])) (norm_int j) (stripTrailingZeros g)"
    using bcd_emit_render(1) [OF r] bcd_emit_render(1) [OF r [unfolded e]] by simp
  then have "lit_value (m \<and> \<not> (norm_int i = ''0'' \<and> stripTrailingZeros f = [])) (norm_int i) (stripTrailingZeros f)
      = lit_value (n \<and> \<not> (norm_int j = ''0'' \<and> stripTrailingZeros g = [])) (norm_int j) (stripTrailingZeros g)"
    by (subst (asm) render_iff_value) (simp_all only: canonical_norm d)
  then show ?thesis by (simp only: lit_value_signed_zero d)
qed

lemma bcd_Parse_canonical_id:
  assumes c: "canonical neg ip fp" and e: "bcd_emit neg ip fp p sc = Ok r"
  shows "bcd_Parse (render neg ip fp) p sc = Ok r"
  unfolding bcd_Parse_iff trim_canonical [OF c]
  using canonical_literal [OF c] canonical_norm_id [OF c] e by metis

lemma bcd_emit_zero_sign:
  "bcd_emit (neg \<and> \<not> (ip = ''0'' \<and> fp = [])) ip fp p sc = bcd_emit neg ip fp p sc"
  by (auto simp: bcd_emit_def Let_def)

lemma bcd_Negate_render:
  assumes "canonical neg ip fp" "\<not> (ip = ''0'' \<and> fp = [])"
  shows "bcd_Negate (render neg ip fp) = render (\<not> neg) ip fp"
proof -
  have d: "ip \<noteq> []" "hd ip \<noteq> CHR ''-''" "hd ip \<noteq> CHR ''+''"
    using assms(1) digit_head by (auto simp: canonical_def)
  have z: "render neg ip fp \<noteq> []" "render neg ip fp \<noteq> ''0''" "render neg ip fp \<noteq> ''0.0''"
    using assms d by (auto simp: render_def canonical_def append_eq_Cons_conv split: if_splits)
  show ?thesis
    unfolding bcd_Negate_def trim_canonical [OF assms(1)] Let_def
    using z d by (auto simp: render_def)
qed

section \<open>Properties\<close>


text \<open>Every accepted string is turned into a canonical literal (no blanks, a point, no leading
  zero but a single one, no trailing zero after the point, no sign on zero) that has at most
  \<open>scale\<close> fractional digits and, not counting the zero of a pure fraction, at most
  \<open>precision\<close> digits.\<close>

theorem bcd_Parse_canonical:
  assumes "bcd_Parse s precision scale = Ok r"
  shows "\<exists>neg ip fp. r = render neg ip fp \<and> canonical neg ip fp \<and>
    (scale < 0 \<or> int (length fp) \<le> scale) \<and>
    (precision \<le> 0 \<or> int (if ip = ''0'' \<and> fp \<noteq> [] then length fp else length ip + length fp) \<le> precision)"
proof -
  obtain neg ip fp where
    r: "r = render (neg \<and> \<not> (norm_int ip = ''0'' \<and> stripTrailingZeros fp = [])) (norm_int ip) (stripTrailingZeros fp)"
    and c: "canonical (neg \<and> \<not> (norm_int ip = ''0'' \<and> stripTrailingZeros fp = [])) (norm_int ip) (stripTrailingZeros fp)"
    and e: "bcd_emit neg (norm_int ip) (stripTrailingZeros fp) precision scale = Ok r"
    using assms by (rule bcd_Parse_canonical_cases)
  from bcd_emit_render(2,3) [OF e] have
    "scale < 0 \<or> int (length (stripTrailingZeros fp)) \<le> scale"
    "precision \<le> 0 \<or> int (if norm_int ip = ''0'' \<and> stripTrailingZeros fp \<noteq> [] then length (stripTrailingZeros fp)
       else length (norm_int ip) + length (stripTrailingZeros fp)) \<le> precision"
    by linarith+
  with r c show ?thesis by blast
qed

lemma bcd_Parse_canonical_witness:
  "\<exists>neg ip fp. ''-12.5'' = render neg ip fp \<and> canonical neg ip fp \<and>
    ((2::int) < 0 \<or> int (length fp) \<le> 2) \<and>
    ((3::int) \<le> 0 \<or> int (if ip = ''0'' \<and> fp \<noteq> [] then length fp else length ip + length fp) \<le> 3)"
proof -
  have "bcd_Parse '' -012,50 '' 3 2 = Ok ''-12.5''" by (simp add: bcd_eval)
  from bcd_Parse_canonical [OF this] show ?thesis .
qed

text \<open>C11: The output is a normal form of the value: two accepted strings, whatever their limits,
  get the same output exactly when they denote the same decimal number.\<close>

theorem bcd_Parse_normal_form:
  assumes s: "bcd_Parse s p sc = Ok r" "bcd_literal (trim_space s) m i f"
    and t: "bcd_Parse t q sd = Ok r'" "bcd_literal (trim_space t) n j g"
  shows "r = r' \<longleftrightarrow> lit_value m i f = lit_value n j g"
proof -
  let ?neg = "\<lambda>neg ip fp. neg \<and> \<not> (norm_int ip = ''0'' \<and> stripTrailingZeros fp = [])"
  obtain m1 i1 f1 where 1: "bcd_literal (trim_space s) m1 i1 f1" "allDigits i1" "allDigits f1"
    "r = render (?neg m1 i1 f1) (norm_int i1) (stripTrailingZeros f1)"
    "canonical (?neg m1 i1 f1) (norm_int i1) (stripTrailingZeros f1)"
    using s(1) by (rule bcd_Parse_canonical_cases)
  obtain n1 j1 g1 where 2: "bcd_literal (trim_space t) n1 j1 g1" "allDigits j1" "allDigits g1"
    "r' = render (?neg n1 j1 g1) (norm_int j1) (stripTrailingZeros g1)"
    "canonical (?neg n1 j1 g1) (norm_int j1) (stripTrailingZeros g1)"
    using t(1) by (rule bcd_Parse_canonical_cases)
  have v: "lit_value m1 i1 f1 = lit_value m i f" "lit_value n1 j1 g1 = lit_value n j g"
    using parse_literal_unique 1(1) 2(1) s(2) t(2) by blast+
  show ?thesis
    unfolding 1(4) 2(4) render_iff_value [OF 1(5) 2(5)]
    by (simp only: lit_value_signed_zero 1(2) 2(2) v)
qed

lemma bcd_Parse_normal_form_witness:
  "''1.5'' = ''1.5'' \<longleftrightarrow> lit_value False ''01'' ''50'' = lit_value False ''1'' ''5''"
proof -
  have 1: "bcd_Parse ''+01,50'' 5 2 = Ok ''1.5''" and 2: "bcd_Parse '' 1.5'' 0 (-1) = Ok ''1.5''"
    by (simp_all add: bcd_eval)
  have t: "trim_space ''+01,50'' = ''+'' @ ''01'' @ CHR '','' # ''50''" "trim_space '' 1.5'' = [] @ ''1'' @ CHR ''.'' # ''5''"
    by (simp_all add: trim_eval)
  have "bcd_literal (''+'' @ ''01'' @ CHR '','' # ''50'') (''+'' = ''-'') ''01'' ''50''"
    "bcd_literal ([] @ ''1'' @ CHR ''.'' # ''5'') ([] = ''-'') ''1'' ''5''"
    by (rule bcd_literal.decimal; simp add: is_sign_def allDigits_def is_digit_def)+
  then have "bcd_literal (trim_space ''+01,50'') False ''01'' ''50''" "bcd_literal (trim_space '' 1.5'') False ''1'' ''5''"
    unfolding t by simp_all
  from bcd_Parse_normal_form [OF 1 this(1) 2 this(2)] show ?thesis .
qed

text \<open>\<open>Parse\<close> is idempotent: under the same limits it accepts its own output and returns it
  unchanged, so a value read back from the system is stable.\<close>

theorem bcd_Parse_idempotent:
  assumes "bcd_Parse s precision scale = Ok r"
  shows "bcd_Parse r precision scale = Ok r"
proof -
  obtain neg ip fp where
    r: "r = render (neg \<and> \<not> (norm_int ip = ''0'' \<and> stripTrailingZeros fp = [])) (norm_int ip) (stripTrailingZeros fp)"
    and c: "canonical (neg \<and> \<not> (norm_int ip = ''0'' \<and> stripTrailingZeros fp = [])) (norm_int ip) (stripTrailingZeros fp)"
    and e: "bcd_emit neg (norm_int ip) (stripTrailingZeros fp) precision scale = Ok r"
    using assms by (rule bcd_Parse_canonical_cases)
  show ?thesis unfolding r
    by (rule bcd_Parse_canonical_id [OF c]) (simp only: bcd_emit_zero_sign e r [symmetric])
qed

lemma bcd_Parse_idempotent_witness: "bcd_Parse ''-12.5'' 3 2 = Ok ''-12.5''"
proof -
  have "bcd_Parse '' -012,50 '' 3 2 = Ok ''-12.5''" by (simp add: bcd_eval)
  from bcd_Parse_idempotent [OF this] show ?thesis .
qed

text \<open>\<open>Format\<close> rounds a tie away from zero, where the documentation says half to even; and
  \<open>Negate\<close> puts a sign on a zero with two decimals.\<close>

lemma bcd_Format_tie: "bcd_Format (Some (1, 8)) 2 = ''0.13''" "bcd_Format (Some (-1, 8)) 2 = ''-0.13''"
  by (simp_all add: bcd_Format_def float_string_def show_nat.simps fmt_0d_def pad_zero_def)

lemma bcd_Negate_zero: "bcd_Negate ''0.00'' = ''-0.00''" "bcd_Negate ''0.0'' = ''0.0''"
  by (simp_all add: bcd_Negate_def trim_eval)

end
