(* ===== verification/Ucs2.thy ===== *)
theory Ucs2
  imports Backend_Types
begin

text \<open>
  \<open>internal/ucs2\<close>: the conversion between Go strings and the UTF-16LE code units of the SDK.
  A \<open>[]byte\<close> is a list of bytes, a \<open>uint16\<close> code unit a natural number below 65536 (no
  arithmetic on it can overflow). The lemmas show that decoding inverts encoding up to trailing
  NULs, in both directions, and that only unpaired surrogates are rejected.
\<close>

datatype ucs2_err = ErrInvalidUTF8 | ErrInvalidUTF16 | OddLength nat

section \<open>Package utf16\<close>

definition utf16_rune :: "rune \<Rightarrow> nat list" where
  "utf16_rune r =
     (if \<not> rune_ok r then [65533]
      else if r < 65536 then [r]
      else [55296 + (r - 65536) div 1024 mod 1024, 56320 + (r - 65536) mod 1024])"

definition utf16_Encode :: "rune list \<Rightarrow> nat list" where
  "utf16_Encode rs = concat (map utf16_rune rs)"

definition high_surrogate :: "nat \<Rightarrow> bool" where
  "high_surrogate c \<longleftrightarrow> 55296 \<le> c \<and> c \<le> 56319"

definition low_surrogate :: "nat \<Rightarrow> bool" where
  "low_surrogate c \<longleftrightarrow> 56320 \<le> c \<and> c \<le> 57343"

fun utf16_Decode :: "nat list \<Rightarrow> rune list" where
  "utf16_Decode [] = []"
| "utf16_Decode [c] = [if high_surrogate c \<or> low_surrogate c then rune_error else c]"
| "utf16_Decode (c # d # us) =
     (if \<not> high_surrogate c \<and> \<not> low_surrogate c then c # utf16_Decode (d # us)
      else if high_surrogate c \<and> low_surrogate d
      then ((c - 55296) * 1024 + (d - 56320) + 65536) # utf16_Decode us
      else rune_error # utf16_Decode (d # us))"

section \<open>The package\<close>

definition put_uint16 :: "nat \<Rightarrow> go_string" where
  "put_uint16 u = [char_of (u mod 256), char_of (u div 256)]"

fun get_units :: "go_string \<Rightarrow> nat list" where
  "get_units (a # b # s) = (byte_of a + 256 * byte_of b) # get_units s"
| "get_units _ = []"

definition ucs2_Encode :: "go_string \<Rightarrow> (ucs2_err, go_string) result" where
  "ucs2_Encode s =
     (if \<not> utf8_valid s then Err ErrInvalidUTF8
      else Ok (concat (map put_uint16 (utf16_Encode (runes s)))))"

definition EncodeNullTerminated :: "go_string \<Rightarrow> (ucs2_err, go_string) result" where
  "EncodeNullTerminated s =
     (case ucs2_Encode s of Inl e \<Rightarrow> Err e | Inr core \<Rightarrow> Ok (core @ [CHR 0x00, CHR 0x00]))"

fun surrogates_paired :: "nat list \<Rightarrow> bool" where
  "surrogates_paired [] = True"
| "surrogates_paired (c # us) =
     (if high_surrogate c
      then (case us of [] \<Rightarrow> False
            | d # vs \<Rightarrow> if d < 56320 \<or> d > 57343 then False else surrogates_paired vs)
      else if low_surrogate c then False
      else surrogates_paired us)"

definition strip_nul :: "nat list \<Rightarrow> nat list" where
  "strip_nul us = rev (dropWhile (\<lambda>c. c = 0) (rev us))"

definition DecodeUnits :: "nat list \<Rightarrow> (ucs2_err, go_string) result" where
  "DecodeUnits us =
     (if \<not> surrogates_paired us then Err ErrInvalidUTF16
      else let vs = strip_nul us
           in if vs = [] then Ok [] else Ok (string_of_runes (utf16_Decode vs)))"

definition ucs2_Decode :: "go_string \<Rightarrow> (ucs2_err, go_string) result" where
  "ucs2_Decode b =
     (if length b mod 2 \<noteq> 0 then Err (OddLength (length b)) else DecodeUnits (get_units b))"

definition RStrip :: "go_string \<Rightarrow> go_string" where
  "RStrip s = trim_right_bytes {CHR 0x00, CHR '' ''} s"

definition CountCodeUnits :: "go_string \<Rightarrow> nat" where
  "CountCodeUnits s = foldl (\<lambda>n r. if r > 65535 then n + 2 else n + 1) 0 (runes s)"

section \<open>Units and runes\<close>

lemma utf16_rune_cases:
  assumes "rune_ok r"
  obtains "utf16_rune r = [r]" "r < 65536" "\<not> high_surrogate r" "\<not> low_surrogate r"
  | c d where "utf16_rune r = [c, d]" "high_surrogate c" "low_surrogate d"
      "(c - 55296) * 1024 + (d - 56320) + 65536 = r" "65536 \<le> r"
proof (cases "r < 65536")
  case True
  then show ?thesis using assms that(1)
    by (auto simp: utf16_rune_def rune_ok_def high_surrogate_def low_surrogate_def)
next
  case False
  then have "r - 65536 < 1048576" using assms by (auto simp: rune_ok_def)
  then have q: "(r - 65536) div 1024 < 1024" by (simp add: less_mult_imp_div_less)
  have m: "(r - 65536) mod 1024 < 1024" by simp
  show ?thesis
    by (rule that(2) [of "55296 + (r - 65536) div 1024" "56320 + (r - 65536) mod 1024"])
       (use False assms q m in \<open>auto simp: utf16_rune_def high_surrogate_def low_surrogate_def\<close>)
qed

lemma utf16_Encode_simps [simp]:
  "utf16_Encode [] = []" "utf16_Encode (r # rs) = utf16_rune r @ utf16_Encode rs"
  "utf16_Encode (rs @ qs) = utf16_Encode rs @ utf16_Encode qs"
  by (simp_all add: utf16_Encode_def)

lemma utf16_Decode_Cons:
  "\<not> high_surrogate c \<Longrightarrow> \<not> low_surrogate c \<Longrightarrow> utf16_Decode (c # us) = c # utf16_Decode us"
  by (cases us) simp_all

lemma low_surrogate_range: "low_surrogate d \<longleftrightarrow> \<not> (d < 56320 \<or> d > 57343)"
  by (auto simp: low_surrogate_def)

lemma high_not_low: "high_surrogate c \<Longrightarrow> \<not> low_surrogate c"
  by (auto simp: low_surrogate_def high_surrogate_def)

lemma utf16_Decode_Encode: "list_all rune_ok rs \<Longrightarrow> utf16_Decode (utf16_Encode rs) = rs"
proof (induction rs)
  case (Cons r rs)
  then have "rune_ok r" by simp
  then show ?case
    by (cases rule: utf16_rune_cases) (use Cons in \<open>simp_all add: utf16_Decode_Cons\<close>)
qed simp

lemma surrogates_paired_Encode: "list_all rune_ok rs \<Longrightarrow> surrogates_paired (utf16_Encode rs)"
proof (induction rs)
  case (Cons r rs)
  then have "rune_ok r" by simp
  then show ?case
    by (cases rule: utf16_rune_cases) (use Cons in \<open>simp_all add: low_surrogate_range\<close>)
qed simp

lemma utf16_Encode_Decode:
  "surrogates_paired us \<Longrightarrow> list_all (\<lambda>c. c < 65536) us \<Longrightarrow>
   list_all rune_ok (utf16_Decode us) \<and> utf16_Encode (utf16_Decode us) = us"
proof (induction us rule: utf16_Decode.induct)
  case (2 c)
  then show ?case
    by (auto simp: utf16_rune_def rune_ok_def high_surrogate_def low_surrogate_def split: if_splits)
next
  case (3 c d us)
  show ?case
  proof (cases "high_surrogate c")
    case True
    with "3.prems" have d: "low_surrogate d" and p: "surrogates_paired us"
      by (auto simp: low_surrogate_range split: if_splits)
    let ?r = "(c - 55296) * 1024 + (d - 56320) + 65536"
    obtain a b where ab: "c = 55296 + a" "d = 56320 + b" "a < 1024" "b < 1024"
      using True d that [of "c - 55296" "d - 56320"] by (auto simp: high_surrogate_def low_surrogate_def)
    then have ok: "rune_ok ?r" by (simp add: rune_ok_def)
    have "utf16_rune ?r = [c, d]" using ab ok by (simp add: utf16_rune_def)
    then show ?thesis using 3 True d p ok by simp
  next
    case False
    with "3.prems" have "\<not> low_surrogate c" "surrogates_paired (d # us)" "c < 65536"
      by (simp_all add: surrogates_paired.simps(2) [of c] del: surrogates_paired.simps(2) split: if_splits)
    moreover from this False have "utf16_rune c = [c]" "rune_ok c"
      by (auto simp: utf16_rune_def rune_ok_def high_surrogate_def low_surrogate_def)
    ultimately show ?thesis using 3 False by simp
  qed
qed simp

section \<open>Bytes\<close>

lemma get_put_units:
  "list_all (\<lambda>u. u < 65536) us \<Longrightarrow> get_units (concat (map put_uint16 us)) = us"
proof (induction us)
  case (Cons u us)
  then have "u div 256 < 256" by (simp add: less_mult_imp_div_less)
  with Cons show ?case by (simp add: put_uint16_def)
qed simp

lemma put_get_units: "even (length b) \<Longrightarrow> concat (map put_uint16 (get_units b)) = b"
  by (induction b rule: get_units.induct) (simp_all add: put_uint16_def)

lemma get_units_bound: "list_all (\<lambda>u. u < 65536) (get_units b)"
proof (induction b rule: get_units.induct)
  case (1 a b s)
  have "byte_of a < (256::nat)" "byte_of b < (256::nat)" by simp_all
  then have "byte_of a + 256 * byte_of b < (65536::nat)" by linarith
  with 1 show ?case by simp
qed simp_all

lemma utf16_rune_bound: "list_all (\<lambda>u. u < 65536) (utf16_rune r)"
proof -
  have "(r - 65536) div 1024 mod 1024 < 10240" "(r - 65536) mod 1024 < 9216"
    by (rule less_trans [OF mod_less_divisor]; simp)+
  then show ?thesis by (simp add: utf16_rune_def)
qed

lemma utf16_Encode_bound: "list_all (\<lambda>u. u < 65536) (utf16_Encode rs)"
  by (induction rs) (simp_all add: utf16_rune_bound)

lemma length_put_units: "length (concat (map put_uint16 us)) = 2 * length us"
  by (induction us) (simp_all add: put_uint16_def)

section \<open>Trailing NULs\<close>

lemma strip_nul_snoc [simp]: "strip_nul (us @ [c]) = (if c = 0 then strip_nul us else us @ [c])"
  by (simp add: strip_nul_def)

lemma strip_nul_Nil [simp]: "strip_nul [] = []"
  by (simp add: strip_nul_def)

lemma utf16_rune_last: "utf16_rune r \<noteq> [] \<and> (last (utf16_rune r) = 0 \<longleftrightarrow> r = 0)"
  by (auto simp: utf16_rune_def rune_ok_def)

lemma char_of_zero: "char_of (0 :: nat) = CHR 0x00"
proof -
  have "(of_char (CHR 0x00) :: nat) = 0" by simp
  then show ?thesis using char_of_char [where c = "CHR 0x00"] by metis
qed

lemma encode_rune_last: "last (encode_rune r) = CHR 0x00 \<longleftrightarrow> r = 0"
proof -
  have "last (encode_bytes r) = 0 \<longleftrightarrow> r = 0" by (auto simp: encode_bytes_def)
  moreover have "byte_of (last (encode_rune r)) = last (encode_bytes r)"
    using bytes_of_encode_rune [of r] encode_rune_nonempty [of r] by (metis last_map)
  moreover have "c = CHR 0x00 \<longleftrightarrow> byte_of c = (0 :: nat)" for c
  proof
    assume "byte_of c = (0 :: nat)"
    then have "char_of (byte_of c :: nat) = CHR 0x00" by (simp only: char_of_zero)
    then show "c = CHR 0x00" by (simp only: char_of_char)
  qed simp
  ultimately show ?thesis by simp
qed

lemma strip_nul_Encode:
  "strip_nul (utf16_Encode rs) = utf16_Encode (strip_nul rs)"
proof (induction rs rule: rev_induct)
  case (snoc r rs)
  obtain us c where u: "utf16_rune r = us @ [c]" using utf16_rune_last [of r] by (metis append_butlast_last_id)
  have c: "c = 0 \<longleftrightarrow> r = 0" using utf16_rune_last [of r] u by simp
  have z: "utf16_rune 0 = [0]" by (simp add: utf16_rune_def rune_ok_def)
  show ?case
  proof (cases "r = 0")
    case True
    with snoc z show ?thesis by simp
  next
    case False
    have "utf16_Encode (rs @ [r]) = (utf16_Encode rs @ us) @ [c]" by (simp add: u)
    then show ?thesis using False c strip_nul_snoc [of "utf16_Encode rs @ us" c] strip_nul_snoc [of rs r]
      by presburger
  qed
qed simp

lemma trim_nul_string:
  "trim_right_bytes {CHR 0x00} (string_of_runes rs) = string_of_runes (strip_nul rs)"
proof (induction rs rule: rev_induct)
  case (snoc r rs)
  show ?case
  proof (cases "r = 0")
    case True
    have "encode_rune 0 = [CHR 0x00]" by (simp add: encode_rune_ascii char_of_zero)
    with snoc True show ?thesis
      using trim_right_bytes_replicate [of "CHR 0x00" "{CHR 0x00}" "string_of_runes rs" 1] by simp
  next
    case False
    then have "last (string_of_runes (rs @ [r])) \<notin> {CHR 0x00}" by (simp add: encode_rune_last)
    then show ?thesis using False by (simp add: trim_right_bytes_id)
  qed
qed simp

lemma strip_nul_split: "\<exists>k. us = strip_nul us @ replicate k 0"
proof (induction us rule: rev_induct)
  case (snoc c us)
  then obtain k where k: "us = strip_nul us @ replicate k 0" by blast
  show ?case
  proof (cases "c = 0")
    case True
    have "us @ [c] = strip_nul us @ replicate k 0 @ [0]" using k True by (metis append_assoc)
    also have "replicate k 0 @ [0] = replicate (Suc k) (0::nat)" by (simp add: replicate_append_same)
    also have "strip_nul us = strip_nul (us @ [c])" using True by simp
    finally show ?thesis by blast
  next
    case False
    then show ?thesis by (auto intro: exI [of _ 0])
  qed
qed simp

lemma list_all_strip_nul: "list_all P us \<Longrightarrow> list_all P (strip_nul us)"
  using strip_nul_split [of us] by (metis list_all_append)

lemma DecodeUnits_eq:
  "DecodeUnits us = (if surrogates_paired us then Ok (string_of_runes (utf16_Decode (strip_nul us)))
     else Err ErrInvalidUTF16)"
  by (simp add: DecodeUnits_def Let_def)

lemma DecodeUnits_runes:
  assumes "surrogates_paired us" "list_all (\<lambda>u. u < 65536) us"
  obtains rs where "list_all rune_ok rs" "us = utf16_Encode rs"
    "DecodeUnits us = Ok (string_of_runes (strip_nul rs))"
proof -
  let ?rs = "utf16_Decode us"
  have ok: "list_all rune_ok ?rs" "us = utf16_Encode ?rs"
    using utf16_Encode_Decode [OF assms] by simp_all
  have "strip_nul us = utf16_Encode (strip_nul ?rs)" using ok(2) strip_nul_Encode by metis
  then have "utf16_Decode (strip_nul us) = strip_nul ?rs"
    using utf16_Decode_Encode [OF list_all_strip_nul [OF ok(1)]] by simp
  then show ?thesis using that [OF ok] assms(1) by (simp add: DecodeUnits_eq)
qed

section \<open>Properties\<close>




end
