(* ===== verification/Pool.thy ===== *)
theory Pool
  imports Backend_Types
begin

text \<open>
  \<open>nwrfc/pool.go\<close>: the bounded connection pool as an interleaving of goroutines.

  The shared state is the \<open>Pool\<close> struct: the LIFO stack \<open>idle\<close> (its last element is the
  top), the map \<open>checkedOut\<close> (a list of entries with distinct connections), \<open>openCount\<close>,
  \<open>closed\<close> and the FIFO \<open>waiters\<close> of channel identities. A channel has a buffer of one
  entry. Each goroutine has a program counter whose constructors are the points between two
  atomic actions: a locked section, an atomic load, a channel operation, or a call out of the pool
  (\<open>Open\<close>, \<open>Reset\<close>, \<open>AfterAcquire\<close>) whose outcome is an argument of the event. Connections
  are numbered in the order they are opened; which of them are alive, and the clock, are arguments
  of the events too. One definition per locked section follows the code; \<open>pool_step\<close> puts
  them behind the program counters and \<open>reachable\<close> is the set of states of all schedules.

  The lemmas give the accounting invariant (every counted connection is somewhere), the single
  owner of each connection, the bounds on the counter, that no send on a waiter channel can block
  or panic; and the schedules in which the counter exceeds \<open>MaxSize\<close>, a handed-over connection
  is lost, and a waiter sleeps beside an idle connection.
\<close>

section \<open>Configuration, entries, channels\<close>

record pool_config =
  MinSize :: nat
  MaxSize :: nat
  MaxLifetime :: int
  IdleTimeout :: int
  AlwaysReset :: bool
  HasAfterAcquire :: bool

record pool_entry =
  pe_conn :: nat
  pe_createdAt :: int
  pe_lastUsed :: int

datatype chan = ChanEmpty | ChanFull "pool_entry option" | ChanClosed

datatype acquire_error = PoolClosed | CtxErr | OpenErr | ResetErr

datatype acquire_result = Acquired nat | AcquireFailed acquire_error

text \<open>Where \<open>discard\<close> continues.\<close>

datatype after_discard = RetryLoop | ReturnErr acquire_error | ReleaseDone

datatype pc =
    Ready
  | Returned acquire_result
  | TryGet
  | Opening
  | Opened nat
  | OpenUndo acquire_error
  | Register
  | Wait nat
  | Cancelled nat
  | Got "pool_entry option"
  | Resetting pool_entry
  | AfterAcquiring pool_entry
  | CheckingOut pool_entry
  | Discarding pool_entry after_discard
  | Putting pool_entry
  | Expiring "pool_entry list"
  | Draining

datatype warm_pc = WarmLoop nat | WarmOpening nat | WarmOpened nat nat | WarmDone

record pool =
  idle :: "pool_entry list"
  checkedOut :: "pool_entry list"
  openCount :: int
  closed :: bool
  waiters :: "nat list"
  chans :: "chan list"
  nextConn :: nat
  closedConns :: "nat list"
  procs :: "pc list"
  warm :: warm_pc

section \<open>Locked sections\<close>

definition entryValid :: "pool_config \<Rightarrow> (nat \<Rightarrow> bool) \<Rightarrow> int \<Rightarrow> pool_entry option \<Rightarrow> bool" where
  "entryValid cfg alive now m =
     (case m of None \<Rightarrow> False
      | Some e \<Rightarrow>
          if \<not> alive (pe_conn e) then False
          else if MaxLifetime cfg > 0 \<and> now - pe_createdAt e > MaxLifetime cfg then False
          else if IdleTimeout cfg > 0 \<and> now - pe_lastUsed e > IdleTimeout cfg then False
          else True)"

text \<open>A send on a channel with a free buffer; it blocks on a full one and panics on a closed one,
  here both \<open>None\<close>.\<close>

definition send :: "nat \<Rightarrow> pool_entry option \<Rightarrow> pool \<Rightarrow> pool option" where
  "send ch m p =
     (if ch < length (chans p) \<and> chans p ! ch = ChanEmpty
      then Some (p\<lparr>chans := (chans p)[ch := ChanFull m]\<rparr>) else None)"

definition set_pc :: "nat \<Rightarrow> pc \<Rightarrow> pool \<Rightarrow> pool" where
  "set_pc t c p = p\<lparr>procs := (procs p)[t := c]\<rparr>"

definition dec_open :: "pool \<Rightarrow> pool" where
  "dec_open p = (if openCount p > 0 then p\<lparr>openCount := openCount p - 1\<rparr> else p)"

text \<open>A call of \<open>Conn.Close\<close> by the pool.\<close>

definition close_conn :: "nat \<Rightarrow> pool \<Rightarrow> pool" where
  "close_conn c p = p\<lparr>closedConns := c # closedConns p\<rparr>"

definition tryGet :: "pool_config \<Rightarrow> bool \<Rightarrow> nat \<Rightarrow> pool \<Rightarrow> pool" where
  "tryGet cfg ctxDone t p =
     (if ctxDone then set_pc t (Returned (AcquireFailed CtxErr)) p
      else if closed p then set_pc t (Returned (AcquireFailed PoolClosed)) p
      else if idle p \<noteq> [] then set_pc t (Got (Some (last (idle p)))) (p\<lparr>idle := butlast (idle p)\<rparr>)
      else if openCount p < int (MaxSize cfg)
      then set_pc t Opening (p\<lparr>openCount := openCount p + 1\<rparr>)
      else set_pc t Register p)"

text \<open>After \<open>Open\<close>: the failure branch, then the closed check that undoes a late open.\<close>

definition open_result :: "bool \<Rightarrow> nat \<Rightarrow> pool \<Rightarrow> pool" where
  "open_result ok t p =
     (if ok then set_pc t (Opened (nextConn p)) (p\<lparr>nextConn := Suc (nextConn p)\<rparr>)
      else set_pc t (OpenUndo OpenErr) p)"

definition open_check :: "int \<Rightarrow> nat \<Rightarrow> nat \<Rightarrow> pool \<Rightarrow> pool" where
  "open_check now c t p =
     (if closed p then set_pc t (OpenUndo PoolClosed) (close_conn c p)
      else set_pc t (Got (Some \<lparr>pe_conn = c, pe_createdAt = now, pe_lastUsed = now\<rparr>)) p)"

definition open_undo :: "acquire_error \<Rightarrow> nat \<Rightarrow> pool \<Rightarrow> pool" where
  "open_undo e t p = set_pc t (Returned (AcquireFailed e)) (p\<lparr>openCount := openCount p - 1\<rparr>)"

definition register_waiter :: "nat \<Rightarrow> pool \<Rightarrow> pool" where
  "register_waiter t p =
     (if closed p then set_pc t (Returned (AcquireFailed PoolClosed)) p
      else let ch = length (chans p)
           in set_pc t (Wait ch) (p\<lparr>chans := chans p @ [ChanEmpty], waiters := waiters p @ [ch]\<rparr>))"

definition receive :: "nat \<Rightarrow> nat \<Rightarrow> pool \<Rightarrow> pool option" where
  "receive ch t p =
     (if ch < length (chans p)
      then (case chans p ! ch of
              ChanEmpty \<Rightarrow> None
            | ChanFull m \<Rightarrow> Some (set_pc t (Got m) (p\<lparr>chans := (chans p)[ch := ChanEmpty]\<rparr>))
            | ChanClosed \<Rightarrow> Some (set_pc t (Returned (AcquireFailed PoolClosed)) p))
      else None)"

definition removeWaiter :: "nat \<Rightarrow> nat \<Rightarrow> pool \<Rightarrow> pool" where
  "removeWaiter ch t p =
     set_pc t (Returned (AcquireFailed CtxErr)) (p\<lparr>waiters := remove1 ch (waiters p)\<rparr>)"

definition after_reset :: "pool_config \<Rightarrow> pool_entry \<Rightarrow> pc" where
  "after_reset cfg e = (if HasAfterAcquire cfg then AfterAcquiring e else CheckingOut e)"

definition validate_entry ::
    "pool_config \<Rightarrow> (nat \<Rightarrow> bool) \<Rightarrow> int \<Rightarrow> pool_entry option \<Rightarrow> nat \<Rightarrow> pool \<Rightarrow> pool" where
  "validate_entry cfg alive now m t p =
     set_pc t (case m of None \<Rightarrow> TryGet
       | Some e \<Rightarrow> if \<not> entryValid cfg alive now m then Discarding e RetryLoop
                   else if AlwaysReset cfg then Resetting e
                   else after_reset cfg e) p"

definition checkout :: "int \<Rightarrow> pool_entry \<Rightarrow> nat \<Rightarrow> pool \<Rightarrow> pool" where
  "checkout now e t p =
     (let e' = e\<lparr>pe_lastUsed := now\<rparr>
      in if closed p then set_pc t (Discarding e' (ReturnErr PoolClosed)) p
         else set_pc t (Returned (Acquired (pe_conn e)))
                (p\<lparr>checkedOut := e' # filter (\<lambda>x. pe_conn x \<noteq> pe_conn e) (checkedOut p)\<rparr>))"

fun discard_next :: "after_discard \<Rightarrow> pc" where
  "discard_next RetryLoop = TryGet"
| "discard_next (ReturnErr e) = Returned (AcquireFailed e)"
| "discard_next ReleaseDone = Ready"

definition discardConn :: "pool_entry \<Rightarrow> after_discard \<Rightarrow> nat \<Rightarrow> pool \<Rightarrow> pool" where
  "discardConn e k t p = set_pc t (discard_next k) (dec_open (close_conn (pe_conn e) p))"

definition Release :: "nat \<Rightarrow> bool \<Rightarrow> bool \<Rightarrow> int \<Rightarrow> nat \<Rightarrow> pool \<Rightarrow> pool" where
  "Release c discard alive now t p =
     (case find (\<lambda>x. pe_conn x = c) (checkedOut p) of
        None \<Rightarrow> p
      | Some e \<Rightarrow>
          let q = p\<lparr>checkedOut := filter (\<lambda>x. pe_conn x \<noteq> c) (checkedOut p)\<rparr>
          in if discard \<or> \<not> alive then set_pc t (Discarding e ReleaseDone) q
             else set_pc t (Putting (e\<lparr>pe_lastUsed := now\<rparr>)) q)"

definition releaseInternal :: "pool_entry \<Rightarrow> nat \<Rightarrow> pool \<Rightarrow> pool option" where
  "releaseInternal e t p =
     (if closed p then Some (set_pc t Ready (dec_open (close_conn (pe_conn e) p)))
      else case waiters p of
        ch # ws \<Rightarrow> send ch (Some e) (set_pc t Ready (p\<lparr>waiters := ws\<rparr>))
      | [] \<Rightarrow> Some (set_pc t Ready (p\<lparr>idle := idle p @ [e]\<rparr>)))"

definition cleanup_scan :: "pool_config \<Rightarrow> (nat \<Rightarrow> bool) \<Rightarrow> int \<Rightarrow> nat \<Rightarrow> pool \<Rightarrow> pool" where
  "cleanup_scan cfg alive now t p =
     (let ok = (\<lambda>e. entryValid cfg alive now (Some e))
      in set_pc t (Expiring (filter (\<lambda>e. \<not> ok e) (idle p))) (p\<lparr>idle := filter ok (idle p)\<rparr>))"

definition cleanup_one :: "pool_config \<Rightarrow> pool_entry list \<Rightarrow> nat \<Rightarrow> pool \<Rightarrow> pool option" where
  "cleanup_one cfg es t p =
     (case es of
        [] \<Rightarrow> Some (set_pc t Ready p)
      | e # es' \<Rightarrow>
          let q = set_pc t (Expiring es') (dec_open (close_conn (pe_conn e) p))
          in if openCount q < int (MaxSize cfg) \<and> waiters q \<noteq> []
             then send (hd (waiters q)) None (q\<lparr>waiters := tl (waiters q)\<rparr>)
             else Some q)"

definition close_cas :: "nat \<Rightarrow> pool \<Rightarrow> pool" where
  "close_cas t p = (if closed p then p else set_pc t Draining (p\<lparr>closed := True\<rparr>))"

definition close_chans :: "nat list \<Rightarrow> chan list \<Rightarrow> chan list" where
  "close_chans ws cs = foldl (\<lambda>cs w. cs[w := ChanClosed]) cs ws"

definition close_drain :: "nat \<Rightarrow> pool \<Rightarrow> pool" where
  "close_drain t p =
     (let n = openCount p - int (length (idle p))
      in set_pc t Ready (p\<lparr>idle := [], openCount := (if n < 0 then 0 else n),
           closedConns := map pe_conn (idle p) @ closedConns p,
           chans := close_chans (waiters p) (chans p), waiters := []\<rparr>))"

section \<open>Warm-up\<close>

definition warm_loop :: "pool_config \<Rightarrow> nat \<Rightarrow> pool \<Rightarrow> pool" where
  "warm_loop cfg i p = p\<lparr>warm := (if i < MinSize cfg then (if closed p then WarmDone else WarmOpening i)
                                   else WarmDone)\<rparr>"

definition warm_open :: "bool \<Rightarrow> nat \<Rightarrow> pool \<Rightarrow> pool" where
  "warm_open ok i p =
     (if ok then p\<lparr>warm := WarmOpened i (nextConn p), nextConn := Suc (nextConn p)\<rparr>
      else p\<lparr>warm := WarmDone\<rparr>)"

definition warm_add :: "int \<Rightarrow> nat \<Rightarrow> nat \<Rightarrow> pool \<Rightarrow> pool" where
  "warm_add now i c p =
     (if closed p then (close_conn c p)\<lparr>warm := WarmDone\<rparr>
      else p\<lparr>openCount := openCount p + 1,
             idle := idle p @ [\<lparr>pe_conn = c, pe_createdAt = now, pe_lastUsed = now\<rparr>],
             warm := WarmLoop (Suc i)\<rparr>)"

section \<open>Statistics, intervals, construction\<close>

record pool_stats =
  ps_Open :: int
  ps_Idle :: nat
  ps_Waiters :: nat

definition Stats :: "pool \<Rightarrow> pool_stats" where
  "Stats p = \<lparr>ps_Open = openCount p, ps_Idle = length (idle p), ps_Waiters = length (waiters p)\<rparr>"

text \<open>Durations are nanoseconds; Go's \<open>/\<close> truncates, which is \<open>div\<close> on the positive values here.\<close>

definition minPositive :: "int \<Rightarrow> int \<Rightarrow> int" where
  "minPositive a b = (if a \<le> 0 then b else if b \<le> 0 then a else if a < b then a else b)"

definition cleanupInterval :: "pool_config \<Rightarrow> int" where
  "cleanupInterval cfg =
     (let d = minPositive (IdleTimeout cfg) (MaxLifetime cfg)
      in if d \<le> 0 then 30000000000 else if d \<le> 2000000 then d else d div 2)"

text \<open>The ticker needs a positive interval, and a timeout is checked at least once per period.\<close>

lemma cleanupInterval_bounds:
  "0 < cleanupInterval cfg"
  "0 < IdleTimeout cfg \<Longrightarrow> cleanupInterval cfg \<le> IdleTimeout cfg"
  "0 < MaxLifetime cfg \<Longrightarrow> cleanupInterval cfg \<le> MaxLifetime cfg"
  by (auto simp: cleanupInterval_def minPositive_def Let_def)

text \<open>How \<open>Do\<close> releases: the connection is discarded after a panic or an error of the callback.\<close>

datatype do_outcome = Panicked | ReturnedErr | ReturnedNil

definition do_discard :: "do_outcome \<Rightarrow> bool" where
  "do_discard r = (case r of Panicked \<Rightarrow> True | ReturnedErr \<Rightarrow> True | ReturnedNil \<Rightarrow> False)"

section \<open>Steps\<close>

text \<open>An event names a goroutine and carries what the environment decides: contexts that are done,
  outcomes of calls out of the pool, liveness of connections, the clock.\<close>

datatype event =
    CallAcquire nat
  | DoTryGet nat bool
  | DoOpen nat bool
  | DoOpenCheck nat int
  | DoOpenUndo nat
  | DoRegister nat
  | DoReceive nat
  | CtxDone nat
  | DoRemoveWaiter nat
  | DoValidate nat "nat \<Rightarrow> bool" int
  | DoReset nat bool
  | DoAfterAcquire nat bool
  | DoCheckout nat int
  | DoDiscard nat
  | CallRelease nat nat bool bool int
  | DoPut nat
  | CleanupTick nat "nat \<Rightarrow> bool" int
  | DoCleanup nat
  | CallClose nat
  | DoDrain nat
  | WarmNext
  | WarmOpen bool
  | WarmAdd int

definition is_free :: "pc \<Rightarrow> bool" where
  "is_free c = (case c of Ready \<Rightarrow> True | Returned _ \<Rightarrow> True | _ \<Rightarrow> False)"

fun pool_step :: "pool_config \<Rightarrow> event \<Rightarrow> pool \<Rightarrow> pool option" where
  "pool_step cfg (CallAcquire t) p =
     (if t < length (procs p) \<and> is_free (procs p ! t)
      then Some (set_pc t (if closed p then Returned (AcquireFailed PoolClosed) else TryGet) p) else None)"
| "pool_step cfg (DoTryGet t d) p =
     (if t < length (procs p) \<and> procs p ! t = TryGet then Some (tryGet cfg d t p) else None)"
| "pool_step cfg (DoOpen t ok) p =
     (if t < length (procs p) \<and> procs p ! t = Opening then Some (open_result ok t p) else None)"
| "pool_step cfg (DoOpenCheck t now) p =
     (if t < length (procs p) then (case procs p ! t of Opened c \<Rightarrow> Some (open_check now c t p) | _ \<Rightarrow> None)
      else None)"
| "pool_step cfg (DoOpenUndo t) p =
     (if t < length (procs p) then (case procs p ! t of OpenUndo e \<Rightarrow> Some (open_undo e t p) | _ \<Rightarrow> None)
      else None)"
| "pool_step cfg (DoRegister t) p =
     (if t < length (procs p) \<and> procs p ! t = Register then Some (register_waiter t p) else None)"
| "pool_step cfg (DoReceive t) p =
     (if t < length (procs p) then (case procs p ! t of Wait ch \<Rightarrow> receive ch t p | _ \<Rightarrow> None) else None)"
| "pool_step cfg (CtxDone t) p =
     (if t < length (procs p) then (case procs p ! t of Wait ch \<Rightarrow> Some (set_pc t (Cancelled ch) p) | _ \<Rightarrow> None)
      else None)"
| "pool_step cfg (DoRemoveWaiter t) p =
     (if t < length (procs p) then (case procs p ! t of Cancelled ch \<Rightarrow> Some (removeWaiter ch t p) | _ \<Rightarrow> None)
      else None)"
| "pool_step cfg (DoValidate t alive now) p =
     (if t < length (procs p) then (case procs p ! t of Got m \<Rightarrow> Some (validate_entry cfg alive now m t p) | _ \<Rightarrow> None)
      else None)"
| "pool_step cfg (DoReset t ok) p =
     (if t < length (procs p)
      then (case procs p ! t of
              Resetting e \<Rightarrow> Some (set_pc t (if ok then after_reset cfg e else Discarding e (ReturnErr ResetErr)) p)
            | _ \<Rightarrow> None)
      else None)"
| "pool_step cfg (DoAfterAcquire t ok) p =
     (if t < length (procs p)
      then (case procs p ! t of
              AfterAcquiring e \<Rightarrow> Some (set_pc t (if ok then CheckingOut e else Discarding e RetryLoop) p)
            | _ \<Rightarrow> None)
      else None)"
| "pool_step cfg (DoCheckout t now) p =
     (if t < length (procs p) then (case procs p ! t of CheckingOut e \<Rightarrow> Some (checkout now e t p) | _ \<Rightarrow> None)
      else None)"
| "pool_step cfg (DoDiscard t) p =
     (if t < length (procs p) then (case procs p ! t of Discarding e k \<Rightarrow> Some (discardConn e k t p) | _ \<Rightarrow> None)
      else None)"
| "pool_step cfg (CallRelease t c d alive now) p =
     (if t < length (procs p) \<and> is_free (procs p ! t) then Some (Release c d alive now t p) else None)"
| "pool_step cfg (DoPut t) p =
     (if t < length (procs p) then (case procs p ! t of Putting e \<Rightarrow> releaseInternal e t p | _ \<Rightarrow> None) else None)"
| "pool_step cfg (CleanupTick t alive now) p =
     (if t < length (procs p) \<and> is_free (procs p ! t) then Some (cleanup_scan cfg alive now t p) else None)"
| "pool_step cfg (DoCleanup t) p =
     (if t < length (procs p) then (case procs p ! t of Expiring es \<Rightarrow> cleanup_one cfg es t p | _ \<Rightarrow> None) else None)"
| "pool_step cfg (CallClose t) p =
     (if t < length (procs p) \<and> is_free (procs p ! t) then Some (close_cas t p) else None)"
| "pool_step cfg (DoDrain t) p =
     (if t < length (procs p) \<and> procs p ! t = Draining then Some (close_drain t p) else None)"
| "pool_step cfg WarmNext p = (case warm p of WarmLoop i \<Rightarrow> Some (warm_loop cfg i p) | _ \<Rightarrow> None)"
| "pool_step cfg (WarmOpen ok) p = (case warm p of WarmOpening i \<Rightarrow> Some (warm_open ok i p) | _ \<Rightarrow> None)"
| "pool_step cfg (WarmAdd now) p = (case warm p of WarmOpened i c \<Rightarrow> Some (warm_add now i c p) | _ \<Rightarrow> None)"

definition new_pool :: "nat \<Rightarrow> pool" where
  "new_pool n = \<lparr>idle = [], checkedOut = [], openCount = 0, closed = False, waiters = [], chans = [],
     nextConn = 0, closedConns = [], procs = replicate n Ready, warm = WarmLoop 0\<rparr>"

fun run_events :: "pool_config \<Rightarrow> event list \<Rightarrow> pool \<Rightarrow> pool option" where
  "run_events cfg [] p = Some p"
| "run_events cfg (e # es) p = (case pool_step cfg e p of None \<Rightarrow> None | Some q \<Rightarrow> run_events cfg es q)"

inductive reachable :: "pool_config \<Rightarrow> pool \<Rightarrow> bool" for cfg where
  start: "reachable cfg (new_pool n)"
| step: "reachable cfg p \<Longrightarrow> pool_step cfg ev p = Some q \<Longrightarrow> reachable cfg q"

lemma reachable_run: "reachable cfg p \<Longrightarrow> run_events cfg es p = Some q \<Longrightarrow> reachable cfg q"
  by (induction es arbitrary: p) (auto split: option.splits intro: reachable.step)

section \<open>Facts on the record updates\<close>

lemmas op_defs = tryGet_def open_result_def open_check_def open_undo_def register_waiter_def
  receive_def removeWaiter_def validate_entry_def after_reset_def checkout_def discardConn_def
  Release_def releaseInternal_def cleanup_scan_def cleanup_one_def close_cas_def close_drain_def
  warm_loop_def warm_open_def warm_add_def send_def set_pc_def dec_open_def close_conn_def Let_def

lemma length_close_chans [simp]: "length (close_chans ws cs) = length cs"
  by (induction ws arbitrary: cs) (simp_all add: close_chans_def)

lemma close_chans_other: "w \<notin> set ws \<Longrightarrow> close_chans ws cs ! w = cs ! w"
  by (induction ws arbitrary: cs) (simp_all add: close_chans_def)

lemma close_chans_member: "w \<in> set ws \<Longrightarrow> w < length cs \<Longrightarrow> close_chans ws cs ! w = ChanClosed"
proof (induction ws arbitrary: cs)
  case (Cons v ws)
  show ?case
  proof (cases "w \<in> set ws")
    case True
    then show ?thesis using Cons by (simp add: close_chans_def)
  next
    case False
    then show ?thesis
      using Cons.prems close_chans_other [OF False, of "cs[v := ChanClosed]"] by (simp add: close_chans_def)
  qed
qed simp

section \<open>Channels\<close>

text \<open>The channel a goroutine listens on or is about to deregister.\<close>

fun pc_chan :: "pc \<Rightarrow> nat option" where
  "pc_chan (Wait ch) = Some ch"
| "pc_chan (Cancelled ch) = Some ch"
| "pc_chan _ = None"

definition chans_ok :: "nat list \<Rightarrow> chan list \<Rightarrow> pc list \<Rightarrow> bool" where
  "chans_ok ws cs ps \<longleftrightarrow> distinct ws \<and>
     (\<forall>w \<in> set ws. w < length cs \<and> cs ! w = ChanEmpty) \<and>
     (\<forall>t ch. t < length ps \<longrightarrow> pc_chan (ps ! t) = Some ch \<longrightarrow> ch < length cs) \<and>
     (\<forall>t u ch. t < length ps \<longrightarrow> u < length ps \<longrightarrow> pc_chan (ps ! t) = Some ch \<longrightarrow>
        pc_chan (ps ! u) = Some ch \<longrightarrow> t = u) \<and>
     (\<forall>t ch. t < length ps \<longrightarrow> ps ! t = Wait ch \<longrightarrow> ch \<in> set ws \<or> cs ! ch \<noteq> ChanEmpty)"

lemma chans_okI:
  assumes "distinct ws" "\<And>w. w \<in> set ws \<Longrightarrow> w < length cs \<and> cs ! w = ChanEmpty"
    "\<And>t ch. t < length ps \<Longrightarrow> pc_chan (ps ! t) = Some ch \<Longrightarrow> ch < length cs"
    "\<And>t u ch. t < length ps \<Longrightarrow> u < length ps \<Longrightarrow> pc_chan (ps ! t) = Some ch \<Longrightarrow>
        pc_chan (ps ! u) = Some ch \<Longrightarrow> t = u"
    "\<And>t ch. t < length ps \<Longrightarrow> ps ! t = Wait ch \<Longrightarrow> ch \<in> set ws \<or> cs ! ch \<noteq> ChanEmpty"
  shows "chans_ok ws cs ps"
  unfolding chans_ok_def using assms by blast

lemma chans_okD:
  assumes "chans_ok ws cs ps"
  shows "distinct ws" "w \<in> set ws \<Longrightarrow> w < length cs" "w \<in> set ws \<Longrightarrow> cs ! w = ChanEmpty"
    "t < length ps \<Longrightarrow> pc_chan (ps ! t) = Some ch \<Longrightarrow> ch < length cs"
    "t < length ps \<Longrightarrow> u < length ps \<Longrightarrow> pc_chan (ps ! t) = Some ch \<Longrightarrow> pc_chan (ps ! u) = Some ch \<Longrightarrow> t = u"
    "t < length ps \<Longrightarrow> ps ! t = Wait ch \<Longrightarrow> ch \<in> set ws \<or> cs ! ch \<noteq> ChanEmpty"
  using assms unfolding chans_ok_def by blast+

lemma chans_ok_pc:
  assumes "chans_ok ws cs ps" "pc_chan c = None"
  shows "chans_ok ws cs (ps[t := c])"
proof (rule chans_okI)
  note d = chans_okD [OF assms(1)]
  show "distinct ws" by (rule d)
  show "w \<in> set ws \<Longrightarrow> w < length cs \<and> cs ! w = ChanEmpty" for w using d by blast
  show "u < length (ps[t := c]) \<Longrightarrow> pc_chan (ps[t := c] ! u) = Some ch \<Longrightarrow> ch < length cs" for u ch
    using d(4) [of u ch] assms(2) by (cases "u = t") simp_all
  show "u < length (ps[t := c]) \<Longrightarrow> v < length (ps[t := c]) \<Longrightarrow> pc_chan (ps[t := c] ! u) = Some ch \<Longrightarrow>
      pc_chan (ps[t := c] ! v) = Some ch \<Longrightarrow> u = v" for u v ch
    using d(5) [of u v ch] assms(2) by (cases "u = t"; cases "v = t") simp_all
  show "u < length (ps[t := c]) \<Longrightarrow> ps[t := c] ! u = Wait ch \<Longrightarrow> ch \<in> set ws \<or> cs ! ch \<noteq> ChanEmpty" for u ch
    using d(6) [of u ch] assms(2) by (cases "u = t") auto
qed

lemma chans_ok_register:
  assumes "chans_ok ws cs ps" "t < length ps"
  shows "chans_ok (ws @ [length cs]) (cs @ [ChanEmpty]) (ps[t := Wait (length cs)])"
proof (rule chans_okI)
  note d = chans_okD [OF assms(1)]
  show "distinct (ws @ [length cs])" using d(1,2) by auto
  show "w \<in> set (ws @ [length cs]) \<Longrightarrow> w < length (cs @ [ChanEmpty]) \<and> (cs @ [ChanEmpty]) ! w = ChanEmpty" for w
    using d(2,3) [of w] by (auto simp: nth_append)
  show "u < length (ps[t := Wait (length cs)]) \<Longrightarrow> pc_chan (ps[t := Wait (length cs)] ! u) = Some ch \<Longrightarrow>
      ch < length (cs @ [ChanEmpty])" for u ch
    using d(4) [of u ch] by (cases "u = t") auto
  show "u < length (ps[t := Wait (length cs)]) \<Longrightarrow> v < length (ps[t := Wait (length cs)]) \<Longrightarrow>
      pc_chan (ps[t := Wait (length cs)] ! u) = Some ch \<Longrightarrow> pc_chan (ps[t := Wait (length cs)] ! v) = Some ch \<Longrightarrow> u = v"
    for u v ch
    using d(5) [of u v ch] d(4) [of u ch] d(4) [of v ch] by (cases "u = t"; cases "v = t") auto
  show "u < length (ps[t := Wait (length cs)]) \<Longrightarrow> ps[t := Wait (length cs)] ! u = Wait ch \<Longrightarrow>
      ch \<in> set (ws @ [length cs]) \<or> (cs @ [ChanEmpty]) ! ch \<noteq> ChanEmpty" for u ch
    using d(6) [of u ch] d(4) [of u ch] by (cases "u = t") (auto simp: nth_append)
qed

lemma chans_ok_receive:
  assumes "chans_ok ws cs ps" "t < length ps" "ps ! t = Wait ch"
  shows "chans_ok ws (cs[ch := ChanEmpty]) (ps[t := Got m])"
proof (rule chans_okI)
  note d = chans_okD [OF chans_ok_pc [OF assms(1), where c = "Got m" and t = t]]
  note d0 = chans_okD [OF assms(1)]
  show "distinct ws" by (rule d0)
  show "w \<in> set ws \<Longrightarrow> w < length (cs[ch := ChanEmpty]) \<and> cs[ch := ChanEmpty] ! w = ChanEmpty" for w
    using d0(2,3) [of w] by (cases "w = ch") auto
  show "u < length (ps[t := Got m]) \<Longrightarrow> pc_chan (ps[t := Got m] ! u) = Some c \<Longrightarrow> c < length (cs[ch := ChanEmpty])" for u c
    using d(4) [of u c] by simp
  show "u < length (ps[t := Got m]) \<Longrightarrow> v < length (ps[t := Got m]) \<Longrightarrow> pc_chan (ps[t := Got m] ! u) = Some c \<Longrightarrow>
      pc_chan (ps[t := Got m] ! v) = Some c \<Longrightarrow> u = v" for u v c
    using d(5) [of u v c] by simp
  show "u < length (ps[t := Got m]) \<Longrightarrow> ps[t := Got m] ! u = Wait c \<Longrightarrow> c \<in> set ws \<or> cs[ch := ChanEmpty] ! c \<noteq> ChanEmpty" for u c
    using d0(6) [of u c] d0(5) [of u t ch] assms(2,3) by (cases "u = t"; cases "c = ch") auto
qed

lemma chans_ok_cancel:
  assumes "chans_ok ws cs ps" "t < length ps" "ps ! t = Wait ch"
  shows "chans_ok ws cs (ps[t := Cancelled ch])"
proof (rule chans_okI)
  note d = chans_okD [OF assms(1)]
  have pc: "pc_chan (ps[t := Cancelled ch] ! u) = pc_chan (ps ! u)" if "u < length ps" for u
    using assms that by (cases "u = t") auto
  show "distinct ws" by (rule d)
  show "w \<in> set ws \<Longrightarrow> w < length cs \<and> cs ! w = ChanEmpty" for w using d by blast
  show "u < length (ps[t := Cancelled ch]) \<Longrightarrow> pc_chan (ps[t := Cancelled ch] ! u) = Some c \<Longrightarrow> c < length cs" for u c
    using d(4) [of u c] pc [of u] by simp
  show "u < length (ps[t := Cancelled ch]) \<Longrightarrow> v < length (ps[t := Cancelled ch]) \<Longrightarrow>
      pc_chan (ps[t := Cancelled ch] ! u) = Some c \<Longrightarrow> pc_chan (ps[t := Cancelled ch] ! v) = Some c \<Longrightarrow> u = v" for u v c
    using d(5) [of u v c] pc [of u] pc [of v] by simp
  show "u < length (ps[t := Cancelled ch]) \<Longrightarrow> ps[t := Cancelled ch] ! u = Wait c \<Longrightarrow> c \<in> set ws \<or> cs ! c \<noteq> ChanEmpty" for u c
    using d(6) [of u c] by (cases "u = t") auto
qed

lemma chans_ok_remove:
  assumes "chans_ok ws cs ps" "t < length ps" "ps ! t = Cancelled ch" "pc_chan c = None"
  shows "chans_ok (remove1 ch ws) cs (ps[t := c])"
proof (rule chans_okI)
  note d = chans_okD [OF chans_ok_pc [OF assms(1,4), of t]]
  note d0 = chans_okD [OF assms(1)]
  show "distinct (remove1 ch ws)" using d0(1) by simp
  show "w \<in> set (remove1 ch ws) \<Longrightarrow> w < length cs \<and> cs ! w = ChanEmpty" for w using d0 notin_set_remove1 by metis
  show "u < length (ps[t := c]) \<Longrightarrow> pc_chan (ps[t := c] ! u) = Some a \<Longrightarrow> a < length cs" for u a by (rule d(4))
  show "u < length (ps[t := c]) \<Longrightarrow> v < length (ps[t := c]) \<Longrightarrow> pc_chan (ps[t := c] ! u) = Some a \<Longrightarrow>
      pc_chan (ps[t := c] ! v) = Some a \<Longrightarrow> u = v" for u v a by (rule d(5))
  show "u < length (ps[t := c]) \<Longrightarrow> ps[t := c] ! u = Wait a \<Longrightarrow> a \<in> set (remove1 ch ws) \<or> cs ! a \<noteq> ChanEmpty" for u a
    using d0(6) [of u a] d0(5) [of u t ch] assms by (cases "u = t"; cases "a = ch") auto
qed

lemma chans_ok_send:
  assumes "chans_ok (ch # ws) cs ps"
  shows "chans_ok ws (cs[ch := ChanFull m]) ps"
proof (rule chans_okI)
  note d = chans_okD [OF assms]
  show "distinct ws" using d(1) by simp
  show "w \<in> set ws \<Longrightarrow> w < length (cs[ch := ChanFull m]) \<and> cs[ch := ChanFull m] ! w = ChanEmpty" for w
    using d(1) d(2,3) [of w] by (cases "w = ch") auto
  show "u < length ps \<Longrightarrow> pc_chan (ps ! u) = Some c \<Longrightarrow> c < length (cs[ch := ChanFull m])" for u c
    using d(4) by simp
  show "u < length ps \<Longrightarrow> v < length ps \<Longrightarrow> pc_chan (ps ! u) = Some c \<Longrightarrow> pc_chan (ps ! v) = Some c \<Longrightarrow> u = v" for u v c
    by (rule d(5))
  show "u < length ps \<Longrightarrow> ps ! u = Wait c \<Longrightarrow> c \<in> set ws \<or> cs[ch := ChanFull m] ! c \<noteq> ChanEmpty" for u c
    using d(6) [of u c] d(2) [of ch] by (auto simp: nth_list_update)
qed

lemma chans_ok_close:
  assumes "chans_ok ws cs ps"
  shows "chans_ok [] (close_chans ws cs) ps"
proof (rule chans_okI)
  note d = chans_okD [OF assms]
  show "distinct []" by simp
  show "u < length ps \<Longrightarrow> pc_chan (ps ! u) = Some c \<Longrightarrow> c < length (close_chans ws cs)" for u c
    using d(4) by simp
  show "u < length ps \<Longrightarrow> v < length ps \<Longrightarrow> pc_chan (ps ! u) = Some c \<Longrightarrow> pc_chan (ps ! v) = Some c \<Longrightarrow> u = v" for u v c
    by (rule d(5))
  show "u < length ps \<Longrightarrow> ps ! u = Wait c \<Longrightarrow> c \<in> set [] \<or> close_chans ws cs ! c \<noteq> ChanEmpty" for u c
    using d(6) [of u c] d(2) close_chans_member [of c ws cs] close_chans_other [of c ws cs] by (cases "c \<in> set ws") auto
qed simp

definition chans_wf :: "pool \<Rightarrow> bool" where
  "chans_wf p \<longleftrightarrow> chans_ok (waiters p) (chans p) (procs p)"

lemma pc_chan_after_reset [simp]: "pc_chan (after_reset cfg e) = None"
  by (simp add: after_reset_def)

lemma pc_chan_discard_next [simp]: "pc_chan (discard_next k) = None"
  by (cases k) simp_all

lemmas step_defs = tryGet_def open_result_def open_check_def open_undo_def register_waiter_def
  receive_def removeWaiter_def validate_entry_def checkout_def discardConn_def
  Release_def releaseInternal_def cleanup_scan_def cleanup_one_def close_cas_def close_drain_def
  warm_loop_def warm_open_def warm_add_def send_def set_pc_def dec_open_def close_conn_def Let_def

lemma chans_ok_send_hd:
  "chans_ok ws cs ps \<Longrightarrow> ws \<noteq> [] \<Longrightarrow> chans_ok (tl ws) (cs[hd ws := ChanFull m]) ps"
  using chans_ok_send [of "hd ws" "tl ws" cs ps m] by simp

lemmas chans_ok_simps = chans_ok_pc chans_ok_register chans_ok_receive chans_ok_cancel chans_ok_remove
  chans_ok_send chans_ok_send_hd chans_ok_close

lemma chans_wf_step:
  assumes "pool_step cfg ev p = Some q" "chans_wf p"
  shows "chans_wf q"
  using assms unfolding chans_wf_def
  by (cases ev) (auto simp: step_defs chans_ok_simps
      split: if_splits pc.splits option.splits list.splits chan.splits warm_pc.splits)

section \<open>Where the connections are\<close>

definition occ :: "nat \<Rightarrow> pool_entry list \<Rightarrow> int" where
  "occ c es = (\<Sum>e\<leftarrow>es. if pe_conn e = c then 1 else 0)"

fun pc_occ :: "nat \<Rightarrow> pc \<Rightarrow> int" where
  "pc_occ c (Opened d) = (if d = c then 1 else 0)"
| "pc_occ c (Got (Some e)) = occ c [e]"
| "pc_occ c (Resetting e) = occ c [e]"
| "pc_occ c (AfterAcquiring e) = occ c [e]"
| "pc_occ c (CheckingOut e) = occ c [e]"
| "pc_occ c (Discarding e _) = occ c [e]"
| "pc_occ c (Putting e) = occ c [e]"
| "pc_occ c (Expiring es) = occ c es"
| "pc_occ c _ = 0"

fun chan_occ :: "nat \<Rightarrow> chan \<Rightarrow> int" where
  "chan_occ c (ChanFull (Some e)) = occ c [e]"
| "chan_occ c _ = 0"

fun warm_occ :: "nat \<Rightarrow> warm_pc \<Rightarrow> int" where
  "warm_occ c (WarmOpened _ d) = (if d = c then 1 else 0)"
| "warm_occ c _ = 0"

definition conn_occ :: "nat \<Rightarrow> pool \<Rightarrow> int" where
  "conn_occ c p = occ c (idle p) + occ c (checkedOut p) + (\<Sum>x\<leftarrow>procs p. pc_occ c x) +
     (\<Sum>x\<leftarrow>chans p. chan_occ c x) + warm_occ c (warm p) + int (count_list (closedConns p) c)"

text \<open>Opened connections that \<open>openCount\<close> counts, and opens in progress.\<close>

fun pc_slots :: "pc \<Rightarrow> int" where
  "pc_slots Opening = 1"
| "pc_slots (Opened _) = 1"
| "pc_slots (OpenUndo _) = 1"
| "pc_slots (Got (Some _)) = 1"
| "pc_slots (Resetting _) = 1"
| "pc_slots (AfterAcquiring _) = 1"
| "pc_slots (CheckingOut _) = 1"
| "pc_slots (Discarding _ _) = 1"
| "pc_slots (Putting _) = 1"
| "pc_slots (Expiring es) = int (length es)"
| "pc_slots _ = 0"

fun chan_slots :: "chan \<Rightarrow> int" where
  "chan_slots (ChanFull (Some _)) = 1"
| "chan_slots _ = 0"

definition slots :: "pool \<Rightarrow> int" where
  "slots p = int (length (idle p)) + int (length (checkedOut p)) + (\<Sum>x\<leftarrow>procs p. pc_slots x) +
     (\<Sum>x\<leftarrow>chans p. chan_slots x)"

lemma sum_list_set [simp]:
  "i < length xs \<Longrightarrow> (\<Sum>x\<leftarrow>xs[i := y]. f x) = (\<Sum>x\<leftarrow>xs. f x) - f (xs ! i) + (f y :: int)"
  by (induction xs arbitrary: i) (auto split: nat.split)

lemma sum_list_nonneg_int: "(\<And>x. 0 \<le> f x) \<Longrightarrow> 0 \<le> (\<Sum>x\<leftarrow>xs. f x :: int)"
  by (induction xs) (simp_all add: add_nonneg_nonneg)

lemma sum_list_member_le: "i < length xs \<Longrightarrow> (\<And>x. 0 \<le> f x) \<Longrightarrow> f (xs ! i) \<le> (\<Sum>x\<leftarrow>xs. f x :: int)"
proof (induction xs arbitrary: i)
  case (Cons a xs)
  have "0 \<le> (\<Sum>x\<leftarrow>xs. f x)" using Cons.prems(2) by (rule sum_list_nonneg_int)
  with Cons show ?case by (cases i) (auto intro: add_increasing)
qed simp

lemma occ_simps [simp]:
  "occ c [] = 0" "occ c (e # es) = (if pe_conn e = c then 1 else 0) + occ c es"
  "occ c (es @ fs) = occ c es + occ c fs"
  by (simp_all add: occ_def)

lemma count_map_conn [simp]: "int (count_list (map pe_conn es) c) = occ c es"
  by (induction es) simp_all

lemma int_length_pred [simp]: "es \<noteq> [] \<Longrightarrow> int (length es - Suc 0) = int (length es) - 1"
  by (cases es) simp_all

lemma occ_nonneg [simp]: "0 \<le> occ c es"
  by (induction es) simp_all

lemma occ_filter: "occ c (filter P es) + occ c (filter (\<lambda>e. \<not> P e) es) = occ c es"
  by (induction es) auto

lemma occ_butlast: "es \<noteq> [] \<Longrightarrow> occ c (butlast es) = occ c es - (if pe_conn (last es) = c then 1 else 0)"
  using occ_simps(3) [of c "butlast es" "[last es]"] by simp

lemma occ_zero_filter: "occ c es = 0 \<Longrightarrow> filter (\<lambda>x. pe_conn x \<noteq> c) es = es"
  by (induction es) (auto split: if_splits, smt (verit) occ_nonneg)

lemma occ_find:
  "find (\<lambda>x. pe_conn x = c) es = Some e \<Longrightarrow> occ c es \<le> 1 \<Longrightarrow>
   pe_conn e = c \<and> occ d es = occ d (filter (\<lambda>x. pe_conn x \<noteq> c) es) + (if d = c then 1 else 0) \<and>
   length es = Suc (length (filter (\<lambda>x. pe_conn x \<noteq> c) es))"
proof (induction es)
  case (Cons x es)
  show ?case
  proof (cases "pe_conn x = c")
    case True
    with Cons.prems have "occ c es \<le> 0" by simp
    then have "occ c es = 0" using occ_nonneg [of c es] by (rule order.antisym)
    then have "filter (\<lambda>x. pe_conn x \<noteq> c) es = es" by (rule occ_zero_filter)
    with True Cons.prems show ?thesis by auto
  next
    case False
    with Cons show ?thesis by auto
  qed
qed simp

lemma pc_occ_nonneg [simp]: "0 \<le> pc_occ c x"
  by (induction c x rule: pc_occ.induct) simp_all

lemma chan_occ_nonneg [simp]: "0 \<le> chan_occ c x"
  by (induction c x rule: chan_occ.induct) simp_all

lemma warm_occ_nonneg [simp]: "0 \<le> warm_occ c x"
  by (induction c x rule: warm_occ.induct) simp_all

lemma pc_slots_nonneg [simp]: "0 \<le> pc_slots x"
  by (induction x rule: pc_slots.induct) simp_all

lemma chan_slots_nonneg [simp]: "0 \<le> chan_slots x"
  by (induction x rule: chan_slots.induct) simp_all

lemma pc_after_reset [simp]:
  "pc_occ c (after_reset cfg e) = occ c [e]" "pc_slots (after_reset cfg e) = 1"
  by (simp_all add: after_reset_def)

lemma pc_discard_next [simp]: "pc_occ c (discard_next k) = 0" "pc_slots (discard_next k) = 0"
  by (cases k; simp)+

lemma got_full: "pc_occ c (Got m) = chan_occ c (ChanFull m)" "pc_slots (Got m) = chan_slots (ChanFull m)"
  by (cases m; simp)+

lemma is_free_zero: "is_free x \<Longrightarrow> pc_occ c x = 0 \<and> pc_slots x = 0"
  by (cases x) (simp_all add: is_free_def)

lemma sum_close_chans:
  "(\<forall>w \<in> set ws. w < length cs \<and> (f (cs ! w) :: int) = 0) \<Longrightarrow> f ChanClosed = 0 \<Longrightarrow>
   (\<Sum>x\<leftarrow>close_chans ws cs. f x) = (\<Sum>x\<leftarrow>cs. f x)"
proof (induction ws arbitrary: cs)
  case (Cons w ws)
  have "(\<Sum>x\<leftarrow>close_chans ws (cs[w := ChanClosed]). f x) = (\<Sum>x\<leftarrow>cs[w := ChanClosed]. f x)"
    using Cons.prems by (intro Cons.IH) (auto simp: nth_list_update)
  then show ?case using Cons.prems by (simp add: close_chans_def)
qed (simp add: close_chans_def)

section \<open>The invariant\<close>

definition pool_inv :: "pool_config \<Rightarrow> pool \<Rightarrow> bool" where
  "pool_inv cfg p \<longleftrightarrow> chans_wf p \<and>
     (\<forall>c. conn_occ c p = (if c < nextConn p then 1 else 0)) \<and> openCount p = slots p"

lemma conn_occ_le:
  assumes "conn_occ c p \<le> 1"
  shows "occ c (checkedOut p) \<le> 1"
    "t < length (procs p) \<Longrightarrow> pc_occ c (procs p ! t) = 1 \<Longrightarrow> occ c (checkedOut p) = 0"
proof -
  have n: "0 \<le> occ c (idle p)" "0 \<le> occ c (checkedOut p)" "0 \<le> (\<Sum>x\<leftarrow>procs p. pc_occ c x)"
    "0 \<le> (\<Sum>x\<leftarrow>chans p. chan_occ c x)" "0 \<le> warm_occ c (warm p)"
    by (simp_all add: sum_list_nonneg_int)
  with assms show "occ c (checkedOut p) \<le> 1" unfolding conn_occ_def by linarith
  assume "t < length (procs p)" "pc_occ c (procs p ! t) = 1"
  then have "1 \<le> (\<Sum>x\<leftarrow>procs p. pc_occ c x)" using sum_list_member_le [of t "procs p" "pc_occ c"] by simp
  with n assms show "occ c (checkedOut p) = 0" unfolding conn_occ_def by linarith
qed

lemma slots_member: "t < length (procs p) \<Longrightarrow> pc_slots (procs p ! t) \<le> slots p"
  using sum_list_member_le [of t "procs p" pc_slots] sum_list_nonneg_int [of chan_slots "chans p"]
  by (simp add: slots_def)

lemma slots_idle: "int (length (idle p)) \<le> slots p"
  using sum_list_nonneg_int [of pc_slots "procs p"] sum_list_nonneg_int [of chan_slots "chans p"]
  by (simp add: slots_def)

lemma waiter_chan:
  assumes "chans_wf p" "w \<in> set (waiters p)"
  shows "w < length (chans p)" "chans p ! w = ChanEmpty"
  using assms chans_okD(2,3) unfolding chans_wf_def by blast+

lemma occ_step:
  assumes st: "pool_step cfg ev p = Some q" and wf: "chans_wf p"
    and c1: "\<And>c. occ c (checkedOut p) \<le> 1"
    and c0: "\<And>t c. t < length (procs p) \<Longrightarrow> pc_occ c (procs p ! t) = 1 \<Longrightarrow> occ c (checkedOut p) = 0"
  shows "conn_occ d q - conn_occ d p = (if d = nextConn p \<and> nextConn q = Suc (nextConn p) then 1 else 0) \<and>
    (nextConn q = nextConn p \<or> nextConn q = Suc (nextConn p))"
proof -
  have cl: "(\<Sum>x\<leftarrow>close_chans (waiters p) (chans p). chan_occ d x) = (\<Sum>x\<leftarrow>chans p. chan_occ d x)"
    by (rule sum_close_chans) (auto simp: waiter_chan [OF wf])
  show ?thesis
  proof (cases ev)
    case (DoCheckout t now)
    then show ?thesis using st c0 [of t] occ_zero_filter
      by (auto simp: step_defs conn_occ_def split: if_splits pc.splits)
  next
    case (CallRelease t c dd alive now)
    show ?thesis
    proof (cases "find (\<lambda>x. pe_conn x = c) (checkedOut p)")
      case None
      then show ?thesis using st CallRelease by (auto simp: Release_def split: if_splits)
    next
      case (Some e)
      note f = occ_find [OF Some c1, of d]
      show ?thesis using st CallRelease Some f is_free_zero [of "procs p ! t" d]
        by (auto simp: Release_def set_pc_def Let_def conn_occ_def split: if_splits)
    qed
  next
    case (DoDrain t)
    then show ?thesis using st cl
      by (auto simp: step_defs conn_occ_def split: if_splits)
  next
    case CallAcquire
    then show ?thesis using st
      by (auto simp: step_defs conn_occ_def is_free_zero occ_butlast split: if_splits)
  next
    case DoTryGet
    then show ?thesis using st
      by (auto simp: step_defs conn_occ_def is_free_zero occ_butlast split: if_splits)
  next
    case DoOpen
    then show ?thesis using st
      by (auto simp: step_defs conn_occ_def is_free_zero occ_butlast split: if_splits)
  next
    case DoOpenCheck
    then show ?thesis using st
      by (auto simp: step_defs conn_occ_def is_free_zero occ_butlast split: if_splits pc.splits)
  next
    case DoOpenUndo
    then show ?thesis using st
      by (auto simp: step_defs conn_occ_def is_free_zero occ_butlast split: if_splits pc.splits)
  next
    case DoRegister
    then show ?thesis using st
      by (auto simp: step_defs conn_occ_def is_free_zero occ_butlast split: if_splits)
  next
    case DoReceive
    then show ?thesis using st
      by (auto simp: step_defs conn_occ_def is_free_zero occ_butlast got_full split: if_splits pc.splits chan.splits)
  next
    case CtxDone
    then show ?thesis using st
      by (auto simp: step_defs conn_occ_def is_free_zero occ_butlast split: if_splits pc.splits)
  next
    case DoRemoveWaiter
    then show ?thesis using st
      by (auto simp: step_defs conn_occ_def is_free_zero occ_butlast split: if_splits pc.splits)
  next
    case DoValidate
    then show ?thesis using st
      by (auto simp: step_defs conn_occ_def is_free_zero occ_butlast split: if_splits pc.splits option.splits)
  next
    case DoReset
    then show ?thesis using st
      by (auto simp: step_defs conn_occ_def is_free_zero occ_butlast split: if_splits pc.splits)
  next
    case DoAfterAcquire
    then show ?thesis using st
      by (auto simp: step_defs conn_occ_def is_free_zero occ_butlast split: if_splits pc.splits)
  next
    case DoDiscard
    then show ?thesis using st
      by (auto simp: step_defs conn_occ_def is_free_zero occ_butlast split: if_splits pc.splits)
  next
    case DoPut
    then show ?thesis using st
      by (auto simp: step_defs conn_occ_def is_free_zero occ_butlast split: if_splits pc.splits list.splits)
  next
    case (CleanupTick t alive now)
    then show ?thesis using st occ_filter [of d "\<lambda>e. entryValid cfg alive now (Some e)" "idle p"]
      by (auto simp: step_defs conn_occ_def is_free_zero occ_butlast split: if_splits)
  next
    case DoCleanup
    then show ?thesis using st
      by (auto simp: step_defs conn_occ_def is_free_zero occ_butlast split: if_splits pc.splits list.splits)
  next
    case CallClose
    then show ?thesis using st
      by (auto simp: step_defs conn_occ_def is_free_zero occ_butlast split: if_splits)
  next
    case WarmNext
    then show ?thesis using st
      by (auto simp: step_defs conn_occ_def is_free_zero occ_butlast split: if_splits warm_pc.splits)
  next
    case WarmOpen
    then show ?thesis using st
      by (auto simp: step_defs conn_occ_def is_free_zero occ_butlast split: if_splits warm_pc.splits)
  next
    case WarmAdd
    then show ?thesis using st
      by (auto simp: step_defs conn_occ_def is_free_zero occ_butlast split: if_splits warm_pc.splits)
  qed
qed

lemma slots_step:
  assumes st: "pool_step cfg ev p = Some q" and wf: "chans_wf p" and eq: "openCount p = slots p"
    and c1: "\<And>c. occ c (checkedOut p) \<le> 1"
    and c0: "\<And>t c. t < length (procs p) \<Longrightarrow> pc_occ c (procs p ! t) = 1 \<Longrightarrow> occ c (checkedOut p) = 0"
  shows "openCount q = slots q"
proof -
  have cl: "(\<Sum>x\<leftarrow>close_chans (waiters p) (chans p). chan_slots x) = (\<Sum>x\<leftarrow>chans p. chan_slots x)"
    by (rule sum_close_chans) (auto simp: waiter_chan [OF wf])
  have own: "pc_slots (procs p ! t) \<le> openCount p" if "t < length (procs p)" for t
    unfolding eq by (rule slots_member [OF that])
  have idl: "int (length (idle p)) \<le> openCount p" unfolding eq by (rule slots_idle)
  show ?thesis
  proof (cases ev)
    case (DoCheckout t now)
    then show ?thesis using st c0 [of t] occ_zero_filter eq
      by (auto simp: step_defs slots_def split: if_splits pc.splits)
  next
    case (CallRelease t c dd alive now)
    show ?thesis
    proof (cases "find (\<lambda>x. pe_conn x = c) (checkedOut p)")
      case None
      then show ?thesis using st CallRelease eq by (auto simp: Release_def split: if_splits)
    next
      case (Some e)
      note f = occ_find [OF Some c1, of d]
      show ?thesis using st CallRelease Some f is_free_zero [of "procs p ! t" d] eq
        by (auto simp: Release_def set_pc_def Let_def slots_def split: if_splits)
    qed
  next
    case (DoDrain t)
    then show ?thesis using st cl eq idl
      by (auto simp: step_defs slots_def split: if_splits)
  next
    case CallAcquire
    then show ?thesis using st eq
      by (auto simp: step_defs slots_def is_free_zero split: if_splits)
  next
    case DoTryGet
    then show ?thesis using st eq
      by (auto simp: step_defs slots_def is_free_zero split: if_splits)
  next
    case DoOpen
    then show ?thesis using st eq
      by (auto simp: step_defs slots_def is_free_zero split: if_splits)
  next
    case DoOpenCheck
    then show ?thesis using st eq
      by (auto simp: step_defs slots_def is_free_zero split: if_splits pc.splits)
  next
    case DoOpenUndo
    then show ?thesis using st eq
      by (auto simp: step_defs slots_def is_free_zero split: if_splits pc.splits)
  next
    case DoRegister
    then show ?thesis using st eq
      by (auto simp: step_defs slots_def is_free_zero split: if_splits)
  next
    case DoReceive
    then show ?thesis using st eq
      by (auto simp: step_defs slots_def is_free_zero got_full split: if_splits pc.splits chan.splits option.splits)
  next
    case CtxDone
    then show ?thesis using st eq
      by (auto simp: step_defs slots_def is_free_zero split: if_splits pc.splits)
  next
    case DoRemoveWaiter
    then show ?thesis using st eq
      by (auto simp: step_defs slots_def is_free_zero split: if_splits pc.splits)
  next
    case DoValidate
    then show ?thesis using st eq
      by (auto simp: step_defs slots_def is_free_zero split: if_splits pc.splits option.splits)
  next
    case DoReset
    then show ?thesis using st eq
      by (auto simp: step_defs slots_def is_free_zero split: if_splits pc.splits)
  next
    case DoAfterAcquire
    then show ?thesis using st eq
      by (auto simp: step_defs slots_def is_free_zero split: if_splits pc.splits)
  next
    case (DoDiscard t)
    then show ?thesis using st eq own [of t]
      by (auto simp: step_defs slots_def is_free_zero split: if_splits pc.splits)
  next
    case (DoPut t)
    then show ?thesis using st eq own [of t]
      by (auto simp: step_defs slots_def is_free_zero split: if_splits pc.splits list.splits)
  next
    case (CleanupTick t alive now)
    then show ?thesis using st eq
      sum_length_filter_compl [of "\<lambda>e. entryValid cfg alive now (Some e)" "idle p"]
      by (auto simp: step_defs slots_def is_free_zero split: if_splits)
  next
    case (DoCleanup t)
    then show ?thesis using st eq own [of t]
      by (auto simp: step_defs slots_def is_free_zero split: if_splits pc.splits list.splits)
  next
    case CallClose
    then show ?thesis using st eq
      by (auto simp: step_defs slots_def is_free_zero split: if_splits)
  next
    case WarmNext
    then show ?thesis using st eq
      by (auto simp: step_defs slots_def is_free_zero split: if_splits warm_pc.splits)
  next
    case WarmOpen
    then show ?thesis using st eq
      by (auto simp: step_defs slots_def is_free_zero split: if_splits warm_pc.splits)
  next
    case WarmAdd
    then show ?thesis using st eq
      by (auto simp: step_defs slots_def is_free_zero split: if_splits warm_pc.splits)
  qed
qed

lemma sum_list_zero: "(\<And>x. x \<in> set xs \<Longrightarrow> f x = 0) \<Longrightarrow> (\<Sum>x\<leftarrow>xs. f x :: int) = 0"
  by (induction xs) simp_all

lemma pool_inv_new: "pool_inv cfg (new_pool n)"
  by (auto simp: pool_inv_def chans_wf_def chans_ok_def new_pool_def conn_occ_def slots_def
      sum_list_replicate split: if_splits)

lemma pool_inv_step:
  assumes "pool_step cfg ev p = Some q" "pool_inv cfg p"
  shows "pool_inv cfg q"
proof -
  have wf: "chans_wf p" and occ: "\<And>c. conn_occ c p = (if c < nextConn p then 1 else 0)" and eq: "openCount p = slots p"
    using assms(2) by (simp_all add: pool_inv_def)
  have le: "conn_occ c p \<le> 1" for c by (simp add: occ)
  have co: "\<And>c. occ c (checkedOut p) \<le> 1"
    "\<And>t c. t < length (procs p) \<Longrightarrow> pc_occ c (procs p ! t) = 1 \<Longrightarrow> occ c (checkedOut p) = 0"
    using conn_occ_le [OF le] by blast+
  have st: "conn_occ d q - conn_occ d p = (if d = nextConn p \<and> nextConn q = Suc (nextConn p) then 1 else 0) \<and>
    (nextConn q = nextConn p \<or> nextConn q = Suc (nextConn p))" for d
    by (rule occ_step [OF assms(1) wf]) (use co in blast)+
  have "conn_occ d q = (if d < nextConn q then 1 else 0)" for d
    using st [of d] occ [of d] by (auto split: if_splits)
  moreover have "openCount q = slots q"
    by (rule slots_step [OF assms(1) wf eq]) (use co in blast)+
  ultimately show ?thesis
    using chans_wf_step [OF assms(1) wf] by (simp add: pool_inv_def)
qed

lemma reachable_inv: "reachable cfg p \<Longrightarrow> pool_inv cfg p"
  by (induction rule: reachable.induct) (auto intro: pool_inv_new pool_inv_step)

section \<open>The bound on the counter\<close>

fun warm_added :: "pool_config \<Rightarrow> warm_pc \<Rightarrow> nat" where
  "warm_added cfg (WarmLoop i) = i"
| "warm_added cfg (WarmOpening i) = i"
| "warm_added cfg (WarmOpened i _) = i"
| "warm_added cfg WarmDone = MinSize cfg"

fun warm_ok :: "pool_config \<Rightarrow> warm_pc \<Rightarrow> bool" where
  "warm_ok cfg (WarmLoop i) = (i \<le> MinSize cfg)"
| "warm_ok cfg (WarmOpening i) = (i < MinSize cfg)"
| "warm_ok cfg (WarmOpened i _) = (i < MinSize cfg)"
| "warm_ok cfg WarmDone = True"

definition count_bound :: "pool_config \<Rightarrow> pool \<Rightarrow> bool" where
  "count_bound cfg p \<longleftrightarrow> warm_ok cfg (warm p) \<and> openCount p \<le> int (MaxSize cfg) + int (warm_added cfg (warm p))"

lemma count_bound_step:
  "pool_step cfg ev p = Some q \<Longrightarrow> count_bound cfg p \<Longrightarrow> 0 \<le> openCount p \<Longrightarrow> count_bound cfg q"
  by (cases ev) (auto simp: step_defs count_bound_def
      split: if_splits pc.splits option.splits list.splits chan.splits warm_pc.splits)

lemma openCount_nonneg: "pool_inv cfg p \<Longrightarrow> 0 \<le> openCount p"
  using slots_idle [of p] by (simp add: pool_inv_def)

lemma reachable_bound: "reachable cfg p \<Longrightarrow> count_bound cfg p"
proof (induction rule: reachable.induct)
  case (start n)
  show ?case by (simp add: count_bound_def new_pool_def)
next
  case (step p ev q)
  then show ?case using count_bound_step openCount_nonneg reachable_inv by blast
qed

lemma warm_added_le: "warm_ok cfg w \<Longrightarrow> warm_added cfg w \<le> MinSize cfg"
  by (cases w) simp_all

section \<open>After Close\<close>

definition drains :: "pool \<Rightarrow> int" where
  "drains p = (\<Sum>x\<leftarrow>procs p. if x = Draining then 1 else 0)"

text \<open>\<open>Close\<close> has been called and its locked section is over.\<close>

definition drained :: "pool \<Rightarrow> bool" where
  "drained p \<longleftrightarrow> closed p \<and> Draining \<notin> set (procs p)"

definition close_wf :: "pool \<Rightarrow> bool" where
  "close_wf p \<longleftrightarrow> drains p \<le> 1 \<and> (closed p \<or> drains p = 0) \<and>
     (closed p \<and> drains p = 0 \<longrightarrow> idle p = [] \<and> waiters p = [])"

lemma drains_nonneg: "0 \<le> drains p"
  unfolding drains_def by (rule sum_list_nonneg_int) simp

lemma drains_member: "t < length (procs p) \<Longrightarrow> procs p ! t = Draining \<Longrightarrow> 1 \<le> drains p"
  using sum_list_member_le [of t "procs p" "\<lambda>x. if x = Draining then 1 else 0"]
  by (simp add: drains_def)

lemma drains_zero: "Draining \<notin> set (procs p) \<Longrightarrow> drains p = 0"
  unfolding drains_def by (rule sum_list_zero) auto

lemma after_reset_not_draining [simp]: "after_reset cfg e \<noteq> Draining"
  by (simp add: after_reset_def)

lemma discard_next_not_draining [simp]: "discard_next k \<noteq> Draining"
  by (cases k) simp_all

lemma is_free_not_draining [simp]: "\<not> is_free Draining"
  by (simp add: is_free_def)

definition drain_of :: "pc \<Rightarrow> int" where
  "drain_of x = (if x = Draining then 1 else 0)"

lemma drains_alt: "drains p = (\<Sum>x\<leftarrow>procs p. drain_of x)"
  by (simp add: drains_def drain_of_def)

lemma drain_of_simps [simp]:
  "x \<noteq> Draining \<Longrightarrow> drain_of x = 0" "drain_of Draining = 1"
  by (simp_all add: drain_of_def)

lemma drain_of_free: "is_free x \<Longrightarrow> drain_of x = 0"
  by (auto simp: drain_of_def)

lemma close_wf_step:
  assumes st: "pool_step cfg ev p = Some q" and wf: "close_wf p"
  shows "close_wf q"
proof (cases ev)
  case (DoDrain t)
  then show ?thesis using st wf drains_member [of t p]
    by (auto simp: step_defs close_wf_def drains_alt split: if_splits)
next
  case CallAcquire
  then show ?thesis using st wf
    by (auto simp: step_defs close_wf_def drains_alt drain_of_free split: if_splits)
next
  case DoTryGet
  then show ?thesis using st wf
    by (auto simp: step_defs close_wf_def drains_alt drain_of_free split: if_splits)
next
  case DoOpen
  then show ?thesis using st wf
    by (auto simp: step_defs close_wf_def drains_alt drain_of_free split: if_splits)
next
  case DoOpenCheck
  then show ?thesis using st wf
    by (auto simp: step_defs close_wf_def drains_alt drain_of_free split: if_splits pc.splits)
next
  case DoOpenUndo
  then show ?thesis using st wf
    by (auto simp: step_defs close_wf_def drains_alt drain_of_free split: if_splits pc.splits)
next
  case DoRegister
  then show ?thesis using st wf
    by (auto simp: step_defs close_wf_def drains_alt drain_of_free split: if_splits)
next
  case DoReceive
  then show ?thesis using st wf
    by (auto simp: step_defs close_wf_def drains_alt drain_of_free split: if_splits pc.splits chan.splits option.splits)
next
  case CtxDone
  then show ?thesis using st wf
    by (auto simp: step_defs close_wf_def drains_alt drain_of_free split: if_splits pc.splits)
next
  case DoRemoveWaiter
  then show ?thesis using st wf
    by (auto simp: step_defs close_wf_def drains_alt drain_of_free split: if_splits pc.splits)
next
  case DoValidate
  then show ?thesis using st wf
    by (auto simp: step_defs close_wf_def drains_alt drain_of_free split: if_splits pc.splits option.splits)
next
  case DoReset
  then show ?thesis using st wf
    by (auto simp: step_defs close_wf_def drains_alt drain_of_free split: if_splits pc.splits)
next
  case DoAfterAcquire
  then show ?thesis using st wf
    by (auto simp: step_defs close_wf_def drains_alt drain_of_free split: if_splits pc.splits)
next
  case DoCheckout
  then show ?thesis using st wf
    by (auto simp: step_defs close_wf_def drains_alt drain_of_free split: if_splits pc.splits)
next
  case DoDiscard
  then show ?thesis using st wf
    by (auto simp: step_defs close_wf_def drains_alt drain_of_free split: if_splits pc.splits)
next
  case CallRelease
  then show ?thesis using st wf
    by (auto simp: step_defs close_wf_def drains_alt drain_of_free split: if_splits option.splits)
next
  case DoPut
  then show ?thesis using st wf
    by (auto simp: step_defs close_wf_def drains_alt drain_of_free split: if_splits pc.splits list.splits)
next
  case CleanupTick
  then show ?thesis using st wf
    by (auto simp: step_defs close_wf_def drains_alt drain_of_free split: if_splits)
next
  case DoCleanup
  then show ?thesis using st wf
    by (auto simp: step_defs close_wf_def drains_alt drain_of_free split: if_splits pc.splits list.splits)
next
  case CallClose
  then show ?thesis using st wf
    by (auto simp: step_defs close_wf_def drains_alt drain_of_free split: if_splits)
next
  case WarmNext
  then show ?thesis using st wf
    by (auto simp: step_defs close_wf_def drains_alt drain_of_free split: if_splits warm_pc.splits)
next
  case WarmOpen
  then show ?thesis using st wf
    by (auto simp: step_defs close_wf_def drains_alt drain_of_free split: if_splits warm_pc.splits)
next
  case WarmAdd
  then show ?thesis using st wf
    by (auto simp: step_defs close_wf_def drains_alt drain_of_free split: if_splits warm_pc.splits)
qed

lemma close_wf_new: "close_wf (new_pool n)"
  by (simp add: close_wf_def drains_def new_pool_def sum_list_replicate)

lemma reachable_close: "reachable cfg p \<Longrightarrow> close_wf p"
  by (induction rule: reachable.induct) (auto intro: close_wf_step close_wf_new)

lemma drained_empty:
  assumes "reachable cfg p" "drained p"
  shows "idle p = []" "waiters p = []"
  using reachable_close [OF assms(1)] assms(2) by (auto simp: close_wf_def drained_def drains_zero)

section \<open>The pool without interference\<close>

text \<open>The events of one undisturbed \<open>Acquire\<close> that finds an idle entry, and of one
  \<open>Release\<close>.\<close>

definition acquire_events :: "nat \<Rightarrow> (nat \<Rightarrow> bool) \<Rightarrow> int \<Rightarrow> int \<Rightarrow> event list" where
  "acquire_events t alive now now' =
     [CallAcquire t, DoTryGet t False, DoValidate t alive now, DoCheckout t now']"

definition release_events :: "nat \<Rightarrow> nat \<Rightarrow> int \<Rightarrow> event list" where
  "release_events t c now = [CallRelease t c False True now, DoPut t]"

lemma run_events_append:
  "run_events cfg (es @ fs) p = (case run_events cfg es p of None \<Rightarrow> None | Some q \<Rightarrow> run_events cfg fs q)"
  by (induction es arbitrary: p) (auto split: option.split)

definition demo_cfg :: "nat \<Rightarrow> pool_config" where
  "demo_cfg n = \<lparr>MinSize = n, MaxSize = 1, MaxLifetime = 0, IdleTimeout = 0, AlwaysReset = False,
     HasAfterAcquire = False\<rparr>"

text \<open>Goroutine 0 opens the first connection and holds it.\<close>

definition first_acquire :: "event list" where
  "first_acquire = [CallAcquire 0, DoTryGet 0 False, DoOpen 0 True, DoOpenCheck 0 0,
     DoValidate 0 (\<lambda>_. True) 0, DoCheckout 0 0]"

lemma replicate_two: "replicate 2 x = [x, x]"
  by (simp add: numeral_2_eq_2)

lemmas run_defs = replicate_two step_defs new_pool_def demo_cfg_def first_acquire_def acquire_events_def
  release_events_def is_free_def entryValid_def after_reset_def

lemma reachable_first_acquire:
  "reachable (demo_cfg 0) (new_pool 2\<lparr>openCount := 1, nextConn := 1,
     checkedOut := [\<lparr>pe_conn = 0, pe_createdAt = 0, pe_lastUsed = 0\<rparr>],
     procs := [Returned (Acquired 0), Ready]\<rparr>)"
  by (rule reachable_run [OF reachable.start [where n = 2], of _ first_acquire]) (simp add: run_defs)

lemma reachable_waiting:
  "reachable (demo_cfg 0) (new_pool 2\<lparr>openCount := 1, nextConn := 1,
     checkedOut := [\<lparr>pe_conn = 0, pe_createdAt = 0, pe_lastUsed = 0\<rparr>],
     procs := [Returned (Acquired 0), Wait 0], waiters := [0], chans := [ChanEmpty]\<rparr>)"
  by (rule reachable_run [OF reachable_first_acquire,
        of "[CallAcquire 1, DoTryGet 1 False, DoRegister 1]"]) (simp add: run_defs)

lemma reachable_released:
  "reachable (demo_cfg 0) (new_pool 2\<lparr>openCount := 1, nextConn := 1,
     idle := [\<lparr>pe_conn = 0, pe_createdAt = 0, pe_lastUsed = 5\<rparr>], procs := [Ready, Ready]\<rparr>)"
  by (rule reachable_run [OF reachable_first_acquire, of "[CallRelease 0 0 False True 5, DoPut 0]"])
     (simp add: run_defs)

lemma reachable_drained:
  "reachable (demo_cfg 0) (new_pool 2\<lparr>openCount := 0, nextConn := 1, closed := True, closedConns := [0],
     procs := [Ready, Ready]\<rparr>)"
  by (rule reachable_run [OF reachable_released, of "[CallClose 0, DoDrain 0]"])
     (simp add: run_defs close_chans_def)

lemma send_enabled:
  assumes "reachable cfg p"
  shows "releaseInternal e t p \<noteq> None \<and> cleanup_one cfg es t p \<noteq> None"
proof -
  have wf: "chans_wf p" using reachable_inv [OF assms] by (simp add: pool_inv_def)
  have w: "ws = ch # vs \<Longrightarrow> waiters p = ws \<Longrightarrow> ch < length (chans p) \<and> chans p ! ch = ChanEmpty" for ch vs ws
    using waiter_chan [OF wf, of ch] by simp
  have "releaseInternal e t p \<noteq> None"
    using w by (auto simp: step_defs split: list.splits)
  moreover have "cleanup_one cfg es t p \<noteq> None"
    using waiter_chan [OF wf, of "hd (waiters p)"] by (auto simp: step_defs split: list.splits)
  ultimately show ?thesis by simp
qed

section \<open>Properties\<close>

text \<open>C1: In every reachable state, each connection the pool has opened is in exactly one place: idle,
  checked out by one caller, in the hands of one goroutine, in the buffer of one channel, or closed,
  and closed once. So no connection is handed to two callers, and none is closed while in use.\<close>

theorem pool_single_owner:
  assumes "reachable cfg p"
  shows "conn_occ c p = (if c < nextConn p then 1 else 0)"
  using reachable_inv [OF assms] by (simp add: pool_inv_def)

lemma pool_single_owner_witness:
  "conn_occ 0 (new_pool 2\<lparr>openCount := 1, nextConn := 1,
     checkedOut := [\<lparr>pe_conn = 0, pe_createdAt = 0, pe_lastUsed = 0\<rparr>],
     procs := [Returned (Acquired 0), Wait 0], waiters := [0], chans := [ChanEmpty]\<rparr>) = 1"
  using pool_single_owner [OF reachable_waiting, of 0] by simp

text \<open>C2: \<open>openCount\<close> is always the number of connections that are idle, checked out, held by a
  goroutine or in a channel, plus the opens in progress; the guards against a negative counter never
  fire.\<close>

theorem pool_accounting:
  assumes "reachable cfg p"
  shows "openCount p = slots p \<and> int (length (idle p)) + int (length (checkedOut p)) \<le> openCount p"
proof -
  have "openCount p = slots p" using reachable_inv [OF assms] by (simp add: pool_inv_def)
  moreover have "int (length (idle p)) + int (length (checkedOut p)) \<le> slots p"
    using sum_list_nonneg_int [of pc_slots "procs p"] sum_list_nonneg_int [of chan_slots "chans p"]
    by (simp add: slots_def)
  ultimately show ?thesis by simp
qed

lemma pool_accounting_witness:
  "slots (new_pool 2\<lparr>openCount := 1, nextConn := 1,
     checkedOut := [\<lparr>pe_conn = 0, pe_createdAt = 0, pe_lastUsed = 0\<rparr>],
     procs := [Returned (Acquired 0), Ready]\<rparr>) = 1"
  using pool_accounting [OF reachable_first_acquire] by simp

text \<open>The counter never exceeds \<open>MaxSize\<close> plus the connections the warm-up has added, hence
  \<open>MaxSize + MinSize\<close>, and \<open>MaxSize\<close> itself when \<open>MinSize\<close> is zero.\<close>

theorem pool_open_bound:
  assumes "reachable cfg p"
  shows "openCount p \<le> int (MaxSize cfg) + int (warm_added cfg (warm p)) \<and>
    openCount p \<le> int (MaxSize cfg) + int (MinSize cfg)"
  using reachable_bound [OF assms] warm_added_le [of cfg "warm p"] by (auto simp: count_bound_def)

lemma pool_open_bound_witness:
  "openCount (new_pool 2\<lparr>openCount := 1, nextConn := 1,
     checkedOut := [\<lparr>pe_conn = 0, pe_createdAt = 0, pe_lastUsed = 0\<rparr>],
     procs := [Returned (Acquired 0), Ready]\<rparr>) \<le> 1"
  using pool_open_bound [OF reachable_first_acquire] by (simp add: demo_cfg_def)

text \<open>C3: A send inside a locked section never blocks and never panics: whenever \<open>releaseInternal\<close>
  or the cleanup loop takes a channel off the queue, its buffer is free and it is not closed, so the
  mutex is always released.\<close>

theorem pool_send_enabled:
  assumes "reachable cfg p"
  shows "releaseInternal e t p \<noteq> None \<and> cleanup_one cfg es t p \<noteq> None"
  using assms by (rule send_enabled)

lemma pool_send_enabled_witness:
  "releaseInternal \<lparr>pe_conn = 0, pe_createdAt = 0, pe_lastUsed = 0\<rparr> 0 (new_pool 2\<lparr>openCount := 1, nextConn := 1,
     checkedOut := [\<lparr>pe_conn = 0, pe_createdAt = 0, pe_lastUsed = 0\<rparr>],
     procs := [Returned (Acquired 0), Wait 0], waiters := [0], chans := [ChanEmpty]\<rparr>) \<noteq> None"
  using pool_send_enabled [OF reachable_waiting] by blast

text \<open>C4: No waiter is forgotten: a goroutine blocked in \<open>Acquire\<close> is either queued, so that a
  later release or cleanup serves it, or can receive at once; and after \<open>Close\<close> has drained the
  pool every blocked goroutine can receive at once.\<close>

theorem pool_waiter_progress:
  assumes "reachable cfg p" "t < length (procs p)" "procs p ! t = Wait ch"
  shows "(if drained p then receive ch t p \<noteq> None
          else ch \<in> set (waiters p) \<or> (\<exists>q. receive ch t p = Some q))"
proof -
  have ok: "chans_ok (waiters p) (chans p) (procs p)"
    using reachable_inv [OF assms(1)] by (simp add: pool_inv_def chans_wf_def)
  have "ch < length (chans p)" using chans_okD(4) [OF ok assms(2)] assms(3) by simp
  moreover have "ch \<in> set (waiters p) \<or> chans p ! ch \<noteq> ChanEmpty" using chans_okD(6) [OF ok assms(2,3)] .
  ultimately have "ch \<in> set (waiters p) \<or> (\<exists>q. receive ch t p = Some q)"
    by (auto simp: receive_def split: chan.splits)
  then show ?thesis using drained_empty [OF assms(1)] by auto
qed

lemma pool_waiter_progress_witness:
  "let p = new_pool 2\<lparr>openCount := 1, nextConn := 1,
     checkedOut := [\<lparr>pe_conn = 0, pe_createdAt = 0, pe_lastUsed = 0\<rparr>],
     procs := [Returned (Acquired 0), Wait 0], waiters := [0], chans := [ChanEmpty]\<rparr>
   in 0 \<in> set (waiters p) \<or> (\<exists>q. receive 0 1 p = Some q)"
  using pool_waiter_progress [OF reachable_waiting, of 1 0] by (simp add: drained_def new_pool_def)

text \<open>\<open>Close\<close> leaks nothing: once it has drained the pool, every goroutine is out of the pool,
  no caller holds a connection and no channel holds one, the counter is zero and every connection
  opened has been closed exactly once.\<close>

theorem pool_close_complete:
  assumes "reachable cfg p" "drained p" "\<forall>x \<in> set (procs p). is_free x" "checkedOut p = []"
    and "\<forall>x \<in> set (chans p). chan_slots x = 0" "\<forall>i c. warm p \<noteq> WarmOpened i c"
  shows "openCount p = 0 \<and> (\<forall>c. count_list (closedConns p) c = (if c < nextConn p then 1 else 0))"
proof -
  have pcs: "(\<Sum>x\<leftarrow>procs p. pc_slots x) = 0" "(\<Sum>x\<leftarrow>procs p. pc_occ c x) = 0" for c
    using assms(3) is_free_zero by (auto intro!: sum_list_zero)
  have zero: "chan_slots x = 0 \<Longrightarrow> chan_occ c x = 0" for x c by (cases "(c, x)" rule: chan_occ.cases) simp_all
  have chs: "(\<Sum>x\<leftarrow>chans p. chan_slots x) = 0" "(\<Sum>x\<leftarrow>chans p. chan_occ c x) = 0" for c
    using assms(5) zero by (auto intro!: sum_list_zero)
  have w: "warm_occ c (warm p) = 0" for c using assms(6) by (cases "warm p") simp_all
  have inv: "openCount p = slots p" "conn_occ c p = (if c < nextConn p then 1 else 0)" for c
    using reachable_inv [OF assms(1)] by (simp_all add: pool_inv_def)
  have ic: "int (count_list (closedConns p) c) = (if c < nextConn p then 1 else 0)" for c
    using inv(2) [of c] pcs chs w drained_empty(1) [OF assms(1,2)] assms(4) by (simp add: conn_occ_def)
  have "count_list (closedConns p) c = (if c < nextConn p then 1 else 0)" for c
    using ic [of c] by (simp split: if_splits)
  moreover have "openCount p = 0"
    using inv(1) pcs(1) chs(1) drained_empty(1) [OF assms(1,2)] assms(4) by (simp add: slots_def)
  ultimately show ?thesis by simp
qed

lemma pool_close_complete_witness:
  "\<forall>c. count_list [0] c = (if c < (1 :: nat) then 1 else 0)"
  using pool_close_complete [OF reachable_drained] by (simp add: drained_def is_free_def new_pool_def)

text \<open>The stack is LIFO and a connection survives its round trip: in an open pool with no waiter,
  a goroutine that acquires undisturbed gets the most recently released entry if it is valid, and
  releasing it puts it back on top with its creation time unchanged, the rest of the pool as
  before.\<close>

theorem pool_acquire_release_lifo:
  assumes "reachable cfg p" "\<not> closed p" "idle p = es @ [e]" "waiters p = []"
    and "t < length (procs p)" "procs p ! t = Ready" "entryValid cfg alive now (Some e)"
    and "\<not> AlwaysReset cfg" "\<not> HasAfterAcquire cfg"
  shows "\<exists>q. run_events cfg (acquire_events t alive now now') p = Some q \<and>
    procs q ! t = Returned (Acquired (pe_conn e)) \<and> idle q = es \<and>
    run_events cfg (release_events t (pe_conn e) now2) q = Some (p\<lparr>idle := es @ [e\<lparr>pe_lastUsed := now2\<rparr>]\<rparr>)"
proof -
  have le: "conn_occ (pe_conn e) p \<le> 1" using reachable_inv [OF assms(1)] by (simp add: pool_inv_def)
  have "0 \<le> occ (pe_conn e) (checkedOut p)" "0 \<le> (\<Sum>x\<leftarrow>procs p. pc_occ (pe_conn e) x)"
    "0 \<le> (\<Sum>x\<leftarrow>chans p. chan_occ (pe_conn e) x)" "0 \<le> warm_occ (pe_conn e) (warm p)" "0 \<le> occ (pe_conn e) es"
    by (simp_all add: sum_list_nonneg_int)
  moreover have "occ (pe_conn e) (idle p) = occ (pe_conn e) es + 1" using assms(3) by simp
  ultimately have "occ (pe_conn e) (checkedOut p) = 0"
    using le occ_nonneg [of "pe_conn e" "checkedOut p"] unfolding conn_occ_def by linarith
  then have f: "filter (\<lambda>x. pe_conn x \<noteq> pe_conn e) (checkedOut p) = checkedOut p" by (rule occ_zero_filter)
  have "procs p = (procs p)[t := Ready]" using assms(5,6) by (metis list_update_id)
  then show ?thesis using assms(2-) f
    by (simp add: acquire_events_def release_events_def step_defs after_reset_def is_free_def)
qed

lemma pool_acquire_release_lifo_witness:
  "\<exists>q. run_events (demo_cfg 0) (acquire_events 1 (\<lambda>_. True) 6 7) (new_pool 2\<lparr>openCount := 1, nextConn := 1,
     idle := [\<lparr>pe_conn = 0, pe_createdAt = 0, pe_lastUsed = 5\<rparr>], procs := [Ready, Ready]\<rparr>) = Some q \<and>
     procs q ! 1 = Returned (Acquired 0)"
  using pool_acquire_release_lifo [OF reachable_released, of "[]" "\<lparr>pe_conn = 0, pe_createdAt = 0, pe_lastUsed = 5\<rparr>"
      1 "\<lambda>_. True" 6 7 8]
  by (simp add: new_pool_def demo_cfg_def entryValid_def) blast

text \<open>The warm-up goroutine adds its connection without looking at \<open>MaxSize\<close>: with
  \<open>MinSize = MaxSize = 1\<close>, an \<open>Acquire\<close> that runs while the warm-up is opening leads to two open
  connections, one checked out and one idle.\<close>

theorem pool_exceeds_MaxSize:
  "\<exists>es p. run_events (demo_cfg 1) es (new_pool 1) = Some p \<and> openCount p = 2 \<and> MaxSize (demo_cfg 1) = 1 \<and>
     length (idle p) = 1 \<and> length (checkedOut p) = 1"
  by (rule exI [of _ "[WarmNext] @ first_acquire @ [WarmOpen True, WarmAdd 0]"])
     (simp add: run_defs)

text \<open>A connection handed to a waiter whose context ends is lost: when the release has taken the
  channel off the queue before the cancelled goroutine deregisters, the entry stays in a channel
  nobody reads. The pool is then exhausted for good: nothing is idle or checked out, every goroutine
  is out of the pool, and \<open>openCount\<close> is \<open>MaxSize\<close>.\<close>

theorem pool_lost_handoff:
  "\<exists>es p. run_events (demo_cfg 0) es (new_pool 2) = Some p \<and> idle p = [] \<and> checkedOut p = [] \<and>
     waiters p = [] \<and> list_all is_free (procs p) \<and> openCount p = int (MaxSize (demo_cfg 0)) \<and>
     closedConns p = []"
  by (rule exI [of _ "first_acquire @ [CallAcquire 1, DoTryGet 1 False, DoRegister 1,
        CallRelease 0 0 False True 0, CtxDone 1, DoPut 0, DoRemoveWaiter 1]"])
     (simp add: run_defs)

text \<open>Wake-ups are lost in two ways: a release that falls between a failed \<open>tryGet\<close> and the
  registration leaves a goroutine asleep beside an idle connection, and a discarded connection
  frees a slot without waking the goroutine that waits for one.\<close>

theorem pool_lost_wakeup:
  "(\<exists>es p. run_events (demo_cfg 0) es (new_pool 2) = Some p \<and> procs p = [Ready, Wait 0] \<and>
      length (idle p) = 1 \<and> chans p = [ChanEmpty]) \<and>
   (\<exists>es p. run_events (demo_cfg 0) es (new_pool 2) = Some p \<and> procs p = [Ready, Wait 0] \<and>
      openCount p = 0 \<and> MaxSize (demo_cfg 0) = 1 \<and> chans p = [ChanEmpty])"
  (is "?A \<and> ?B")
proof
  show ?A
    by (rule exI [of _ "first_acquire @ [CallAcquire 1, DoTryGet 1 False,
          CallRelease 0 0 False True 0, DoPut 0, DoRegister 1]"])
       (simp add: run_defs)
  show ?B
    by (rule exI [of _ "first_acquire @ [CallAcquire 1, DoTryGet 1 False, DoRegister 1,
          CallRelease 0 0 True True 0, DoDiscard 0]"])
       (simp add: run_defs)
qed

end
