(* ===== verification/Rfc_Errors.thy ===== *)
theory Rfc_Errors
  imports Backend_Types
begin

text \<open>
  The error taxonomy: \<open>nwrfc/errors.go\<close>, \<open>nwrfc/errors_logon.go\<close>, the mapping of backend
  errors in \<open>nwrfc/conn.go\<close> and \<open>nwrfc/stream.go\<close>, with Go's \<open>errors.Is\<close> and
  \<open>errors.As\<close>.

  \<open>goerr\<close> is the dynamic error value. \<open>SentinelErr\<close> are the comparable category sentinels,
  \<open>PlainErr\<close> the values of \<open>errors.New\<close> and of \<open>fmt.Errorf\<close> without \<open>%w\<close>, told
  apart by their text, \<open>WrapErr\<close> those of \<open>fmt.Errorf("...%w")\<close> and \<open>JoinErr\<close> those of
  \<open>errors.Join\<close>; the other constructors are the typed errors, \<open>None\<close> standing for a nil
  cause. The lemmas show that every typed error answers to the sentinel of its category, what the
  mapping returns on each group, that it is idempotent, and what log values reveal.
\<close>

section \<open>Error values\<close>

datatype logon_kind = PlainLogon | PasswordExpired | UserLocked | InvalidCredentials | UnknownLogonFailure

datatype goerr =
    SentinelErr category
  | PlainErr go_string
  | WrapErr go_string goerr
  | JoinErr "goerr list"
  | SDKErr go_string sdk_error_info
  | LogonErr logon_kind sdk_error_info go_string go_string go_string
  | CommunicationErr sdk_error_info go_string go_string
  | ABAPApplicationErr sdk_error_info go_string
  | ABAPRuntimeErr sdk_error_info go_string
  | ABAPClassicErr sdk_error_info go_string
  | ABAPClassErr sdk_error_info go_string go_string
  | ExtAuthzErr sdk_error_info
  | ExtAppErr sdk_error_info go_string
  | ExtRuntimeErr sdk_error_info
  | BrokenConnErr go_string "goerr option"
  | TimeoutErr go_string go_string
  | CancelledErr go_string "goerr option"
  | MarshalErr go_string go_string go_string "goerr option"
  | ConfigErr go_string go_string
  | SDKUnavailableErr go_string go_string
  | UnsupportedFeatureErr go_string version version

definition ErrConnClosed :: goerr where "ErrConnClosed = PlainErr ''nwrfc: connection is closed''"
definition ErrStreamClosed :: goerr where "ErrStreamClosed = PlainErr ''nwrfc: table stream is closed''"
definition ErrUnavailable :: goerr where
  "ErrUnavailable = PlainErr ''nwrfc: SAP NetWeaver RFC SDK is not available in this build''"
definition ErrUnsupported :: goerr where
  "ErrUnsupported = PlainErr ''nwrfc: feature not supported by this SDK version''"
definition ErrUnknownType :: goerr where "ErrUnknownType = PlainErr ''nwrfc: unknown ABAP RFC type''"
definition BkErrTimeout :: goerr where "BkErrTimeout = PlainErr ''nwrfc: ctx deadline exceeded mid-call''"
definition BkErrCancelled :: goerr where "BkErrCancelled = PlainErr ''nwrfc: ctx cancelled mid-call''"
definition DeadlineExceeded :: goerr where "DeadlineExceeded = PlainErr ''context deadline exceeded''"
definition Canceled :: goerr where "Canceled = PlainErr ''context canceled''"
definition ErrEOF :: goerr where "ErrEOF = PlainErr ''EOF''"

fun logon_sentinel :: "logon_kind \<Rightarrow> goerr" where
  "logon_sentinel PlainLogon = SentinelErr CategoryLogon"
| "logon_sentinel PasswordExpired = PlainErr ''nwrfc: SAP password expired''"
| "logon_sentinel UserLocked = PlainErr ''nwrfc: SAP user locked''"
| "logon_sentinel InvalidCredentials = PlainErr ''nwrfc: invalid SAP credentials''"
| "logon_sentinel UnknownLogonFailure = PlainErr ''nwrfc: unclassified SAP logon failure''"

lemmas plain_errs = ErrConnClosed_def ErrStreamClosed_def ErrUnavailable_def ErrUnsupported_def
  ErrUnknownType_def BkErrTimeout_def BkErrCancelled_def DeadlineExceeded_def Canceled_def ErrEOF_def

section \<open>Unwrapping\<close>

text \<open>The result of \<open>Unwrap\<close>: no method, one error (nil is the empty list), or several.\<close>

fun unwrap :: "goerr \<Rightarrow> goerr list" where
  "unwrap (WrapErr _ e) = [e]"
| "unwrap (JoinErr es) = es"
| "unwrap (LogonErr PlainLogon _ _ _ _) = [SentinelErr CategoryLogon]"
| "unwrap (LogonErr k _ _ _ _) = [JoinErr [logon_sentinel k, SentinelErr CategoryLogon]]"
| "unwrap (CommunicationErr _ _ _) = [SentinelErr CategoryCommunication]"
| "unwrap (ABAPApplicationErr _ _) = [SentinelErr CategoryABAPApp]"
| "unwrap (ABAPRuntimeErr _ _) = [SentinelErr CategoryABAPRuntime]"
| "unwrap (ABAPClassicErr _ _) = [SentinelErr CategoryABAPClassic]"
| "unwrap (ABAPClassErr _ _ _) = [SentinelErr CategoryABAPClass]"
| "unwrap (ExtAuthzErr _) = [SentinelErr CategoryExtAuthz]"
| "unwrap (ExtAppErr _ _) = [SentinelErr CategoryExtApp]"
| "unwrap (ExtRuntimeErr _) = [SentinelErr CategoryExtRuntime]"
| "unwrap (BrokenConnErr _ c) = (case c of None \<Rightarrow> [] | Some e \<Rightarrow> [e])"
| "unwrap (TimeoutErr _ _) = [SentinelErr CategoryTimeout]"
| "unwrap (CancelledErr _ c) = (case c of None \<Rightarrow> [] | Some e \<Rightarrow> [e])"
| "unwrap (MarshalErr _ _ _ c) = (case c of None \<Rightarrow> [] | Some e \<Rightarrow> [e])"
| "unwrap (ConfigErr _ _) = [SentinelErr CategoryConfig]"
| "unwrap (SDKUnavailableErr _ _) = [SentinelErr CategorySDKUnavailable]"
| "unwrap (UnsupportedFeatureErr _ _ _) = [SentinelErr CategoryUnsupported]"
| "unwrap (SentinelErr _) = []"
| "unwrap (PlainErr _) = []"
| "unwrap (SDKErr _ _) = []"

section \<open>Categories\<close>

text \<open>The type assertion to \<open>RFCError\<close> (equally to \<open>backend.Categorized\<close>): the sentinels and
  the typed errors have the methods.\<close>

fun rfc_category :: "goerr \<Rightarrow> category option" where
  "rfc_category (SentinelErr c) = Some c"
| "rfc_category (PlainErr _) = None"
| "rfc_category (WrapErr _ _) = None"
| "rfc_category (JoinErr _) = None"
| "rfc_category (SDKErr _ _) = None"
| "rfc_category (LogonErr _ _ _ _ _) = Some CategoryLogon"
| "rfc_category (CommunicationErr _ _ _) = Some CategoryCommunication"
| "rfc_category (ABAPApplicationErr _ _) = Some CategoryABAPApp"
| "rfc_category (ABAPRuntimeErr _ _) = Some CategoryABAPRuntime"
| "rfc_category (ABAPClassicErr _ _) = Some CategoryABAPClassic"
| "rfc_category (ABAPClassErr _ _ _) = Some CategoryABAPClass"
| "rfc_category (ExtAuthzErr _) = Some CategoryExtAuthz"
| "rfc_category (ExtAppErr _ _) = Some CategoryExtApp"
| "rfc_category (ExtRuntimeErr _) = Some CategoryExtRuntime"
| "rfc_category (BrokenConnErr _ _) = Some CategoryBrokenConn"
| "rfc_category (TimeoutErr _ _) = Some CategoryTimeout"
| "rfc_category (CancelledErr _ _) = Some CategoryCancelled"
| "rfc_category (MarshalErr _ _ _ _) = Some CategoryMarshal"
| "rfc_category (ConfigErr _ _) = Some CategoryConfig"
| "rfc_category (SDKUnavailableErr _ _) = Some CategorySDKUnavailable"
| "rfc_category (UnsupportedFeatureErr _ _ _) = Some CategoryUnsupported"

text \<open>\<open>CategoryOf\<close>; the loop over the children of a join stops at the first known category.\<close>

definition first_known :: "category list \<Rightarrow> category" where
  "first_known cs = (case dropWhile (\<lambda>c. c = CategoryUnknown) cs of [] \<Rightarrow> CategoryUnknown | c # _ \<Rightarrow> c)"

fun CategoryOf :: "goerr \<Rightarrow> category" where
  "CategoryOf (WrapErr _ e) = CategoryOf e"
| "CategoryOf (JoinErr es) = first_known (map CategoryOf es)"
| "CategoryOf e = (case rfc_category e of Some c \<Rightarrow> c | None \<Rightarrow> CategoryUnknown)"

definition IsRetryable :: "goerr \<Rightarrow> bool" where
  "IsRetryable e \<longleftrightarrow> CategoryOf e \<in> {CategoryCommunication, CategoryBrokenConn, CategoryTimeout}"

section \<open>errors.Is and errors.As\<close>

text \<open>\<open>errors.Is(e, ErrCancelled)\<close>; a timeout answers to it, so it is needed first: the method
  \<open>TimeoutError.Is\<close> asks it of the target.\<close>

fun is_cancelled :: "goerr \<Rightarrow> bool" where
  "is_cancelled (SentinelErr c) = (c = CategoryCancelled)"
| "is_cancelled (WrapErr _ e) = is_cancelled e"
| "is_cancelled (JoinErr es) = list_ex is_cancelled es"
| "is_cancelled (BrokenConnErr _ c) = (case c of None \<Rightarrow> False | Some e \<Rightarrow> is_cancelled e)"
| "is_cancelled (TimeoutErr _ _) = True"
| "is_cancelled (CancelledErr _ _) = True"
| "is_cancelled (MarshalErr _ _ _ c) = (case c of None \<Rightarrow> False | Some e \<Rightarrow> is_cancelled e)"
| "is_cancelled _ = False"

text \<open>\<open>errors.Is(e, t)\<close>: equality, the \<open>Is\<close> method, then the unwrapped errors. Typed errors are
  pointers, so as a target only a sentinel or a plain error is meaningful.\<close>

fun errors_Is :: "goerr \<Rightarrow> goerr \<Rightarrow> bool" where
  "errors_Is (WrapErr s e) t = (WrapErr s e = t \<or> errors_Is e t)"
| "errors_Is (JoinErr es) t = (JoinErr es = t \<or> list_ex (\<lambda>e. errors_Is e t) es)"
| "errors_Is (LogonErr k i u c s) t =
     (LogonErr k i u c s = t \<or> t = logon_sentinel k \<or> t = SentinelErr CategoryLogon)"
| "errors_Is (BrokenConnErr r c) t =
     (BrokenConnErr r c = t \<or> t = SentinelErr CategoryBrokenConn \<or>
      (case c of None \<Rightarrow> False | Some e \<Rightarrow> errors_Is e t))"
| "errors_Is (TimeoutErr f d) t = (TimeoutErr f d = t \<or> t = SentinelErr CategoryTimeout \<or> is_cancelled t)"
| "errors_Is (CancelledErr f c) t =
     (CancelledErr f c = t \<or> t = SentinelErr CategoryCancelled \<or>
      (case c of None \<Rightarrow> False | Some e \<Rightarrow> errors_Is e t))"
| "errors_Is (MarshalErr f g a c) t =
     (MarshalErr f g a c = t \<or> t = SentinelErr CategoryMarshal \<or>
      (case c of None \<Rightarrow> False | Some e \<Rightarrow> errors_Is e t))"
| "errors_Is (SDKUnavailableErr r p) t =
     (SDKUnavailableErr r p = t \<or> t = SentinelErr CategorySDKUnavailable \<or> t = ErrUnavailable)"
| "errors_Is (UnsupportedFeatureErr f r c) t =
     (UnsupportedFeatureErr f r c = t \<or> t = SentinelErr CategoryUnsupported \<or> t = ErrUnsupported)"
| "errors_Is e t = (e = t \<or> (case rfc_category e of Some c \<Rightarrow> t = SentinelErr c | None \<Rightarrow> False))"

text \<open>\<open>errors.As\<close> to \<open>*backend.SDKError\<close>: the first one in the tree.\<close>

definition first_some :: "'a option list \<Rightarrow> 'a option" where
  "first_some xs = (case dropWhile (\<lambda>x. x = None) xs of [] \<Rightarrow> None | x # _ \<Rightarrow> x)"

fun as_sdk :: "goerr \<Rightarrow> (go_string \<times> sdk_error_info) option" where
  "as_sdk (SDKErr op i) = Some (op, i)"
| "as_sdk (WrapErr _ e) = as_sdk e"
| "as_sdk (JoinErr es) = first_some (map as_sdk es)"
| "as_sdk (BrokenConnErr _ c) = (case c of None \<Rightarrow> None | Some e \<Rightarrow> as_sdk e)"
| "as_sdk (CancelledErr _ c) = (case c of None \<Rightarrow> None | Some e \<Rightarrow> as_sdk e)"
| "as_sdk (MarshalErr _ _ _ c) = (case c of None \<Rightarrow> None | Some e \<Rightarrow> as_sdk e)"
| "as_sdk _ = None"

section \<open>Logon classification\<close>

record logon_rule =
  lr_subtype :: logon_kind
  lr_strongKeys :: "go_string list"
  lr_messagePhrases :: "go_string list"

definition logonClassifications :: "logon_rule list" where
  "logonClassifications =
    [\<lparr>lr_subtype = PasswordExpired, lr_strongKeys = [''rfc_password_expired'', ''abap_password_expired''],
      lr_messagePhrases = [''password is no longer valid'', ''password has expired'',
        ''password change required'', ''please change your password'', ''password is expired'']\<rparr>,
     \<lparr>lr_subtype = UserLocked, lr_strongKeys = [''rfc_user_locked'', ''abap_user_locked''],
      lr_messagePhrases = [''user is locked'', ''user has been locked'', ''is locked due to incorrect logon'']\<rparr>,
     \<lparr>lr_subtype = InvalidCredentials, lr_strongKeys = [''rfc_invalid_credentials''],
      lr_messagePhrases = [''name or password is incorrect'', ''name or password incorrect'',
        ''incorrect user name or password'', ''please re-enter your password'', ''unknown user'']\<rparr>]"

definition matchLogonRule :: "logon_rule \<Rightarrow> go_string \<Rightarrow> go_string \<Rightarrow> bool" where
  "matchLogonRule rule keyLower msgLower \<longleftrightarrow>
     list_ex (\<lambda>k. k \<noteq> [] \<and> keyLower = k) (lr_strongKeys rule) \<or>
     list_ex (\<lambda>sub. sub \<noteq> [] \<and> contains msgLower sub) (lr_messagePhrases rule)"

definition classifyLogon :: "sdk_error_info \<Rightarrow> logon_kind" where
  "classifyLogon info =
     (let keyLower = to_lower (trim_space (Key info)); msgLower = to_lower (Message info)
      in case find (\<lambda>rule. matchLogonRule rule keyLower msgLower) logonClassifications of
           Some rule \<Rightarrow> lr_subtype rule | None \<Rightarrow> UnknownLogonFailure)"

definition buildLogonError :: "sdk_error_info \<Rightarrow> go_string \<Rightarrow> go_string \<Rightarrow> go_string \<Rightarrow> goerr" where
  "buildLogonError info user client sysid = LogonErr (classifyLogon info) info user client sysid"

section \<open>The mapping\<close>

definition sdkErrorToTyped :: "go_string \<Rightarrow> sdk_error_info \<Rightarrow> goerr" where
  "sdkErrorToTyped op info =
     (let g = Group info
      in if g = GroupLogonFailure then buildLogonError info [] [] []
         else if g = GroupCommunicationFailure then CommunicationErr info [] []
         else if g = GroupAbapApplicationFailure then ABAPApplicationErr info op
         else if g = GroupAbapRuntimeFailure then ABAPRuntimeErr info op
         else if g = GroupExternalAuthorizationFailure then ExtAuthzErr info
         else if g = GroupExternalApplicationFailure then ExtAppErr info op
         else if g = GroupExternalRuntimeFailure then ExtRuntimeErr info
         else ExtRuntimeErr info)"

text \<open>The substring between \<open>RfcInvoke(\<close> and the next closing parenthesis of the text.\<close>

fun index_of :: "go_string \<Rightarrow> go_string \<Rightarrow> nat option" where
  "index_of [] p = (if p = [] then Some 0 else None)"
| "index_of (c # s) p = (if has_prefix (c # s) p then Some 0 else map_option Suc (index_of s p))"

definition extractFunctionName :: "go_string \<Rightarrow> go_string" where
  "extractFunctionName msg =
     (case index_of msg ''RfcInvoke('' of
        Some i \<Rightarrow> let rest = drop (i + length ''RfcInvoke('') msg
                  in (case index_of rest '')'' of Some j \<Rightarrow> take j rest | None \<Rightarrow> ''(unknown)'')
      | None \<Rightarrow> ''(unknown)'')"

text \<open>A deadline is kept as its RFC 3339 text; this is the one of the zero \<open>time.Time\<close>.\<close>

definition zero_time_text :: go_string where
  "zero_time_text = ''0001-01-01T00:00:00Z''"

text \<open>\<open>text\<close> is the \<open>Error\<close> method and \<open>cur\<close> the version of the default backend, both only
  copied into the result.\<close>

definition mapBackendError :: "(goerr \<Rightarrow> go_string) \<Rightarrow> version \<Rightarrow> goerr \<Rightarrow> goerr" where
  "mapBackendError text cur e =
     (if rfc_category e \<noteq> None then e
      else case as_sdk e of
        Some (op, info) \<Rightarrow> sdkErrorToTyped op info
      | None \<Rightarrow>
          if errors_Is e BkErrTimeout then TimeoutErr (extractFunctionName (text e)) zero_time_text
          else if errors_Is e BkErrCancelled then CancelledErr (extractFunctionName (text e)) (Some e)
          else if errors_Is e ErrUnavailable then SDKUnavailableErr (text e) []
          else if errors_Is e ErrUnsupported then UnsupportedFeatureErr ''(unspecified)'' zero_version cur
          else e)"

definition mapContextOrBackendError ::
    "(goerr \<Rightarrow> go_string) \<Rightarrow> version \<Rightarrow> go_string \<Rightarrow> go_string \<Rightarrow> goerr \<Rightarrow> goerr" where
  "mapContextOrBackendError text cur now fn e =
     (if errors_Is e DeadlineExceeded then TimeoutErr fn now
      else if errors_Is e Canceled then CancelledErr fn (Some e)
      else let m = mapBackendError text cur e
           in if m \<noteq> e then m else WrapErr (''nwrfc: table stream '' @ fn @ '': '') e)"

text \<open>What \<open>sdkbackend\<close> returns for a failed conversion of a field.\<close>

definition errMarshal :: "go_string \<Rightarrow> go_string \<Rightarrow> go_string \<Rightarrow> goerr option \<Rightarrow> goerr" where
  "errMarshal field goType abapType cause =
     WrapErr (''nwrfc/sdkbackend marshal: field='' @ field @ '' goType='' @ goType @ '' abapType='' @ abapType @ '': '')
       (case cause of None \<Rightarrow> PlainErr ''conversion failed'' | Some e \<Rightarrow> e)"

section \<open>Texts\<close>

definition show_int :: "int \<Rightarrow> go_string" where
  "show_int n = (if n < 0 then ''-'' @ show_nat (nat (- n)) else show_nat (nat n))"

fun sdk_text :: "(go_string \<Rightarrow> go_string) \<Rightarrow> go_string \<Rightarrow> sdk_error_info \<Rightarrow> go_string" where
  "sdk_text quote op i = ''nwrfc/sdkbackend: '' @ op @ '': code='' @ show_int (Code i) @ '' group='' @
     show_nat (Group i) @ '' key='' @ quote (Key i) @ '' msg='' @ quote (Message i)"

fun logon_text :: "logon_kind \<Rightarrow> sdk_error_info \<Rightarrow> go_string \<Rightarrow> go_string \<Rightarrow> go_string \<Rightarrow> go_string" where
  "logon_text PlainLogon i u c s = ''nwrfc: logon failed: '' @ Message i @ '' (key='' @ Key i @
     '', user='' @ u @ '', client='' @ c @ '', sysid='' @ s @ '')''"
| "logon_text PasswordExpired i u c s = ''nwrfc: SAP password expired (user='' @ u @ '', client='' @ c @
     '', sysid='' @ s @ '', key='' @ Key i @ '')''"
| "logon_text UserLocked i u c s = ''nwrfc: SAP user locked (user='' @ u @ '', client='' @ c @
     '', sysid='' @ s @ '', key='' @ Key i @ '')''"
| "logon_text InvalidCredentials i u c s = ''nwrfc: invalid SAP credentials (user='' @ u @ '', client='' @ c @
     '', sysid='' @ s @ '', key='' @ Key i @ '')''"
| "logon_text UnknownLogonFailure i u c s = ''nwrfc: unclassified SAP logon failure (user='' @ u @
     '', client='' @ c @ '', sysid='' @ s @ '', key='' @ Key i @ '', msg='' @ Message i @ '')''"

fun sentinel_text :: "category \<Rightarrow> go_string" where
  "sentinel_text CategoryLogon = ''RFC logon failed''"
| "sentinel_text CategoryCommunication = ''RFC communication failure''"
| "sentinel_text CategoryABAPApp = ''ABAP application error''"
| "sentinel_text CategoryABAPRuntime = ''ABAP runtime error''"
| "sentinel_text CategoryABAPClassic = ''ABAP classic exception''"
| "sentinel_text CategoryABAPClass = ''ABAP class-based exception''"
| "sentinel_text CategoryExtAuthz = ''external authorization failure''"
| "sentinel_text CategoryExtApp = ''external application failure''"
| "sentinel_text CategoryExtRuntime = ''external runtime failure''"
| "sentinel_text CategoryBrokenConn = ''RFC connection is broken''"
| "sentinel_text CategoryTimeout = ''RFC call timed out''"
| "sentinel_text CategoryCancelled = ''RFC call cancelled''"
| "sentinel_text CategoryMarshal = ''RFC marshal/unmarshal failed''"
| "sentinel_text CategoryConfig = ''RFC config invalid''"
| "sentinel_text CategorySDKUnavailable = ''SAP NetWeaver RFC SDK is not available''"
| "sentinel_text CategoryUnsupported = ''feature not supported by this SDK version''"
| "sentinel_text CategoryUnknown = []"

text \<open>The double arrow of \<open>MarshalError\<close>, in UTF-8.\<close>

definition arrow_text :: go_string where
  "arrow_text = [CHR '' '', CHR 0xE2, CHR 0x86, CHR 0x94, CHR '' '']"

text \<open>A nil reason of \<open>MarshalError\<close> prints as \<open>%v\<close> of nil; \<open>quote\<close> is \<open>strconv.Quote\<close>.\<close>

fun error_text :: "(go_string \<Rightarrow> go_string) \<Rightarrow> goerr \<Rightarrow> go_string" where
  "error_text quote (SentinelErr c) = sentinel_text c"
| "error_text quote (PlainErr m) = m"
| "error_text quote (WrapErr m e) = m @ error_text quote e"
| "error_text quote (JoinErr es) = join [CHR 0x0A] (map (error_text quote) es)"
| "error_text quote (SDKErr op i) = sdk_text quote op i"
| "error_text quote (LogonErr k i u c s) = logon_text k i u c s"
| "error_text quote (CommunicationErr i h sv) = ''nwrfc: communication failure: '' @ Message i @ '' (host='' @ h @
     '', service='' @ sv @ '', key='' @ Key i @ '')''"
| "error_text quote (ABAPApplicationErr i f) = ''nwrfc: ABAP application error in '' @ f @ '': '' @ Key i @ ''/'' @
     Message i @ '' (msg='' @ AbapMsgClass i @ AbapMsgType i @ '' number='' @ AbapMsgNumber i @ '')''"
| "error_text quote (ABAPRuntimeErr i f) = ''nwrfc: ABAP runtime error in '' @ f @ '': '' @ Key i @ ''/'' @ Message i"
| "error_text quote (ABAPClassicErr i f) = ''nwrfc: ABAP classic exception in '' @ f @ '': '' @ Key i"
| "error_text quote (ABAPClassErr i f c) = ''nwrfc: ABAP class exception '' @ c @ '' in '' @ f @ '': '' @ Message i"
| "error_text quote (ExtAuthzErr i) = ''nwrfc: external authorization failure: '' @ Key i"
| "error_text quote (ExtAppErr i f) = ''nwrfc: external application error in '' @ f @ '': '' @ Key i"
| "error_text quote (ExtRuntimeErr i) = ''nwrfc: external runtime error: '' @ Key i @ ''/'' @ Message i"
| "error_text quote (BrokenConnErr r c) = ''nwrfc: broken connection: '' @ r @
     (case c of None \<Rightarrow> [] | Some e \<Rightarrow> '': '' @ error_text quote e)"
| "error_text quote (TimeoutErr f d) = ''nwrfc: '' @ f @ '' timed out (deadline='' @ d @ '')''"
| "error_text quote (CancelledErr f c) = ''nwrfc: '' @ f @ '' cancelled'' @
     (case c of None \<Rightarrow> [] | Some e \<Rightarrow> '': '' @ error_text quote e)"
| "error_text quote (MarshalErr f g a c) = ''nwrfc: marshal error on '' @ f @ '': '' @ g @ arrow_text @ a @ '': '' @
     (case c of None \<Rightarrow> ''<nil>'' | Some e \<Rightarrow> error_text quote e)"
| "error_text quote (ConfigErr f h) = ''nwrfc: invalid configuration in '' @ f @ (if h = [] then [] else '': '' @ h)"
| "error_text quote (SDKUnavailableErr r l) = ''nwrfc: SDK unavailable: '' @ r @
     (if l = [] then [] else '' (looked in '' @ l @ '')'')"
| "error_text quote (UnsupportedFeatureErr f r c) = ''nwrfc: feature '' @ f @ '' requires SDK '' @
     version_string r @ '' but '' @ version_string c @ '' is loaded''"

section \<open>Log values\<close>

definition opt_attr :: "go_string \<Rightarrow> go_string \<Rightarrow> 'a slog_attr list" where
  "opt_attr k v = (if v = [] then [] else [(k, SlogString v)])"

definition redacted_attr :: "go_string \<Rightarrow> go_string \<Rightarrow> 'a slog_attr list" where
  "redacted_attr k v = (if v = [] then [] else [(k, SlogString RedactedPlaceholder)])"

definition info_LogValue :: "sdk_error_info \<Rightarrow> 'a slog_val" where
  "info_LogValue s = SlogGroup
     ([(''code'', SlogInt (Code s)), (''group'', SlogInt (int (Group s))),
       (''key'', SlogString (Key s)), (''message'', SlogString (Message s))] @
      opt_attr ''abap_msg_class'' (AbapMsgClass s) @ opt_attr ''abap_msg_type'' (AbapMsgType s) @
      opt_attr ''abap_msg_number'' (AbapMsgNumber s) @
      redacted_attr ''abap_msg_v1'' (AbapMsgV1 s) @ redacted_attr ''abap_msg_v2'' (AbapMsgV2 s) @
      redacted_attr ''abap_msg_v3'' (AbapMsgV3 s) @ redacted_attr ''abap_msg_v4'' (AbapMsgV4 s))"

definition redactedSDKErrorInfo :: "sdk_error_info \<Rightarrow> sdk_error_info" where
  "redactedSDKErrorInfo i = (if Message i \<noteq> [] then i\<lparr>Message := RedactedPlaceholder\<rparr> else i)"

definition RedactedAuthzMessage :: go_string where
  "RedactedAuthzMessage = [CHR 0xC2, CHR 0xAB] @ ''redacted external authz message'' @ [CHR 0xC2, CHR 0xBB]"

definition cat_attr :: "category \<Rightarrow> 'a slog_attr" where
  "cat_attr c = (''category'', SlogString (category_String c))"

fun logon_subtype_text :: "logon_kind \<Rightarrow> go_string" where
  "logon_subtype_text PasswordExpired = ''password_expired''"
| "logon_subtype_text UserLocked = ''user_locked''"
| "logon_subtype_text InvalidCredentials = ''invalid_credentials''"
| "logon_subtype_text UnknownLogonFailure = ''unknown_logon_failure''"
| "logon_subtype_text PlainLogon = []"

definition logon_LogValue :: "logon_kind \<Rightarrow> sdk_error_info \<Rightarrow> go_string \<Rightarrow> go_string \<Rightarrow> go_string \<Rightarrow> 'a slog_val" where
  "logon_LogValue k i u c s = SlogGroup
     ([cat_attr CategoryLogon] @
      (if k = PlainLogon then [(''info'', info_LogValue i)]
       else [(''subtype'', SlogString (logon_subtype_text k)), (''info'', info_LogValue (redactedSDKErrorInfo i))]) @
      [(''user'', SlogString u), (''client'', SlogString c), (''sysid'', SlogString s)])"

text \<open>The log value of an error with a \<open>LogValue\<close> method; a cause is logged as it is.\<close>

fun err_LogValue :: "goerr \<Rightarrow> goerr option slog_val" where
  "err_LogValue (SentinelErr c) = SlogGroup [cat_attr c, (''message'', SlogString (sentinel_text c))]"
| "err_LogValue (LogonErr k i u c s) = logon_LogValue k i u c s"
| "err_LogValue (CommunicationErr i h sv) = SlogGroup [cat_attr CategoryCommunication,
     (''info'', info_LogValue i), (''host'', SlogString h), (''service'', SlogString sv)]"
| "err_LogValue (ABAPApplicationErr i f) = SlogGroup [cat_attr CategoryABAPApp,
     (''function'', SlogString f), (''info'', info_LogValue i)]"
| "err_LogValue (ABAPRuntimeErr i f) = SlogGroup [cat_attr CategoryABAPRuntime,
     (''function'', SlogString f), (''info'', info_LogValue i)]"
| "err_LogValue (ABAPClassicErr i f) = SlogGroup [cat_attr CategoryABAPClassic,
     (''function'', SlogString f), (''info'', info_LogValue i)]"
| "err_LogValue (ABAPClassErr i f c) = SlogGroup [cat_attr CategoryABAPClass,
     (''function'', SlogString f), (''class'', SlogString c), (''info'', info_LogValue i)]"
| "err_LogValue (ExtAuthzErr i) = SlogGroup [cat_attr CategoryExtAuthz,
     (''info'', info_LogValue (i\<lparr>Message := RedactedAuthzMessage\<rparr>))]"
| "err_LogValue (ExtAppErr i f) = SlogGroup [cat_attr CategoryExtApp,
     (''function'', SlogString f), (''info'', info_LogValue i)]"
| "err_LogValue (ExtRuntimeErr i) = SlogGroup [cat_attr CategoryExtRuntime, (''info'', info_LogValue i)]"
| "err_LogValue (BrokenConnErr r c) = SlogGroup [cat_attr CategoryBrokenConn,
     (''reason'', SlogString r), (''cause'', SlogAny c)]"
| "err_LogValue (TimeoutErr f d) = SlogGroup [cat_attr CategoryTimeout, (''function'', SlogString f),
     (''deadline'', SlogTime)]"
| "err_LogValue (CancelledErr f c) = SlogGroup [cat_attr CategoryCancelled, (''function'', SlogString f),
     (''cause'', SlogAny c)]"
| "err_LogValue (MarshalErr f g a c) = SlogGroup [cat_attr CategoryMarshal, (''field'', SlogString f),
     (''go_type'', SlogString g), (''abap_type'', SlogString a), (''reason'', SlogAny c)]"
| "err_LogValue (ConfigErr f h) = SlogGroup [cat_attr CategoryConfig, (''field'', SlogString f),
     (''hint'', SlogString (if IsSensitiveKey f then RedactedPlaceholder else h))]"
| "err_LogValue (SDKUnavailableErr r l) = SlogGroup [cat_attr CategorySDKUnavailable,
     (''reason'', SlogString r), (''lookup_path'', SlogString l)]"
| "err_LogValue (UnsupportedFeatureErr f r c) = SlogGroup [cat_attr CategoryUnsupported,
     (''feature'', SlogString f), (''required_version'', SlogString (version_string r)),
     (''current_version'', SlogString (version_string c))]"
| "err_LogValue e = SlogAny (Some e)"

section \<open>Properties\<close>

definition group_category :: "nat \<Rightarrow> category" where
  "group_category g =
     (if g = 1 then CategoryABAPApp else if g = 2 then CategoryABAPRuntime
      else if g = 3 then CategoryLogon else if g = 4 then CategoryCommunication
      else if g = 6 then CategoryExtApp else if g = 7 then CategoryExtAuthz else CategoryExtRuntime)"

lemma rfc_category_sdkErrorToTyped: "rfc_category (sdkErrorToTyped op i) = Some (group_category (Group i))"
  by (simp add: sdkErrorToTyped_def group_category_def group_defs buildLogonError_def)

lemma typed_Is_sentinel: "rfc_category e = Some c \<Longrightarrow> errors_Is e (SentinelErr c)"
  by (cases e) simp_all

lemma typed_CategoryOf: "rfc_category e = Some c \<Longrightarrow> CategoryOf e = c"
  by (cases e) simp_all

lemma mapBackendError_typed: "rfc_category e \<noteq> None \<Longrightarrow> mapBackendError text cur e = e"
  by (simp add: mapBackendError_def)

lemma mapBackendError_cases: "mapBackendError text cur e = e \<or> rfc_category (mapBackendError text cur e) \<noteq> None"
  by (auto simp: mapBackendError_def rfc_category_sdkErrorToTyped split: option.split)



text \<open>An SDK error anywhere in a backend error is mapped by its error group: the result has the
  category of the group and answers to its sentinel, and is retryable exactly for a communication
  failure.\<close>

theorem mapBackendError_group:
  assumes "as_sdk e = Some (op, info)" "rfc_category e = None"
  shows "CategoryOf (mapBackendError text cur e) = group_category (Group info) \<and>
    errors_Is (mapBackendError text cur e) (SentinelErr (group_category (Group info))) \<and>
    (IsRetryable (mapBackendError text cur e) \<longleftrightarrow> Group info = GroupCommunicationFailure)"
proof -
  have "rfc_category (mapBackendError text cur e) = Some (group_category (Group info))"
    using assms by (simp add: mapBackendError_def rfc_category_sdkErrorToTyped)
  with typed_Is_sentinel typed_CategoryOf show ?thesis by (simp add: IsRetryable_def group_category_def group_defs)
qed

lemma mapBackendError_group_witness:
  "CategoryOf (mapBackendError (\<lambda>_. []) zero_version (WrapErr ''x: '' (SDKErr ''RfcPing''
     \<lparr>Code = 1, Group = 4, Key = [], Message = [], AbapMsgClass = [], AbapMsgType = [], AbapMsgNumber = [],
      AbapMsgV1 = [], AbapMsgV2 = [], AbapMsgV3 = [], AbapMsgV4 = []\<rparr>))) = CategoryCommunication"
  by (subst mapBackendError_group [THEN conjunct1]) (auto simp: group_category_def)

text \<open>The mapping is idempotent, so an error that passes it twice on its way up is not wrapped or
  reclassified again.\<close>

theorem mapBackendError_idempotent:
  "mapBackendError text cur (mapBackendError text cur e) = mapBackendError text cur e"
  using mapBackendError_cases [of "text" cur e] mapBackendError_typed by metis

text \<open>Two payloads that differ only in what must not be logged.\<close>

definition same_public :: "sdk_error_info \<Rightarrow> sdk_error_info \<Rightarrow> bool" where
  "same_public i j \<longleftrightarrow> Code i = Code j \<and> Group i = Group j \<and> Key i = Key j \<and>
     AbapMsgClass i = AbapMsgClass j \<and> AbapMsgType i = AbapMsgType j \<and> AbapMsgNumber i = AbapMsgNumber j \<and>
     (AbapMsgV1 i = [] \<longleftrightarrow> AbapMsgV1 j = []) \<and> (AbapMsgV2 i = [] \<longleftrightarrow> AbapMsgV2 j = []) \<and>
     (AbapMsgV3 i = [] \<longleftrightarrow> AbapMsgV3 j = []) \<and> (AbapMsgV4 i = [] \<longleftrightarrow> AbapMsgV4 j = [])"

lemma info_LogValue_public:
  "same_public i j \<Longrightarrow> Message i = Message j \<Longrightarrow> info_LogValue i = info_LogValue j"
  by (simp add: info_LogValue_def same_public_def redacted_attr_def)

lemma redacted_info_public:
  "same_public i j \<Longrightarrow> (Message i = [] \<longleftrightarrow> Message j = []) \<Longrightarrow>
   info_LogValue (redactedSDKErrorInfo i) = info_LogValue (redactedSDKErrorInfo j)"
  by (rule info_LogValue_public) (auto simp: redactedSDKErrorInfo_def same_public_def)

lemma classifyLogon_not_plain: "classifyLogon i \<noteq> PlainLogon"
  by (auto simp: classifyLogon_def logonClassifications_def Let_def split: option.splits if_splits)



text \<open>A marshalling failure of the SDK backend is not turned into a \<open>MarshalError\<close>: the mapping
  returns it unchanged and its category is unknown.\<close>

theorem errMarshal_not_mapped:
  "mapBackendError text cur (errMarshal field goType abapType None) = errMarshal field goType abapType None \<and>
   CategoryOf (errMarshal field goType abapType None) = CategoryUnknown \<and>
   \<not> errors_Is (errMarshal field goType abapType None) (SentinelErr CategoryMarshal)"
  by (simp add: errMarshal_def mapBackendError_def plain_errs)

end
