(* ===== verification/Go_Values.thy ===== *)
theory Go_Values
  imports Rfc_Errors
begin

text \<open>
  Go values as \<open>reflect\<close> sees them: types, values, and the dynamic parameter maps
  \<open>backend.CallParams\<close>.

  A value of an interface type is its dynamic value, \<open>VNil\<close> standing for a nil interface; a
  location's static type is passed beside the value where the program asks for it. A named type is
  \<open>TNamed\<close> with its underlying type, and the values of a named type are those of the
  underlying one wrapped in \<open>VNamed\<close>. Maps are association lists with distinct keys, a nil
  slice or map is \<open>None\<close>. Floats are their IEEE bit patterns.
\<close>

datatype ikind = KInt | KInt8 | KInt16 | KInt32 | KInt64 | KUint | KUint8 | KUint16 | KUint32 | KUint64
datatype fkind = KFloat32 | KFloat64

text \<open>A struct field: Go name, tag, whether it is exported, whether it is embedded, type.\<close>

datatype gtype =
    TBool
  | TString
  | TInt ikind
  | TFloat fkind
  | TIface
  | TSlice gtype
  | TArray nat gtype
  | TPtr gtype
  | TMap gtype gtype
  | TStruct "(go_string \<times> go_string \<times> bool \<times> bool \<times> gtype) list"
  | TNamed go_string gtype

datatype gval =
    VNil
  | VBool bool
  | VString go_string
  | VInt ikind int
  | VFloat fkind "64 word"
  | VSlice gtype "gval list option"
  | VArray gtype "gval list"
  | VPtr gtype "gval option"
  | VMap gtype gtype "(gval \<times> gval) list option"
  | VStruct "(go_string \<times> go_string \<times> bool \<times> bool \<times> gtype) list" "gval list"
  | VNamed go_string gval

fun under :: "gtype \<Rightarrow> gtype" where
  "under (TNamed _ t) = under t"
| "under t = t"

fun raw :: "gval \<Rightarrow> gval" where
  "raw (VNamed _ v) = raw v"
| "raw v = v"

fun type_of :: "gval \<Rightarrow> gtype" where
  "type_of VNil = TIface"
| "type_of (VBool _) = TBool"
| "type_of (VString _) = TString"
| "type_of (VInt k _) = TInt k"
| "type_of (VFloat k _) = TFloat k"
| "type_of (VSlice t _) = TSlice t"
| "type_of (VArray t vs) = TArray (length vs) t"
| "type_of (VPtr t _) = TPtr t"
| "type_of (VMap k t _) = TMap k t"
| "type_of (VStruct fs _) = TStruct fs"
| "type_of (VNamed n v) = TNamed n (type_of v)"

lemma under_idem [simp]: "under (under t) = under t"
  by (induction t) simp_all

lemma raw_idem [simp]: "raw (raw v) = raw v"
  by (induction v) simp_all

lemma type_of_raw: "under (type_of v) = type_of (raw v)"
  by (induction v) simp_all

text \<open>\<open>backend.Date\<close> and \<open>backend.Time\<close>.\<close>

definition date_type :: gtype where
  "date_type = TNamed ''backend.Date'' (TStruct
     [(''Year'', [], True, False, TInt KUint16), (''Month'', [], True, False, TInt KUint16),
      (''Day'', [], True, False, TInt KUint16)])"

definition time_type :: gtype where
  "time_type = TNamed ''backend.Time'' (TStruct
     [(''Hour'', [], True, False, TInt KUint8), (''Minute'', [], True, False, TInt KUint8),
      (''Second'', [], True, False, TInt KUint8)])"

section \<open>Parameter maps\<close>

type_synonym call_params = "(go_string \<times> gval) list"

text \<open>A parameter set or row as a \<open>map[string]any\<close> value, and the type assertions the program
  makes on dynamic values.\<close>

definition any_map :: "call_params \<Rightarrow> gval" where
  "any_map m = VMap TString TIface (Some (map (\<lambda>(k, v). (VString k, v)) m))"

fun as_string :: "gval \<Rightarrow> go_string option" where
  "as_string (VString s) = Some s"
| "as_string _ = None"

definition string_entries :: "(gval \<times> gval) list \<Rightarrow> call_params" where
  "string_entries kvs = map (\<lambda>(k, v). (case as_string k of Some s \<Rightarrow> s | None \<Rightarrow> [], v)) kvs"

fun as_any_map :: "gval \<Rightarrow> call_params option" where
  "as_any_map (VMap TString TIface (Some kvs)) = Some (string_entries kvs)"
| "as_any_map (VMap TString TIface None) = Some []"
| "as_any_map _ = None"

lemma as_any_map_any_map [simp]: "as_any_map (any_map m) = Some m"
  by (simp add: any_map_def string_entries_def o_def case_prod_beta)

text \<open>\<open>s, _ := m[k].(string)\<close>.\<close>

definition string_at :: "call_params \<Rightarrow> go_string \<Rightarrow> go_string" where
  "string_at m k = (case map_of m k of
     Some v \<Rightarrow> (case as_string v of Some s \<Rightarrow> s | None \<Rightarrow> []) | None \<Rightarrow> [])"

text \<open>A map update, \<open>m[k] = v\<close>: an existing key keeps its place.\<close>

fun map_set :: "go_string \<Rightarrow> 'v \<Rightarrow> (go_string \<times> 'v) list \<Rightarrow> (go_string \<times> 'v) list" where
  "map_set k v [] = [(k, v)]"
| "map_set k v ((k', v') # m) = (if k' = k then (k, v) # m else (k', v') # map_set k v m)"

lemma map_of_map_set [simp]: "map_of (map_set k v m) = (map_of m)(k \<mapsto> v)"
  by (induction m rule: map_set.induct) (auto simp: fun_eq_iff)

lemma map_set_keys [simp]: "fst ` set (map_set k v m) = insert k (fst ` set m)"
  by (induction k v m rule: map_set.induct) auto

lemma map_set_distinct [simp]: "distinct (map fst (map_set k v m)) = distinct (map fst m)"
  by (induction k v m rule: map_set.induct) auto

lemma map_set_new: "k \<notin> fst ` set m \<Longrightarrow> map_set k v m = m @ [(k, v)]"
  by (induction k v m rule: map_set.induct) auto

end
