(* ===== verification/Conn_Params.thy ===== *)
theory Conn_Params
  imports Go_Values "HOL-Library.Char_ord" "HOL-Library.List_Lexorder"
begin

text \<open>
  Connection parameters: \<open>nwrfc/params.go\<close>, the INI reader of \<open>nwrfc/inifs.go\<close>, the
  providers of \<open>nwrfc/provider.go\<close> and the capability check of \<open>nwrfc/capabilities.go\<close>.

  A Go map is a list of pairs with distinct keys in insertion (for \<open>Extra\<close>: iteration) order;
  \<open>sort.Strings\<close> is \<open>sort\<close> in the lexicographic order of bytes. The lemmas show that the
  conversion to SDK parameters yields distinct keys and non-empty values, and that what is printed
  or logged does not depend on the value of a sensitive key.
\<close>

section \<open>Parameters\<close>

record params =
  Dest :: go_string
  AsHost :: go_string
  SysNr :: go_string
  MsHost :: go_string
  R3Name :: go_string
  PGroup :: go_string
  WSHost :: go_string
  WSPort :: go_string
  Client :: go_string
  User :: go_string
  Passwd :: go_string
  Lang :: go_string
  Mysapsso2 :: go_string
  X509Cert :: go_string
  SAML2 :: go_string
  Bearer :: go_string
  SncQOP :: go_string
  SncLib :: go_string
  SncMyName :: go_string
  SncPartnerName :: go_string
  SncSso :: go_string
  TLSClientPSE :: go_string
  TLSTrustAll :: go_string
  Trace :: go_string
  Extra :: "(go_string \<times> go_string) list"
  MaxTraceLevel :: int

definition empty_params :: params where
  "empty_params = \<lparr>Dest = [], AsHost = [], SysNr = [], MsHost = [], R3Name = [], PGroup = [], WSHost = [],
     WSPort = [], Client = [], User = [], Passwd = [], Lang = [], Mysapsso2 = [], X509Cert = [], SAML2 = [],
     Bearer = [], SncQOP = [], SncLib = [], SncMyName = [], SncPartnerName = [], SncSso = [],
     TLSClientPSE = [], TLSTrustAll = [], Trace = [], Extra = [], MaxTraceLevel = 0\<rparr>"

text \<open>The fields in the order \<open>toBackendParams\<close> writes them.\<close>

definition param_fields :: "params \<Rightarrow> bparams" where
  "param_fields p =
    [(''dest'', Dest p), (''ashost'', AsHost p), (''sysnr'', SysNr p), (''mshost'', MsHost p),
     (''r3name'', R3Name p), (''group'', PGroup p), (''wshost'', WSHost p), (''wsport'', WSPort p),
     (''client'', Client p), (''user'', User p), (''passwd'', Passwd p), (''lang'', Lang p),
     (''mysapsso2'', Mysapsso2 p), (''x509cert'', X509Cert p), (''saml2'', SAML2 p), (''bearer'', Bearer p),
     (''snc_qop'', SncQOP p), (''snc_lib'', SncLib p), (''snc_myname'', SncMyName p),
     (''snc_partnername'', SncPartnerName p), (''snc_sso'', SncSso p), (''tls_client_pse'', TLSClientPSE p),
     (''tls_trust_all'', TLSTrustAll p), (''trace'', Trace p)]"

definition put_param :: "go_string \<Rightarrow> go_string \<Rightarrow> bparams \<Rightarrow> bparams" where
  "put_param k v out = (if v = [] then out else out @ [(k, v)])"

fun put_extra :: "bparams \<Rightarrow> bparams \<Rightarrow> bparams" where
  "put_extra [] out = out"
| "put_extra ((k, v) # es) out =
     put_extra es (if to_lower k \<in> set (map fst out) then out else put_param (to_lower k) v out)"

definition toBackendParams :: "params \<Rightarrow> bparams" where
  "toBackendParams p =
     put_extra (Extra p) (foldl (\<lambda>out (k, v). put_param k v out) [] (param_fields p))"

definition params_LogValue :: "params \<Rightarrow> 'a slog_val" where
  "params_LogValue p = bparams_LogValue (toBackendParams p)"

definition show_param :: "bparams \<Rightarrow> go_string \<Rightarrow> go_string" where
  "show_param bp k = k @ ''='' @ (if IsSensitiveKey k then RedactedPlaceholder
     else (case map_of bp k of Some v \<Rightarrow> v | None \<Rightarrow> []))"

definition params_String :: "params \<Rightarrow> go_string" where
  "params_String p =
     (let bp = toBackendParams p
      in ''nwrfc.Params{'' @ join '', '' (map (show_param bp) (sort (map fst bp))) @ ''}'')"

definition auth_count :: "params \<Rightarrow> nat" where
  "auth_count p = length (filter (\<lambda>v. v \<noteq> []) [Passwd p, Mysapsso2 p, X509Cert p, SAML2 p, Bearer p])"

definition validate :: "params \<Rightarrow> goerr option" where
  "validate p =
     (if Dest p = [] \<and> AsHost p = [] \<and> MsHost p = [] \<and> WSHost p = []
      then Some (ConfigErr ''transport'' ''set one of Dest, AsHost+SysNr, MsHost+R3Name+Group, or WSHost+WSPort'')
      else if AsHost p \<noteq> [] \<and> SysNr p = [] then Some (ConfigErr ''SysNr'' ''required when AsHost is set'')
      else if MsHost p \<noteq> [] \<and> (R3Name p = [] \<or> PGroup p = [])
      then Some (ConfigErr ''R3Name+Group'' ''required when MsHost is set'')
      else if WSHost p \<noteq> [] \<and> WSPort p = [] then Some (ConfigErr ''WSPort'' ''required when WSHost is set'')
      else if auth_count p > 1
      then Some (ConfigErr ''auth'' ''set at most one of Passwd, Mysapsso2, X509Cert, SAML2, Bearer'')
      else None)"

section \<open>INI files\<close>

definition applyIniField :: "go_string \<Rightarrow> go_string \<Rightarrow> params \<Rightarrow> params" where
  "applyIniField key val p =
     (let k = to_lower key
      in if k = ''ashost'' then p\<lparr>AsHost := val\<rparr>
         else if k = ''sysnr'' then p\<lparr>SysNr := val\<rparr>
         else if k = ''mshost'' then p\<lparr>MsHost := val\<rparr>
         else if k = ''r3name'' then p\<lparr>R3Name := val\<rparr>
         else if k = ''group'' then p\<lparr>PGroup := val\<rparr>
         else if k = ''wshost'' then p\<lparr>WSHost := val\<rparr>
         else if k = ''wsport'' then p\<lparr>WSPort := val\<rparr>
         else if k = ''client'' then p\<lparr>Client := val\<rparr>
         else if k = ''user'' then p\<lparr>User := val\<rparr>
         else if k = ''passwd'' \<or> k = ''password'' then p\<lparr>Passwd := val\<rparr>
         else if k = ''lang'' then p\<lparr>Lang := val\<rparr>
         else if k = ''mysapsso2'' then p\<lparr>Mysapsso2 := val\<rparr>
         else if k = ''x509cert'' then p\<lparr>X509Cert := val\<rparr>
         else if k = ''snc_qop'' then p\<lparr>SncQOP := val\<rparr>
         else if k = ''snc_lib'' then p\<lparr>SncLib := val\<rparr>
         else if k = ''snc_myname'' then p\<lparr>SncMyName := val\<rparr>
         else if k = ''snc_partnername'' then p\<lparr>SncPartnerName := val\<rparr>
         else if k = ''snc_sso'' then p\<lparr>SncSso := val\<rparr>
         else if k = ''tls_client_pse'' then p\<lparr>TLSClientPSE := val\<rparr>
         else if k = ''tls_trust_all'' then p\<lparr>TLSTrustAll := val\<rparr>
         else if k = ''trace'' then p\<lparr>Trace := val\<rparr>
         else p\<lparr>Extra := map_set k val (Extra p)\<rparr>)"

text \<open>The scanner's lines; the state is the map, the current section name and its parameters.\<close>

type_synonym ini_state = "(go_string \<times> params) list \<times> go_string \<times> params"

definition ini_flush :: "ini_state \<Rightarrow> (go_string \<times> params) list" where
  "ini_flush st = (case st of (out, name, cur) \<Rightarrow>
     if name = [] then out else map_set name (cur\<lparr>Dest := name\<rparr>) out)"

definition ini_line :: "ini_state \<Rightarrow> go_string \<Rightarrow> ini_state" where
  "ini_line st rawline = (case st of (out, name, cur) \<Rightarrow>
     let line = trim_space rawline
     in if line = [] \<or> has_prefix line ''#'' \<or> has_prefix line '';'' then st
        else case index_byte line (CHR ''='') of
          None \<Rightarrow> st
        | Some eq \<Rightarrow>
            let key = trim_space (take eq line); val = trim_space (drop (eq + 1) line)
            in if equal_fold key ''DEST'' then (ini_flush st, val, empty_params\<lparr>Dest := val\<rparr>)
               else (out, name, applyIniField key val cur))"

definition parseIni :: "go_string list \<Rightarrow> (go_string \<times> params) list" where
  "parseIni lines = ini_flush (foldl ini_line ([], [], empty_params) lines)"

text \<open>\<open>Some lines\<close> is an installed file system with a readable file; the open error of a missing
  file is passed through.\<close>

definition resolveIniDest :: "(goerr, go_string list) result option \<Rightarrow> go_string \<Rightarrow> (goerr, params option) result" where
  "resolveIniDest fs name =
     (case fs of None \<Rightarrow> Ok None
      | Some (Inl e) \<Rightarrow> Err (WrapErr ''nwrfc: IniFS: '' e)
      | Some (Inr lines) \<Rightarrow>
          (case map_of (parseIni lines) name of
             None \<Rightarrow> Err (ConfigErr ''dest'' (''no [DEST='' @ name @ ''] in IniFS''))
           | Some p \<Rightarrow> Ok (Some p)))"

section \<open>Providers and capabilities\<close>

definition resolveDestination :: "(go_string \<Rightarrow> (goerr, params) result) option \<Rightarrow> go_string \<Rightarrow> (goerr, params) result" where
  "resolveDestination provider name =
     (case provider of None \<Rightarrow> Ok (empty_params\<lparr>Dest := name\<rparr>)
      | Some get \<Rightarrow> (case get name of
            Inl e \<Rightarrow> Err e
          | Inr got \<Rightarrow>
              if AsHost got = [] \<and> MsHost got = [] \<and> WSHost got = [] \<and> Dest got = []
              then Err (ConfigErr ''dest'' (''destination not found: '' @ name)) else Ok got))"

definition enforceCapabilities :: "capabilities \<Rightarrow> version \<Rightarrow> params \<Rightarrow> goerr option" where
  "enforceCapabilities caps cur p =
     (if WSHost p \<noteq> [] \<and> \<not> WebSocketRFC caps
      then Some (UnsupportedFeatureErr ''WebSocketRFC'' \<lparr>Major = 7, Minor = 50, PatchLevel = 10\<rparr> cur)
      else None)"

text \<open>Which parameters \<open>OpenDest\<close> opens: the provider's when they name a host, else the INI file's,
  else the bare destination.\<close>

definition openDest_params ::
    "(go_string \<Rightarrow> (goerr, params) result) option \<Rightarrow> (goerr, go_string list) result option \<Rightarrow> go_string \<Rightarrow>
     (goerr, params) result" where
  "openDest_params provider fs name =
     (if name = [] then Err (ConfigErr ''dest'' ''destination name is required'')
      else case resolveDestination provider name of
        Inl e \<Rightarrow> Err e
      | Inr got \<Rightarrow>
          if AsHost got \<noteq> [] \<or> MsHost got \<noteq> [] \<or> WSHost got \<noteq> [] then Ok got
          else (case resolveIniDest fs name of
                  Inl e \<Rightarrow> Err e
                | Inr (Some p) \<Rightarrow> Ok p
                | Inr None \<Rightarrow> Ok (empty_params\<lparr>Dest := name\<rparr>)))"

section \<open>Well-formed parameter maps\<close>

definition params_wf :: "bparams \<Rightarrow> bool" where
  "params_wf bp \<longleftrightarrow> distinct (map fst bp) \<and> (\<forall>(k, v) \<in> set bp. v \<noteq> [])"

lemma foldl_put: "foldl (\<lambda>out (k, v). put_param k v out) out fs = out @ filter (\<lambda>(k, v). v \<noteq> []) fs"
  by (induction fs arbitrary: out) (auto simp: put_param_def)

lemma distinct_param_fields: "distinct (map fst (param_fields p))"
  by (simp add: param_fields_def)

lemma params_wf_fields: "params_wf (foldl (\<lambda>out (k, v). put_param k v out) [] (param_fields p))"
  using distinct_map_filter [OF distinct_param_fields] by (auto simp: foldl_put params_wf_def)

lemma params_wf_put: "params_wf out \<Longrightarrow> k \<notin> set (map fst out) \<Longrightarrow> params_wf (put_param k v out)"
  by (auto simp: params_wf_def put_param_def)

lemma params_wf_extra: "params_wf out \<Longrightarrow> params_wf (put_extra es out)"
  by (induction es out rule: put_extra.induct) (auto simp: params_wf_put)

lemma put_extra_keeps: "map_of out k = Some v \<Longrightarrow> map_of (put_extra es out) k = Some v"
  by (induction es out rule: put_extra.induct) (auto simp: put_param_def map_add_Some_iff)

definition public_view :: "bparams \<Rightarrow> bparams" where
  "public_view bp = map (\<lambda>(k, v). (k, if IsSensitiveKey k then [] else v)) bp"

lemma public_view_keys: "map fst (public_view bp) = map fst bp"
  by (induction bp) (auto simp: public_view_def)

lemma show_param_view: "show_param (public_view bp) k = show_param bp k"
proof (cases "IsSensitiveKey k")
  case False
  then have "map_of (public_view bp) k = map_of bp k"
    by (induction bp) (auto simp: public_view_def)
  then show ?thesis by (simp add: show_param_def)
qed (simp add: show_param_def)

lemma LogValue_view: "bparams_LogValue (public_view bp) = bparams_LogValue bp"
  by (auto simp: bparams_LogValue_def public_view_def)

lemmas ini_eval = ini_line_def trim_space_keep is_space_def has_prefix_def equal_fold_def applyIniField_def

lemma ini_lines_eval:
  "ini_line ([], [], empty_params) ''DEST=Q'' = ([], ''Q'', empty_params\<lparr>Dest := ''Q''\<rparr>)"
  "ini_line ([], n, p) ''ashost=h'' = ([], n, p\<lparr>AsHost := ''h''\<rparr>)"
  "ini_line ([], n, p) ''sysnr=00'' = ([], n, p\<lparr>SysNr := ''00''\<rparr>)"
  "ini_line ([], n, p) ''passwd=a'' = ([], n, p\<lparr>Passwd := ''a''\<rparr>)"
  "ini_line ([], n, p) ''bearer=b'' = ([], n, p\<lparr>Extra := map_set ''bearer'' ''b'' (Extra p)\<rparr>)"
  by (simp_all add: ini_eval ini_flush_def Let_def)

section \<open>Properties\<close>

text \<open>C7: Neither \<open>String\<close> nor \<open>LogValue\<close> depends on the value of a sensitive parameter: two
  parameter sets that agree on the keys and on the values of the other keys print and log alike,
  whichever field or \<open>Extra\<close> entry the secret is in.\<close>

theorem params_hide_secrets:
  assumes "public_view (toBackendParams p) = public_view (toBackendParams q)"
  shows "params_String p = params_String q \<and> params_LogValue p = (params_LogValue q :: 'a slog_val)"
proof -
  have "params_String r = ''nwrfc.Params{'' @ join '', '' (map (show_param (public_view (toBackendParams r)))
      (sort (map fst (public_view (toBackendParams r))))) @ ''}''" for r
    unfolding params_String_def Let_def public_view_keys by (simp add: show_param_view cong: map_cong)
  then have "params_String p = params_String q" using assms by simp
  moreover have "params_LogValue p = (params_LogValue q :: 'a slog_val)"
    unfolding params_LogValue_def using assms LogValue_view by metis
  ultimately show ?thesis by simp
qed

lemma sensitive_literals: "IsSensitiveKey ''passwd''" "IsSensitiveKey ''api_token''"
  by (simp_all add: IsSensitiveKey_def trim_space_keep is_space_def SensitiveKeys_def
      SensitivePrefixes_def SensitiveSuffixes_def has_prefix_def has_suffix_def)

lemma params_hide_secrets_witness:
  "params_String (empty_params\<lparr>Dest := ''QAS'', Passwd := ''one''\<rparr>) =
   params_String (empty_params\<lparr>Dest := ''QAS'', Passwd := ''two''\<rparr>)"
proof -
  have "public_view (toBackendParams (empty_params\<lparr>Dest := ''QAS'', Passwd := v\<rparr>)) =
      public_view [(''dest'', ''QAS''), (''passwd'', [])]" if "v \<noteq> []" for v
    using that sensitive_literals(1)
    by (simp add: toBackendParams_def param_fields_def put_param_def empty_params_def public_view_def)
  then have "public_view (toBackendParams (empty_params\<lparr>Dest := ''QAS'', Passwd := ''one''\<rparr>)) =
      public_view (toBackendParams (empty_params\<lparr>Dest := ''QAS'', Passwd := ''two''\<rparr>))" by simp
  from params_hide_secrets [OF this] show ?thesis by blast
qed

text \<open>The SDK parameters form a map without empty values, and a field set in the struct is never
  overridden by \<open>Extra\<close>, whatever the case of its key.\<close>

theorem toBackendParams_wf:
  "params_wf (toBackendParams p) \<and>
   list_all (\<lambda>(k, v). if v = [] then True else map_of (toBackendParams p) k = Some v) (param_fields p)"
proof
  show "params_wf (toBackendParams p)"
    unfolding toBackendParams_def by (rule params_wf_extra [OF params_wf_fields])
  have "map_of (toBackendParams p) k = Some v" if "(k, v) \<in> set (param_fields p)" "v \<noteq> []" for k v
  proof -
    have "(k, v) \<in> set (filter (\<lambda>(k, v). v \<noteq> []) (param_fields p))" using that by simp
    then have "map_of (filter (\<lambda>(k, v). v \<noteq> []) (param_fields p)) k = Some v"
      using distinct_map_filter [OF distinct_param_fields] by (simp add: map_of_eq_Some_iff)
    then show ?thesis unfolding toBackendParams_def foldl_put by (simp add: put_extra_keeps)
  qed
  then show "list_all (\<lambda>(k, v). if v = [] then True else map_of (toBackendParams p) k = Some v) (param_fields p)"
    by (auto simp: list_all_iff)
qed

text \<open>When two keys of \<open>Extra\<close> differ only in case, the parameter sent depends on the iteration
  order of the Go map, which the language leaves open.\<close>

theorem extra_order_dependent:
  "toBackendParams (empty_params\<lparr>Extra := [(''CODEPAGE'', ''1100''), (''codepage'', ''4103'')]\<rparr>) = [(''codepage'', ''1100'')] \<and>
   toBackendParams (empty_params\<lparr>Extra := [(''codepage'', ''4103''), (''CODEPAGE'', ''1100'')]\<rparr>) = [(''codepage'', ''4103'')]"
  by (simp add: toBackendParams_def param_fields_def put_param_def empty_params_def)

text \<open>The INI reader stores \<open>saml2\<close> and \<open>bearer\<close> in \<open>Extra\<close>, where \<open>validate\<close> does not
  look: a destination with a password and a bearer token is accepted and both are sent.\<close>

theorem ini_auth_not_exclusive:
  "\<exists>p. parseIni [''DEST=Q'', ''ashost=h'', ''sysnr=00'', ''passwd=a'', ''bearer=b''] = [(''Q'', p)] \<and>
     validate p = None \<and> map_of (toBackendParams p) ''passwd'' = Some ''a'' \<and>
     map_of (toBackendParams p) ''bearer'' = Some ''b''"
proof -
  let ?p = "empty_params\<lparr>Dest := ''Q'', AsHost := ''h'', SysNr := ''00'', Passwd := ''a'', Extra := [(''bearer'', ''b'')]\<rparr>"
  have e: "Extra empty_params = []" by (simp add: empty_params_def)
  have p: "parseIni [''DEST=Q'', ''ashost=h'', ''sysnr=00'', ''passwd=a'', ''bearer=b''] = [(''Q'', ?p)]"
    by (simp add: parseIni_def ini_lines_eval ini_flush_def e)
  have "validate ?p = None" by (simp add: validate_def auth_count_def empty_params_def)
  moreover have "toBackendParams ?p = [(''dest'', ''Q''), (''ashost'', ''h''), (''sysnr'', ''00''), (''passwd'', ''a''),
      (''bearer'', ''b'')]"
    by (simp add: toBackendParams_def param_fields_def put_param_def empty_params_def)
  ultimately show ?thesis using p by simp
qed

end
