(* ===== verification/Handle_Registry.thy ===== *)
theory Handle_Registry
  imports Go_Values
begin

text \<open>
  The three handle registries of \<open>internal/sdkbackend\<close> (\<open>backend_sdk.go\<close>, \<open>transaction.go\<close>,
  \<open>unit.go\<close>): maps from opaque 64-bit numbers to the objects that own the SDK pointers. Each
  operation runs under the registry's mutex, so it is one atomic step.

  The locale \<open>handle_registry\<close> is the contract the backend relies on: a new handle is non-zero
  and has never been issued, \<open>get\<close> finds what \<open>put\<close> stored until \<open>remove\<close>. From it
  follows that no sequence of later operations makes a removed handle valid again. It is interpreted
  on each of the three. The counter is a 64-bit word: \<open>full\<close> is the state after
  \<open>2 ^ 64 - 1\<close> handles, when the next one would be 0.
\<close>

section \<open>The contract\<close>

datatype 'v reg_op = RegPut 'v | RegRemove "64 word"

locale handle_registry =
  fixes put :: "'v \<Rightarrow> 'r \<Rightarrow> 64 word \<times> 'r"
    and get :: "64 word \<Rightarrow> 'r \<Rightarrow> (goerr, 'v) result"
    and remove :: "64 word \<Rightarrow> 'r \<Rightarrow> 'r"
    and stamp :: "64 word \<Rightarrow> 'v \<Rightarrow> 'v"
    and issued :: "'r \<Rightarrow> 64 word \<Rightarrow> bool"
    and wf :: "'r \<Rightarrow> bool"
    and full :: "'r \<Rightarrow> bool"
  assumes put_fresh: "wf r \<Longrightarrow> \<not> full r \<Longrightarrow> put v r = (h, r') \<Longrightarrow> \<not> issued r h \<and> h \<noteq> 0"
    and put_issued: "\<not> full r \<Longrightarrow> put v r = (h, r') \<Longrightarrow> issued r' k \<longleftrightarrow> k = h \<or> issued r k"
    and put_wf: "wf r \<Longrightarrow> \<not> full r \<Longrightarrow> put v r = (h, r') \<Longrightarrow> wf r'"
    and get_put: "put v r = (h, r') \<Longrightarrow> get k r' = (if k = h then Ok (stamp h v) else get k r)"
    and get_remove: "k \<noteq> h \<Longrightarrow> get k (remove h r) = get k r"
    and remove_gone: "\<not> is_ok (get h (remove h r))"
    and remove_issued: "issued (remove h r) k \<longleftrightarrow> issued r k"
    and remove_wf: "wf r \<Longrightarrow> wf (remove h r)"
    and remove_full: "full (remove h r) \<longleftrightarrow> full r"
    and wf_issued: "wf r \<Longrightarrow> is_ok (get k r) \<Longrightarrow> issued r k"
begin

fun apply_op :: "'v reg_op \<Rightarrow> 'r \<Rightarrow> 'r" where
  "apply_op (RegPut v) r = snd (put v r)"
| "apply_op (RegRemove h) r = remove h r"

fun room :: "'v reg_op list \<Rightarrow> 'r \<Rightarrow> bool" where
  "room [] r = True"
| "room (RegPut v # os) r = (\<not> full r \<and> room os (apply_op (RegPut v) r))"
| "room (RegRemove h # os) r = room os (apply_op (RegRemove h) r)"

lemma put_then_get: "put v r = (h, r') \<Longrightarrow> get h r' = Ok (stamp h v)"
  by (simp add: get_put)

lemma put_keeps: "wf r \<Longrightarrow> \<not> full r \<Longrightarrow> put v r = (h, r') \<Longrightarrow> is_ok (get k r) \<Longrightarrow> get k r' = get k r"
  using put_fresh wf_issued by (fastforce simp: get_put)

lemma dead_step:
  assumes "wf r" "issued r h" "\<not> is_ok (get h r)" "room [op] r"
  shows "wf (apply_op op r) \<and> issued (apply_op op r) h \<and> \<not> is_ok (get h (apply_op op r))"
proof (cases op)
  case (RegPut v)
  obtain k r' where p: "put v r = (k, r')" by force
  have "\<not> full r" using assms(4) RegPut by simp
  moreover have "h \<noteq> k" using put_fresh [OF assms(1) calculation p] assms(2) by blast
  ultimately show ?thesis using RegPut assms p put_wf put_issued get_put by simp
next
  case (RegRemove k)
  then show ?thesis using assms remove_wf remove_issued remove_gone get_remove by (cases "k = h") auto
qed

text \<open>A handle that was issued and is not found stays invalid whatever happens later.\<close>

lemma dead_forever:
  "wf r \<Longrightarrow> issued r h \<Longrightarrow> \<not> is_ok (get h r) \<Longrightarrow> room os r \<Longrightarrow> \<not> is_ok (get h (fold apply_op os r))"
proof (induction os arbitrary: r)
  case (Cons op os)
  have "room [op] r" "room os (apply_op op r)" using Cons.prems(4) by (cases op; simp)+
  then show ?case using Cons dead_step by simp
qed simp

lemma no_reuse:
  assumes "wf r" "is_ok (get h r)" "room os (remove h r)"
  shows "\<not> is_ok (get h (fold apply_op os (remove h r)))"
  using dead_forever [of "remove h r" h os] assms wf_issued remove_wf remove_issued remove_gone by blast

end

section \<open>Connections\<close>

text \<open>\<open>connHandle\<close>: the id, whether \<open>closeConn\<close> has run, the SDK pointer.\<close>

record conn_handle =
  ch_id :: "64 word"
  ch_closed :: bool
  ch_sdkPtr :: nat

record conn_registry =
  cr_next :: "64 word"
  cr_m :: "64 word \<Rightarrow> conn_handle option"

definition conn_put :: "conn_handle \<Rightarrow> conn_registry \<Rightarrow> 64 word \<times> conn_registry" where
  "conn_put c r = (let h = cr_next r + 1
     in (h, \<lparr>cr_next = h, cr_m = (cr_m r)(h \<mapsto> c\<lparr>ch_id := h\<rparr>)\<rparr>))"

definition conn_get :: "64 word \<Rightarrow> conn_registry \<Rightarrow> (goerr, conn_handle) result" where
  "conn_get h r = (case cr_m r h of
     None \<Rightarrow> Err (PlainErr (''nwrfc/sdkbackend: unknown connection handle '' @ show_nat (unat h)))
   | Some c \<Rightarrow> Ok c)"

definition conn_remove :: "64 word \<Rightarrow> conn_registry \<Rightarrow> conn_registry" where
  "conn_remove h r = r\<lparr>cr_m := (cr_m r)(h := None)\<rparr>"

section \<open>Transactions\<close>

record txn_handle =
  th_id :: "64 word"
  th_connID :: "64 word"
  th_sdkPtr :: nat

record txn_registry =
  tr_next :: "64 word"
  tr_m :: "64 word \<Rightarrow> txn_handle option"

definition txn_put :: "txn_handle \<Rightarrow> txn_registry \<Rightarrow> 64 word \<times> txn_registry" where
  "txn_put t r = (let h = tr_next r + 1
     in (h, \<lparr>tr_next = h, tr_m = (tr_m r)(h \<mapsto> t\<lparr>th_id := h\<rparr>)\<rparr>))"

definition txn_get :: "64 word \<Rightarrow> txn_registry \<Rightarrow> (goerr, txn_handle) result" where
  "txn_get h r = (case tr_m r h of
     None \<Rightarrow> Err (PlainErr (''nwrfc/sdkbackend: unknown transaction handle '' @ show_nat (unat h)))
   | Some t \<Rightarrow> Ok t)"

definition txn_remove :: "64 word \<Rightarrow> txn_registry \<Rightarrow> txn_registry" where
  "txn_remove h r = r\<lparr>tr_m := (tr_m r)(h := None)\<rparr>"

section \<open>Units\<close>

text \<open>\<open>UnitIdentifier\<close>: the type byte and the id.\<close>

type_synonym unit_identifier = "char \<times> go_string"

record unit_handle =
  uh_id :: "64 word"
  uh_connID :: "64 word"
  uh_sdkPtr :: nat
  uh_identifier :: unit_identifier

record unit_registry =
  ur_next :: "64 word"
  ur_m :: "64 word \<Rightarrow> unit_handle option"

definition unit_put :: "unit_handle \<Rightarrow> unit_registry \<Rightarrow> 64 word \<times> unit_registry" where
  "unit_put u r = (let h = ur_next r + 1
     in (h, \<lparr>ur_next = h, ur_m = (ur_m r)(h \<mapsto> u\<lparr>uh_id := h\<rparr>)\<rparr>))"

definition unit_get :: "64 word \<Rightarrow> unit_registry \<Rightarrow> (goerr, unit_handle) result" where
  "unit_get h r = (case ur_m r h of
     None \<Rightarrow> Err (PlainErr (''nwrfc/sdkbackend: unknown unit handle '' @ show_nat (unat h)))
   | Some u \<Rightarrow> Ok u)"

definition unit_remove :: "64 word \<Rightarrow> unit_registry \<Rightarrow> unit_registry" where
  "unit_remove h r = r\<lparr>ur_m := (ur_m r)(h := None)\<rparr>"

section \<open>Interpretations\<close>

text \<open>The handles issued so far are those from 1 to the counter.\<close>

definition issued_upto :: "64 word \<Rightarrow> 64 word \<Rightarrow> bool" where
  "issued_upto n k \<longleftrightarrow> k \<noteq> 0 \<and> k \<le> n"

lemma issued_upto_next:
  "n \<noteq> - 1 \<Longrightarrow> issued_upto (n + 1) k \<longleftrightarrow> k = n + 1 \<or> issued_upto n k"
  "n \<noteq> - 1 \<Longrightarrow> \<not> issued_upto n (n + 1)"
  "n \<noteq> - 1 \<Longrightarrow> n + 1 \<noteq> 0"
proof -
  assume n: "n \<noteq> - 1"
  show nz: "n + 1 \<noteq> 0" using n by (metis add_eq_0_iff2)
  have m: "unat (n + 1) = Suc (unat n)" using nz unatSuc [of n] by (simp add: add.commute)
  show "issued_upto (n + 1) k \<longleftrightarrow> k = n + 1 \<or> issued_upto n k"
    using m nz by (auto simp: issued_upto_def word_le_nat_alt le_Suc_eq word_unat_eq_iff)
  show "\<not> issued_upto n (n + 1)" using m by (simp add: issued_upto_def word_le_nat_alt)
qed

definition cr_wf :: "conn_registry \<Rightarrow> bool" where
  "cr_wf r \<longleftrightarrow> (\<forall>k. cr_m r k \<noteq> None \<longrightarrow> issued_upto (cr_next r) k)"

definition tr_wf :: "txn_registry \<Rightarrow> bool" where
  "tr_wf r \<longleftrightarrow> (\<forall>k. tr_m r k \<noteq> None \<longrightarrow> issued_upto (tr_next r) k)"

definition ur_wf :: "unit_registry \<Rightarrow> bool" where
  "ur_wf r \<longleftrightarrow> (\<forall>k. ur_m r k \<noteq> None \<longrightarrow> issued_upto (ur_next r) k)"

interpretation conns: handle_registry conn_put conn_get conn_remove "\<lambda>h c. c\<lparr>ch_id := h\<rparr>"
  "\<lambda>r. issued_upto (cr_next r)" cr_wf "\<lambda>r. cr_next r = - 1"
  by unfold_locales (auto simp: conn_put_def conn_get_def conn_remove_def cr_wf_def issued_upto_next Let_def
      split: option.splits if_splits)

interpretation txns: handle_registry txn_put txn_get txn_remove "\<lambda>h t. t\<lparr>th_id := h\<rparr>"
  "\<lambda>r. issued_upto (tr_next r)" tr_wf "\<lambda>r. tr_next r = - 1"
  by unfold_locales (auto simp: txn_put_def txn_get_def txn_remove_def tr_wf_def issued_upto_next Let_def
      split: option.splits if_splits)

interpretation units: handle_registry unit_put unit_get unit_remove "\<lambda>h u. u\<lparr>uh_id := h\<rparr>"
  "\<lambda>r. issued_upto (ur_next r)" ur_wf "\<lambda>r. ur_next r = - 1"
  by unfold_locales (auto simp: unit_put_def unit_get_def unit_remove_def ur_wf_def issued_upto_next Let_def
      split: option.splits if_splits)

end
