(* ===== verification/Backend_Iface.thy ===== *)
theory Backend_Iface
  imports Handle_Registry
begin

text \<open>
  The contract of \<open>internal/backend\<close>: the Go interface \<open>Backend\<close> with its optional
  extensions (\<open>backend.go\<close>, \<open>stream.go\<close>) as a record of functions over the backend's state, its
  documented laws as the locale \<open>backend_contract\<close>, and the two backends that refuse everything:
  \<open>unregisteredBackend\<close> (\<open>registry.go\<close>) and \<open>noSDK\<close> (\<open>nosdkbackend\<close>), with
  \<open>Register\<close>, \<open>Default\<close> and \<open>SetTesting\<close>.

  A context is what the callee sees of it: \<open>ctx.Err()\<close> on entry and after the blocking call.
\<close>

type_synonym handle = "64 word"

record ctx =
  ctx_err :: "goerr option"
  ctx_err_after :: "goerr option"

definition background :: ctx where
  "background = \<lparr>ctx_err = None, ctx_err_after = None\<rparr>"

record attributes =
  at_Dest :: go_string
  at_Host :: go_string
  at_PartnerHost :: go_string
  at_SysNumber :: go_string
  at_SysID :: go_string
  at_Client :: go_string
  at_User :: go_string
  at_Language :: go_string
  at_Trace :: go_string
  at_IsoLanguage :: go_string
  at_Codepage :: go_string
  at_PartnerCodepage :: go_string
  at_RfcRole :: go_string
  at_Type :: go_string
  at_PartnerType :: go_string
  at_Rel :: go_string
  at_PartnerRel :: go_string
  at_KernelRel :: go_string
  at_CpicConvID :: go_string
  at_ProgName :: go_string
  at_PartnerBytesPerChar :: go_string
  at_PartnerSystemCodepage :: go_string
  at_PartnerIP :: go_string
  at_PartnerIPv6 :: go_string

definition no_attributes :: attributes where
  "no_attributes = \<lparr>at_Dest = [], at_Host = [], at_PartnerHost = [], at_SysNumber = [], at_SysID = [],
     at_Client = [], at_User = [], at_Language = [], at_Trace = [], at_IsoLanguage = [], at_Codepage = [],
     at_PartnerCodepage = [], at_RfcRole = [], at_Type = [], at_PartnerType = [], at_Rel = [],
     at_PartnerRel = [], at_KernelRel = [], at_CpicConvID = [], at_ProgName = [],
     at_PartnerBytesPerChar = [], at_PartnerSystemCodepage = [], at_PartnerIP = [], at_PartnerIPv6 = []\<rparr>"

record invoke_options =
  NotRequested :: "go_string list"
  ReturnImportParams :: bool
  RStripOpt :: "bool option"
  AllowZeroDate :: bool
  AllowZeroTime :: bool
  CheckDate :: bool
  CheckTime :: bool
  DirectionFilter :: direction

section \<open>The interface\<close>

text \<open>An action that may fail, and one that only may fail.\<close>

type_synonym ('s, 'a) op = "'s \<Rightarrow> (goerr, 'a) result \<times> 's"
type_synonym 's op0 = "'s \<Rightarrow> goerr option \<times> 's"

text \<open>\<open>StreamingBackend\<close> with the methods of the \<open>TableStream\<close> it returns; a stream is a
  number.\<close>

record 's stream_ops =
  so_invoke :: "ctx \<Rightarrow> handle \<Rightarrow> go_string \<Rightarrow> go_string \<Rightarrow> call_params \<Rightarrow> invoke_options \<Rightarrow> ('s, nat) op"
  so_next :: "nat \<Rightarrow> ctx \<Rightarrow> ('s, call_params) op"
  so_close :: "nat \<Rightarrow> 's op0"

text \<open>\<open>TransactionalBackend\<close> and \<open>BgRFCBackend\<close>.\<close>

record 's tx_ops =
  tx_create :: "handle \<Rightarrow> go_string \<Rightarrow> go_string \<Rightarrow> ('s, handle) op"
  tx_invoke :: "ctx \<Rightarrow> handle \<Rightarrow> handle \<Rightarrow> go_string \<Rightarrow> call_params \<Rightarrow> invoke_options \<Rightarrow> 's op0"
  tx_submit :: "handle \<Rightarrow> 's op0"
  tx_confirm :: "handle \<Rightarrow> 's op0"
  tx_destroy :: "handle \<Rightarrow> 's op0"

record 's unit_ops =
  un_create :: "handle \<Rightarrow> go_string \<Rightarrow> go_string list \<Rightarrow> ('s, handle \<times> unit_identifier) op"
  un_invoke :: "ctx \<Rightarrow> handle \<Rightarrow> handle \<Rightarrow> go_string \<Rightarrow> call_params \<Rightarrow> invoke_options \<Rightarrow> 's op0"
  un_submit :: "handle \<Rightarrow> 's op0"
  un_confirm :: "handle \<Rightarrow> unit_identifier \<Rightarrow> 's op0"
  un_destroy :: "handle \<Rightarrow> 's op0"
  un_state :: "handle \<Rightarrow> unit_identifier \<Rightarrow> ('s, nat) op"

text \<open>\<open>Trace\<close>.\<close>

record 's trace_ops =
  to_level :: "int \<Rightarrow> 's op0"
  to_dir :: "go_string \<Rightarrow> 's op0"

record 's backend =
  bk_name :: go_string
  bk_version :: "'s \<Rightarrow> version"
  bk_caps :: "'s \<Rightarrow> capabilities"
  bk_open :: "ctx \<Rightarrow> bparams \<Rightarrow> ('s, handle) op"
  bk_close :: "handle \<Rightarrow> 's op0"
  bk_ping :: "ctx \<Rightarrow> handle \<Rightarrow> 's op0"
  bk_attributes :: "handle \<Rightarrow> ('s, attributes) op"
  bk_reset :: "ctx \<Rightarrow> handle \<Rightarrow> 's op0"
  bk_describe :: "ctx \<Rightarrow> handle \<Rightarrow> go_string \<Rightarrow> ('s, func_desc) op"
  bk_invoke :: "ctx \<Rightarrow> handle \<Rightarrow> go_string \<Rightarrow> call_params \<Rightarrow> invoke_options \<Rightarrow> ('s, call_params) op"
  bk_invalidate :: "go_string \<Rightarrow> 's op0"
  bk_cancel :: "(handle \<Rightarrow> 's op0) option"
  bk_stream :: "'s stream_ops option"
  bk_tx :: "'s tx_ops option"
  bk_unit :: "'s unit_ops option"
  bk_trace :: "'s trace_ops option"

section \<open>The contract\<close>

text \<open>
  What the clients rely on: \<open>live s h\<close> says that \<open>h\<close> is valid in state \<open>s\<close>. A
  successful \<open>Open\<close> makes one new handle valid, \<open>Close\<close> makes its handle invalid even when it
  fails, the other operations change no validity, and every operation on an invalid handle returns an
  error. \<open>ok\<close> is the backend's own invariant and \<open>room\<close> says that it has a handle left.
\<close>

locale backend_contract =
  fixes ops :: "'s backend"
    and live :: "'s \<Rightarrow> handle \<Rightarrow> bool"
    and ok :: "'s \<Rightarrow> bool"
    and room :: "'s \<Rightarrow> bool"
  assumes open_ok: "ok s \<Longrightarrow> room s \<Longrightarrow> bk_open ops c p s = (Ok h, s') \<Longrightarrow>
      \<not> live s h \<and> ok s' \<and> (\<forall>k. live s' k \<longleftrightarrow> k = h \<or> live s k)"
    and open_err: "ok s \<Longrightarrow> room s \<Longrightarrow> bk_open ops c p s = (Err e, s') \<Longrightarrow> ok s' \<and> live s' = live s"
    and close_live: "ok s \<Longrightarrow> bk_close ops h s = (r, s') \<Longrightarrow> ok s' \<and> (\<forall>k. live s' k \<longleftrightarrow> k \<noteq> h \<and> live s k)"
    and ping_live: "ok s \<Longrightarrow> bk_ping ops c h s = (r, s') \<Longrightarrow> ok s' \<and> live s' = live s"
    and attributes_live: "ok s \<Longrightarrow> bk_attributes ops h s = (a, s') \<Longrightarrow> ok s' \<and> live s' = live s"
    and reset_live: "ok s \<Longrightarrow> bk_reset ops c h s = (r, s') \<Longrightarrow> ok s' \<and> live s' = live s"
    and describe_live: "ok s \<Longrightarrow> bk_describe ops c h fn s = (d, s') \<Longrightarrow> ok s' \<and> live s' = live s"
    and invoke_live: "ok s \<Longrightarrow> bk_invoke ops c h fn i opt s = (q, s') \<Longrightarrow> ok s' \<and> live s' = live s"
    and ping_dead: "ok s \<Longrightarrow> \<not> live s h \<Longrightarrow> fst (bk_ping ops c h s) \<noteq> None"
    and attributes_dead: "ok s \<Longrightarrow> \<not> live s h \<Longrightarrow> \<not> is_ok (fst (bk_attributes ops h s))"
    and reset_dead: "ok s \<Longrightarrow> \<not> live s h \<Longrightarrow> fst (bk_reset ops c h s) \<noteq> None"
    and describe_dead: "ok s \<Longrightarrow> \<not> live s h \<Longrightarrow> \<not> is_ok (fst (bk_describe ops c h fn s))"
    and invoke_dead: "ok s \<Longrightarrow> \<not> live s h \<Longrightarrow> \<not> is_ok (fst (bk_invoke ops c h fn i opt s))"
begin

lemmas keeps_live = ping_live attributes_live reset_live describe_live invoke_live
lemmas dead_errors = ping_dead attributes_dead reset_dead describe_dead invoke_dead

end

text \<open>The operations a connection's owner can make, and their effect on the state.\<close>

datatype bk_step =
    SOpen ctx bparams
  | SClose handle
  | SPing ctx handle
  | SAttributes handle
  | SReset ctx handle
  | SDescribe ctx handle go_string
  | SInvoke ctx handle go_string call_params invoke_options

fun bk_run :: "'s backend \<Rightarrow> bk_step \<Rightarrow> 's \<Rightarrow> 's" where
  "bk_run ops (SOpen c p) s = snd (bk_open ops c p s)"
| "bk_run ops (SClose h) s = snd (bk_close ops h s)"
| "bk_run ops (SPing c h) s = snd (bk_ping ops c h s)"
| "bk_run ops (SAttributes h) s = snd (bk_attributes ops h s)"
| "bk_run ops (SReset c h) s = snd (bk_reset ops c h s)"
| "bk_run ops (SDescribe c h fn) s = snd (bk_describe ops c h fn s)"
| "bk_run ops (SInvoke c h fn i opt) s = snd (bk_invoke ops c h fn i opt s)"

text \<open>The backend has a handle left (\<open>room\<close>) before every operation of a run.\<close>

fun has_room :: "'s backend \<Rightarrow> ('s \<Rightarrow> bool) \<Rightarrow> bk_step list \<Rightarrow> 's \<Rightarrow> bool" where
  "has_room ops room [] s = True"
| "has_room ops room (e # es) s = (room s \<and> has_room ops room es (bk_run ops e s))"

text \<open>The stronger contract of a backend that never reuses a handle: \<open>used s h\<close> says that
  \<open>h\<close> has been handed out.\<close>

locale backend_fresh = backend_contract ops live ok room
  for ops :: "'s backend" and live :: "'s \<Rightarrow> handle \<Rightarrow> bool" and ok :: "'s \<Rightarrow> bool" and room :: "'s \<Rightarrow> bool" +
  fixes used :: "'s \<Rightarrow> handle \<Rightarrow> bool"
  assumes live_used: "ok s \<Longrightarrow> live s h \<Longrightarrow> used s h"
    and open_fresh: "ok s \<Longrightarrow> room s \<Longrightarrow> bk_open ops c p s = (Ok h, s') \<Longrightarrow> \<not> used s h"
    and step_used: "ok s \<Longrightarrow> room s \<Longrightarrow> used s h \<Longrightarrow> used (bk_run ops e s) h"
begin

lemma dead_step:
  assumes "ok s" "room s" "used s h" "\<not> live s h"
  shows "ok (bk_run ops e s) \<and> used (bk_run ops e s) h \<and> \<not> live (bk_run ops e s) h"
proof (cases e)
  case (SOpen c p)
  obtain r s' where o: "bk_open ops c p s = (r, s')" by force
  show ?thesis
  proof (cases r)
    case (Inl x)
    then show ?thesis using SOpen o assms open_err step_used [OF assms(1-3), of e] by (metis bk_run.simps(1) snd_conv)
  next
    case (Inr k)
    then have "h \<noteq> k" using open_fresh [OF assms(1,2)] o assms(3) by blast
    then show ?thesis using SOpen o Inr assms open_ok [OF assms(1,2)] step_used [OF assms(1-3), of e] by auto
  qed
next
  case (SClose k)
  then show ?thesis using assms close_live step_used [OF assms(1-3), of e] by (cases "bk_close ops k s") auto
next
  case (SPing c k)
  then show ?thesis using assms ping_live step_used [OF assms(1-3), of e] by (cases "bk_ping ops c k s") auto
next
  case (SAttributes k)
  then show ?thesis using assms attributes_live step_used [OF assms(1-3), of e] by (cases "bk_attributes ops k s") auto
next
  case (SReset c k)
  then show ?thesis using assms reset_live step_used [OF assms(1-3), of e] by (cases "bk_reset ops c k s") auto
next
  case (SDescribe c k fn)
  then show ?thesis using assms describe_live step_used [OF assms(1-3), of e] by (cases "bk_describe ops c k fn s") auto
next
  case (SInvoke c k fn i opt)
  then show ?thesis using assms invoke_live step_used [OF assms(1-3), of e] by (cases "bk_invoke ops c k fn i opt s") auto
qed

lemma dead_forever:
  "ok s \<Longrightarrow> used s h \<Longrightarrow> \<not> live s h \<Longrightarrow> has_room ops room es s \<Longrightarrow> ok (fold (bk_run ops) es s) \<and> \<not> live (fold (bk_run ops) es s) h"
proof (induction es arbitrary: s)
  case (Cons e es)
  then show ?case using dead_step [of s h e] by simp
qed simp

text \<open>A closed handle is refused by every operation, whatever happened since.\<close>

lemma closed_forever:
  assumes "ok s" "room s" "live s h" "has_room ops room es (snd (bk_close ops h s))"
  shows "\<not> live (fold (bk_run ops) (SClose h # es) s) h \<and>
    fst (bk_ping ops c h (fold (bk_run ops) (SClose h # es) s)) \<noteq> None \<and>
    \<not> is_ok (fst (bk_invoke ops c h fn i opt (fold (bk_run ops) (SClose h # es) s)))"
proof -
  obtain r s' where cl: "bk_close ops h s = (r, s')" by force
  have "ok s'" "\<not> live s' h" using close_live [OF assms(1) cl] by auto
  moreover have "used s' h"
    using step_used [OF assms(1,2) live_used [OF assms(1,3)], of "SClose h"] cl by simp
  ultimately have "ok (fold (bk_run ops) es s')" "\<not> live (fold (bk_run ops) es s') h"
    using dead_forever assms(4) cl by simp_all
  then show ?thesis using cl ping_dead invoke_dead by simp
qed

end

section \<open>The registration\<close>

text \<open>\<open>active\<close> is the registered backend, of any type \<open>'b\<close> with a name. A nil argument and a
  second backend of another name panic (\<open>None\<close>).\<close>

definition Register :: "('b \<Rightarrow> go_string) \<Rightarrow> 'b option \<Rightarrow> 'b option \<Rightarrow> 'b option option" where
  "Register name b active =
     (case b of None \<Rightarrow> None
      | Some x \<Rightarrow> (case active of
            Some a \<Rightarrow> if name a \<noteq> name x then None else Some (Some x)
          | None \<Rightarrow> Some (Some x)))"

definition Default :: "'b \<Rightarrow> 'b option \<Rightarrow> 'b" where
  "Default unregistered active = (case active of Some a \<Rightarrow> a | None \<Rightarrow> unregistered)"

text \<open>\<open>SetTesting\<close> returns the new registration and what the restore function stores.\<close>

definition SetTesting :: "'b option \<Rightarrow> 'b option \<Rightarrow> 'b option \<times> 'b option" where
  "SetTesting b active = (b, active)"

section \<open>Backends that refuse everything\<close>

definition unregisteredBackend :: "'s backend" where
  "unregisteredBackend =
     \<lparr>bk_name = ''unregistered'',
      bk_version = (\<lambda>_. zero_version),
      bk_caps = (\<lambda>_. no_capabilities),
      bk_open = (\<lambda>_ _ s. (Err ErrUnavailable, s)),
      bk_close = (\<lambda>_ s. (Some ErrUnavailable, s)),
      bk_ping = (\<lambda>_ _ s. (Some ErrUnavailable, s)),
      bk_attributes = (\<lambda>_ s. (Err ErrUnavailable, s)),
      bk_reset = (\<lambda>_ _ s. (Some ErrUnavailable, s)),
      bk_describe = (\<lambda>_ _ _ s. (Err ErrUnavailable, s)),
      bk_invoke = (\<lambda>_ _ _ _ _ s. (Err ErrUnavailable, s)),
      bk_invalidate = (\<lambda>_ s. (Some ErrUnavailable, s)),
      bk_cancel = None, bk_stream = None, bk_tx = None, bk_unit = None, bk_trace = None\<rparr>"

definition lookupSAPNWRFCHome :: "go_string \<Rightarrow> go_string" where
  "lookupSAPNWRFCHome env = (if env \<noteq> [] then env else ''(SAPNWRFC_HOME unset)'')"

definition errSDKUnavailable :: "go_string \<Rightarrow> go_string \<Rightarrow> goerr" where
  "errSDKUnavailable lookupPath op =
     WrapErr (''nwrfc/nosdkbackend.'' @ op @ '': built without SAP NetWeaver RFC SDK (lookup_path='' @
       lookupPath @ ''): '') ErrUnavailable"

text \<open>It has \<open>Cancel\<close> and \<open>InvokeTableStream\<close>; no stream is ever returned.\<close>

definition noSDK :: "go_string \<Rightarrow> 's backend" where
  "noSDK path =
     \<lparr>bk_name = ''nosdk'',
      bk_version = (\<lambda>_. zero_version),
      bk_caps = (\<lambda>_. no_capabilities),
      bk_open = (\<lambda>_ _ s. (Err (errSDKUnavailable path ''Open''), s)),
      bk_close = (\<lambda>_ s. (Some (errSDKUnavailable path ''Close''), s)),
      bk_ping = (\<lambda>_ _ s. (Some (errSDKUnavailable path ''Ping''), s)),
      bk_attributes = (\<lambda>_ s. (Err (errSDKUnavailable path ''Attributes''), s)),
      bk_reset = (\<lambda>_ _ s. (Some (errSDKUnavailable path ''Reset''), s)),
      bk_describe = (\<lambda>_ _ _ s. (Err (errSDKUnavailable path ''Describe''), s)),
      bk_invoke = (\<lambda>_ _ _ _ _ s. (Err (errSDKUnavailable path ''Invoke''), s)),
      bk_invalidate = (\<lambda>_ s. (Some (errSDKUnavailable path ''InvalidateMetadata''), s)),
      bk_cancel = Some (\<lambda>_ s. (Some (errSDKUnavailable path ''Cancel''), s)),
      bk_stream = Some \<lparr>so_invoke = (\<lambda>_ _ _ _ _ _ s. (Err (errSDKUnavailable path ''InvokeTableStream''), s)),
                        so_next = (\<lambda>_ _ s. (Err (errSDKUnavailable path ''InvokeTableStream''), s)),
                        so_close = (\<lambda>_ s. (None, s))\<rparr>,
      bk_tx = None, bk_unit = None, bk_trace = None\<rparr>"

interpretation unregistered: backend_contract unregisteredBackend "\<lambda>_ _. False" "\<lambda>_. True" "\<lambda>_. True"
  by unfold_locales (auto simp: unregisteredBackend_def)

interpretation nosdk: backend_contract "noSDK path" "\<lambda>_ _. False" "\<lambda>_. True" "\<lambda>_. True" for path
  by unfold_locales (auto simp: noSDK_def)

text \<open>Each refusal is translated to \<open>SDKUnavailableError\<close>, so callers can test for it.\<close>

lemma refusal_mapped:
  "mapBackendError text cur ErrUnavailable = SDKUnavailableErr (text ErrUnavailable) []"
  "mapBackendError text cur (errSDKUnavailable path op) = SDKUnavailableErr (text (errSDKUnavailable path op)) []"
  by (simp_all add: mapBackendError_def errSDKUnavailable_def plain_errs)

end
