(* ===== verification/Conn.thy ===== *)
theory Conn
  imports Conn_Params Backend_Iface
begin

text \<open>
  Connections: \<open>nwrfc/conn.go\<close>, \<open>listeners.go\<close>, \<open>metadata.go\<close> and \<open>utility.go\<close>.

  One function per operation, over a backend \<open>ops\<close> and the state \<open>nw\<close>: the backend's state,
  the registered listeners, what they have been told, and the trace-level cap. \<open>Conn_Steps\<close> has the
  concurrent reading of the same operations. The lemmas show what a closed connection refuses, what
  \<open>Close\<close> and \<open>Open\<close> promise over any backend that meets its contract, and that the trace cap
  only tightens.
\<close>

section \<open>Listeners\<close>

datatype conn_event = EventOpened | EventClosed | EventBroken | EventOther nat

fun conn_event_String :: "conn_event \<Rightarrow> go_string" where
  "conn_event_String EventOpened = ''opened''"
| "conn_event_String EventClosed = ''closed''"
| "conn_event_String EventBroken = ''broken''"
| "conn_event_String (EventOther _) = ''unknown''"

text \<open>A listener is an interface value: a \<open>ListenerFunc\<close>, whose dynamic type cannot be compared,
  or an object of some comparable type.\<close>

datatype listener = LFunc nat | LObj nat nat

text \<open>\<open>==\<close> on two interface values: different dynamic types are unequal, equal uncomparable ones
  panic (\<open>None\<close>).\<close>

fun iface_eq :: "listener \<Rightarrow> listener \<Rightarrow> bool option" where
  "iface_eq (LFunc _) (LFunc _) = None"
| "iface_eq (LObj t a) (LObj u b) = Some (t = u \<and> a = b)"
| "iface_eq _ _ = Some False"

type_synonym notification = "listener \<times> conn_event \<times> go_string \<times> goerr option"

definition AddListener :: "listener option \<Rightarrow> listener list \<Rightarrow> listener list" where
  "AddListener l ls = (case l of None \<Rightarrow> ls | Some x \<Rightarrow> ls @ [x])"

fun RemoveListener :: "listener \<Rightarrow> listener list \<Rightarrow> listener list option" where
  "RemoveListener l [] = Some []"
| "RemoveListener l (x # ls) =
     (case iface_eq x l of
        None \<Rightarrow> None
      | Some True \<Rightarrow> Some ls
      | Some False \<Rightarrow> map_option (\<lambda>ys. x # ys) (RemoveListener l ls))"

section \<open>The state\<close>

text \<open>\<open>env\<close>: the \<open>Error\<close> method and the default backend's version, which only enter mapped
  errors.\<close>

record env =
  env_text :: "goerr \<Rightarrow> go_string"
  env_cur :: version

definition mapE :: "env \<Rightarrow> goerr \<Rightarrow> goerr" where
  "mapE en = mapBackendError (env_text en) (env_cur en)"

record 's nw =
  nw_bs :: 's
  nw_listeners :: "listener list"
  nw_log :: "notification list"
  nw_maxTrace :: int

record conn =
  c_handle :: handle
  c_dest :: go_string
  c_closed :: bool
  c_tp :: "nat option"

definition fireEvent :: "conn_event \<Rightarrow> go_string \<Rightarrow> goerr option \<Rightarrow> 's nw \<Rightarrow> 's nw" where
  "fireEvent e dest err st = st\<lparr>nw_log := nw_log st @ map (\<lambda>l. (l, e, dest, err)) (nw_listeners st)\<rparr>"

text \<open>Running a backend operation on the state.\<close>

definition with_bs :: "('s \<Rightarrow> 'r \<times> 's) \<Rightarrow> 's nw \<Rightarrow> 'r \<times> 's nw" where
  "with_bs f st = (case f (nw_bs st) of (r, s) \<Rightarrow> (r, st\<lparr>nw_bs := s\<rparr>))"

section \<open>Trace level\<close>

definition setMaxTraceLevelFloor :: "int \<Rightarrow> 's nw \<Rightarrow> 's nw" where
  "setMaxTraceLevelFloor level st =
     (if level \<le> 0 \<or> level > 3 then st
      else if nw_maxTrace st = 0 \<or> level < nw_maxTrace st then st\<lparr>nw_maxTrace := level\<rparr> else st)"

definition unsupported :: "'s backend \<Rightarrow> go_string \<Rightarrow> 's nw \<Rightarrow> goerr" where
  "unsupported ops feature st = UnsupportedFeatureErr feature zero_version (bk_version ops (nw_bs st))"

definition SetTraceLevel :: "'s backend \<Rightarrow> int \<Rightarrow> 's nw \<Rightarrow> goerr option \<times> 's nw" where
  "SetTraceLevel ops level st =
     (if nw_maxTrace st > 0 \<and> level > nw_maxTrace st
      then (Some (ConfigErr ''trace''
        (''SetTraceLevel rejected: requested level exceeds Params.MaxTraceLevel cap; see docs/SECURITY.md '' @
         [CHR 0xC2, CHR 0xA7] @ ''5'')), st)
      else case bk_trace ops of
        None \<Rightarrow> (Some (unsupported ops ''SetTraceLevel'' st), st)
      | Some t \<Rightarrow> with_bs (to_level t level) st)"

definition SetTraceDir :: "'s backend \<Rightarrow> go_string \<Rightarrow> 's nw \<Rightarrow> goerr option \<times> 's nw" where
  "SetTraceDir ops dir st =
     (case bk_trace ops of
        None \<Rightarrow> (Some (unsupported ops ''SetTraceDir'' st), st)
      | Some t \<Rightarrow> with_bs (to_dir t dir) st)"

section \<open>Opening and closing\<close>

definition Open :: "'s backend \<Rightarrow> env \<Rightarrow> ctx \<Rightarrow> params \<Rightarrow> 's nw \<Rightarrow> (goerr, conn) result \<times> 's nw" where
  "Open ops en c p st =
     (case ctx_err c of Some e \<Rightarrow> (Err e, st)
      | None \<Rightarrow> (case validate p of Some e \<Rightarrow> (Err e, st)
      | None \<Rightarrow> (case enforceCapabilities (bk_caps ops (nw_bs st)) (bk_version ops (nw_bs st)) p of
            Some e \<Rightarrow> (Err e, fireEvent EventBroken (Dest p) (Some e) st)
          | None \<Rightarrow>
              let st1 = (if MaxTraceLevel p > 0 then setMaxTraceLevelFloor (MaxTraceLevel p) st else st)
              in case with_bs (bk_open ops c (toBackendParams p)) st1 of
                   (Inl e, st2) \<Rightarrow> (Err (mapE en e), fireEvent EventBroken (Dest p) (Some (mapE en e)) st2)
                 | (Inr h, st2) \<Rightarrow> (Ok \<lparr>c_handle = h, c_dest = Dest p, c_closed = False, c_tp = None\<rparr>,
                                   fireEvent EventOpened (Dest p) None st2))))"

definition OpenDest :: "'s backend \<Rightarrow> env \<Rightarrow> ctx \<Rightarrow> (go_string \<Rightarrow> (goerr, params) result) option \<Rightarrow>
    (goerr, go_string list) result option \<Rightarrow> go_string \<Rightarrow> 's nw \<Rightarrow> (goerr, conn) result \<times> 's nw" where
  "OpenDest ops en c provider fs name st =
     (case openDest_params provider fs name of Inl e \<Rightarrow> (Err e, st) | Inr p \<Rightarrow> Open ops en c p st)"

definition conn_Close :: "'s backend \<Rightarrow> env \<Rightarrow> conn \<Rightarrow> 's nw \<Rightarrow> goerr option \<times> conn \<times> 's nw" where
  "conn_Close ops en c st =
     (if c_closed c then (None, c, st)
      else let c' = c\<lparr>c_closed := True\<rparr>
           in case with_bs (bk_close ops (c_handle c)) st of
                (Some e, st') \<Rightarrow> (Some (mapE en e), c', fireEvent EventClosed (c_dest c) (Some (mapE en e)) st')
              | (None, st') \<Rightarrow> (None, c', fireEvent EventClosed (c_dest c) None st'))"

section \<open>Operations on an open connection\<close>

definition broken :: "go_string \<Rightarrow> goerr" where
  "broken reason = BrokenConnErr reason (Some ErrConnClosed)"

definition checkOpen :: "conn \<Rightarrow> goerr option" where
  "checkOpen c = (if c_closed c then Some (broken ''use after Close'') else None)"

text \<open>\<open>guarded0\<close> and \<open>guarded\<close>: check, call, map the error.\<close>

definition guarded0 :: "env \<Rightarrow> conn \<Rightarrow> 's op0 \<Rightarrow> 's nw \<Rightarrow> goerr option \<times> 's nw" where
  "guarded0 en c f st =
     (case checkOpen c of Some e \<Rightarrow> (Some e, st)
      | None \<Rightarrow> (case with_bs f st of (r, st') \<Rightarrow> (map_option (mapE en) r, st')))"

definition guarded :: "env \<Rightarrow> conn \<Rightarrow> ('s, 'a) op \<Rightarrow> 's nw \<Rightarrow> (goerr, 'a) result \<times> 's nw" where
  "guarded en c f st =
     (case checkOpen c of Some e \<Rightarrow> (Err e, st)
      | None \<Rightarrow> (case with_bs f st of (Inl e, st') \<Rightarrow> (Err (mapE en e), st') | (Inr a, st') \<Rightarrow> (Ok a, st')))"

definition conn_Ping :: "'s backend \<Rightarrow> env \<Rightarrow> ctx \<Rightarrow> conn \<Rightarrow> 's nw \<Rightarrow> goerr option \<times> 's nw" where
  "conn_Ping ops en ctx c = guarded0 en c (bk_ping ops ctx (c_handle c))"

definition conn_Reset :: "'s backend \<Rightarrow> env \<Rightarrow> ctx \<Rightarrow> conn \<Rightarrow> 's nw \<Rightarrow> goerr option \<times> 's nw" where
  "conn_Reset ops en ctx c = guarded0 en c (bk_reset ops ctx (c_handle c))"

definition conn_Attributes :: "'s backend \<Rightarrow> env \<Rightarrow> conn \<Rightarrow> 's nw \<Rightarrow> (goerr, attributes) result \<times> 's nw" where
  "conn_Attributes ops en c = guarded en c (bk_attributes ops (c_handle c))"

definition conn_Describe :: "'s backend \<Rightarrow> env \<Rightarrow> ctx \<Rightarrow> conn \<Rightarrow> go_string \<Rightarrow> 's nw \<Rightarrow> (goerr, func_desc) result \<times> 's nw" where
  "conn_Describe ops en ctx c fn = guarded en c (bk_describe ops ctx (c_handle c) fn)"

definition InvalidateMetadata :: "'s backend \<Rightarrow> env \<Rightarrow> go_string \<Rightarrow> 's nw \<Rightarrow> goerr option \<times> 's nw" where
  "InvalidateMetadata ops en fn st =
     (case with_bs (bk_invalidate ops fn) st of (r, st') \<Rightarrow> (map_option (mapE en) r, st'))"

definition conn_Cancel :: "'s backend \<Rightarrow> env \<Rightarrow> conn \<Rightarrow> 's nw \<Rightarrow> goerr option \<times> 's nw" where
  "conn_Cancel ops en c st =
     (if c_closed c then (None, st)
      else case bk_cancel ops of
        None \<Rightarrow> (Some (unsupported ops ''Cancel'' st), st)
      | Some f \<Rightarrow> (case with_bs (f (c_handle c)) st of (r, st') \<Rightarrow> (map_option (mapE en) r, st')))"

definition Alive :: "conn \<Rightarrow> bool" where
  "Alive c \<longleftrightarrow> \<not> c_closed c"

definition conn_LogValue :: "'s backend \<Rightarrow> conn \<Rightarrow> 'a slog_val" where
  "conn_LogValue ops c = SlogGroup [(''backend'', SlogString (bk_name ops)), (''dest'', SlogString (c_dest c)),
     (''state'', SlogString (if Alive c then ''open'' else ''closed''))]"

section \<open>The SDK probe\<close>

definition ensureSDKOnce :: "'s backend \<Rightarrow> 's \<Rightarrow> goerr option" where
  "ensureSDKOnce ops s =
     (if bk_name ops = ''nosdk''
      then Some (SDKUnavailableErr ''library built with -tags nwrfc_nosdk or CGO_ENABLED=0'' ''(nosdk build mode)'')
      else if bk_name ops = ''unregistered''
      then Some (SDKUnavailableErr ''no backend registered (link both gorfc/internal/sdkbackend and the SAP NW RFC SDK)'' [])
      else if version_is_zero (bk_version ops s)
      then Some (SDKUnavailableErr ''RfcGetVersion returned zero (SDK not loaded)'' [])
      else None)"

section \<open>What the operations promise\<close>

text \<open>A closed connection: every operation returns at once, without a backend call.\<close>

lemma closed_refuses:
  assumes "c_closed c"
  shows "conn_Ping ops en ctx c st = (Some (broken ''use after Close''), st)"
    and "conn_Reset ops en ctx c st = (Some (broken ''use after Close''), st)"
    and "conn_Attributes ops en c st = (Err (broken ''use after Close''), st)"
    and "conn_Describe ops en ctx c fn st = (Err (broken ''use after Close''), st)"
    and "conn_Cancel ops en c st = (None, st)"
    and "conn_Close ops en c st = (None, c, st)"
  using assms
  by (simp_all add: conn_Ping_def conn_Reset_def conn_Attributes_def conn_Describe_def conn_Cancel_def
      conn_Close_def guarded0_def guarded_def checkOpen_def)

text \<open>Its refusal answers to \<open>errors.Is(err, ErrConnClosed)\<close>.\<close>

lemma broken_is_closed: "errors_Is (broken r) ErrConnClosed"
  by (simp add: broken_def plain_errs)

lemma Close_closes: "conn_Close ops en c st = (e, c', st') \<Longrightarrow> c_closed c'"
  by (cases "c_closed c"; cases "with_bs (bk_close ops (c_handle c)) st"; cases "fst (with_bs (bk_close ops (c_handle c)) st)")
    (auto simp: conn_Close_def Let_def)

text \<open>The second \<open>Close\<close> succeeds and changes nothing, whatever the first one returned.\<close>

lemma Close_idempotent:
  "conn_Close ops en c st = (e, c', st') \<Longrightarrow> conn_Close ops en c' st' = (None, c', st')"
  by (rule closed_refuses(6) [OF Close_closes])

text \<open>Every \<open>Close\<close> that does something is told to every listener once.\<close>

lemma Close_notifies:
  assumes "\<not> c_closed c" "conn_Close ops en c st = (e, c', st')"
  shows "nw_log st' = nw_log st @ map (\<lambda>l. (l, EventClosed, c_dest c, e)) (nw_listeners st)"
  using assms by (cases "bk_close ops (c_handle c) (nw_bs st)"; cases "fst (bk_close ops (c_handle c) (nw_bs st))")
    (auto simp: conn_Close_def fireEvent_def with_bs_def Let_def)

context backend_contract
begin

text \<open>Over a backend that meets its contract: a successful \<open>Open\<close> returns an open connection with a
  new valid handle, a failed one leaves the valid handles alone, and \<open>Close\<close> gives the handle back
  even when it fails.\<close>

lemma Open_live:
  assumes "ok (nw_bs st)" "room (nw_bs st)" "Open ops en c p st = (Ok k, st')"
  shows "\<not> c_closed k \<and> ok (nw_bs st') \<and> \<not> live (nw_bs st) (c_handle k) \<and>
    (\<forall>h. live (nw_bs st') h \<longleftrightarrow> h = c_handle k \<or> live (nw_bs st) h)"
proof -
  have [simp]: "nw_bs (setMaxTraceLevelFloor l st) = nw_bs st" for l
    by (simp add: setMaxTraceLevelFloor_def)
  obtain h s where o: "bk_open ops c (toBackendParams p) (nw_bs st) = (Ok h, s)" "nw_bs st' = s" "c_handle k = h" "\<not> c_closed k"
    using assms(3) by (auto simp: Open_def with_bs_def fireEvent_def Let_def split: option.splits prod.splits sum.splits if_splits)
  show ?thesis using open_ok [OF assms(1,2) o(1)] o by simp
qed

lemma Open_failed:
  assumes "ok (nw_bs st)" "room (nw_bs st)" "Open ops en c p st = (Err e, st')"
  shows "ok (nw_bs st') \<and> live (nw_bs st') = live (nw_bs st)"
proof -
  have [simp]: "nw_bs (setMaxTraceLevelFloor l st) = nw_bs st" for l
    by (simp add: setMaxTraceLevelFloor_def)
  have "nw_bs st' = nw_bs st \<or> (\<exists>e. bk_open ops c (toBackendParams p) (nw_bs st) = (Err e, nw_bs st'))"
    using assms(3) by (auto simp: Open_def with_bs_def fireEvent_def Let_def split: option.splits prod.splits sum.splits if_splits)
  then show ?thesis using open_err [OF assms(1,2)] assms(1) by metis
qed

lemma Close_live:
  assumes "ok (nw_bs st)" "\<not> c_closed c" "conn_Close ops en c st = (e, c', st')"
  shows "ok (nw_bs st') \<and> (\<forall>h. live (nw_bs st') h \<longleftrightarrow> h \<noteq> c_handle c \<and> live (nw_bs st) h)"
proof -
  obtain r s where o: "bk_close ops (c_handle c) (nw_bs st) = (r, s)" "nw_bs st' = s"
    using assms(2,3) by (auto simp: conn_Close_def with_bs_def fireEvent_def Let_def split: option.splits prod.splits)
  show ?thesis using close_live [OF assms(1) o(1)] o(2) by simp
qed

end

text \<open>The trace cap: once set it only tightens, and a level above it is refused without a backend
  call.\<close>

lemma cap_tightens:
  "0 < nw_maxTrace st \<Longrightarrow> 0 < nw_maxTrace (fold setMaxTraceLevelFloor ls st) \<and>
    nw_maxTrace (fold setMaxTraceLevelFloor ls st) \<le> nw_maxTrace st"
proof (induction ls arbitrary: st)
  case (Cons l ls)
  have "0 < nw_maxTrace (setMaxTraceLevelFloor l st)" "nw_maxTrace (setMaxTraceLevelFloor l st) \<le> nw_maxTrace st"
    using Cons.prems by (simp_all add: setMaxTraceLevelFloor_def)
  then show ?case using Cons.IH [of "setMaxTraceLevelFloor l st"] by simp
qed simp

lemma cap_below_all:
  "0 \<le> nw_maxTrace st \<Longrightarrow> l \<in> set ls \<Longrightarrow> 0 < l \<Longrightarrow> l \<le> 3 \<Longrightarrow>
    0 < nw_maxTrace (fold setMaxTraceLevelFloor ls st) \<and> nw_maxTrace (fold setMaxTraceLevelFloor ls st) \<le> l"
proof (induction ls arbitrary: st)
  case (Cons x ls)
  have "0 \<le> nw_maxTrace (setMaxTraceLevelFloor x st)" using Cons.prems(1) by (simp add: setMaxTraceLevelFloor_def)
  moreover have "0 < nw_maxTrace (setMaxTraceLevelFloor x st)" "nw_maxTrace (setMaxTraceLevelFloor x st) \<le> l" if "x = l"
    using Cons.prems that by (auto simp: setMaxTraceLevelFloor_def)
  ultimately show ?case
    using Cons.IH [of "setMaxTraceLevelFloor x st"] Cons.prems(2-) cap_tightens [of "setMaxTraceLevelFloor x st" ls]
    by force
qed simp

lemma cap_refuses:
  "0 < nw_maxTrace st \<Longrightarrow> nw_maxTrace st < l \<Longrightarrow> snd (SetTraceLevel ops l st) = st \<and> fst (SetTraceLevel ops l st) \<noteq> None"
  by (simp add: SetTraceLevel_def)

text \<open>Removing a listener: the first equal one goes, and a \<open>ListenerFunc\<close> in front of it panics when
  the argument is one too.\<close>

lemma RemoveListener_obj: "RemoveListener (LObj t a) ls = Some (remove1 (LObj t a) ls)"
proof (induction ls)
  case (Cons x ls)
  then show ?case by (cases x) auto
qed simp

lemma RemoveListener_func_panics: "LFunc f \<in> set ls \<Longrightarrow> RemoveListener (LFunc g) ls = None"
proof (induction ls)
  case (Cons x ls)
  then show ?case by (cases x) auto
qed simp

end
