(* ===== verification/Conn_Steps.thy ===== *)
theory Conn_Steps
  imports Conn
begin

text \<open>
  One connection shared by goroutines: \<open>conn.go\<close>, with the parts of \<open>call.go\<close>,
  \<open>session.go\<close> and \<open>stream.go\<close> that take the connection's mutex.

  A step is what one goroutine does between two points where another can run: the test of
  \<open>c.state\<close>, \<open>c.mu.Lock\<close>, the backend call, \<open>c.mu.Unlock\<close>. \<open>Ping\<close>, \<open>Reset\<close>,
  \<open>Attributes\<close>, \<open>Describe\<close>, \<open>Call\<close> and \<open>CallTableStream\<close> test before they lock;
  \<open>Close\<close> and the end of a session test under the mutex; \<open>Cancel\<close> never locks; a table
  stream keeps the mutex until it is closed. The backend's answers are left open, except that an
  invalid handle gets no stream (\<open>backend_contract.invoke_dead\<close>). \<open>cs_calls\<close> is the history
  of the calls the backend has received with this connection's handle.
\<close>

section \<open>The step relation\<close>

datatype conn_call = KPing | KReset | KAttributes | KDescribe | KInvoke | KStream

datatype bcall = BCall conn_call | BCancel | BClose | BStreamClose

datatype phase =
    Idle
  | Checked conn_call
  | WantClose
  | WantSession
  | Cancelling
  | Inside conn_call
  | InClose
  | Closing
  | InSession
  | Resetting
  | Leaving

text \<open>Who will unlock \<open>c.mu\<close>: the goroutine inside, the open stream, or nobody, after a panic
  that left \<open>CallTableStream\<close> without unlocking.\<close>

datatype holder = HThread nat | HStream | HLost

record cstate =
  cs_closed :: bool
  cs_mu :: "holder option"
  cs_phase :: "nat \<Rightarrow> phase"
  cs_calls :: "bcall list"

definition conn_init :: cstate where
  "conn_init = \<lparr>cs_closed = False, cs_mu = None, cs_phase = (\<lambda>_. Idle), cs_calls = []\<rparr>"

definition at_phase :: "nat \<Rightarrow> phase \<Rightarrow> cstate \<Rightarrow> cstate" where
  "at_phase t p s = s\<lparr>cs_phase := (cs_phase s)(t := p)\<rparr>"

definition calls :: "bcall \<Rightarrow> cstate \<Rightarrow> cstate" where
  "calls b s = s\<lparr>cs_calls := cs_calls s @ [b]\<rparr>"

definition set_mu :: "holder option \<Rightarrow> cstate \<Rightarrow> cstate" where
  "set_mu h s = s\<lparr>cs_mu := h\<rparr>"

inductive conn_step :: "cstate \<Rightarrow> cstate \<Rightarrow> bool" where
  check: "cs_phase s t = Idle \<Longrightarrow> \<not> cs_closed s \<Longrightarrow> conn_step s (at_phase t (Checked k) s)"
| lock: "cs_phase s t = Checked k \<Longrightarrow> cs_mu s = None \<Longrightarrow>
    conn_step s (set_mu (Some (HThread t)) (at_phase t (Inside k) s))"
| invoke: "cs_phase s t = Inside k \<Longrightarrow> conn_step s (calls (BCall k) (at_phase t Leaving s))"
| unlock: "cs_phase s t = Leaving \<Longrightarrow> conn_step s (set_mu None (at_phase t Idle s))"
| stream_open: "cs_phase s t = Inside KStream \<Longrightarrow> BClose \<notin> set (cs_calls s) \<Longrightarrow>
    conn_step s (set_mu (Some HStream) (calls (BCall KStream) (at_phase t Idle s)))"
| stream_panic: "cs_phase s t = Inside KStream \<Longrightarrow>
    conn_step s (set_mu (Some HLost) (calls (BCall KStream) (at_phase t Idle s)))"
| stream_close: "cs_mu s = Some HStream \<Longrightarrow> conn_step s (set_mu None (calls BStreamClose s))"
| close_start: "cs_phase s t = Idle \<Longrightarrow> conn_step s (at_phase t WantClose s)"
| close_lock: "cs_phase s t = WantClose \<Longrightarrow> cs_mu s = None \<Longrightarrow>
    conn_step s (set_mu (Some (HThread t)) (at_phase t InClose s))"
| close_first: "cs_phase s t = InClose \<Longrightarrow> \<not> cs_closed s \<Longrightarrow>
    conn_step s (at_phase t Closing s\<lparr>cs_closed := True\<rparr>)"
| close_again: "cs_phase s t = InClose \<Longrightarrow> cs_closed s \<Longrightarrow> conn_step s (at_phase t Leaving s)"
| close_call: "cs_phase s t = Closing \<Longrightarrow> conn_step s (calls BClose (at_phase t Leaving s))"
| session_start: "cs_phase s t = Idle \<Longrightarrow> conn_step s (at_phase t WantSession s)"
| session_lock: "cs_phase s t = WantSession \<Longrightarrow> cs_mu s = None \<Longrightarrow>
    conn_step s (set_mu (Some (HThread t)) (at_phase t InSession s))"
| session_refused: "cs_phase s t = InSession \<Longrightarrow> cs_closed s \<Longrightarrow> conn_step s (at_phase t Leaving s)"
| session_invoke: "cs_phase s t = InSession \<Longrightarrow> \<not> cs_closed s \<Longrightarrow>
    conn_step s (calls (BCall KInvoke) (at_phase t Resetting s))"
| session_reset: "cs_phase s t = Resetting \<Longrightarrow> conn_step s (calls (BCall KReset) (at_phase t Leaving s))"
| session_no_reset: "cs_phase s t = Resetting \<Longrightarrow> conn_step s (at_phase t Leaving s)"
| cancel_check: "cs_phase s t = Idle \<Longrightarrow> \<not> cs_closed s \<Longrightarrow> conn_step s (at_phase t Cancelling s)"
| cancel_call: "cs_phase s t = Cancelling \<Longrightarrow> conn_step s (calls BCancel (at_phase t Idle s))"

lemmas cstate_defs = at_phase_def calls_def set_mu_def conn_init_def

inductive conn_reach :: "cstate \<Rightarrow> bool" where
  start: "conn_reach conn_init"
| step: "conn_reach s \<Longrightarrow> conn_step s s' \<Longrightarrow> conn_reach s'"

lemma reach_steps: "conn_step\<^sup>*\<^sup>* s s' \<Longrightarrow> conn_reach s \<Longrightarrow> conn_reach s'"
  by (induction rule: rtranclp_induct) (auto intro: conn_reach.step)

section \<open>The invariant\<close>

fun inside :: "phase \<Rightarrow> bool" where
  "inside (Inside _) = True"
| "inside InClose = True"
| "inside Closing = True"
| "inside InSession = True"
| "inside Resetting = True"
| "inside Leaving = True"
| "inside _ = False"

definition conn_inv :: "cstate \<Rightarrow> bool" where
  "conn_inv s \<longleftrightarrow>
     (\<forall>t. inside (cs_phase s t) \<longleftrightarrow> cs_mu s = Some (HThread t)) \<and>
     (\<forall>t. cs_phase s t = Closing \<longrightarrow> cs_closed s \<and> BClose \<notin> set (cs_calls s)) \<and>
     (\<forall>t. cs_phase s t = Resetting \<longrightarrow> \<not> cs_closed s) \<and>
     (BClose \<in> set (cs_calls s) \<longrightarrow> cs_closed s) \<and>
     (cs_closed s \<longrightarrow> BClose \<in> set (cs_calls s) \<or> (\<exists>t. cs_phase s t = Closing)) \<and>
     count_list (cs_calls s) BClose \<le> 1 \<and>
     (cs_mu s = Some HStream \<longrightarrow> \<not> cs_closed s)"

lemmas conn_inv_simps = conn_inv_def cstate_defs

lemma init_inv: "conn_inv conn_init"
  by (simp add: conn_inv_simps)

lemma step_inv: "conn_step s s' \<Longrightarrow> conn_inv s \<Longrightarrow> conn_inv s'"
  apply (induction rule: conn_step.induct; unfold conn_inv_simps; auto)
  apply (metis holder.inject inside.simps option.inject phase.distinct)+
  done

lemma reach_inv: "conn_reach s \<Longrightarrow> conn_inv s"
  by (induction rule: conn_reach.induct) (auto intro: init_inv step_inv)

lemma reach_facts:
  assumes "conn_reach s"
  shows reach_mu: "inside (cs_phase s t) \<longleftrightarrow> cs_mu s = Some (HThread t)"
    and reach_closing: "cs_phase s t = Closing \<Longrightarrow> cs_closed s \<and> BClose \<notin> set (cs_calls s)"
    and reach_resetting: "cs_phase s t = Resetting \<Longrightarrow> \<not> cs_closed s"
    and reach_close_called: "BClose \<in> set (cs_calls s) \<Longrightarrow> cs_closed s"
    and reach_closed: "cs_closed s \<Longrightarrow> BClose \<in> set (cs_calls s) \<or> (\<exists>t. cs_phase s t = Closing)"
    and reach_once: "count_list (cs_calls s) BClose \<le> 1"
    and reach_stream: "cs_mu s = Some HStream \<Longrightarrow> \<not> cs_closed s"
  using reach_inv [OF assms] by (simp_all add: conn_inv_def) blast+

lemma count_list_pos: "x \<in> set xs \<Longrightarrow> 1 \<le> count_list xs x"
  by (induction xs) auto

text \<open>A \<open>Close\<close> that runs through without interruption.\<close>

lemma closed_by_other:
  assumes "conn_reach s" "cs_phase s 1 = Idle" "cs_mu s = None" "\<not> cs_closed s"
  shows "conn_reach (s\<lparr>cs_closed := True, cs_calls := cs_calls s @ [BClose], cs_mu := None\<rparr>)"
proof -
  let ?a = "at_phase 1 WantClose s"
  let ?b = "set_mu (Some (HThread 1)) (at_phase 1 InClose ?a)"
  let ?c = "at_phase 1 Closing ?b\<lparr>cs_closed := True\<rparr>"
  let ?d = "calls BClose (at_phase 1 Leaving ?c)"
  let ?e = "set_mu None (at_phase 1 Idle ?d)"
  have "conn_reach ?a" by (rule conn_reach.step [OF assms(1) close_start]) (use assms in simp)
  then have "conn_reach ?b" by (rule conn_reach.step [OF _ close_lock]) (use assms in \<open>simp_all add: cstate_defs\<close>)
  then have "conn_reach ?c" by (rule conn_reach.step [OF _ close_first]) (use assms in \<open>simp_all add: cstate_defs\<close>)
  then have "conn_reach ?d" by (rule conn_reach.step [OF _ close_call]) (use assms in \<open>simp_all add: cstate_defs\<close>)
  then have "conn_reach ?e" by (rule conn_reach.step [OF _ unlock]) (use assms in \<open>simp_all add: cstate_defs\<close>)
  then show ?thesis using assms(2) by (simp add: cstate_defs fun_upd_idem)
qed

text \<open>C19: The backend is asked to close a connection at most once, whatever the goroutines do: not before
  the connection is marked closed, and exactly once as soon as it is marked and no \<open>Close\<close> is between the
  mark and the backend call. At every moment at most one goroutine is between \<open>Lock\<close> and
  \<open>Unlock\<close>.\<close>

theorem connection_closed_once:
  assumes "conn_reach s"
  shows "count_list (cs_calls s) BClose = (if cs_closed s \<and> (\<forall>t. cs_phase s t \<noteq> Closing) then 1 else 0) \<and>
    (inside (cs_phase s t) \<and> inside (cs_phase s u) \<longrightarrow> t = u)"
proof (cases "BClose \<in> set (cs_calls s)")
  case True
  then have "cs_closed s" "\<forall>t. cs_phase s t \<noteq> Closing"
    using reach_close_called [OF assms] reach_closing [OF assms] by blast+
  then show ?thesis
    using count_list_pos [OF True] reach_once [OF assms] reach_mu [OF assms] by auto
next
  case False
  then show ?thesis using reach_closed [OF assms] reach_mu [OF assms] by auto
qed

theorem connection_closed_once_witness:
  "\<exists>s. conn_reach s \<and> count_list (cs_calls s) BClose = 1 \<and> (\<forall>t. cs_phase s t = Idle)"
proof -
  let ?s = "conn_init\<lparr>cs_closed := True, cs_calls := [BClose], cs_mu := None\<rparr>"
  have "conn_reach ?s" using closed_by_other [OF conn_reach.start] by (simp add: cstate_defs)
  moreover from connection_closed_once [OF this]
  have "count_list (cs_calls ?s) BClose = 1" by (simp add: cstate_defs)
  moreover have "\<forall>t. cs_phase ?s t = Idle" by (simp add: cstate_defs)
  ultimately show ?thesis by blast
qed

section \<open>After \<open>Close\<close>\<close>

text \<open>The backend has closed the handle and every goroutine that had passed its test of the state has
  returned.\<close>

definition drained :: "cstate \<Rightarrow> bool" where
  "drained s \<longleftrightarrow> BClose \<in> set (cs_calls s) \<and>
     (\<forall>t. cs_phase s t \<noteq> Cancelling \<and> (\<forall>k. cs_phase s t \<noteq> Checked k \<and> cs_phase s t \<noteq> Inside k))"

lemma drained_step:
  assumes "conn_step s s'" "conn_reach s" "drained s"
  shows "cs_calls s' = cs_calls s \<and> drained s'"
proof -
  have c: "cs_closed s" using reach_close_called [OF assms(2)] assms(3) by (simp add: drained_def)
  have "cs_phase s t \<noteq> Closing \<and> cs_phase s t \<noteq> Resetting" "cs_mu s \<noteq> Some HStream" for t
    using reach_closing [OF assms(2)] reach_resetting [OF assms(2)] reach_stream [OF assms(2)] assms(3) c
    by (auto simp: drained_def)
  with assms(1,3) c show ?thesis by cases (auto simp: drained_def cstate_defs)
qed




text \<open>The first goroutine closes the connection of a \<open>Ping\<close> that has tested the state but not locked
  yet: the backend is pinged after it has closed the handle.\<close>

lemma use_after_close: "\<exists>s. conn_reach s \<and> cs_calls s = [BClose, BCall KPing]"
proof -
  let ?a = "at_phase 0 (Checked KPing) conn_init"
  have "conn_reach ?a" by (rule conn_reach.step [OF conn_reach.start check]) (simp_all add: cstate_defs)
  from closed_by_other [OF this]
  have "conn_reach (\<lparr>cs_closed = True, cs_mu = None, cs_phase = (\<lambda>_. Idle)(0 := Checked KPing), cs_calls = [BClose]\<rparr>)"
    (is "conn_reach ?b") by (simp add: cstate_defs)
  then have "conn_reach (set_mu (Some (HThread 0)) (at_phase 0 (Inside KPing) ?b))" (is "conn_reach ?c")
    by (rule conn_reach.step [OF _ lock]) (simp_all add: cstate_defs)
  then have "conn_reach (calls (BCall KPing) (at_phase 0 Leaving ?c))"
    by (rule conn_reach.step [OF _ invoke]) (simp add: cstate_defs)
  then show ?thesis by (intro exI conjI) (assumption, simp add: cstate_defs)
qed

section \<open>Streams\<close>

text \<open>While a stream is open, or after a panic in \<open>CallTableStream\<close>, no goroutine gets past
  \<open>Lock\<close>: the backend sees nothing but \<open>Cancel\<close> until the stream is closed.\<close>

lemma held_step:
  assumes "conn_reach s" "cs_mu s = Some HStream \<or> cs_mu s = Some HLost" "conn_step s s'"
  shows "cs_calls s' = cs_calls s \<and> cs_mu s' = cs_mu s \<or> cs_calls s' = cs_calls s @ [BCancel] \<and> cs_mu s' = cs_mu s \<or>
    cs_mu s = Some HStream \<and> cs_calls s' = cs_calls s @ [BStreamClose] \<and> cs_mu s' = None"
proof -
  have "\<not> inside (cs_phase s t)" for t using reach_mu [OF assms(1), of t] assms(2) by auto
  then have *: "cs_phase s t \<noteq> Inside k" "cs_phase s t \<noteq> InClose" "cs_phase s t \<noteq> Closing"
    "cs_phase s t \<noteq> InSession" "cs_phase s t \<noteq> Resetting" "cs_phase s t \<noteq> Leaving" for t k
    by (metis inside.simps)+
  with assms(3,2) show ?thesis by cases (auto simp: cstate_defs)
qed

lemma lost_forever:
  "conn_step\<^sup>*\<^sup>* s s' \<Longrightarrow> conn_reach s \<Longrightarrow> cs_mu s = Some HLost \<Longrightarrow>
    cs_mu s' = Some HLost \<and> (\<exists>n. cs_calls s' = cs_calls s @ replicate n BCancel)"
proof (induction rule: rtranclp_induct)
  case base
  then show ?case by (auto intro: exI [of _ 0])
next
  case (step y z)
  then obtain n where n: "cs_mu y = Some HLost" "cs_calls y = cs_calls s @ replicate n BCancel" by blast
  from held_step [OF reach_steps [OF step.hyps(1) step.prems(1)] _ step.hyps(2)] n
  have "cs_mu z = Some HLost" "cs_calls z = cs_calls y \<or> cs_calls z = cs_calls y @ [BCancel]" by auto
  then show ?case using n by (auto intro: exI [of _ n] exI [of _ "Suc n"] simp flip: replicate_append_same)
qed

text \<open>\<open>CallTableStream\<close> unlocks the connection only when the backend returns an error: when the
  backend panics instead (\<open>fill.go\<close> panics on a nil parameter), a program that recovers has lost the
  connection. Nothing ever gets the mutex again, so no call and no \<open>Close\<close> reaches the backend in
  any continuation, only \<open>Cancel\<close> does.\<close>

theorem stream_panic_wedges:
  "\<exists>s. conn_reach s \<and> cs_calls s = [BCall KStream] \<and> (\<forall>t. cs_phase s t = Idle) \<and> \<not> cs_closed s \<and>
     {s'. conn_step\<^sup>*\<^sup>* s s'} \<subseteq> {s'. cs_mu s' = Some HLost \<and> set (cs_calls s') \<subseteq> {BCall KStream, BCancel}}"
proof -
  let ?a = "at_phase 0 (Checked KStream) conn_init"
  let ?b = "set_mu (Some (HThread 0)) (at_phase 0 (Inside KStream) ?a)"
  let ?c = "set_mu (Some HLost) (calls (BCall KStream) (at_phase 0 Idle ?b))"
  have "conn_reach ?a" by (rule conn_reach.step [OF conn_reach.start check]) (simp_all add: cstate_defs)
  then have "conn_reach ?b" by (rule conn_reach.step [OF _ lock]) (simp_all add: cstate_defs)
  then have c: "conn_reach ?c" by (rule conn_reach.step [OF _ stream_panic]) (simp add: cstate_defs)
  have "cs_mu s' = Some HLost \<and> set (cs_calls s') \<subseteq> {BCall KStream, BCancel}" if "conn_step\<^sup>*\<^sup>* ?c s'" for s'
    using lost_forever [OF that c] by (auto simp: cstate_defs)
  then have "{s'. conn_step\<^sup>*\<^sup>* ?c s'} \<subseteq> {s'. cs_mu s' = Some HLost \<and> set (cs_calls s') \<subseteq> {BCall KStream, BCancel}}"
    by blast
  moreover have "cs_calls ?c = [BCall KStream]" "\<forall>t. cs_phase ?c t = Idle" "\<not> cs_closed ?c" by (simp_all add: cstate_defs)
  ultimately show ?thesis using c by blast
qed


end
