(* ===== verification/Marshal.thy ===== *)
theory Marshal
  imports Conn
begin

text \<open>
  \<open>nwrfc/tags.go\<close> and the two directions of \<open>nwrfc/call.go\<close>: from a Go struct to the parameter
  map of a call, and from the result map back into a struct.

  The plan of a struct type lists its fields with their index paths. A value is marshalled under its
  static type, because \<open>reflect\<close> does not look behind an interface. Unmarshalling returns the error, if
  any, together with the destination as it is then: an error leaves the fields written before it. A panic
  is \<open>None\<close>. Type names (\<open>%T\<close>) and the conversions of floating-point numbers are parameters.

  The lemmas show that what marshalling produces is in the shape the backend takes, that unmarshalling
  keeps the destination's type, and that a struct written by the one and read by the other comes back.
\<close>

section \<open>Tags\<close>

type_synonym gfields = "(go_string \<times> go_string \<times> bool \<times> bool \<times> gtype) list"

record field_info =
  fi_Index :: "nat list"
  fi_ABAPName :: go_string
  fi_OmitEmpty :: bool

definition parseTag :: "go_string \<Rightarrow> go_string \<Rightarrow> nat list \<Rightarrow> field_info" where
  "parseTag tag fieldName idx =
     (if tag = [] then \<lparr>fi_Index = idx, fi_ABAPName = to_upper fieldName, fi_OmitEmpty = False\<rparr>
      else let parts = split_byte (CHR '','') tag
           in \<lparr>fi_Index = idx,
               fi_ABAPName = (if hd parts \<noteq> [] then hd parts else to_upper fieldName),
               fi_OmitEmpty = list_ex (\<lambda>opt. trim_space opt = ''omitempty'') (tl parts)\<rparr>)"

lemma size_under: "size (under t) \<le> size t"
  by (induction t) auto

function build_fields :: "gfields \<Rightarrow> nat list \<Rightarrow> nat \<Rightarrow> field_info list" where
  "build_fields [] parent i = []"
| "build_fields ((name, tag, exported, anon, t) # fs) parent i =
     (if \<not> exported \<or> tag = ''-'' then []
      else case under t of
          TStruct gs \<Rightarrow>
            if anon \<and> tag = [] then build_fields gs (parent @ [i]) 0 else [parseTag tag name (parent @ [i])]
        | _ \<Rightarrow> [parseTag tag name (parent @ [i])])
     @ build_fields fs parent (Suc i)"
  by pat_completeness auto

lemma build_fields_smaller:
  assumes "under t = TStruct gs"
  shows "size_list (\<lambda>(_, _, _, _, u). size u) gs < size t"
proof -
  have "size (TStruct gs) \<le> size t" using size_under [of t] assms by simp
  moreover have "size_list (\<lambda>(_, _, _, _, u). size u) gs \<le> size_list (size_prod (\<lambda>_. 0) (size_prod (\<lambda>_. 0) (size_prod (\<lambda>_. 0) (size_prod (\<lambda>_. 0) size)))) gs"
    by (rule size_list_pointwise) auto
  ultimately show ?thesis by simp
qed

termination build_fields
  by (relation "measure (\<lambda>(fs, _, _). size_list (\<lambda>(_, _, _, _, u). size u) fs)") (auto dest!: build_fields_smaller)

definition inspectStruct :: "gtype \<Rightarrow> field_info list" where
  "inspectStruct t = (case under t of TStruct fs \<Rightarrow> build_fields fs [] 0 | _ \<Rightarrow> [])"

section \<open>Access by index\<close>

text \<open>\<open>FieldByIndex\<close> on a value and on its type, and assignment to the field found.\<close>

fun get_at :: "gval \<Rightarrow> nat list \<Rightarrow> gval" where
  "get_at v [] = v"
| "get_at v (i # idx) =
     (case raw v of VStruct _ vs \<Rightarrow> if i < length vs then get_at (vs ! i) idx else VNil | _ \<Rightarrow> VNil)"

fun type_at :: "gtype \<Rightarrow> nat list \<Rightarrow> gtype" where
  "type_at t [] = t"
| "type_at t (i # idx) =
     (case under t of
        TStruct fs \<Rightarrow> if i < length fs then type_at (snd (snd (snd (snd (fs ! i))))) idx else TIface
      | _ \<Rightarrow> TIface)"

fun set_at :: "gval \<Rightarrow> nat list \<Rightarrow> gval \<Rightarrow> gval" where
  "set_at v [] w = w"
| "set_at (VNamed n v) (i # idx) w = VNamed n (set_at v (i # idx) w)"
| "set_at (VStruct fs vs) (i # idx) w =
     VStruct fs (if i < length vs then vs[i := set_at (vs ! i) idx w] else vs)"
| "set_at v (i # idx) w = v"

lemma size_raw_le: "size (raw v) \<le> size v"
  by (induction v) auto

lemma nth_size: "i < length vs \<Longrightarrow> size (vs ! i) \<le> size_list size vs"
  by (metis less_or_eq_imp_le nth_mem size_list_estimation')

lemma size_get_at: "size (get_at v idx) \<le> size v"
proof (induction v idx rule: get_at.induct)
  case (2 v i idx)
  show ?case
  proof (cases "raw v")
    case (VStruct fs vs)
    have "size (get_at (vs ! i) idx) \<le> size v" if "i < length vs"
      using 2 [OF VStruct that] nth_size [OF that] size_raw_le [of v] VStruct by simp
    then show ?thesis using VStruct by simp
  qed simp_all
qed simp

lemma size_get_at_less:
  assumes "raw v = VStruct fs vs" "idx \<noteq> []"
  shows "size (get_at v idx) < size v"
proof -
  obtain i js where idx: "idx = i # js" using assms(2) by (cases idx) auto
  have "size (get_at (vs ! i) js) \<le> size_list size vs" if "i < length vs"
    using size_get_at [of "vs ! i" js] nth_size [OF that] by linarith
  then show ?thesis using idx assms(1) size_raw_le [of v] by (auto simp: less_Suc_eq_le)
qed

lemma plan_index: "fi \<in> set (build_fields fs parent i) \<Longrightarrow> fi_Index fi \<noteq> []"
  by (induction fs parent i rule: build_fields.induct) (auto simp: parseTag_def Let_def split: gtype.splits if_splits)

lemma inspect_index: "fi \<in> set (inspectStruct t) \<Longrightarrow> fi_Index fi \<noteq> []"
  by (auto simp: inspectStruct_def plan_index split: gtype.splits)

section \<open>From structs to parameters\<close>

text \<open>\<open>isEmpty\<close>: an interface, a pointer, a slice or a map is empty when it is nil, the last two also
  when they have no elements; arrays and structs never are.\<close>

definition isEmpty :: "gtype \<Rightarrow> gval \<Rightarrow> bool" where
  "isEmpty t v =
     (if under t = TIface then v = VNil
      else case raw v of
        VString s \<Rightarrow> s = []
      | VBool b \<Rightarrow> \<not> b
      | VInt _ n \<Rightarrow> n = 0
      | VFloat _ b \<Rightarrow> b = 0 \<or> b = push_bit 63 1
      | VSlice _ vs \<Rightarrow> vs = None \<or> vs = Some []
      | VMap _ _ kvs \<Rightarrow> kvs = None \<or> kvs = Some []
      | VPtr _ p \<Rightarrow> p = None
      | _ \<Rightarrow> False)"

text \<open>\<open>v.Bytes()\<close>: a \<open>[]byte\<close>, whatever the type was called.\<close>

definition bytes_value :: "gval list option \<Rightarrow> gval" where
  "bytes_value vs = VSlice (TInt KUint8) (map_option (map (\<lambda>x. case raw x of VInt _ n \<Rightarrow> VInt KUint8 n | _ \<Rightarrow> x)) vs)"

definition is_byte :: "gtype \<Rightarrow> bool" where
  "is_byte t \<longleftrightarrow> under t = TInt KUint8"

text \<open>Collecting the parts, a panic in any of them being a panic.\<close>

fun all_some :: "'a option list \<Rightarrow> 'a list option" where
  "all_some [] = Some []"
| "all_some (None # xs) = None"
| "all_some (Some x # xs) = map_option (Cons x) (all_some xs)"

text \<open>\<open>out[name] = val\<close> for the fields in order.\<close>

definition assemble :: "(go_string \<times> gval) option list \<Rightarrow> call_params" where
  "assemble es = fold (\<lambda>e m. case e of None \<Rightarrow> m | Some (k, v) \<Rightarrow> map_set k v m) es []"

text \<open>\<open>marshalGoValue\<close> of a value under its static type; \<open>ad\<close> says that the value is addressable,
  which \<open>Bytes\<close> of an array requires. Of its results only a panic is not a value: the error result
  is always nil.\<close>

function marshalGoValue :: "bool \<Rightarrow> gtype \<Rightarrow> gval \<Rightarrow> gval option" where
  "marshalGoValue ad t v =
     (case under t of
        TPtr u \<Rightarrow> (case raw v of VPtr _ (Some w) \<Rightarrow> marshalGoValue True u w | _ \<Rightarrow> Some VNil)
      | TStruct fs \<Rightarrow>
          if t = date_type \<or> t = time_type then Some v
          else (case raw v of
              VStruct _ _ \<Rightarrow>
                map_option (\<lambda>es. any_map (assemble es))
                  (all_some (map (\<lambda>fi.
                     let fv = get_at v (fi_Index fi); ft = type_at t (fi_Index fi)
                     in if fi_OmitEmpty fi \<and> isEmpty ft fv then Some None
                        else map_option (\<lambda>x. Some (fi_ABAPName fi, x)) (marshalGoValue ad ft fv))
                   (inspectStruct t)))
            | _ \<Rightarrow> Some v)
      | TSlice u \<Rightarrow>
          (case raw v of
              VSlice _ vs \<Rightarrow>
                if is_byte u then Some (bytes_value vs)
                else (case vs of
                    None \<Rightarrow> Some (VSlice TIface (Some []))
                  | Some xs \<Rightarrow> map_option (\<lambda>ys. VSlice TIface (Some ys)) (all_some (map (marshalGoValue True u) xs)))
            | _ \<Rightarrow> Some v)
      | TArray n u \<Rightarrow>
          (case raw v of
              VArray _ xs \<Rightarrow>
                if is_byte u then (if ad then Some (bytes_value (Some xs)) else None)
                else map_option (\<lambda>ys. VSlice TIface (Some ys)) (all_some (map (marshalGoValue ad u) xs))
            | _ \<Rightarrow> Some v)
      | _ \<Rightarrow> Some v)"
  by pat_completeness auto

lemma raw_parts:
  "raw v = VPtr a (Some w) \<Longrightarrow> size w < size v"
  "raw v = VSlice a (Some xs) \<Longrightarrow> x \<in> set xs \<Longrightarrow> size x < size v"
  "raw v = VArray a xs \<Longrightarrow> x \<in> set xs \<Longrightarrow> size x < size v"
  using size_raw_le [of v] by (auto dest!: size_list_estimation' [where f = size, OF _ order_refl])

termination marshalGoValue
  by (relation "measure (\<lambda>(_, _, v). size v)")
    (auto simp: raw_parts dest: inspect_index intro: size_get_at_less)

declare marshalGoValue.simps [simp del]

definition marshal_fields :: "bool \<Rightarrow> gtype \<Rightarrow> gval \<Rightarrow> call_params option" where
  "marshal_fields ad t v =
     map_option assemble
       (all_some (map (\<lambda>fi.
          let fv = get_at v (fi_Index fi); ft = type_at t (fi_Index fi)
          in if fi_OmitEmpty fi \<and> isEmpty ft fv then Some None
             else map_option (\<lambda>x. Some (fi_ABAPName fi, x)) (marshalGoValue ad ft fv))
        (inspectStruct t)))"

lemma marshalGoValue_struct:
  "under t = TStruct fs \<Longrightarrow> t \<noteq> date_type \<Longrightarrow> t \<noteq> time_type \<Longrightarrow> raw v = VStruct gs vs \<Longrightarrow>
    marshalGoValue ad t v = map_option any_map (marshal_fields ad t v)"
  by (subst marshalGoValue.simps) (simp add: marshal_fields_def option.map_comp o_def)

text \<open>The loop over pointers: \<open>None\<close> when one of them is nil.\<close>

function strip_pointers :: "bool \<Rightarrow> gtype \<Rightarrow> gval \<Rightarrow> (bool \<times> gtype \<times> gval) option" where
  "strip_pointers ad t v =
     (case raw v of
        VPtr u p \<Rightarrow>
          if under t = TIface then Some (ad, t, v)
          else (case p of None \<Rightarrow> None | Some w \<Rightarrow> strip_pointers True u w)
      | _ \<Rightarrow> Some (ad, t, v))"
  by pat_completeness auto

termination strip_pointers
  by (relation "measure (\<lambda>(_, _, v). size v)") (auto simp: raw_parts)

declare strip_pointers.simps [simp del]

definition call_params_type :: gtype where
  "call_params_type = TNamed ''backend.CallParams'' (TMap TString TIface)"

text \<open>A panic is \<open>None\<close>.\<close>

definition marshalInput :: "(gtype \<Rightarrow> go_string) \<Rightarrow> gval \<Rightarrow> (goerr, call_params) result option" where
  "marshalInput tname v =
     (if v = VNil then Some (Ok [])
      else case (if type_of v = call_params_type then as_any_map (raw v) else as_any_map v) of
        Some m \<Rightarrow> Some (Ok m)
      | None \<Rightarrow> (case strip_pointers False (type_of v) v of
            None \<Rightarrow> Some (Ok [])
          | Some (ad, t, w) \<Rightarrow> (case under t of
                TStruct _ \<Rightarrow> map_option Ok (marshal_fields ad t w)
              | _ \<Rightarrow> Some (Err (MarshalErr ''(input)'' (tname (type_of v)) ''(struct)''
                  (Some (PlainErr ''expected struct, map, or backend.CallParams'')))))))"

section \<open>Conversions\<close>

fun int_width :: "ikind \<Rightarrow> nat" where
  "int_width KInt = 64" | "int_width KInt8 = 8" | "int_width KInt16 = 16" | "int_width KInt32 = 32"
| "int_width KInt64 = 64" | "int_width KUint = 64" | "int_width KUint8 = 8" | "int_width KUint16 = 16"
| "int_width KUint32 = 32" | "int_width KUint64 = 64"

definition signed_kind :: "ikind \<Rightarrow> bool" where
  "signed_kind k \<longleftrightarrow> k \<in> {KInt, KInt8, KInt16, KInt32, KInt64}"

definition in_kind :: "ikind \<Rightarrow> int \<Rightarrow> bool" where
  "in_kind k n \<longleftrightarrow>
     (if signed_kind k then - (2 ^ (int_width k - 1)) \<le> n \<and> n < 2 ^ (int_width k - 1)
      else 0 \<le> n \<and> n < 2 ^ int_width k)"

text \<open>The integer conversion of Go: the low bits, read with or without sign.\<close>

definition wrap_kind :: "ikind \<Rightarrow> int \<Rightarrow> int" where
  "wrap_kind k n =
     (if signed_kind k then (n + 2 ^ (int_width k - 1)) mod 2 ^ int_width k - 2 ^ (int_width k - 1)
      else n mod 2 ^ int_width k)"

lemma wrap_kind_in: "in_kind k (wrap_kind k n)"
proof -
  have *: "(2::int) ^ int_width k = 2 * 2 ^ (int_width k - 1)" by (cases k) simp_all
  have "0 < (2::int) ^ int_width k" by simp
  then have "0 \<le> m mod 2 ^ int_width k" "m mod 2 ^ int_width k < 2 ^ int_width k" for m :: int by simp_all
  from this [of "n + 2 ^ (int_width k - 1)"] this [of n] show ?thesis
    unfolding in_kind_def wrap_kind_def using * by auto
qed

lemma wrap_kind_id: "in_kind k n \<Longrightarrow> wrap_kind k n = n"
  by (cases k) (auto simp: in_kind_def wrap_kind_def signed_kind_def)

record float_ops =
  fo_of_int :: "fkind \<Rightarrow> int \<Rightarrow> 64 word"
  fo_to_int :: "bool \<Rightarrow> 64 word \<Rightarrow> int"
  fo_conv :: "fkind \<Rightarrow> 64 word \<Rightarrow> 64 word"

text \<open>\<open>string(rune(n))\<close>, with U+FFFD for what is no rune.\<close>

definition rune_string :: "int \<Rightarrow> go_string" where
  "rune_string n = encode_rune (if 0 \<le> n \<and> n < 2 ^ 31 then nat n else rune_error)"

fun has_name :: "gtype \<Rightarrow> bool" where
  "has_name (TSlice _) = False"
| "has_name (TArray _ _) = False"
| "has_name (TPtr _) = False"
| "has_name (TMap _ _) = False"
| "has_name (TStruct _) = False"
| "has_name TIface = False"
| "has_name _ = True"

definition assignable :: "gtype \<Rightarrow> gtype \<Rightarrow> bool" where
  "assignable src dst \<longleftrightarrow>
     src = dst \<or> under dst = TIface \<or> \<not> (has_name src \<and> has_name dst) \<and> under src = under dst"

text \<open>Identity of types up to struct tags.\<close>

fun strip_tags :: "gtype \<Rightarrow> gtype" where
  "strip_tags (TSlice t) = TSlice (strip_tags t)"
| "strip_tags (TArray n t) = TArray n (strip_tags t)"
| "strip_tags (TPtr t) = TPtr (strip_tags t)"
| "strip_tags (TMap k t) = TMap (strip_tags k) (strip_tags t)"
| "strip_tags (TStruct fs) = TStruct (map (\<lambda>(n, _, e, a, t). (n, [], e, a, strip_tags t)) fs)"
| "strip_tags (TNamed n t) = TNamed n (strip_tags t)"
| "strip_tags t = t"

fun is_num :: "gtype \<Rightarrow> bool" where
  "is_num (TInt _) = True"
| "is_num (TFloat _) = True"
| "is_num _ = False"

text \<open>A value as a value of type \<open>t\<close>, which differs from its own type in names and tags only.\<close>

function retype :: "gtype \<Rightarrow> gval \<Rightarrow> gval" where
  "retype t v =
     (case t of
        TNamed n u \<Rightarrow> if under u = TIface then v else VNamed n (retype u v)
      | TIface \<Rightarrow> v
      | TSlice u \<Rightarrow> (case raw v of VSlice _ vs \<Rightarrow> VSlice u (map_option (map (retype u)) vs) | w \<Rightarrow> w)
      | TArray n u \<Rightarrow> (case raw v of VArray _ vs \<Rightarrow> VArray u (map (retype u) vs) | w \<Rightarrow> w)
      | TPtr u \<Rightarrow> (case raw v of VPtr _ p \<Rightarrow> VPtr u (map_option (retype u) p) | w \<Rightarrow> w)
      | TMap k u \<Rightarrow>
          (case raw v of
             VMap _ _ kvs \<Rightarrow> VMap k u (map_option (map (\<lambda>(x, y). (retype k x, retype u y))) kvs) | w \<Rightarrow> w)
      | TStruct fs \<Rightarrow>
          (case raw v of
             VStruct _ vs \<Rightarrow> VStruct fs (map (\<lambda>(f, x). retype (snd (snd (snd (snd f)))) x) (zip fs vs)) | w \<Rightarrow> w)
      | _ \<Rightarrow> raw v)"
  by pat_completeness auto

lemma raw_pairs:
  "raw v = VMap a b (Some kvs) \<Longrightarrow> (x, y) \<in> set kvs \<Longrightarrow> size x < size v \<and> size y < size v"
  "raw v = VStruct fs vs \<Longrightarrow> (f, x) \<in> set (zip gs vs) \<Longrightarrow> size x < size v"
proof -
  assume "raw v = VMap a b (Some kvs)" "(x, y) \<in> set kvs"
  then show "size x < size v \<and> size y < size v"
    using size_raw_le [of v] size_list_estimation' [of "(x, y)" kvs _ "size_prod size size", OF _ order_refl] by auto
next
  assume "raw v = VStruct fs vs" "(f, x) \<in> set (zip gs vs)"
  then show "size x < size v"
    using size_raw_le [of v] size_list_estimation' [of x vs _ size, OF _ order_refl] by (auto dest: set_zip_rightD)
qed

termination retype
  by (relation "measures [\<lambda>(_, v). size v, \<lambda>(t, _). size t]") (auto simp: raw_parts raw_pairs)

declare retype.simps [simp del]

text \<open>A value given the names of \<open>t\<close>, and assignment to a location of type \<open>t\<close>.\<close>

fun named :: "gtype \<Rightarrow> gval \<Rightarrow> gval" where
  "named (TNamed n t) v = VNamed n (named t v)"
| "named t v = v"

definition assign :: "gtype \<Rightarrow> gval \<Rightarrow> gval" where
  "assign t v = (if under t = TIface then v else named t (raw v))"

definition char_types :: "gtype list" where
  "char_types = [TSlice (TInt KUint8), TSlice (TInt KInt32)]"

definition convertible :: "gtype \<Rightarrow> gtype \<Rightarrow> bool" where
  "convertible src dst \<longleftrightarrow>
     is_num (under src) \<and> is_num (under dst) \<or>
     (case under src of TInt _ \<Rightarrow> True | _ \<Rightarrow> False) \<and> under dst = TString \<or>
     under src = TString \<and> under dst \<in> set char_types \<or>
     under src \<in> set char_types \<and> under dst = TString \<or>
     (case (under src, under dst) of (TSlice e, TArray n e') \<Rightarrow> e = e' | _ \<Rightarrow> False) \<or>
     strip_tags (under src) = strip_tags (under dst)"

fun int_of_val :: "gval \<Rightarrow> int" where
  "int_of_val (VInt _ n) = n"
| "int_of_val _ = 0"

fun elements :: "gval list option \<Rightarrow> gval list" where
  "elements None = []"
| "elements (Some vs) = vs"

text \<open>\<open>Convert\<close>; a slice too short for an array panics.\<close>

definition convert :: "float_ops \<Rightarrow> gtype \<Rightarrow> gval \<Rightarrow> gval option" where
  "convert fo dst v =
     (case (under dst, raw v) of
        (TInt k, VInt _ n) \<Rightarrow> Some (named dst (VInt k (wrap_kind k n)))
      | (TInt k, VFloat _ b) \<Rightarrow> Some (named dst (VInt k (wrap_kind k (fo_to_int fo (signed_kind k) b))))
      | (TFloat k, VInt _ n) \<Rightarrow> Some (named dst (VFloat k (fo_of_int fo k n)))
      | (TFloat k, VFloat _ b) \<Rightarrow> Some (named dst (VFloat k (fo_conv fo k b)))
      | (TString, VInt _ n) \<Rightarrow> Some (named dst (VString (rune_string n)))
      | (TString, VSlice e vs) \<Rightarrow> Some (named dst (VString
          (if e = TInt KUint8 then map (\<lambda>x. char_of (nat (int_of_val x))) (elements vs)
           else concat (map (\<lambda>x. rune_string (int_of_val x)) (elements vs)))))
      | (TSlice e, VString s) \<Rightarrow> Some (named dst (VSlice e (Some
          (if e = TInt KUint8 then map (\<lambda>c. VInt KUint8 (of_char c)) s
           else map (\<lambda>r. VInt KInt32 (int r)) (runes s)))))
      | (TArray n e, VSlice _ vs) \<Rightarrow>
          (if length (elements vs) < n then None else Some (named dst (VArray e (take n (elements vs)))))
      | _ \<Rightarrow> Some (retype dst v))"

section \<open>From results to structs\<close>

function zero_value :: "gtype \<Rightarrow> gval" where
  "zero_value TBool = VBool False"
| "zero_value TString = VString []"
| "zero_value (TInt k) = VInt k 0"
| "zero_value (TFloat k) = VFloat k 0"
| "zero_value TIface = VNil"
| "zero_value (TSlice t) = VSlice t None"
| "zero_value (TArray n t) = VArray t (replicate n (zero_value t))"
| "zero_value (TPtr t) = VPtr t None"
| "zero_value (TMap k t) = VMap k t None"
| "zero_value (TStruct fs) = VStruct fs (map (\<lambda>f. zero_value (snd (snd (snd (snd f))))) fs)"
| "zero_value (TNamed n t) = (if under t = TIface then VNil else VNamed n (zero_value t))"
  by pat_completeness auto

lemma field_size:
  "f \<in> set fs \<Longrightarrow> size (snd (snd (snd (snd f)))) < size (TStruct fs)"
proof (induction fs)
  case (Cons g fs)
  then show ?case by (cases g) auto
qed simp

termination zero_value
  by (relation "measure size") (auto dest: field_size)

definition cannot_assign :: "(gtype \<Rightarrow> go_string) \<Rightarrow> gtype \<Rightarrow> gtype \<Rightarrow> goerr" where
  "cannot_assign tname src dst = PlainErr (''cannot assign '' @ tname src @ '' to '' @ tname dst)"

definition pointer_to :: "gtype \<Rightarrow> gtype option" where
  "pointer_to t = (case under t of TPtr u \<Rightarrow> Some u | _ \<Rightarrow> None)"

lemma pointer_to_simps [simp]:
  "pointer_to t = Some u \<longleftrightarrow> under t = TPtr u"
  "pointer_to t = None \<longleftrightarrow> (\<nexists>u. under t = TPtr u)"
  by (auto simp: pointer_to_def split: gtype.splits)

text \<open>A new value for \<open>dst\<close> with the error met, if any.\<close>

type_synonym outcome = "(goerr option \<times> gval) option"

function (sequential)
    unmarshalValue :: "float_ops \<Rightarrow> (gtype \<Rightarrow> go_string) \<Rightarrow> gtype \<Rightarrow> gval \<Rightarrow> gval \<Rightarrow> outcome"
and unmarshal_fields :: "float_ops \<Rightarrow> (gtype \<Rightarrow> go_string) \<Rightarrow> gtype \<Rightarrow> field_info list \<Rightarrow> call_params \<Rightarrow> gval \<Rightarrow> outcome"
and unmarshal_slice :: "float_ops \<Rightarrow> (gtype \<Rightarrow> go_string) \<Rightarrow> gtype \<Rightarrow> gval list \<Rightarrow> gval list \<Rightarrow> (goerr option \<times> gval list) option"
where
  "unmarshalValue fo tname t v old =
     (if v = VNil then Some (None, old)
      else if assignable (type_of v) t then Some (None, assign t v)
      else case pointer_to t of
          Some u \<Rightarrow> (case unmarshalValue fo tname u v (zero_value u) of
              None \<Rightarrow> None
            | Some (Some e, _) \<Rightarrow> Some (Some e, old)
            | Some (None, w) \<Rightarrow> Some (None, named t (VPtr u (Some w))))
        | None \<Rightarrow>
            if convertible (type_of v) t then map_option (\<lambda>w. (None, w)) (convert fo t v)
            else (case (under t, as_any_map v, raw v) of
                (TStruct _, Some m, _) \<Rightarrow> unmarshal_fields fo tname t (inspectStruct t) m old
              | (TSlice u, _, VSlice _ vs) \<Rightarrow> (case unmarshal_slice fo tname u (elements vs) [] of
                    None \<Rightarrow> None
                  | Some (Some e, _) \<Rightarrow> Some (Some e, old)
                  | Some (None, ws) \<Rightarrow> Some (None, named t (VSlice u (Some ws))))
              | _ \<Rightarrow> Some (Some (cannot_assign tname (type_of v) t), old)))"
| "unmarshal_fields fo tname t [] m d = Some (None, d)"
| "unmarshal_fields fo tname t (fi # fis) m d =
     (case map_of m (fi_ABAPName fi) of
        None \<Rightarrow> unmarshal_fields fo tname t fis m d
      | Some x \<Rightarrow> (case unmarshalValue fo tname (type_at t (fi_Index fi)) x (get_at d (fi_Index fi)) of
            None \<Rightarrow> None
          | Some (Some e, w) \<Rightarrow> Some (Some e, set_at d (fi_Index fi) w)
          | Some (None, w) \<Rightarrow> unmarshal_fields fo tname t fis m (set_at d (fi_Index fi) w)))"
| "unmarshal_slice fo tname u [] ws = Some (None, ws)"
| "unmarshal_slice fo tname u (x # xs) ws =
     (case unmarshalValue fo tname u x (zero_value u) of
        None \<Rightarrow> None
      | Some (Some e, _) \<Rightarrow> Some (Some e, ws)
      | Some (None, w) \<Rightarrow> unmarshal_slice fo tname u xs (ws @ [w]))"
  by pat_completeness auto

fun unmarshal_measure :: "(float_ops \<times> (gtype \<Rightarrow> go_string) \<times> gtype \<times> gval \<times> gval) +
    ((float_ops \<times> (gtype \<Rightarrow> go_string) \<times> gtype \<times> field_info list \<times> call_params \<times> gval) +
     (float_ops \<times> (gtype \<Rightarrow> go_string) \<times> gtype \<times> gval list \<times> gval list)) \<Rightarrow> nat \<times> nat" where
  "unmarshal_measure (Inl (fo, tn, t, v, old)) = (size v, size t)"
| "unmarshal_measure (Inr (Inl (fo, tn, t, fis, m, d))) = (size_list (\<lambda>(_, x). size x) m, length fis)"
| "unmarshal_measure (Inr (Inr (fo, tn, t, xs, ws))) = (size_list size xs, 0)"

lemma map_of_size: "map_of m k = Some x \<Longrightarrow> size x < size_list (\<lambda>(_, x). size x) m"
  by (induction m) (auto split: if_splits)

lemma any_map_size: "as_any_map v = Some m \<Longrightarrow> size_list (\<lambda>(_, x). size x) m < size v"
proof (cases v rule: as_any_map.cases)
  case (1 kvs)
  moreover assume "as_any_map v = Some m"
  moreover have "size_list (\<lambda>(_, x). size x) (string_entries kvs) \<le> size_list (size_prod size size) kvs"
    by (induction kvs) (auto simp: string_entries_def)
  ultimately show ?thesis by simp
qed auto

lemma under_ptr_size: "under t = TPtr u \<Longrightarrow> size u < size t"
  using size_under [of t] by simp

lemma elements_size: "raw v = VSlice u vs \<Longrightarrow> size_list size (elements vs) < size v"
  using size_raw_le [of v] by (cases vs) auto

termination unmarshalValue
  by (relation "inv_image (less_than <*lex*> less_than) unmarshal_measure")
    (auto simp: map_of_size any_map_size under_ptr_size elements_size [OF sym])

declare unmarshalValue.simps [simp del]

fun unmarshal_top :: "float_ops \<Rightarrow> (gtype \<Rightarrow> go_string) \<Rightarrow> gtype \<Rightarrow> field_info list \<Rightarrow> call_params \<Rightarrow> gval \<Rightarrow> outcome" where
  "unmarshal_top fo tname t [] m d = Some (None, d)"
| "unmarshal_top fo tname t (fi # fis) m d =
     (case map_of m (fi_ABAPName fi) of
        None \<Rightarrow> unmarshal_top fo tname t fis m d
      | Some x \<Rightarrow>
          if x = VNil then unmarshal_top fo tname t fis m d
          else (case unmarshalValue fo tname (type_at t (fi_Index fi)) x (get_at d (fi_Index fi)) of
              None \<Rightarrow> None
            | Some (Some e, w) \<Rightarrow> Some (Some (MarshalErr (fi_ABAPName fi) (tname (type_at t (fi_Index fi)))
                (tname (type_of x)) (Some e)), set_at d (fi_Index fi) w)
            | Some (None, w) \<Rightarrow> unmarshal_top fo tname t fis m (set_at d (fi_Index fi) w)))"

text \<open>The struct behind the pointer \<open>out\<close>, with its new value.\<close>

definition unmarshalOutput :: "float_ops \<Rightarrow> (gtype \<Rightarrow> go_string) \<Rightarrow> call_params \<Rightarrow> gval \<Rightarrow> outcome" where
  "unmarshalOutput fo tname resp out =
     (case raw out of
        VPtr u (Some d) \<Rightarrow> (case under u of
            TStruct _ \<Rightarrow> unmarshal_top fo tname u (inspectStruct u) resp d
          | _ \<Rightarrow> Some (Some (MarshalErr ''(output)'' (tname u) ''(struct)'' (Some (PlainErr ''expected pointer to struct''))), d))
      | _ \<Rightarrow> Some (Some (MarshalErr ''(output)'' (tname (type_of out)) ''(struct)''
               (Some (PlainErr ''expected non-nil *struct''))), VNil))"

section \<open>Well-typed values\<close>

inductive has_type :: "gval \<Rightarrow> gtype \<Rightarrow> bool" where
  nil: "under t = TIface \<Longrightarrow> has_type VNil t"
| dynamic: "under t = TIface \<Longrightarrow> under u \<noteq> TIface \<Longrightarrow> has_type v u \<Longrightarrow> has_type v t"
| bool: "has_type (VBool b) TBool"
| str: "has_type (VString s) TString"
| int: "in_kind k n \<Longrightarrow> has_type (VInt k n) (TInt k)"
| float: "has_type (VFloat k b) (TFloat k)"
| slice_nil: "has_type (VSlice t None) (TSlice t)"
| slice: "\<forall>v\<in>set vs. has_type v t \<Longrightarrow> has_type (VSlice t (Some vs)) (TSlice t)"
| array: "\<forall>v\<in>set vs. has_type v t \<Longrightarrow> n = length vs \<Longrightarrow> has_type (VArray t vs) (TArray n t)"
| ptr_nil: "has_type (VPtr t None) (TPtr t)"
| ptr: "has_type v t \<Longrightarrow> has_type (VPtr t (Some v)) (TPtr t)"
| map_nil: "has_type (VMap k t None) (TMap k t)"
| map: "\<forall>(x, y)\<in>set kvs. has_type x k \<and> has_type y t \<Longrightarrow> has_type (VMap k t (Some kvs)) (TMap k t)"
| struct: "list_all2 (\<lambda>v f. has_type v (snd (snd (snd (snd f))))) vs fs \<Longrightarrow> has_type (VStruct fs vs) (TStruct fs)"
| named: "under t \<noteq> TIface \<Longrightarrow> has_type v t \<Longrightarrow> has_type (VNamed n v) (TNamed n t)"

inductive_cases has_type_slice: "has_type (VSlice u vs) t"
inductive_cases has_type_struct: "has_type (VStruct fs vs) t"
inductive_cases has_type_named: "has_type (VNamed n v) t"
inductive_cases has_type_nilE: "has_type VNil t"

text \<open>The dynamic type of a well-typed value of a type that is no interface is that type.\<close>

lemma type_of_typed: "has_type v t \<Longrightarrow> under t \<noteq> TIface \<Longrightarrow> type_of v = t"
  by (induction rule: has_type.induct) auto

lemma not_nil: "has_type v t \<Longrightarrow> under t \<noteq> TIface \<Longrightarrow> v \<noteq> VNil"
  by (auto elim: has_type_nilE)

lemmas shape_intros = has_type.nil has_type.bool has_type.str has_type.int has_type.float has_type.slice_nil
  has_type.slice has_type.array has_type.ptr_nil has_type.ptr has_type.map_nil has_type.map has_type.named

lemma typed_dynamic: "has_type v t \<Longrightarrow> v \<noteq> VNil \<Longrightarrow> has_type v (type_of v) \<and> under (type_of v) \<noteq> TIface"
proof (induction rule: has_type.induct)
  case (named t v n)
  then show ?case using type_of_typed [of v t] by (auto intro: has_type.named)
next
  case (struct vs fs)
  then have "list_all2 (\<lambda>v f. has_type v (snd (snd (snd (snd f))))) vs fs" by (auto elim: list_all2_mono)
  then show ?case by (auto intro: has_type.struct)
qed (auto intro: shape_intros)

lemma typed_raw: "has_type v t \<Longrightarrow> under t \<noteq> TIface \<Longrightarrow> has_type (raw v) (under t)"
proof (induction rule: has_type.induct)
  case (struct vs fs)
  then have "list_all2 (\<lambda>v f. has_type v (snd (snd (snd (snd f))))) vs fs" by (auto elim: list_all2_mono)
  then show ?case by (auto intro: has_type.struct)
qed (auto intro: shape_intros)

lemma named_typed: "has_type v (under t) \<Longrightarrow> under t \<noteq> TIface \<Longrightarrow> has_type (named t v) t"
  by (induction t) (auto intro: has_type.named)

lemma zero_typed: "has_type (zero_value t) t"
proof (induction t rule: zero_value.induct)
  case (10 fs)
  then have "list_all2 (\<lambda>v f. has_type v (snd (snd (snd (snd f))))) (map (\<lambda>f. zero_value (snd (snd (snd (snd f))))) fs) fs"
    by (simp add: list_all2_conv_all_nth)
  then show ?case by (simp add: has_type.struct)
next
  case (3 k)
  then show ?case by (auto intro: has_type.int simp: in_kind_def)
next
  case (11 n t)
  then show ?case by (auto intro: shape_intros)
qed (auto intro: shape_intros)

section \<open>Conversions keep types\<close>

lemma strip_under [simp]: "under (strip_tags t) = strip_tags (under t)"
  by (induction t) auto

lemma strip_shape [simp]:
  "strip_tags t = TIface \<longleftrightarrow> t = TIface"
  "strip_tags t = TBool \<longleftrightarrow> t = TBool"
  "strip_tags t = TString \<longleftrightarrow> t = TString"
  "strip_tags t = TInt k \<longleftrightarrow> t = TInt k"
  "strip_tags t = TFloat l \<longleftrightarrow> t = TFloat l"
  by (cases t; simp)+

lemma strip_iface: "strip_tags s = strip_tags t \<Longrightarrow> under s = TIface \<longleftrightarrow> under t = TIface"
  by (metis strip_shape(1) strip_under)

lemma retype_shapes [simp]:
  "retype TIface v = v"
  "retype TBool v = raw v"
  "retype TString v = raw v"
  "retype (TInt k) v = raw v"
  "retype (TFloat l) v = raw v"
  "retype (TSlice u) (VSlice a vs) = VSlice u (map_option (map (retype u)) vs)"
  "retype (TArray n u) (VArray a xs) = VArray u (map (retype u) xs)"
  "retype (TPtr u) (VPtr a p) = VPtr u (map_option (retype u) p)"
  "retype (TMap b u) (VMap a c kvs) = VMap b u (map_option (map (\<lambda>(x, y). (retype b x, retype u y))) kvs)"
  "retype (TStruct fs) (VStruct gs xs) = VStruct fs (map (\<lambda>(f, x). retype (snd (snd (snd (snd f)))) x) (zip fs xs))"
  "retype (TNamed nm u) v = (if under u = TIface then v else VNamed nm (retype u v))"
  by (subst retype.simps, simp)+

lemma retype_iface: "under t = TIface \<Longrightarrow> retype t v = v"
  by (cases t) simp_all

lemma retype_raw: "\<nexists>n u. t = TNamed n u \<Longrightarrow> t \<noteq> TIface \<Longrightarrow> retype t v = retype t (raw v)"
  by (subst retype.simps, subst (2) retype.simps) (cases t; simp)

lemma retype_named: "under t \<noteq> TIface \<Longrightarrow> retype t v = named t (retype (under t) (raw v))"
proof (induction t)
  case (TNamed n u)
  then show ?case by simp
qed (simp_all, auto simp: retype_raw [symmetric])

lemma retype_typed: "has_type v s \<Longrightarrow> strip_tags s = strip_tags t \<Longrightarrow> has_type (retype t v) t"
proof (induction v s arbitrary: t rule: has_type.induct)
  case (nil s)
  then show ?case using strip_iface [of s t] by (simp add: retype_iface has_type.nil)
next
  case (dynamic s u v)
  then show ?case using strip_iface [of s t] by (auto simp: retype_iface intro: has_type.dynamic)
next
  case (slice_nil u)
  then show ?case by (cases t) (auto intro: has_type.slice_nil)
next
  case (slice vs u)
  then show ?case by (cases t) (auto intro!: has_type.slice)
next
  case (array vs u n)
  then show ?case by (cases t) (auto intro!: has_type.array)
next
  case (ptr_nil u)
  then show ?case by (cases t) (auto intro: has_type.ptr_nil)
next
  case (ptr v u)
  then show ?case by (cases t) (auto intro!: has_type.ptr)
next
  case (map_nil k u)
  then show ?case by (cases t) (auto intro: has_type.map_nil)
next
  case (map kvs k u)
  then show ?case by (cases t) (fastforce intro!: has_type.map)+
next
  case (struct vs fs)
  then obtain gs where t: "t = TStruct gs" by (cases t) auto
  have len: "length vs = length fs" "length fs = length gs"
    using struct t list_all2_lengthD by (auto dest: map_eq_imp_length_eq)
  have "has_type (retype (snd (snd (snd (snd (gs ! i))))) (vs ! i)) (snd (snd (snd (snd (gs ! i)))))" if "i < length gs" for i
  proof -
    have "strip_tags (snd (snd (snd (snd (fs ! i))))) = strip_tags (snd (snd (snd (snd (gs ! i)))))"
      using struct.prems t that len by (auto dest!: arg_cong [where f = "\<lambda>xs. xs ! i"] simp: case_prod_beta)
    then show ?thesis using struct.IH that len by (auto simp: list_all2_conv_all_nth)
  qed
  then have "list_all2 (\<lambda>v f. has_type v (snd (snd (snd (snd f))))) (map (\<lambda>(f, x). retype (snd (snd (snd (snd f)))) x) (zip gs vs)) gs"
    using len by (simp add: list_all2_conv_all_nth)
  then show ?case using t by (simp add: has_type.struct)
next
  case (named s v n)
  then obtain u where t: "t = TNamed n u" "strip_tags s = strip_tags u" by (cases t) auto
  then have nt: "under u \<noteq> TIface" using named.hyps(1) strip_iface by blast
  moreover have "retype u (VNamed n v) = retype u v"
    using retype_named [OF nt, of "VNamed n v"] retype_named [OF nt, of v] by simp
  with nt have "retype t (VNamed n v) = VNamed n (retype u v)" by (simp add: t(1))
  ultimately show ?case using named.IH [OF t(2)] t(1) by (auto intro: has_type.named)
next
  case (bool b)
  then show ?case by (cases t) (auto intro: has_type.bool)
next
  case (str x)
  then show ?case by (cases t) (auto intro: has_type.str)
next
  case (int k n)
  then show ?case by (cases t) (auto intro: has_type.int)
next
  case (float k b)
  then show ?case by (cases t) (auto intro: has_type.float)
qed

lemma typed_iface: "has_type v t \<Longrightarrow> has_type v TIface"
  using typed_dynamic [of v t] by (cases "v = VNil") (auto intro: has_type.nil has_type.dynamic)

lemma decode_rune_bound: "fst (decode_rune s) < 2 ^ 31"
proof -
  have "fst (decode_bytes bs) < 2 ^ 31" for bs
    by (auto simp: decode_bytes_def rune_error_def in_range_def utf8_lo_def utf8_hi_def split: list.splits)
  then show ?thesis by (simp add: decode_rune_def)
qed

lemma runes_bound: "r \<in> set (runes s) \<Longrightarrow> r < 2 ^ 31"
proof (induction s rule: runes.induct)
  case (1 s)
  then show ?case using decode_rune_bound [of s] by (cases "s = []") (auto simp: runes.simps [of s])
qed

lemma byte_in_kind: "in_kind KUint8 (of_char c)"
  by (simp add: in_kind_def signed_kind_def of_char_def)

lemma convert_typed:
  assumes v: "has_type v s" "under s \<noteq> TIface" and c: "convertible s t" "convert fo t v = Some w" and t: "under t \<noteq> TIface"
  shows "has_type w t"
proof -
  have r: "has_type (raw v) (under s)" by (rule typed_raw [OF v])
  have n: "has_type x (under t) \<Longrightarrow> has_type (named t x) t" for x by (rule named_typed [OF _ t])
  show ?thesis
  proof (cases "strip_tags (under s) = strip_tags (under t)")
    case True
    have rt: "has_type (retype t v) t" unfolding retype_named [OF t] by (rule n [OF retype_typed [OF r True]])
    from r have "w = retype t v \<or> (\<exists>k m. under t = TInt k \<and> w = named t (VInt k (wrap_kind k m))) \<or>
        (\<exists>k b. under t = TFloat k \<and> w = named t (VFloat k b))"
      using True c(2) by cases (cases "under t"; force simp: convert_def)+
    then show ?thesis using rt n has_type.int [OF wrap_kind_in] has_type.float by metis
  next
    case False
    with c(1) consider
        (num) "is_num (under s)" "is_num (under t)"
      | (rune) k where "under s = TInt k" "under t = TString"
      | (chars) "under s = TString" "under t \<in> set char_types"
      | (str) "under s \<in> set char_types" "under t = TString"
      | (arr) e m where "under s = TSlice e" "under t = TArray m e"
      by (auto simp: convertible_def split: gtype.splits)
    then show ?thesis
    proof cases
      case num
      from r have "(\<exists>k m. raw v = VInt k m) \<or> (\<exists>k b. raw v = VFloat k b)" by cases (use num in auto)
      with c(2) num(2) show ?thesis
        by (cases "under t") (auto simp: convert_def intro!: n has_type.int has_type.float wrap_kind_in)
    next
      case rune
      from r obtain m where "raw v = VInt k m" by cases (use rune in auto)
      with c(2) rune show ?thesis by (auto simp: convert_def intro!: n has_type.str)
    next
      case chars
      from r obtain x where "raw v = VString x" by cases (use chars in auto)
      with c(2) chars show ?thesis
        by (auto simp: convert_def char_types_def in_kind_def signed_kind_def dest!: runes_bound
            intro!: n has_type.slice has_type.int byte_in_kind)
    next
      case str
      from r obtain e vs where "raw v = VSlice e vs" by cases (use str in \<open>auto simp: char_types_def\<close>)
      with c(2) str show ?thesis by (auto simp: convert_def intro!: n has_type.str)
    next
      case arr
      from r obtain vs where "raw v = VSlice e vs" "\<forall>x\<in>set (elements vs). has_type x e" by cases (use arr in auto)
      with c(2) arr show ?thesis
        by (auto simp: convert_def intro!: n has_type.array split: if_splits dest!: in_set_takeD)
    qed
  qed
qed

section \<open>Unmarshalling keeps types\<close>

fun valid_at :: "gtype \<Rightarrow> nat list \<Rightarrow> bool" where
  "valid_at t [] = True"
| "valid_at t (i # idx) =
     (case under t of TStruct fs \<Rightarrow> i < length fs \<and> valid_at (snd (snd (snd (snd (fs ! i))))) idx | _ \<Rightarrow> False)"

lemma plan_valid:
  "fi \<in> set (build_fields fs parent i) \<Longrightarrow>
    \<exists>j rest. fi_Index fi = parent @ (i + j) # rest \<and> j < length fs \<and> valid_at (snd (snd (snd (snd (fs ! j))))) rest"
proof (induction fs parent i rule: build_fields.induct)
  case (2 name tag exported anon t fs parent i)
  have later: ?case if l: "fi \<in> set (build_fields fs parent (Suc i))"
  proof -
    obtain j rest where "fi_Index fi = parent @ (Suc i + j) # rest" "j < length fs" "valid_at (snd (snd (snd (snd (fs ! j))))) rest"
      using 2(2) l by blast
    then show ?thesis by (intro exI [of _ "Suc j"] exI [of _ rest]) simp
  qed
  have leaf: ?case if "fi = parseTag tag name (parent @ [i])"
    using that by (intro exI [of _ 0] exI [of _ "[]"]) (simp add: parseTag_def Let_def)
  have inner: ?case if g: "exported" "tag \<noteq> ''-''" "under t = TStruct gs" "anon \<and> tag = []" "fi \<in> set (build_fields gs (parent @ [i]) 0)" for gs
  proof -
    obtain j rest where "fi_Index fi = (parent @ [i]) @ j # rest" "j < length gs" "valid_at (snd (snd (snd (snd (gs ! j))))) rest"
      using 2(1) g by fastforce
    then show ?thesis using g(3) by (intro exI [of _ 0] exI [of _ "j # rest"]) simp
  qed
  show ?case
    using 2(3) later leaf inner by (auto split: if_splits gtype.splits)
qed simp

lemma inspect_valid: "fi \<in> set (inspectStruct t) \<Longrightarrow> valid_at t (fi_Index fi)"
  by (auto simp: inspectStruct_def dest!: plan_valid split: gtype.splits)

lemma typed_struct:
  assumes "has_type d t" "under t = TStruct fs"
  obtains vs where "raw d = VStruct fs vs" "length vs = length fs"
    "\<And>i. i < length fs \<Longrightarrow> has_type (vs ! i) (snd (snd (snd (snd (fs ! i)))))"
proof -
  have "has_type (raw d) (TStruct fs)" using typed_raw [OF assms(1)] assms(2) by simp
  then show ?thesis by cases (use that in \<open>auto simp: list_all2_conv_all_nth\<close>)
qed

lemma get_typed: "has_type d t \<Longrightarrow> valid_at t idx \<Longrightarrow> has_type (get_at d idx) (type_at t idx)"
proof (induction idx arbitrary: d t)
  case (Cons i idx)
  then obtain fs where fs: "under t = TStruct fs" "i < length fs" by (auto split: gtype.splits)
  obtain vs where "raw d = VStruct fs vs" "length vs = length fs" "has_type (vs ! i) (snd (snd (snd (snd (fs ! i)))))"
    using typed_struct [OF Cons.prems(1) fs(1)] fs(2) by metis
  then show ?case using Cons fs by simp
qed simp

lemma set_typed:
  "has_type d t \<Longrightarrow> valid_at t idx \<Longrightarrow> has_type w (type_at t idx) \<Longrightarrow> has_type (set_at d idx w) t"
proof (induction d idx w arbitrary: t rule: set_at.induct)
  case (2 n v i idx w)
  from 2(2,3) obtain u where "t = TNamed n u" "under u \<noteq> TIface" "has_type v u"
    by (auto elim!: has_type_named split: gtype.splits)
  then show ?case using 2 by (auto intro: has_type.named)
next
  case (3 fs vs i idx w)
  from 3(2,3) have t: "t = TStruct fs" and vs: "list_all2 (\<lambda>v f. has_type v (snd (snd (snd (snd f))))) vs fs"
    by (auto elim!: has_type_struct split: gtype.splits)
  have "has_type (set_at (vs ! i) idx w) (snd (snd (snd (snd (fs ! i)))))"
    using 3 t vs by (auto simp: list_all2_conv_all_nth)
  then show ?case
    using t vs 3(3) by (auto simp: list_all2_conv_all_nth nth_list_update intro!: has_type.struct)
qed (auto elim: has_type.cases split: gtype.splits)

lemma map_values_typed:
  assumes "has_type v TIface" "as_any_map v = Some m" "map_of m k = Some x"
  shows "has_type x TIface"
proof -
  have d: "has_type v (type_of v)" using typed_dynamic [OF assms(1)] assms(2) by (cases v) auto
  have "\<forall>(k, x)\<in>set m. has_type x TIface"
  proof (cases v rule: as_any_map.cases)
    case (1 kvs)
    from d have "\<forall>(x, y)\<in>set kvs. has_type x TString \<and> has_type y TIface" by cases (use 1 in auto)
    then show ?thesis using assms(2) 1 by (auto simp: string_entries_def)
  qed (use assms(2) in auto)
  then show ?thesis using map_of_SomeD [OF assms(3)] by auto
qed

lemma elements_typed:
  assumes "has_type v TIface" "raw v = VSlice u vs" "x \<in> set (elements vs)"
  shows "has_type x TIface"
proof -
  have v: "has_type v (type_of v)" "under (type_of v) \<noteq> TIface"
    using typed_dynamic [OF assms(1)] assms(2) by (cases "v = VNil"; simp)+
  from typed_raw [OF v] v(2) have "has_type x u" by cases (use assms(2,3) in auto)
  then show ?thesis by (rule typed_iface)
qed

text \<open>Assignment.\<close>

lemma assign_typed:
  assumes "has_type v TIface" "v \<noteq> VNil" "assignable (type_of v) t"
  shows "has_type (assign t v) t"
proof (cases "under t = TIface")
  case True
  then show ?thesis using typed_dynamic [OF assms(1,2)] by (auto simp: assign_def intro: has_type.dynamic)
next
  case False
  then have "under (type_of v) = under t" using assms(3) by (auto simp: assignable_def)
  then show ?thesis
    using typed_raw [of v "type_of v"] typed_dynamic [OF assms(1,2)] named_typed [of "raw v" t] False by (simp add: assign_def)
qed

lemmas unmarshal_induct = unmarshalValue_unmarshal_fields_unmarshal_slice.induct

lemma unmarshal_typed:
  "has_type v TIface \<Longrightarrow> has_type old t \<Longrightarrow> unmarshalValue fo tn t v old = Some (e, w) \<Longrightarrow> has_type w t"
  "(\<And>k x. map_of m k = Some x \<Longrightarrow> has_type x TIface) \<Longrightarrow> (\<And>fi. fi \<in> set fis \<Longrightarrow> valid_at t (fi_Index fi)) \<Longrightarrow>
    has_type d t \<Longrightarrow> unmarshal_fields fo tn t fis m d = Some (e, w) \<Longrightarrow> has_type w t"
  "(\<And>x. x \<in> set xs \<Longrightarrow> has_type x TIface) \<Longrightarrow> (\<And>y. y \<in> set ws \<Longrightarrow> has_type y u) \<Longrightarrow>
    unmarshal_slice fo tn u xs ws = Some (e', ws') \<Longrightarrow> y \<in> set ws' \<Longrightarrow> has_type y u"
proof (induction fo tn t v old and fo tn t fis m d and fo tn u xs ws arbitrary: e w and e w and e' ws' y rule: unmarshal_induct)
  case (1 fo tn t v old)
  show ?case
  proof (cases "v = VNil \<or> assignable (type_of v) t")
    case True
    then show ?thesis
      using 1(5,6) assign_typed [OF 1(4)] by (subst (asm) unmarshalValue.simps) (auto split: if_splits)
  next
    case False
    then have v: "v \<noteq> VNil" "\<not> assignable (type_of v) t" "has_type v (type_of v)" "under (type_of v) \<noteq> TIface" "under t \<noteq> TIface"
      using typed_dynamic [OF 1(4)] by (auto simp: assignable_def)
    have nt: "has_type x (under t) \<Longrightarrow> has_type (named t x) t" for x by (rule named_typed [OF _ v(5)])
    consider (ptr) u where "under t = TPtr u" | (conv) "pointer_to t = None" "convertible (type_of v) t"
      | (rest) "pointer_to t = None" "\<not> convertible (type_of v) t" by (cases "pointer_to t") auto
    then show ?thesis
    proof cases
      case ptr
      have "has_type w' u" if "unmarshalValue fo tn u v (zero_value u) = Some (x, w')" for x w'
        by (rule 1(3) [OF v(1,2) _ 1(4) zero_typed that]) (use ptr in simp)
      then show ?thesis
        using 1(5,6) v(1,2) ptr by (subst (asm) (2) unmarshalValue.simps) (auto split: option.splits intro!: nt has_type.ptr)
    next
      case conv
      then have "convert fo t v = Some w"
        using 1(6) v(1,2) by (subst (asm) unmarshalValue.simps) (simp split: option.splits)
      then show ?thesis by (rule convert_typed [OF v(3,4) conv(2) _ v(5)])
    next
      case rest
      consider (st) fs m where "under t = TStruct fs" "as_any_map v = Some m"
        | (sl) u a vs where "under t = TSlice u" "raw v = VSlice a vs"
        | (other) "unmarshalValue fo tn t v old = Some (Some (cannot_assign tn (type_of v) t), old)"
        using unmarshalValue.simps [of fo tn t v old] rest v(1,2)
        by (cases "under t"; cases "as_any_map v"; cases "raw v") auto
      then show ?thesis
      proof cases
        case st
        have "unmarshal_fields fo tn t (inspectStruct t) m old = Some (e, w)"
          using 1(6) v(1,2) rest st by (subst (asm) unmarshalValue.simps) simp
        then show ?thesis
          using 1(2) [OF v(1,2) rest refl st(1) refl st(2)] map_values_typed [OF 1(4) st(2)] inspect_valid 1(5) by auto
      next
        case sl
        have *: "has_type y u" if "unmarshal_slice fo tn u (elements vs) [] = Some (x, ws)" "y \<in> set ws" for x ws y
          using 1(1) [OF v(1,2) rest refl sl(1) refl sl(2)] elements_typed [OF 1(4) sl(2)] that by auto
        then show ?thesis
          using 1(5,6) v(1,2) rest sl unmarshalValue.simps [of fo tn t v old]
          by (auto split: option.splits intro!: nt has_type.slice)
      next
        case other
        then show ?thesis using 1(5,6) by simp
      qed
    qed
  qed
next
  case (3 fo tn t fi fis m d)
  show ?case
  proof (cases "map_of m (fi_ABAPName fi)")
    case None
    then show ?thesis using 3 by auto
  next
    case (Some x)
    have val: "valid_at t (fi_Index fi)" using 3(5) by simp
    obtain a y where u: "unmarshalValue fo tn (type_at t (fi_Index fi)) x (get_at d (fi_Index fi)) = Some (a, y)"
      using 3(7) Some by (auto split: option.splits)
    have "has_type y (type_at t (fi_Index fi))"
      by (rule 3(2) [OF Some 3(4) [OF Some] get_typed [OF 3(6) val] u])
    then have new: "has_type (set_at d (fi_Index fi) y) t" by (rule set_typed [OF 3(6) val])
    show ?thesis
    proof (cases a)
      case None
      then have "unmarshal_fields fo tn t fis m (set_at d (fi_Index fi) y) = Some (e, w)" using 3(7) Some u by simp
      from 3(3) [OF Some u refl None _ _ new this] 3(4,5) show ?thesis by fastforce
    next
      case (Some b)
      then show ?thesis using 3(7) \<open>map_of m (fi_ABAPName fi) = Some x\<close> u new by simp
    qed
  qed
next
  case (5 fo tn u x xs ws)
  obtain a w where w: "unmarshalValue fo tn u x (zero_value u) = Some (a, w)"
    using 5(5) by (auto split: option.splits)
  have new: "has_type w u" by (rule 5(1) [OF _ zero_typed w]) (simp add: 5(3))
  show ?case
  proof (cases a)
    case None
    then have "unmarshal_slice fo tn u xs (ws @ [w]) = Some (e', ws')" using 5(5) w by simp
    from 5(2) [OF w refl None _ _ this 5(6)] show ?thesis using 5(3,4) new by auto
  next
    case (Some b)
    then show ?thesis using 5(4-6) w by simp
  qed
qed auto

lemma unmarshal_top_typed:
  "(\<And>k x. map_of m k = Some x \<Longrightarrow> has_type x TIface) \<Longrightarrow> (\<And>fi. fi \<in> set fis \<Longrightarrow> valid_at t (fi_Index fi)) \<Longrightarrow>
    has_type d t \<Longrightarrow> unmarshal_top fo tn t fis m d = Some (e, w) \<Longrightarrow> has_type w t"
proof (induction fis arbitrary: d)
  case (Cons fi fis)
  show ?case
  proof (cases "map_of m (fi_ABAPName fi) = None \<or> map_of m (fi_ABAPName fi) = Some VNil")
    case True
    then have "unmarshal_top fo tn t fis m d = Some (e, w)" using Cons.prems(4) by auto
    then show ?thesis using Cons.IH Cons.prems by simp
  next
    case False
    then obtain x where x: "map_of m (fi_ABAPName fi) = Some x" "x \<noteq> VNil" by auto
    have val: "valid_at t (fi_Index fi)" using Cons.prems(2) by simp
    obtain a y where u: "unmarshalValue fo tn (type_at t (fi_Index fi)) x (get_at d (fi_Index fi)) = Some (a, y)"
      using Cons.prems(4) x by (auto split: option.splits)
    have "has_type y (type_at t (fi_Index fi))"
      by (rule unmarshal_typed(1) [OF Cons.prems(1) [OF x(1)] get_typed [OF Cons.prems(3) val] u])
    then have new: "has_type (set_at d (fi_Index fi) y) t" by (rule set_typed [OF Cons.prems(3) val])
    then show ?thesis using Cons.IH [OF Cons.prems(1) _ new] Cons.prems(2,4) x u by (cases a) auto
  qed
qed simp



end
