(* ===== verification/Marshal_Roundtrip.thy ===== *)
theory Marshal_Roundtrip
  imports Marshal
begin

text \<open>
  Round trip of the marshaller: a struct written by \<open>marshalInput\<close> and read by \<open>unmarshalOutput\<close>
  into a zero struct of the same type comes back. \<open>rt\<close> says for which types: exported fields with
  distinct ABAP names, no embedding, no \<open>omitempty\<close>, no arrays, no pointers to pointers or
  interfaces; \<open>no_nil\<close> excludes the nil slices, which come back empty.
\<close>

definition ftype :: "go_string \<times> go_string \<times> bool \<times> bool \<times> gtype \<Rightarrow> gtype" where
  "ftype f = snd (snd (snd (snd f)))"

definition abap_name :: "go_string \<times> go_string \<times> bool \<times> bool \<times> gtype \<Rightarrow> go_string" where
  "abap_name f = fi_ABAPName (parseTag (fst (snd f)) (fst f) [])"

definition plain_field :: "go_string \<times> go_string \<times> bool \<times> bool \<times> gtype \<Rightarrow> bool" where
  "plain_field f =
     (case f of (name, tag, exported, anon, t) \<Rightarrow>
        exported \<and> tag \<noteq> ''-'' \<and> \<not> (anon \<and> tag = []) \<and> \<not> fi_OmitEmpty (parseTag tag name []))"

function rt :: "gtype \<Rightarrow> bool" where
  "rt TBool = True"
| "rt TString = True"
| "rt (TInt k) = True"
| "rt (TFloat k) = True"
| "rt TIface = True"
| "rt (TMap k t) = True"
| "rt (TArray n t) = False"
| "rt (TSlice t) = (if is_byte t then t = TInt KUint8 else rt t)"
| "rt (TPtr t) = (rt t \<and> under t \<noteq> TIface \<and> pointer_to t = None)"
| "rt (TStruct fs) = (distinct (map abap_name fs) \<and> list_all plain_field fs \<and> (\<forall>f\<in>set fs. rt (ftype f)))"
| "rt (TNamed n t) = rt t"
  by pat_completeness auto

termination rt
  by (relation "measure size") (auto simp: ftype_def dest: field_size)

fun no_nil :: "gval \<Rightarrow> bool" where
  "no_nil (VSlice t None) = (t = TInt KUint8)"
| "no_nil (VSlice t (Some vs)) = list_all no_nil vs"
| "no_nil (VPtr t (Some v)) = no_nil v"
| "no_nil (VStruct fs vs) = list_all no_nil vs"
| "no_nil (VNamed n v) = no_nil v"
| "no_nil v = True"

lemma rt_under: "rt t \<Longrightarrow> rt (under t)"
  by (induction t rule: rt.induct) auto

lemma no_nil_raw: "no_nil v \<Longrightarrow> no_nil (raw v)"
  by (induction v) auto

lemma named_raw: "has_type v t \<Longrightarrow> under t \<noteq> TIface \<Longrightarrow> named t (raw v) = v"
  by (induction rule: has_type.induct) auto

lemma assign_same: "has_type v t \<Longrightarrow> assign t v = v"
  by (cases "under t = TIface") (simp_all add: assign_def named_raw)

text \<open>A value that is passed on as it is.\<close>

lemma unmarshal_same:
  assumes "has_type v t"
  shows "v = VNil \<and> unmarshalValue fo tn t v old = Some (None, old) \<or> v \<noteq> VNil \<and> unmarshalValue fo tn t v old = Some (None, v)"
proof (cases "v = VNil")
  case True
  then show ?thesis by (simp add: unmarshalValue.simps)
next
  case False
  then have "assignable (type_of v) t"
    using type_of_typed [OF assms] by (cases "under t = TIface") (auto simp: assignable_def)
  then show ?thesis using False assign_same [OF assms] by (subst unmarshalValue.simps) simp
qed

text \<open>The plan of a struct without embedded fields.\<close>

lemma flat_plan:
  "list_all plain_field fs \<Longrightarrow>
    build_fields fs [] i = map (\<lambda>(j, f). parseTag (fst (snd f)) (fst f) [j]) (enumerate i fs)"
proof (induction fs arbitrary: i)
  case (Cons f fs)
  obtain name tag exported anon t where f: "f = (name, tag, exported, anon, t)" by (cases f)
  then show ?case using Cons by (auto simp: plain_field_def split: gtype.splits)
qed simp

lemma parseTag_index:
  "fi_Index (parseTag tag name idx) = idx"
  "fi_ABAPName (parseTag tag name idx) = fi_ABAPName (parseTag tag name [])"
  "fi_OmitEmpty (parseTag tag name idx) = fi_OmitEmpty (parseTag tag name [])"
  by (simp_all add: parseTag_def Let_def)

lemma zero_named: "under t \<noteq> TIface \<Longrightarrow> zero_value t = named t (zero_value (under t))"
  by (induction t) auto

lemma zero_iface: "under t = TIface \<Longrightarrow> zero_value t = VNil"
  by (cases t) auto

lemma get_named [simp]: "raw v = VStruct fs ws \<Longrightarrow> i < length ws \<Longrightarrow> get_at v [i] = ws ! i"
  by simp

lemma set_named: "i < length ws \<Longrightarrow> under t = TStruct fs \<Longrightarrow>
    set_at (named t (VStruct gs ws)) [i] w = named t (VStruct gs (ws[i := w]))"
  by (induction t) simp_all

lemma raw_named: "under t = TStruct fs \<Longrightarrow> raw (named t (VStruct gs ws)) = VStruct gs ws"
  by (induction t) simp_all

section \<open>Structs\<close>

lemma fields_rt:
  assumes t: "under t = TStruct fs" and len: "length vs = length fs"
    and m: "\<And>j. j < length fs \<Longrightarrow> map_of m (abap_name (fs ! j)) = Some (ys ! j)"
    and u: "\<And>j. j < length fs \<Longrightarrow>
      unmarshalValue fo tn (ftype (fs ! j)) (ys ! j) (zero_value (ftype (fs ! j))) = Some (None, vs ! j)"
    and i: "i \<le> length fs"
  shows "unmarshal_fields fo tn t (map (\<lambda>(j, f). parseTag (fst (snd f)) (fst f) [j]) (enumerate i (drop i fs))) m
      (named t (VStruct fs (take i vs @ map (\<lambda>f. zero_value (ftype f)) (drop i fs)))) = Some (None, named t (VStruct fs vs))"
  using i
proof (induction i rule: inc_induct)
  case base
  then show ?case using len by simp
next
  case (step i)
  let ?ws = "take i vs @ map (\<lambda>f. zero_value (ftype f)) (drop i fs)"
  have fs: "drop i fs = fs ! i # drop (Suc i) fs" using step.hyps by (simp add: Cons_nth_drop_Suc)
  have ws: "?ws ! i = zero_value (ftype (fs ! i))" "i < length ?ws" using step.hyps len by (simp_all add: nth_append)
  have up: "?ws[i := vs ! i] = take (Suc i) vs @ map (\<lambda>f. zero_value (ftype f)) (drop (Suc i) fs)"
    using step.hyps len by (simp add: fs list_update_append take_Suc_conv_app_nth)
  have g: "get_at (named t (VStruct fs ?ws)) [i] = zero_value (ftype (fs ! i))"
    using get_named [OF raw_named [OF t] ws(2)] ws(1) by simp
  have ta: "type_at t [i] = ftype (fs ! i)" using t step.hyps by (simp add: ftype_def)
  have nm: "map_of m (fi_ABAPName (parseTag (fst (snd (fs ! i))) (fst (fs ! i)) [i])) = Some (ys ! i)"
    using m [of i] step.hyps by (simp add: abap_name_def parseTag_index(2) [of _ _ "[i]"])
  have one: "unmarshal_fields fo tn t (parseTag (fst (snd (fs ! i))) (fst (fs ! i)) [i] # fis) m (named t (VStruct fs ?ws)) =
    unmarshal_fields fo tn t fis m (named t (VStruct fs (?ws[i := vs ! i])))" for fis
    using u [of i] step.hyps
    by (simp only: unmarshal_fields.simps nm parseTag_index(1) g ta set_named [OF ws(2) t] option.case prod.case)
  have en: "enumerate i (drop i fs) = (i, fs ! i) # enumerate (Suc i) (drop (Suc i) fs)" by (simp add: fs)
  show ?case unfolding en list.map prod.case one up by (rule step.IH)
qed

lemma set_get: "set_at d idx (get_at d idx) = d"
proof (induction d idx "VNil" rule: set_at.induct)
  case (2 n v i idx)
  then show ?case by simp
next
  case (3 fs vs i idx)
  then show ?case by (auto simp: list_update_same_conv)
qed auto

lemma top_of_fields:
  "unmarshal_fields fo tn t fis m d = Some (None, w) \<Longrightarrow> unmarshal_top fo tn t fis m d = Some (None, w)"
proof (induction fis arbitrary: d)
  case (Cons fi fis)
  then show ?case
  proof (cases "map_of m (fi_ABAPName fi)")
    case (Some x)
    obtain a y where u: "unmarshalValue fo tn (type_at t (fi_Index fi)) x (get_at d (fi_Index fi)) = Some (a, y)"
      using Cons.prems Some by (auto split: option.splits)
    then show ?thesis
      using Cons Some by (cases a) (auto simp: unmarshalValue.simps [of fo tn _ VNil] set_get)
  qed simp
qed simp

lemma all_some_iff:
  "all_some xs = Some ys \<longleftrightarrow> length xs = length ys \<and> (\<forall>i < length xs. xs ! i = Some (ys ! i))"
proof (induction xs arbitrary: ys rule: all_some.induct)
  case (2 xs)
  show ?case by (auto intro!: exI [of _ 0])
next
  case (3 x xs)
  then show ?case by (cases ys) (auto simp: nth_Cons split: nat.splits)
qed auto

lemma assemble_distinct:
  "distinct (map fst kvs) \<Longrightarrow>
    map_of (fold (\<lambda>e m. case e of None \<Rightarrow> m | Some (k, v) \<Rightarrow> map_set k v m) (map Some kvs) m) k =
      (case map_of kvs k of None \<Rightarrow> map_of m k | Some v \<Rightarrow> Some v)"
proof (induction kvs arbitrary: m)
  case (Cons kv kvs)
  obtain a b where kv: "kv = (a, b)" by (cases kv)
  have "map_of kvs a = None" using Cons.prems kv by (simp add: map_of_eq_None_iff)
  then show ?case using Cons.prems Cons.IH [of "map_set a b m"] kv
    by (cases "k = a"; cases "map_of kvs k") simp_all
qed simp

text \<open>The marshalled struct has every field's marshalled value under its name.\<close>

lemma marshal_fields_flat:
  assumes t: "under t = TStruct fs" "rt t" and v: "raw v = VStruct fs vs" "length vs = length fs"
    and m: "marshal_fields ad t v = Some m"
  obtains ys where "length ys = length fs"
    "\<And>j. j < length fs \<Longrightarrow> marshalGoValue ad (ftype (fs ! j)) (vs ! j) = Some (ys ! j)"
    "\<And>j. j < length fs \<Longrightarrow> map_of m (abap_name (fs ! j)) = Some (ys ! j)"
proof -
  have flat: "list_all plain_field fs" "distinct (map abap_name fs)" using rt_under [OF t(2)] t(1) by auto
  let ?plan = "inspectStruct t"
  have plan: "?plan = map (\<lambda>(j, f). parseTag (fst (snd f)) (fst f) [j]) (enumerate 0 fs)"
    using t(1) flat_plan [OF flat(1)] by (simp add: inspectStruct_def)
  have pl: "length ?plan = length fs" using plan by simp
  have fi: "?plan ! j = parseTag (fst (snd (fs ! j))) (fst (fs ! j)) [j]" if "j < length fs" for j
    using that by (simp add: plan nth_enumerate_eq)
  obtain es where es: "all_some (map (\<lambda>fi.
          let fv = get_at v (fi_Index fi); ft = type_at t (fi_Index fi)
          in if fi_OmitEmpty fi \<and> isEmpty ft fv then Some None
             else map_option (\<lambda>x. Some (fi_ABAPName fi, x)) (marshalGoValue ad ft fv)) ?plan) = Some es"
    and me: "m = assemble es"
    using m by (auto simp: marshal_fields_def)
  define ys where "ys = map (\<lambda>e. snd (the e)) es"
  have len: "length es = length fs" using es pl by (simp add: all_some_iff)
  have elem: "marshalGoValue ad (ftype (fs ! j)) (vs ! j) = Some (ys ! j) \<and> es ! j = Some (abap_name (fs ! j), ys ! j)"
    if j: "j < length fs" for j
  proof -
    have "plain_field (fs ! j)" using flat(1) j by (simp add: list_all_length)
    then have om: "\<not> fi_OmitEmpty (?plan ! j)" using fi [OF j] parseTag_index(3) by (auto simp: plain_field_def split: prod.splits)
    have "get_at v (fi_Index (?plan ! j)) = vs ! j" "type_at t (fi_Index (?plan ! j)) = ftype (fs ! j)"
      "fi_ABAPName (?plan ! j) = abap_name (fs ! j)"
      using fi [OF j] j v t(1) parseTag_index(2) by (simp_all add: parseTag_index(1) ftype_def abap_name_def)
    then have "map_option (\<lambda>x. Some (abap_name (fs ! j), x)) (marshalGoValue ad (ftype (fs ! j)) (vs ! j)) = Some (es ! j)"
      using es j om pl by (auto simp: all_some_iff)
    then obtain z where "marshalGoValue ad (ftype (fs ! j)) (vs ! j) = Some z" "Some (abap_name (fs ! j), z) = es ! j"
      by auto
    then show ?thesis using j len by (simp add: ys_def flip: \<open>Some (abap_name (fs ! j), z) = es ! j\<close>)
  qed
  let ?kvs = "zip (map abap_name fs) ys"
  have ly: "length ys = length fs" using len by (simp add: ys_def)
  have kvs: "es = map Some ?kvs" using elem len ly by (intro nth_equalityI) simp_all
  have "map_of m k = (case map_of ?kvs k of None \<Rightarrow> None | Some v \<Rightarrow> Some v)" for k
    using assemble_distinct [of ?kvs "[]" k] flat(2) ly by (simp add: me assemble_def kvs cong: option.case_cong)
  then have mo: "map_of m k = map_of ?kvs k" for k by (cases "map_of ?kvs k") simp_all
  have "map_of m (abap_name (fs ! j)) = Some (ys ! j)" if "j < length fs" for j
  proof -
    have "(abap_name (fs ! j), ys ! j) \<in> set ?kvs" using that ly by (auto simp: in_set_zip intro!: exI [of _ j])
    then show ?thesis using flat(2) ly by (simp add: mo)
  qed
  then show ?thesis using that ly elem by blast
qed

section \<open>Values\<close>

lemma slice_rt:
  assumes "length ys = length xs"
    and "\<And>j. j < length xs \<Longrightarrow> unmarshalValue fo tn u (ys ! j) (zero_value u) = Some (None, xs ! j)"
  shows "unmarshal_slice fo tn u ys ws = Some (None, ws @ xs)"
  using assms
proof (induction ys xs arbitrary: ws rule: list_induct2)
  case (Cons y ys x xs)
  have "unmarshalValue fo tn u y (zero_value u) = Some (None, x)" using Cons.prems [of 0] by simp
  moreover have "unmarshal_slice fo tn u ys (ws @ [x]) = Some (None, (ws @ [x]) @ xs)"
    using Cons.IH [of "ws @ [x]"] Cons.prems [of "Suc j" for j] by simp
  ultimately show ?case by simp
qed simp

lemma bytes_typed: "\<forall>v\<in>set vs. has_type v (TInt KUint8) \<Longrightarrow> bytes_value (Some vs) = VSlice (TInt KUint8) (Some vs)"
proof -
  have "(case raw x of VInt k n \<Rightarrow> VInt KUint8 n | _ \<Rightarrow> x) = x" if "has_type x (TInt KUint8)" for x
    using that by cases auto
  moreover assume "\<forall>v\<in>set vs. has_type v (TInt KUint8)"
  ultimately show ?thesis by (auto simp: bytes_value_def intro: map_idI)
qed

text \<open>What the static type of a value makes of it, and how it is read back.\<close>

definition comes_back :: "float_ops \<Rightarrow> (gtype \<Rightarrow> go_string) \<Rightarrow> gtype \<Rightarrow> gval \<Rightarrow> gval \<Rightarrow> bool" where
  "comes_back fo tn t v x \<longleftrightarrow>
     unmarshalValue fo tn t x (zero_value t) = Some (None, v) \<and>
     (under t \<noteq> TIface \<and> pointer_to t = None \<longrightarrow> x \<noteq> VNil \<and> pointer_to (type_of x) = None)"

lemma same_comes_back: "has_type v t \<Longrightarrow> comes_back fo tn t v v"
  using unmarshal_same [of v t fo tn "zero_value t"] zero_iface [of t] not_nil [of v t] type_of_typed [of v t]
  by (cases "under t = TIface") (auto simp: comes_back_def)

lemma struct_back:
  assumes t: "under t = TStruct fs" "rt t" and v: "has_type v t" "raw v = VStruct fs vs" "length vs = length fs"
    and m: "marshal_fields ad t v = Some m"
    and IH: "\<And>j x. j < length fs \<Longrightarrow> marshalGoValue ad (ftype (fs ! j)) (vs ! j) = Some x \<Longrightarrow>
      comes_back fo tn (ftype (fs ! j)) (vs ! j) x"
  shows "unmarshal_fields fo tn t (inspectStruct t) m (zero_value t) = Some (None, v)"
proof -
  obtain ys where ys: "length ys = length fs"
    "\<And>j. j < length fs \<Longrightarrow> marshalGoValue ad (ftype (fs ! j)) (vs ! j) = Some (ys ! j)"
    "\<And>j. j < length fs \<Longrightarrow> map_of m (abap_name (fs ! j)) = Some (ys ! j)"
    using marshal_fields_flat [OF t v(2,3) m] by blast
  have "unmarshalValue fo tn (ftype (fs ! j)) (ys ! j) (zero_value (ftype (fs ! j))) = Some (None, vs ! j)" if "j < length fs" for j
    using IH [OF that ys(2) [OF that]] by (simp add: comes_back_def)
  from fields_rt [OF t(1) v(3) ys(3) this, of 0]
  have "unmarshal_fields fo tn t (inspectStruct t) m (named t (VStruct fs (map (\<lambda>f. zero_value (ftype f)) fs))) =
      Some (None, named t (VStruct fs vs))"
    using t flat_plan [of fs 0] rt_under [OF t(2)] by (simp add: inspectStruct_def)
  moreover have "zero_value t = named t (VStruct fs (map (\<lambda>f. zero_value (ftype f)) fs))"
    using zero_named [of t] t(1) by (simp add: ftype_def)
  moreover have "named t (VStruct fs vs) = v" using named_raw [OF v(1)] t(1) v(2) by simp
  ultimately show ?thesis by simp
qed

lemma under_not_named: "under t \<noteq> TNamed n u"
  by (induction t) auto

lemma marshal_back:
  "has_type v t \<Longrightarrow> rt t \<Longrightarrow> no_nil v \<Longrightarrow> marshalGoValue ad t v = Some x \<Longrightarrow> comes_back fo tn t v x"
proof (induction v arbitrary: t ad x rule: measure_induct_rule [where f = size])
  case (less v)
  note ty = less.prems(1) and rt = less.prems(2) and nn = less.prems(3) and mv = less.prems(4)
  have rtu: "rt (under t)" by (rule rt_under [OF rt])
  have same: ?case if "marshalGoValue ad t v = Some v" using that mv same_comes_back [OF ty] by simp
  show ?case
  proof (cases "under t")
    case (TPtr u)
    then obtain p where p: "raw v = VPtr u p" "\<And>w. p = Some w \<Longrightarrow> has_type w u" 
      using typed_raw [OF ty] by (auto elim: has_type.cases)
    show ?thesis
    proof (cases p)
      case None
      then have "x = VNil" "v = zero_value t"
        using mv p TPtr zero_named [of t] named_raw [OF ty] by (simp_all add: marshalGoValue.simps)
      then show ?thesis using TPtr by (simp add: comes_back_def unmarshalValue.simps pointer_to_def)
    next
      case (Some w)
      then have mw: "marshalGoValue True u w = Some x"
        using mv p TPtr by (subst (asm) marshalGoValue.simps) simp
      have "comes_back fo tn u w x"
        using less.IH [of w u True x] raw_parts(1) [of v u w] p Some mw rtu TPtr no_nil_raw [OF nn] by simp
      then have x: "unmarshalValue fo tn u x (zero_value u) = Some (None, w)" "x \<noteq> VNil" "pointer_to (type_of x) = None"
        using rtu TPtr by (auto simp: comes_back_def)
      then have "\<not> assignable (type_of x) t" using TPtr by (auto simp: assignable_def)
      then have "unmarshalValue fo tn t x (zero_value t) = Some (None, named t (VPtr u (Some w)))"
        using x TPtr by (subst unmarshalValue.simps) (simp add: pointer_to_def)
      then show ?thesis using named_raw [OF ty] TPtr p Some by (simp add: comes_back_def pointer_to_def)
    qed
  next
    case (TSlice u)
    from typed_raw [OF ty] TSlice obtain vs where p: "raw v = VSlice u vs" "\<forall>w\<in>set (elements vs). has_type w u"
      by (auto elim: has_type.cases)
    have raw_back: ?thesis if "x = raw v" "type_of x = under t"
    proof -
      have "assignable (type_of x) t" using that TSlice by (simp add: assignable_def)
      then show ?thesis
        using that p TSlice named_raw [OF ty]
        by (simp add: comes_back_def unmarshalValue.simps assign_def pointer_to_def)
    qed
    show ?thesis
    proof (cases "is_byte u")
      case True
      then have u: "u = TInt KUint8" using rtu TSlice by simp
      have "x = bytes_value vs" using mv p TSlice True by (subst (asm) marshalGoValue.simps) simp
      also have "\<dots> = raw v" using p bytes_typed u by (cases vs) (auto simp: bytes_value_def)
      finally show ?thesis using raw_back p TSlice u by simp
    next
      case False
      have nv: "no_nil (VSlice u vs)" using no_nil_raw [OF nn] p(1) by simp
      then obtain xs where vs: "vs = Some xs" using False by (cases vs) (auto simp: is_byte_def)
      obtain ys where ys: "all_some (map (marshalGoValue True u) xs) = Some ys" "x = VSlice TIface (Some ys)"
        using mv p TSlice False vs by (subst (asm) marshalGoValue.simps) auto
      have len: "length ys = length xs" and el: "j < length xs \<Longrightarrow> marshalGoValue True u (xs ! j) = Some (ys ! j)" for j
        using ys(1) by (auto simp: all_some_iff)
      show ?thesis
      proof (cases "u = TIface")
        case True
        have "ys = xs" using el len True by (intro nth_equalityI) (simp_all add: marshalGoValue.simps)
        then show ?thesis using raw_back p TSlice True vs ys(2) by simp
      next
        case nif: False
        have "comes_back fo tn u (xs ! j) (ys ! j)" if "j < length xs" for j
          using less.IH [OF _ _ _ _ el [OF that]] raw_parts(2) [of v u xs "xs ! j"] p vs that rtu TSlice False nv
          by (simp add: list_all_length)
        then have "unmarshal_slice fo tn u ys [] = Some (None, xs)"
          using slice_rt [OF len, of fo tn u "[]"] by (simp add: comes_back_def)
        moreover have "TIface \<noteq> strip_tags u" using nif strip_shape(1) [of u] by metis
        ultimately have "unmarshalValue fo tn t x (zero_value t) = Some (None, named t (VSlice u (Some xs)))"
          using ys(2) TSlice nif
          by (subst unmarshalValue.simps) (auto simp: assignable_def convertible_def char_types_def pointer_to_def)
        then show ?thesis using ys(2) p vs TSlice named_raw [OF ty] by (simp add: comes_back_def pointer_to_def)
      qed
    qed
  next
    case (TStruct fs)
    show ?thesis
    proof (cases "t = date_type \<or> t = time_type")
      case True
      show ?thesis by (rule same) (subst marshalGoValue.simps, simp add: TStruct True)
    next
      case False
      obtain vs where p: "raw v = VStruct fs vs" "length vs = length fs" "\<And>j. j < length fs \<Longrightarrow> has_type (vs ! j) (ftype (fs ! j))"
        using typed_struct [OF ty TStruct] unfolding ftype_def by metis
      obtain m where m: "marshal_fields ad t v = Some m" "x = any_map m"
        using mv False marshalGoValue_struct [OF TStruct _ _ p(1)] by auto
      have "comes_back fo tn (ftype (fs ! j)) (vs ! j) y" if "j < length fs" "marshalGoValue ad (ftype (fs ! j)) (vs ! j) = Some y" for j y
      proof (rule less.IH [OF _ p(3) _ _ that(2)])
        show "size (vs ! j) < size v" using size_raw_le [of v] nth_size [of j vs] p that(1) by simp
        show "rt (ftype (fs ! j))" using rtu TStruct that(1) by simp
        show "no_nil (vs ! j)" using no_nil_raw [OF nn] p(1,2) that(1) by (simp add: list_all_length)
      qed (rule that(1))
      from struct_back [OF TStruct rt ty p(1,2) m(1) this]
      have "unmarshal_fields fo tn t (inspectStruct t) m (zero_value t) = Some (None, v)" by simp
      moreover have x: "type_of x = TMap TString TIface" "x \<noteq> VNil" "as_any_map x = Some m" by (simp_all add: m(2)) (simp_all add: any_map_def)
      moreover have "\<not> assignable (type_of x) t" "\<not> convertible (type_of x) t"
        using x(1) TStruct by (auto simp: assignable_def convertible_def char_types_def)
      ultimately have "unmarshalValue fo tn t x (zero_value t) = Some (None, v)"
        using TStruct unmarshalValue.simps [of fo tn t x "zero_value t"] by (simp add: pointer_to_def)
      then show ?thesis using x by (simp add: comes_back_def pointer_to_def)
    qed
  next
    case (TArray n u)
    then show ?thesis using rtu by simp
  next
    case (TNamed n u)
    then show ?thesis using under_not_named by blast
  qed (rule same, subst marshalGoValue.simps, simp)+
qed

lemma all_some_total: "(\<And>z. z \<in> set xs \<Longrightarrow> f z \<noteq> None) \<Longrightarrow> all_some (map f xs) \<noteq> None"
proof (induction xs)
  case (Cons a xs)
  have "f a \<noteq> None" "all_some (map f xs) \<noteq> None" using Cons.IH Cons.prems by auto
  then show ?case by auto
qed simp

lemma fields_some:
  assumes "\<And>fi. fi \<in> set (inspectStruct t) \<Longrightarrow>
      marshalGoValue ad (type_at t (fi_Index fi)) (get_at v (fi_Index fi)) \<noteq> None"
  shows "\<exists>m. marshal_fields ad t v = Some m"
proof -
  have "all_some (map (\<lambda>fi.
        let fv = get_at v (fi_Index fi); ft = type_at t (fi_Index fi)
        in if fi_OmitEmpty fi \<and> isEmpty ft fv then Some None
           else map_option (\<lambda>x. Some (fi_ABAPName fi, x)) (marshalGoValue ad ft fv)) (inspectStruct t)) \<noteq> None"
    using assms by (intro all_some_total) (simp add: Let_def)
  then show ?thesis by (auto simp: marshal_fields_def)
qed

lemma plan_types:
  assumes "under t = TStruct fs" "rt t" "fi \<in> set (inspectStruct t)"
  shows "rt (type_at t (fi_Index fi))"
proof -
  have rtu: "list_all plain_field fs" "\<And>f. f \<in> set fs \<Longrightarrow> rt (ftype f)" using rt_under [OF assms(2)] assms(1) by simp_all
  then obtain j f where j: "fi = parseTag (fst (snd f)) (fst f) [j]" "(j, f) \<in> set (enumerate 0 fs)"
    using assms(1,3) flat_plan [of fs 0] by (auto simp: inspectStruct_def)
  then have "j < length fs" "f = fs ! j" by (auto simp: in_set_enumerate_eq)
  then show ?thesis using assms(1) rtu(2) j(1) by (simp add: parseTag_index(1) ftype_def)
qed

text \<open>Marshalling such a value never panics.\<close>

lemma marshal_total:
  "has_type v t \<Longrightarrow> rt t \<Longrightarrow> marshalGoValue ad t v \<noteq> None"
proof (induction v arbitrary: t ad rule: measure_induct_rule [where f = size])
  case (less v)
  have rtu: "rt (under t)" by (rule rt_under [OF less.prems(2)])
  show ?case
  proof (cases "under t")
    case (TPtr u)
    then obtain p where p: "raw v = VPtr u p" "\<And>w. p = Some w \<Longrightarrow> has_type w u"
      using typed_raw [OF less.prems(1)] by (auto elim: has_type.cases)
    have "p = Some w \<Longrightarrow> marshalGoValue True u w \<noteq> None" for w
      using less.IH [of w u True] raw_parts(1) [of v u w] p rtu TPtr by simp
    then show ?thesis using TPtr p by (subst marshalGoValue.simps) (auto split: option.splits)
  next
    case (TSlice u)
    from typed_raw [OF less.prems(1)] TSlice obtain vs where p: "raw v = VSlice u vs" "\<forall>w\<in>set (elements vs). has_type w u"
      by (auto elim: has_type.cases)
    have "marshalGoValue True u w \<noteq> None" if "vs = Some xs" "w \<in> set xs" "\<not> is_byte u" for xs w
      using less.IH [of w u True] raw_parts(2) [of v u xs w] p rtu TSlice that by auto
    then have "\<not> is_byte u \<Longrightarrow> vs = Some xs \<Longrightarrow> all_some (map (marshalGoValue True u) xs) \<noteq> None" for xs
      by (intro all_some_total) auto
    then show ?thesis using TSlice p by (subst marshalGoValue.simps) (auto split: option.splits)
  next
    case (TStruct fs)
    obtain vs where p: "raw v = VStruct fs vs" "length vs = length fs"
      using typed_struct [OF less.prems(1) TStruct] by metis
    have "marshalGoValue ad (type_at t (fi_Index fi)) (get_at v (fi_Index fi)) \<noteq> None" if fi: "fi \<in> set (inspectStruct t)" for fi
      by (rule less.IH [OF size_get_at_less [OF p(1) inspect_index [OF fi]] get_typed [OF less.prems(1) inspect_valid [OF fi]]
            plan_types [OF TStruct less.prems(2) fi]])
    then have "\<exists>m. marshal_fields ad t v = Some m" by (rule fields_some)
    then show ?thesis
      using marshalGoValue_struct [OF TStruct _ _ p(1)] TStruct
      by (cases "t = date_type \<or> t = time_type") (auto simp: marshalGoValue.simps)
  next
    case (TArray n u)
    then show ?thesis using rtu by simp
  qed (subst marshalGoValue.simps, simp)+
qed

lemma fields_total:
  assumes "has_type v t" "under t = TStruct fs" "rt t"
  shows "\<exists>m. marshal_fields ad t v = Some m"
proof -
  have "marshalGoValue ad (type_at t (fi_Index fi)) (get_at v (fi_Index fi)) \<noteq> None" if fi: "fi \<in> set (inspectStruct t)" for fi
    using marshal_total [OF get_typed [OF assms(1) inspect_valid [OF fi]]] plan_types [OF assms(2,3) fi] by blast
  then show ?thesis by (rule fields_some)
qed

section \<open>The round trip\<close>

lemma marshalInput_struct:
  assumes v: "has_type v t" and t: "under t = TStruct fs" and i: "inp = v \<and> ad = False \<or> inp = VPtr t (Some v) \<and> ad = True"
  shows "marshalInput tn inp = map_option Ok (marshal_fields ad t v)"
proof -
  obtain vs where r: "raw v = VStruct fs vs" using typed_struct [OF v t] by metis
  have ty: "type_of v = t" using type_of_typed [OF v] t by simp
  have "v \<noteq> VNil" using r by auto
  moreover have "t \<noteq> call_params_type" using t by (auto simp: call_params_type_def)
  moreover have "as_any_map v = None" using r by (cases v rule: as_any_map.cases) auto
  moreover have "strip_pointers b t v = Some (b, t, v)" for b using r by (subst strip_pointers.simps) simp
  moreover have "strip_pointers False (TPtr t) (VPtr t (Some v)) = strip_pointers True t v"
    by (subst strip_pointers.simps) simp
  moreover have "TPtr t \<noteq> call_params_type" by (simp add: call_params_type_def)
  ultimately show ?thesis using i ty t by (auto simp: marshalInput_def)
qed

text \<open>Round trip of a call's parameters: a struct without embedded or optional fields, arrays and
  nil slices, given by value or by pointer, is marshalled without error or panic, and unmarshalling the
  result into a zero struct of the same type gives the struct back, nested structs, slices of structs,
  pointers, bytes, dates and dynamic values included.\<close>

lemma struct_roundtrip:
  assumes "has_type v t" "under t = TStruct fs" "rt t" "no_nil v" "inp = v \<or> inp = VPtr t (Some v)"
  shows "\<exists>m. marshalInput tn inp = Some (Ok m) \<and> unmarshalOutput fo tn m (VPtr t (Some (zero_value t))) = Some (None, v)"
proof -
  obtain ad where inp: "marshalInput tn inp = map_option Ok (marshal_fields ad t v)"
    using marshalInput_struct [OF assms(1,2)] assms(5) by metis
  obtain vs where r: "raw v = VStruct fs vs" "length vs = length fs"
    "\<And>j. j < length fs \<Longrightarrow> has_type (vs ! j) (ftype (fs ! j))"
    using typed_struct [OF assms(1,2)] unfolding ftype_def by metis
  obtain m where m: "marshal_fields ad t v = Some m"
    using fields_total [OF assms(1-3)] by fast
  have "comes_back fo tn (ftype (fs ! j)) (vs ! j) x"
    if "j < length fs" "marshalGoValue ad (ftype (fs ! j)) (vs ! j) = Some x" for j x
  proof (rule marshal_back [OF r(3) [OF that(1)] _ _ that(2)])
    show "rt (ftype (fs ! j))" using rt_under [OF assms(3)] assms(2) that(1) by simp
    show "no_nil (vs ! j)" using no_nil_raw [OF assms(4)] r(1,2) that(1) by (simp add: list_all_length)
  qed
  from struct_back [OF assms(2,3,1) r(1,2) m this] top_of_fields
  have "unmarshal_top fo tn t (inspectStruct t) m (zero_value t) = Some (None, v)" by blast
  then show ?thesis using inp m assms(2) by (auto simp: unmarshalOutput_def)
qed

end
