(* ===== verification/Repository.thy ===== *)
theory Repository
  imports Conn "HOL-Library.Signed_Division"
begin

text \<open>
  The metadata cache (\<open>nwrfc/repository.go\<close>) over the connections, and the call counters
  (\<open>nwrfc/throughput.go\<close>).

  A \<open>Repository\<close> is its map from system IDs to descriptors; its mutex makes every access one step.
  The lemmas show that a cached descriptor is served without a backend call and that the views of
  different systems do not touch each other, with the exception the code makes: a view whose
  \<open>Attributes\<close> call failed is filed under the empty system ID.
\<close>

section \<open>The repository\<close>

type_synonym repository = "go_string \<Rightarrow> (go_string \<Rightarrow> func_desc option) option"

definition NewRepository :: repository where
  "NewRepository = (\<lambda>_. None)"

record repository_view =
  rv_conn :: conn
  rv_sysID :: go_string

definition Use :: "'s backend \<Rightarrow> env \<Rightarrow> conn \<Rightarrow> 's nw \<Rightarrow> repository_view \<times> 's nw" where
  "Use ops en c st =
     (case conn_Attributes ops en c st of
        (Err _, st') \<Rightarrow> (\<lparr>rv_conn = c, rv_sysID = []\<rparr>, st')
      | (Ok a, st') \<Rightarrow> (\<lparr>rv_conn = c, rv_sysID = at_SysID a\<rparr>, st'))"

definition view_lookup :: "repository_view \<Rightarrow> go_string \<Rightarrow> repository \<Rightarrow> func_desc option" where
  "view_lookup v fn r = (case r (rv_sysID v) of Some m \<Rightarrow> m fn | None \<Rightarrow> None)"

definition view_store :: "repository_view \<Rightarrow> go_string \<Rightarrow> func_desc \<Rightarrow> repository \<Rightarrow> repository" where
  "view_store v fn d r =
     r(rv_sysID v \<mapsto> (case r (rv_sysID v) of None \<Rightarrow> Map.empty | Some m \<Rightarrow> m)(fn \<mapsto> d))"

definition view_Describe :: "'s backend \<Rightarrow> env \<Rightarrow> ctx \<Rightarrow> repository_view \<Rightarrow> go_string \<Rightarrow> repository \<times> 's nw \<Rightarrow>
    (goerr, func_desc) result \<times> repository \<times> 's nw" where
  "view_Describe ops en ctx v fn rs =
     (case rs of (r, st) \<Rightarrow>
       case view_lookup v fn r of
         Some d \<Rightarrow> (Ok d, r, st)
       | None \<Rightarrow> (case conn_Describe ops en ctx (rv_conn v) fn st of
             (Err e, st') \<Rightarrow> (Err e, r, st')
           | (Ok d, st') \<Rightarrow> (Ok d, view_store v fn d r, st')))"

fun Preload :: "'s backend \<Rightarrow> env \<Rightarrow> ctx \<Rightarrow> repository_view \<Rightarrow> go_string list \<Rightarrow> repository \<times> 's nw \<Rightarrow>
    goerr option \<times> repository \<times> 's nw" where
  "Preload ops en ctx v [] rs = (None, rs)"
| "Preload ops en ctx v (fn # fns) rs =
     (case view_Describe ops en ctx v fn rs of
        (Err e, rs') \<Rightarrow> (Some e, rs')
      | (Ok _, rs') \<Rightarrow> Preload ops en ctx v fns rs')"

definition Snapshot :: "repository_view \<Rightarrow> repository \<Rightarrow> go_string \<Rightarrow> func_desc option" where
  "Snapshot v r = (case r (rv_sysID v) of None \<Rightarrow> Map.empty | Some m \<Rightarrow> m)"

definition repo_Apply :: "repository_view \<Rightarrow> (go_string \<Rightarrow> func_desc option) \<Rightarrow> repository \<Rightarrow> repository" where
  "repo_Apply v m r = r(rv_sysID v \<mapsto> m)"

definition view_Invalidate :: "'s backend \<Rightarrow> env \<Rightarrow> repository_view \<Rightarrow> go_string \<Rightarrow> repository \<times> 's nw \<Rightarrow>
    goerr option \<times> repository \<times> 's nw" where
  "view_Invalidate ops en v fn rs =
     (case rs of (r, st) \<Rightarrow>
       case InvalidateMetadata ops en fn st of
         (e, st') \<Rightarrow> (e, (case r (rv_sysID v) of None \<Rightarrow> r | Some m \<Rightarrow> r(rv_sysID v \<mapsto> m(fn := None))), st'))"

lemmas view_defs = view_lookup_def view_store_def view_Describe_def Snapshot_def repo_Apply_def view_Invalidate_def

lemma lookup_store:
  "view_lookup v g (view_store v fn d r) = (if g = fn then Some d else view_lookup v g r)"
  by (simp add: view_defs split: option.splits)

lemma lookup_other: "rv_sysID w \<noteq> rv_sysID v \<Longrightarrow> view_lookup w g (view_store v fn d r) = view_lookup w g r"
  by (simp add: view_defs)

lemma Snapshot_lookup: "Snapshot v r fn = view_lookup v fn r"
  by (simp add: view_defs split: option.splits)

lemma Apply_Snapshot: "view_lookup v fn (repo_Apply v (Snapshot w r') r) = view_lookup w fn r'"
  by (simp add: view_defs split: option.splits)

lemma Describe_caches:
  assumes "view_Describe ops en ctx v fn (r, st) = (Ok d, r', st')"
  shows "view_lookup v fn r' = Some d"
  using assms by (auto simp: view_Describe_def lookup_store split: option.splits prod.splits sum.splits)

text \<open>What has been described, or preloaded, is served from the cache: no backend call, and it works on
  a closed connection too.\<close>

lemma Describe_cached:
  assumes "view_Describe ops en ctx v fn (r, st) = (Ok d, r', st')"
  shows "view_Describe ops2 en2 ctx2 v fn (r', st2) = (Ok d, r', st2)"
  using Describe_caches [OF assms] by (simp add: view_Describe_def)

lemma Describe_keeps: "view_Describe ops en ctx v fn (r, st) = (x, r', st') \<Longrightarrow> view_lookup v g r = Some d \<Longrightarrow> view_lookup v g r' = Some d"
  by (auto simp: view_Describe_def lookup_store split: option.splits prod.splits sum.splits if_splits)

lemma Preload_keeps: "Preload ops en ctx v fns (r, st) = (x, r', st') \<Longrightarrow> view_lookup v g r = Some d \<Longrightarrow> view_lookup v g r' = Some d"
proof (induction fns arbitrary: r st)
  case (Cons fn fns)
  obtain y r1 st1 where d: "view_Describe ops en ctx v fn (r, st) = (y, r1, st1)" by (metis prod_cases3)
  then show ?case using Cons Describe_keeps [OF d Cons.prems(2)] by (cases y) simp_all
qed simp

lemma Preload_caches:
  "Preload ops en ctx v fns (r, st) = (None, r', st') \<Longrightarrow> fn \<in> set fns \<Longrightarrow> view_lookup v fn r' \<noteq> None"
proof (induction fns arbitrary: r st)
  case (Cons f fns)
  obtain y r1 st1 where d: "view_Describe ops en ctx v f (r, st) = (y, r1, st1)" by (metis prod_cases3)
  with Cons.prems(1) obtain a where a: "y = Ok a" "Preload ops en ctx v fns (r1, st1) = (None, r', st')"
    by (cases y) auto
  show ?case
  proof (cases "fn = f")
    case True
    then show ?thesis using Preload_keeps [OF a(2) Describe_caches [OF d [unfolded a(1)]]] by simp
  next
    case False
    then show ?thesis using Cons.IH [OF a(2)] Cons.prems(2) by simp
  qed
qed simp

text \<open>An invalidated descriptor is asked for again.\<close>

lemma Invalidate_forgets:
  "view_Invalidate ops en v fn (r, st) = (e, r', st') \<Longrightarrow> view_lookup v fn r' = None"
  by (auto simp: view_Invalidate_def view_lookup_def split: option.splits prod.splits)

text \<open>The metadata cache. A descriptor that \<open>Describe\<close> returned, or that \<open>Preload\<close> went
  through, is served again without touching the backend; views of other systems see none of it; and a view
  whose \<open>Attributes\<close> call fails is filed under the empty system ID whatever its system, so that two such
  views share their descriptors.\<close>

theorem repository_cache:
  assumes "view_Describe ops en ctx v fn (r, st) = (Ok d, r', st')"
    and "fst (conn_Attributes ops1 en1 c1 st1) = Err e1" "fst (conn_Attributes ops2 en2 c2 st2) = Err e2"
  shows "view_Describe ops' en' ctx' v fn (r', st'') = (Ok d, r', st'') \<and>
    (rv_sysID w \<noteq> rv_sysID v \<longrightarrow> view_lookup w g r' = view_lookup w g r) \<and>
    view_lookup (fst (Use ops2 en2 c2 st2)) fn (view_store (fst (Use ops1 en1 c1 st1)) fn d r) = Some d"
proof -
  have "view_lookup w g r' = view_lookup w g r" if "rv_sysID w \<noteq> rv_sysID v"
    using assms(1) that by (auto simp: view_Describe_def lookup_other split: option.splits prod.splits sum.splits)
  moreover have "rv_sysID (fst (Use ops1 en1 c1 st1)) = []" "rv_sysID (fst (Use ops2 en2 c2 st2)) = []"
    using assms(2,3) by (auto simp: Use_def split: prod.splits sum.splits)
  ultimately show ?thesis using Describe_cached [OF assms(1)] by (simp add: view_defs)
qed

theorem repository_cache_witness:
  "\<forall>en st st'. \<exists>(v :: repository_view) w d r. rv_sysID w \<noteq> rv_sysID v \<and>
     view_Describe (unregisteredBackend :: unit backend) en background v ''RFC_PING'' (r, st) = (Ok d, r, st) \<and>
     view_Describe (noSDK [] :: unit backend) en background v ''RFC_PING'' (r, st') = (Ok d, r, st') \<and>
     view_lookup w ''RFC_PING'' r = None" (is "\<forall>en st st'. ?P en st st'")
proof (intro allI)
  fix en st st'
  let ?c = "\<lparr>c_handle = 1, c_dest = [], c_closed = True, c_tp = None\<rparr>"
  let ?v = "\<lparr>rv_conn = ?c, rv_sysID = ''ABC''\<rparr>" and ?w = "\<lparr>rv_conn = ?c, rv_sysID = ''XYZ''\<rparr>"
  let ?d = "undefined :: func_desc" and ?b = "unregisteredBackend :: unit backend"
  let ?r = "view_store ?v ''RFC_PING'' ?d NewRepository"
  have 1: "view_Describe ?b en background ?v ''RFC_PING'' (?r, st) = (Ok ?d, ?r, st)"
    by (simp add: view_Describe_def lookup_store)
  have 2: "fst (conn_Attributes ?b en ?c st) = Err (broken ''use after Close'')" by (simp add: closed_refuses)
  show "?P en st st'"
    using repository_cache [OF 1 2 2, of "noSDK [] :: unit backend" en background st'] 1
    by (intro exI [of _ ?v] exI [of _ ?w] exI [of _ ?d] exI [of _ ?r]) (simp add: lookup_other NewRepository_def view_lookup_def view_store_def)
qed

section \<open>Throughput\<close>

text \<open>The counters are \<open>int64\<close>; the clock reading of the anchor and of \<open>Stats\<close> are arguments.\<close>

record throughput =
  tp_calls :: "64 word"
  tp_bytesSent :: "64 word"
  tp_bytesReceived :: "64 word"
  tp_applicationTime :: "64 word"
  tp_totalTime :: "64 word"
  tp_serializeTime :: "64 word"
  tp_deserializeTime :: "64 word"
  tp_createdAtNano :: "64 word"

definition NewThroughput :: "64 word \<Rightarrow> throughput" where
  "NewThroughput now =
     \<lparr>tp_calls = 0, tp_bytesSent = 0, tp_bytesReceived = 0, tp_applicationTime = 0, tp_totalTime = 0,
      tp_serializeTime = 0, tp_deserializeTime = 0, tp_createdAtNano = now\<rparr>"

definition tp_Reset :: "64 word \<Rightarrow> throughput \<Rightarrow> throughput" where
  "tp_Reset now tp =
     tp\<lparr>tp_calls := 0, tp_bytesSent := 0, tp_bytesReceived := 0, tp_applicationTime := 0, tp_totalTime := 0,
        tp_serializeTime := 0, tp_deserializeTime := 0, tp_createdAtNano := now\<rparr>"

definition microsecond :: "64 word" where
  "microsecond = 1000"

definition observe :: "64 word \<Rightarrow> 64 word \<Rightarrow> 64 word \<Rightarrow> 64 word \<Rightarrow> throughput \<Rightarrow> throughput" where
  "observe bytesSent bytesReceived app tot tp =
     tp\<lparr>tp_calls := tp_calls tp + 1,
        tp_bytesSent := tp_bytesSent tp + bytesSent,
        tp_bytesReceived := tp_bytesReceived tp + bytesReceived,
        tp_applicationTime := tp_applicationTime tp + word_of_int (sint app sdiv sint microsecond),
        tp_totalTime := tp_totalTime tp + word_of_int (sint tot sdiv sint microsecond)\<rparr>"

text \<open>\<open>Stats\<close>: calls, bytes sent and received, four times in nanoseconds, wall time.\<close>

record throughput_stats =
  ts_Calls :: "64 word"
  ts_BytesSent :: "64 word"
  ts_BytesReceived :: "64 word"
  ts_ApplicationTime :: "64 word"
  ts_TotalTime :: "64 word"
  ts_SerializeTime :: "64 word"
  ts_DeserializeTime :: "64 word"
  ts_WallTime :: "64 word"

definition tp_Stats :: "64 word \<Rightarrow> throughput \<Rightarrow> throughput_stats" where
  "tp_Stats now tp =
     \<lparr>ts_Calls = tp_calls tp, ts_BytesSent = tp_bytesSent tp, ts_BytesReceived = tp_bytesReceived tp,
      ts_ApplicationTime = tp_applicationTime tp * microsecond, ts_TotalTime = tp_totalTime tp * microsecond,
      ts_SerializeTime = tp_serializeTime tp * microsecond, ts_DeserializeTime = tp_deserializeTime tp * microsecond,
      ts_WallTime = now - tp_createdAtNano tp\<rparr>"

definition Attach :: "nat \<Rightarrow> conn option \<Rightarrow> (goerr, conn) result" where
  "Attach tp c = (case c of None \<Rightarrow> Err (BrokenConnErr ''nil Conn'' (Some ErrConnClosed)) | Some k \<Rightarrow> Ok (k\<lparr>c_tp := Some tp\<rparr>))"

text \<open>The counters do not depend on the order of the observations, so the atomic additions of
  concurrent calls cannot lose one.\<close>

lemma observe_commute: "observe a b c d (observe a' b' c' d' tp) = observe a' b' c' d' (observe a b c d tp)"
  by (simp add: observe_def algebra_simps)

lemma observe_calls: "tp_calls (((observe 0 0 0 0) ^^ n) tp) = tp_calls tp + of_nat n"
  by (induction n) (simp_all add: observe_def)

lemma Reset_is_new: "tp_Reset now tp = NewThroughput now"
  by (cases tp) (simp add: tp_Reset_def NewThroughput_def)

end
