(* ===== verification/Call.thy ===== *)
theory Call
  imports Marshal_Roundtrip Repository
begin

text \<open>
  \<open>Call\<close> and \<open>CallMap\<close> of \<open>nwrfc/call.go\<close>: marshal, invoke under the connection's mutex,
  count, unmarshal. The state is the backend side of \<open>Conn\<close> with the throughput collectors; a nil
  \<open>out\<close> is \<open>VNil\<close>. A panic before the lock leaves the state alone, one after it comes with the
  state reached (the mutex is released by \<open>defer\<close>).
\<close>

record call_options =
  co_NotRequested :: "go_string list"
  co_ReturnImportParams :: bool
  co_RStrip :: "bool option"
  co_AllowZeroDate :: bool
  co_AllowZeroTime :: bool
  co_CheckDate :: bool
  co_CheckTime :: bool

definition no_call_options :: call_options where
  "no_call_options = \<lparr>co_NotRequested = [], co_ReturnImportParams = False, co_RStrip = None,
     co_AllowZeroDate = False, co_AllowZeroTime = False, co_CheckDate = False, co_CheckTime = False\<rparr>"

definition toBackend :: "call_options \<Rightarrow> invoke_options" where
  "toBackend co =
     \<lparr>NotRequested = co_NotRequested co, ReturnImportParams = co_ReturnImportParams co, RStripOpt = co_RStrip co,
      AllowZeroDate = co_AllowZeroDate co, AllowZeroTime = co_AllowZeroTime co,
      CheckDate = co_CheckDate co, CheckTime = co_CheckTime co, DirectionFilter = 0\<rparr>"

definition first_option :: "call_options list \<Rightarrow> call_options" where
  "first_option opts = (case opts of [] \<Rightarrow> no_call_options | co # _ \<Rightarrow> co)"

text \<open>The parameters that do not change from call to call: the backend and its error texts, the float
  conversions and the type names.\<close>

record 's rt_env =
  re_ops :: "'s backend"
  re_env :: env
  re_fo :: float_ops
  re_tn :: "gtype \<Rightarrow> go_string"

datatype call_result = CallPanic | CallRet "call_params option" "goerr option" gval

type_synonym 's call_state = "'s nw \<times> (nat \<Rightarrow> throughput)"

fun put_out :: "gval \<Rightarrow> gval \<Rightarrow> gval" where
  "put_out (VNamed n v) d = VNamed n (put_out v d)"
| "put_out (VPtr u (Some _)) d = VPtr u (Some d)"
| "put_out v d = v"

definition count_call :: "conn \<Rightarrow> (nat \<Rightarrow> throughput) \<Rightarrow> nat \<Rightarrow> throughput" where
  "count_call c tps = (case c_tp c of None \<Rightarrow> tps | Some t \<Rightarrow> tps(t := observe 0 0 0 0 (tps t)))"

definition Call :: "'s rt_env \<Rightarrow> ctx \<Rightarrow> conn option \<Rightarrow> go_string \<Rightarrow> gval \<Rightarrow> gval \<Rightarrow> call_options list \<Rightarrow>
    's call_state \<Rightarrow> call_result \<times> 's call_state" where
  "Call re ctx c0 fn inp out opts st =
     (case c0 of
        None \<Rightarrow> (CallRet None (Some (BrokenConnErr ''nil Conn'' (Some ErrConnClosed))) out, st)
      | Some c \<Rightarrow>
          if \<not> Alive c then (CallRet None (Some (BrokenConnErr ''closed Conn'' (Some ErrConnClosed))) out, st)
          else (case marshalInput (re_tn re) inp of
              None \<Rightarrow> (CallPanic, st)
            | Some (Err e) \<Rightarrow> (CallRet None (Some e) out, st)
            | Some (Ok m) \<Rightarrow>
                (case with_bs (bk_invoke (re_ops re) ctx (c_handle c) fn m (toBackend (first_option opts))) (fst st) of
                   (Inl e, nw') \<Rightarrow> (CallRet None (Some (mapE (re_env re) e)) out, (nw', snd st))
                 | (Inr resp, nw') \<Rightarrow>
                     (let st' = (nw', count_call c (snd st))
                      in if out = VNil then (CallRet (Some resp) None out, st')
                         else case unmarshalOutput (re_fo re) (re_tn re) resp out of
                             None \<Rightarrow> (CallPanic, st')
                           | Some (e, d) \<Rightarrow> (CallRet (Some resp) e (put_out out d), st')))))"

definition CallMap :: "'s rt_env \<Rightarrow> ctx \<Rightarrow> conn option \<Rightarrow> go_string \<Rightarrow> call_params \<Rightarrow> call_options list \<Rightarrow>
    's call_state \<Rightarrow> call_result \<times> 's call_state" where
  "CallMap re ctx c fn m opts = Call re ctx c fn (VNamed ''backend.CallParams'' (any_map m)) VNil opts"

lemma CallMap_input: "marshalInput tn (VNamed ''backend.CallParams'' (any_map m)) = Some (Ok m)"
  by (simp add: marshalInput_def call_params_type_def any_map_def string_entries_def o_def case_prod_beta)

text \<open>\<open>CallMap\<close> hands the map to the backend as it is and returns the backend's answer, the error mapped.\<close>

lemma CallMap_invokes:
  assumes "Alive c"
  shows "CallMap re ctx (Some c) fn m opts st =
    (case bk_invoke (re_ops re) ctx (c_handle c) fn m (toBackend (first_option opts)) (nw_bs (fst st)) of
       (Inl e, s) \<Rightarrow> (CallRet None (Some (mapE (re_env re) e)) VNil, ((fst st)\<lparr>nw_bs := s\<rparr>, snd st))
     | (Inr resp, s) \<Rightarrow> (CallRet (Some resp) None VNil, ((fst st)\<lparr>nw_bs := s\<rparr>, count_call c (snd st))))"
  using assms by (simp add: CallMap_def Call_def CallMap_input with_bs_def split: prod.splits sum.splits)

text \<open>What fails before the invocation leaves the state alone.\<close>

lemma Call_refused:
  "\<not> Alive c \<Longrightarrow> Call re ctx (Some c) fn inp out opts st =
     (CallRet None (Some (BrokenConnErr ''closed Conn'' (Some ErrConnClosed))) out, st)"
  "Alive c \<Longrightarrow> marshalInput (re_tn re) inp = Some (Err e) \<Longrightarrow>
     Call re ctx (Some c) fn inp out opts st = (CallRet None (Some e) out, st)"
  by (simp_all add: Call_def)

text \<open>C22: End to end: a call of a function that answers with its own parameters, made with a plain struct
  by value or by pointer and an output of the same type, neither fails nor panics, leaves a copy of the input in
  the output, and counts as exactly one call on the collector attached to the connection.\<close>

theorem Call_roundtrip:
  assumes "Alive c" "\<And>m s. bk_invoke (re_ops re) ctx (c_handle c) fn m (toBackend (first_option opts)) s = (Ok m, s)"
    and "has_type v t" "under t = TStruct fs" "rt t" "no_nil v" "inp = v \<or> inp = VPtr t (Some v)"
  shows "\<exists>m. Call re ctx (Some c) fn inp (VPtr t (Some (zero_value t))) opts st =
      (CallRet (Some m) None (VPtr t (Some v)), (fst st, count_call c (snd st)))"
proof -
  obtain m where m: "marshalInput (re_tn re) inp = Some (Ok m)"
    "unmarshalOutput (re_fo re) (re_tn re) m (VPtr t (Some (zero_value t))) = Some (None, v)"
    using struct_roundtrip [OF assms(3-7)] by blast
  then show ?thesis using assms(1,2) by (auto simp: Call_def with_bs_def)
qed

theorem Call_roundtrip_witness:
  "\<exists>t v m tps. v \<noteq> zero_value t \<and>
     Call \<lparr>re_ops = (unregisteredBackend :: unit backend)\<lparr>bk_invoke := (\<lambda>_ _ _ m _ s. (Ok m, s))\<rparr>,
         re_env = undefined, re_fo = undefined, re_tn = (\<lambda>_. [])\<rparr> background
       (Some \<lparr>c_handle = 1, c_dest = [], c_closed = False, c_tp = Some 0\<rparr>) ''ECHO'' v (VPtr t (Some (zero_value t))) []
       (undefined, \<lambda>_. NewThroughput 0) = (CallRet (Some m) None (VPtr t (Some v)), (undefined, tps)) \<and>
     tp_calls (tps 0) = 1 \<and> tp_calls (tps 1) = 0"
proof -
  let ?row = "[(''Id'', ''ID'', True, False, TInt KInt32)] :: gfields"
  let ?fs = "[(''Text'', ''REQUTEXT'', True, False, TString), (''Rows'', ''ROWS'', True, False, TSlice (TStruct ?row)),
      (''Ref'', ''REF'', True, False, TPtr TBool)] :: gfields"
  let ?v = "VStruct ?fs [VString ''ping'', VSlice (TStruct ?row) (Some [VStruct ?row [VInt KInt32 7]]), VPtr TBool (Some (VBool True))]"
  let ?c = "\<lparr>c_handle = 1, c_dest = [], c_closed = False, c_tp = Some 0\<rparr>"
  let ?re = "\<lparr>re_ops = (unregisteredBackend :: unit backend)\<lparr>bk_invoke := (\<lambda>_ _ _ m _ s. (Ok m, s))\<rparr>,
         re_env = undefined, re_fo = undefined, re_tn = (\<lambda>_. [])\<rparr>"
  have ty: "has_type ?v (TStruct ?fs)"
    by (simp add: has_type.struct has_type.str has_type.slice has_type.int has_type.ptr has_type.bool in_kind_def signed_kind_def)
  have "rt (TStruct ?fs)"
    by (simp add: abap_name_def plain_field_def ftype_def parseTag_def Let_def is_byte_def pointer_to_def)
  then obtain m where "Call ?re background (Some ?c) ''ECHO'' ?v (VPtr (TStruct ?fs) (Some (zero_value (TStruct ?fs)))) []
      (undefined, \<lambda>_. NewThroughput 0) =
      (CallRet (Some m) None (VPtr (TStruct ?fs) (Some ?v)), (undefined, count_call ?c (\<lambda>_. NewThroughput 0)))"
    using Call_roundtrip [of ?c ?re background "''ECHO''" "[]" ?v "TStruct ?fs" ?fs ?v "(undefined, \<lambda>_. NewThroughput 0)"] ty
    by (auto simp: Alive_def)
  moreover have "?v \<noteq> zero_value (TStruct ?fs)" by simp
  moreover have "tp_calls (count_call ?c (\<lambda>_. NewThroughput 0) 0) = 1" "tp_calls (count_call ?c (\<lambda>_. NewThroughput 0) 1) = 0"
    by (simp_all add: count_call_def observe_def NewThroughput_def)
  ultimately show ?thesis by blast
qed

end
