(* ===== verification/Session.thy ===== *)
theory Session
  imports Call
begin

text \<open>
  Sessions, \<open>nwrfc/session.go\<close>: a logical unit of work on one connection, ended by the BAPI that commits
  it or rolls it back.

  The session keeps its two flags; the connection it is bound to is passed to each operation as it is at that
  moment. \<open>claimClose\<close> and \<open>finishClose\<close> are the two parts of \<open>close\<close> between which another
  goroutine can run; \<open>session_close\<close> is their composition without interference. The specification
  is the two-state machine \<open>luw_step\<close>, which every sequence of operations refines.
\<close>

record session =
  ss_closing :: bool
  ss_closed :: bool

definition session_gone :: goerr where
  "session_gone = BrokenConnErr ''session closed'' (Some ErrConnClosed)"

definition NewSession :: "conn option \<Rightarrow> (goerr, session) result" where
  "NewSession c =
     (case c of
        None \<Rightarrow> Err (BrokenConnErr ''nil or closed Conn'' (Some ErrConnClosed))
      | Some k \<Rightarrow>
          if \<not> Alive k then Err (BrokenConnErr ''nil or closed Conn'' (Some ErrConnClosed))
          else Ok \<lparr>ss_closing = False, ss_closed = False\<rparr>)"

definition session_Call :: "'s rt_env \<Rightarrow> ctx \<Rightarrow> conn \<Rightarrow> session \<Rightarrow> go_string \<Rightarrow> gval \<Rightarrow> gval \<Rightarrow> call_options list \<Rightarrow>
    's call_state \<Rightarrow> call_result \<times> 's call_state" where
  "session_Call re ctx c s fn inp out opts st =
     (if ss_closed s then (CallRet None (Some session_gone) out, st)
      else Call re ctx (Some c) fn inp out opts st)"

section \<open>The end of a session\<close>

text \<open>Claimed or not, with the new flags; a session always has a connection.\<close>

definition claimClose :: "session \<Rightarrow> bool \<times> session" where
  "claimClose s =
     (if ss_closed s then (False, s)
      else if ss_closing s then (False, s)
      else (True, s\<lparr>ss_closing := True\<rparr>))"

definition bapiReturnAsError :: "call_params \<Rightarrow> goerr option" where
  "bapiReturnAsError resp =
     (case map_of resp ''RETURN'' of
        None \<Rightarrow> None
      | Some r \<Rightarrow> (case as_any_map r of
            None \<Rightarrow> None
          | Some m \<Rightarrow>
              let typ = string_at m ''TYPE''
              in if typ \<noteq> ''A'' \<and> typ \<noteq> ''E'' then None
                 else Some (ABAPApplicationErr
                   \<lparr>Code = 0, Group = 0, Key = ''BAPI_RETURN'', Message = string_at m ''MESSAGE'',
                    AbapMsgClass = string_at m ''ID'', AbapMsgType = typ, AbapMsgNumber = string_at m ''NUMBER'',
                    AbapMsgV1 = [], AbapMsgV2 = [], AbapMsgV3 = [], AbapMsgV4 = []\<rparr> [])))"

definition finishClose :: "'s rt_env \<Rightarrow> ctx \<Rightarrow> conn \<Rightarrow> go_string \<Rightarrow> call_params \<Rightarrow> bool \<Rightarrow> session \<Rightarrow> 's nw \<Rightarrow>
    goerr option \<times> session \<times> 's nw" where
  "finishClose re ctx c fn inp resetOnInvokeErr s0 st =
     (let s = s0\<lparr>ss_closing := False\<rparr>; done = s\<lparr>ss_closed := True\<rparr>;
          ops = re_ops re; reset = with_bs (bk_reset ops ctx (c_handle c))
      in if ss_closed s0 then (None, s, st)
         else case checkOpen c of
           Some e \<Rightarrow> (Some e, s, st)
         | None \<Rightarrow>
             (case with_bs (bk_invoke ops ctx (c_handle c) fn inp (toBackend no_call_options)) st of
                (Inl e, st1) \<Rightarrow>
                  if resetOnInvokeErr
                  then (case reset st1 of
                      (Some re, st2) \<Rightarrow> (Some (JoinErr [e, re]), s, st2)
                    | (None, st2) \<Rightarrow> (Some e, done, st2))
                  else (Some e, s, st1)
              | (Inr resp, st1) \<Rightarrow>
                  (case reset st1 of
                     (rerr, st2) \<Rightarrow>
                       (case bapiReturnAsError resp of
                          Some r \<Rightarrow> (Some r, done, st2)
                        | None \<Rightarrow> (map_option (\<lambda>r. JoinErr [r]) rerr, done, st2)))))"

definition session_close :: "'s rt_env \<Rightarrow> ctx \<Rightarrow> conn \<Rightarrow> go_string \<Rightarrow> call_params \<Rightarrow> bool \<Rightarrow> session \<Rightarrow> 's nw \<Rightarrow>
    goerr option \<times> session \<times> 's nw" where
  "session_close re ctx c fn inp r s st =
     (case claimClose s of
        (False, s') \<Rightarrow> (None, s', st)
      | (True, s') \<Rightarrow> finishClose re ctx c fn inp r s' st)"

definition Commit :: "'s rt_env \<Rightarrow> ctx \<Rightarrow> conn \<Rightarrow> bool \<Rightarrow> session \<Rightarrow> 's nw \<Rightarrow> goerr option \<times> session \<times> 's nw" where
  "Commit re ctx c withWait s st =
     session_close re ctx c ''BAPI_TRANSACTION_COMMIT''
       (if withWait then map_set ''WAIT'' (VString ''X'') [] else []) False s st"

definition Rollback :: "'s rt_env \<Rightarrow> ctx \<Rightarrow> conn \<Rightarrow> session \<Rightarrow> 's nw \<Rightarrow> goerr option \<times> session \<times> 's nw" where
  "Rollback re ctx c s st = session_close re ctx c ''BAPI_TRANSACTION_ROLLBACK'' [] True s st"

section \<open>What an end means\<close>

lemma close_ended: "ss_closed s \<Longrightarrow> session_close re ctx c fn i r s st = (None, s, st)"
  by (simp add: session_close_def claimClose_def)

text \<open>Without interference, nil from \<open>Commit\<close> or \<open>Rollback\<close> on an open session means that the
  BAPI ran, its RETURN reported no error, and the context was reset.\<close>

lemma close_nil:
  assumes "\<not> ss_closed s" "\<not> ss_closing s" "session_close re ctx c fn i r s st = (None, s', st')"
  shows "ss_closed s' \<and> \<not> ss_closing s' \<and> \<not> c_closed c \<and>
    (\<exists>resp b. bk_invoke (re_ops re) ctx (c_handle c) fn i (toBackend no_call_options) (nw_bs st) = (Ok resp, b) \<and>
       bapiReturnAsError resp = None \<and> bk_reset (re_ops re) ctx (c_handle c) b = (None, nw_bs st'))"
  using assms
  by (auto simp: session_close_def claimClose_def finishClose_def with_bs_def checkOpen_def Let_def
      split: prod.splits sum.splits option.splits if_splits)

lemma close_flags:
  assumes "\<not> ss_closing s" "session_close re ctx c fn i r s st = (e, s', st')"
  shows "\<not> ss_closing s' \<and> (ss_closed s \<longrightarrow> ss_closed s')"
  using assms
  by (auto simp: session_close_def claimClose_def finishClose_def Let_def
      split: prod.splits sum.splits option.splits if_splits)

text \<open>A failed invocation leaves a \<open>Commit\<close> to be tried again; a \<open>Rollback\<close> is over when the
  reset worked.\<close>

lemma Commit_failed:
  assumes "\<not> ss_closed s" "\<not> ss_closing s" "\<not> c_closed c"
    and "bk_invoke (re_ops re) ctx (c_handle c) ''BAPI_TRANSACTION_COMMIT''
      (if w then map_set ''WAIT'' (VString ''X'') [] else []) (toBackend no_call_options) (nw_bs st) = (Err e, b)"
  shows "Commit re ctx c w s st = (Some e, s, st\<lparr>nw_bs := b\<rparr>)"
  using assms
  by (simp add: Commit_def session_close_def claimClose_def finishClose_def with_bs_def checkOpen_def Let_def)

text \<open>With interference: a second \<open>Commit\<close> returns nil at once while the first one is still running,
  and the first one then fails, so the second caller has been told of a commit that never took place.\<close>

lemma second_commit_lies:
  assumes "\<not> ss_closed s" "\<not> ss_closing s" "c_closed c"
  shows "\<exists>s1. claimClose s = (True, s1) \<and> Commit re ctx c w s1 st = (None, s1, st) \<and>
    (\<exists>e s2. finishClose re ctx c ''BAPI_TRANSACTION_COMMIT'' i False s1 st = (Some e, s2, st) \<and> \<not> ss_closed s2)"
  using assms
  by (simp add: claimClose_def Commit_def session_close_def finishClose_def checkOpen_def Let_def)

text \<open>A failing reset is reported only when RETURN has no error of its own, and the errors of the backend are
  returned as they come.\<close>

lemma reset_error_dropped:
  assumes "\<not> ss_closed s" "\<not> ss_closing s" "\<not> c_closed c"
    and "bk_invoke (re_ops re) ctx (c_handle c) ''BAPI_TRANSACTION_ROLLBACK'' [] (toBackend no_call_options) (nw_bs st) = (Ok resp, b)"
    and "bapiReturnAsError resp = Some e" "bk_reset (re_ops re) ctx (c_handle c) b = (Some x, b')"
  shows "Rollback re ctx c s st = (Some e, s\<lparr>ss_closed := True\<rparr>, st\<lparr>nw_bs := b'\<rparr>)"
  using assms
  by (simp add: Rollback_def session_close_def claimClose_def finishClose_def with_bs_def checkOpen_def Let_def)

section \<open>The specification and its refinement\<close>

text \<open>A logical unit of work is active until it ends. An operation succeeds or not and may leave the
  connection's state as it was.\<close>

datatype luw = Active | Ended
datatype luw_op = LCall | LCommit | LRollback

inductive luw_step :: "luw \<Rightarrow> luw_op \<Rightarrow> bool \<Rightarrow> bool \<Rightarrow> luw \<Rightarrow> bool" where
  call: "luw_step Active LCall success same Active"
| call_ended: "luw_step Ended LCall False True Ended"
| success: "k \<noteq> LCall \<Longrightarrow> luw_step Active k True same Ended"
| failure: "k \<noteq> LCall \<Longrightarrow> luw_step Active k False same a"
| again: "k \<noteq> LCall \<Longrightarrow> luw_step Ended k True True Ended"

inductive_cases luw_step_Ended: "luw_step Ended k success same a"

datatype session_op =
    OpCall ctx go_string gval gval "call_options list"
  | OpCommit ctx bool
  | OpRollback ctx

fun luw_op_of :: "session_op \<Rightarrow> luw_op" where
  "luw_op_of (OpCall _ _ _ _ _) = LCall"
| "luw_op_of (OpCommit _ _) = LCommit"
| "luw_op_of (OpRollback _) = LRollback"

definition luw_of :: "session \<Rightarrow> luw" where
  "luw_of s = (if ss_closed s then Ended else Active)"

text \<open>One operation on the connection \<open>c\<close> as it is then: whether it succeeded, the flags, the state.\<close>

fun session_run :: "'s rt_env \<Rightarrow> conn \<times> session_op \<Rightarrow> session \<times> 's call_state \<Rightarrow> bool \<times> session \<times> 's call_state" where
  "session_run re (c, OpCall ctx fn i o' opts) (s, st) =
     (case session_Call re ctx c s fn i o' opts st of (r, st') \<Rightarrow>
        ((case r of CallRet _ None _ \<Rightarrow> True | _ \<Rightarrow> False), s, st'))"
| "session_run re (c, OpCommit ctx w) (s, st) =
     (case Commit re ctx c w s (fst st) of (e, s', nw) \<Rightarrow> (e = None, s', (nw, snd st)))"
| "session_run re (c, OpRollback ctx) (s, st) =
     (case Rollback re ctx c s (fst st) of (e, s', nw) \<Rightarrow> (e = None, s', (nw, snd st)))"

fun session_runs :: "'s rt_env \<Rightarrow> (conn \<times> session_op) list \<Rightarrow> session \<times> 's call_state \<Rightarrow>
    (luw_op \<times> bool \<times> bool) list \<times> session \<times> 's call_state" where
  "session_runs re [] x = ([], x)"
| "session_runs re (e # es) x =
     (case session_run re e x of (ok, y) \<Rightarrow>
        (case session_runs re es y of (tr, z) \<Rightarrow> ((luw_op_of (snd e), ok, snd y = snd x) # tr, z)))"

inductive luw_trace :: "luw \<Rightarrow> (luw_op \<times> bool \<times> bool) list \<Rightarrow> luw \<Rightarrow> bool" where
  "luw_trace a [] a"
| "luw_step a k success same b \<Longrightarrow> luw_trace b tr c \<Longrightarrow> luw_trace a ((k, success, same) # tr) c"

lemma close_step:
  assumes "\<not> ss_closing s" "session_close re ctx c fn i r s nw = (e, s', nw')" "k \<noteq> LCall"
  shows "luw_step (luw_of s) k (e = None) (nw' = nw) (luw_of s')"
proof (cases "ss_closed s")
  case True
  then show ?thesis
    using close_ended [OF True, of re ctx c fn i r nw] assms(2) luw_step.again [OF assms(3)] by (auto simp: luw_of_def)
next
  case False
  have "luw_of s' = Ended" if "e = None"
    using close_nil [OF False assms(1) assms(2) [unfolded that]] by (simp add: luw_of_def)
  then show ?thesis
    using False luw_step.success [OF assms(3)] luw_step.failure [OF assms(3)] by (cases e) (simp_all add: luw_of_def [of s])
qed

lemma run_step:
  assumes "\<not> ss_closing s" "session_run re (c, k) (s, st) = (ok, s', st')"
  shows "luw_step (luw_of s) (luw_op_of k) ok (st' = st) (luw_of s') \<and> \<not> ss_closing s'"
proof (cases k)
  case (OpCall ctx fn i out opts)
  then show ?thesis
    using assms luw_step.call luw_step.call_ended
    by (cases "ss_closed s") (auto simp: session_Call_def luw_of_def split: prod.splits)
next
  case (OpCommit ctx w)
  obtain e nw where "Commit re ctx c w s (fst st) = (e, s', nw)" "ok = (e = None)" "st' = (nw, snd st)"
    using assms(2) OpCommit by (auto split: prod.splits)
  then show ?thesis
    using close_step [OF assms(1), where k = LCommit] close_flags [OF assms(1)] OpCommit
    unfolding Commit_def by (cases st) fastforce
next
  case (OpRollback ctx)
  obtain e nw where "Rollback re ctx c s (fst st) = (e, s', nw)" "ok = (e = None)" "st' = (nw, snd st)"
    using assms(2) OpRollback by (auto split: prod.splits)
  then show ?thesis
    using close_step [OF assms(1), where k = LRollback] close_flags [OF assms(1)] OpRollback
    unfolding Rollback_def by (cases st) fastforce
qed

text \<open>C23: A session implements a logical unit of work: every sequence of calls, commits and rollbacks, over
  any backend and with the connection closed at any point by others, is a run of the two-state
  specification. In particular a \<open>Commit\<close> or \<open>Rollback\<close> that returns nil ends the unit, and
  once ended every further call fails and every further end returns nil without touching the connection.\<close>

theorem session_refines_luw:
  assumes "session_runs re es (s, st) = (tr, s', st')" "\<not> ss_closing s"
  shows "luw_trace (luw_of s) tr (luw_of s')"
  using assms
proof (induction es arbitrary: s st tr)
  case Nil
  then show ?case by (auto intro: luw_trace.intros)
next
  case (Cons e es)
  obtain c k where e: "e = (c, k)" by (cases e)
  obtain ok s1 st1 where r: "session_run re e (s, st) = (ok, s1, st1)" by (metis prod_cases3)
  obtain tr' where t: "session_runs re es (s1, st1) = (tr', s', st')" "tr = (luw_op_of k, ok, st1 = st) # tr'"
    using Cons.prems(1) r e by (auto split: prod.splits)
  have "luw_step (luw_of s) (luw_op_of k) ok (st1 = st) (luw_of s1) \<and> \<not> ss_closing s1"
    using run_step [OF Cons.prems(2)] r e by blast
  then show ?case using Cons.IH [OF t(1)] t(2) by (auto intro: luw_trace.intros)
qed

theorem session_refines_luw_witness:
  "\<exists>tr st. session_runs \<lparr>re_ops = (unregisteredBackend :: unit backend)\<lparr>bk_invoke := (\<lambda>_ _ _ m _ s. (Ok m, s)), bk_reset := (\<lambda>_ _ s. (None, s))\<rparr>,
         re_env = undefined, re_fo = undefined, re_tn = (\<lambda>_. [])\<rparr>
       (map (Pair \<lparr>c_handle = 1, c_dest = [], c_closed = False, c_tp = None\<rparr>) [OpCommit background True, OpCommit background False])
       (\<lparr>ss_closing = False, ss_closed = False\<rparr>, undefined) = (tr, \<lparr>ss_closing = False, ss_closed = True\<rparr>, st) \<and>
     map (fst \<circ> snd) tr = [True, True] \<and> luw_trace Active tr Ended"
proof -
  let ?re = "\<lparr>re_ops = (unregisteredBackend :: unit backend)\<lparr>bk_invoke := (\<lambda>_ _ _ m _ s. (Ok m, s)), bk_reset := (\<lambda>_ _ s. (None, s))\<rparr>,
         re_env = undefined, re_fo = undefined, re_tn = (\<lambda>_. [])\<rparr>"
  let ?es = "map (Pair \<lparr>c_handle = 1, c_dest = [], c_closed = False, c_tp = None\<rparr>) [OpCommit background True, OpCommit background False]"
  let ?s = "\<lparr>ss_closing = False, ss_closed = False\<rparr>"
  obtain tr s' st where r: "session_runs ?re ?es (?s, undefined) = (tr, s', st)" by (metis prod_cases3)
  have "s' = \<lparr>ss_closing = False, ss_closed = True\<rparr> \<and> map (fst \<circ> snd) tr = [True, True]"
    using r by (auto simp: Commit_def session_close_def claimClose_def finishClose_def with_bs_def checkOpen_def bapiReturnAsError_def Let_def
        split: prod.splits)
  with r session_refines_luw [OF r] show ?thesis by (auto simp: luw_of_def)
qed

end
