(* ===== verification/Mock_Backend.thy ===== *)
theory Mock_Backend
  imports Backend_Iface
begin

text \<open>
  The test backend \<open>nwrfcmock/mock.go\<close>. A handler is a function of the arguments and of a state
  \<open>'u\<close> of the test's own, so stateful handlers are covered; a lazy table is the \<open>rowStream\<close>
  that \<open>TableRows\<close> builds. Each operation is one atomic step (the map \<open>conns\<close> is a
  \<open>sync.Map\<close>, the counters are atomics). The mock satisfies \<open>backend_contract\<close>.
\<close>

record row_stream =
  rs_n :: int
  rs_i :: int
  rs_row :: "int \<Rightarrow> call_params"
  rs_closed :: bool

definition TableRows :: "int \<Rightarrow> (int \<Rightarrow> call_params) \<Rightarrow> row_stream" where
  "TableRows n row = \<lparr>rs_n = n, rs_i = 0, rs_row = row, rs_closed = False\<rparr>"

definition ErrClosedPipe :: goerr where
  "ErrClosedPipe = PlainErr ''io: read/write on closed pipe''"

definition rowStream_Next :: "ctx \<Rightarrow> (row_stream, call_params) op" where
  "rowStream_Next c s =
     (case ctx_err c of Some e \<Rightarrow> (Err e, s)
      | None \<Rightarrow>
          if rs_closed s then (Err ErrClosedPipe, s)
          else if rs_i s \<ge> rs_n s then (Err ErrEOF, s)
          else (Ok (rs_row s (rs_i s)), s\<lparr>rs_i := rs_i s + 1\<rparr>))"

definition rowStream_Close :: "row_stream op0" where
  "rowStream_Close s = (None, s\<lparr>rs_closed := True\<rparr>)"

type_synonym 'u handler = "ctx \<Rightarrow> call_params \<Rightarrow> ('u, call_params) op"
type_synonym 'u stream_handler = "ctx \<Rightarrow> call_params \<Rightarrow> ('u, row_stream) op"

text \<open>\<open>mk_objs\<close> are the streams handed out, numbered.\<close>

record 'u mock =
  mk_handlers :: "go_string \<Rightarrow> 'u handler option"
  mk_streams :: "go_string \<Rightarrow> go_string \<Rightarrow> 'u stream_handler option"
  mk_descriptors :: "go_string \<Rightarrow> func_desc option"
  mk_callCount :: "64 word"
  mk_openCount :: "64 word"
  mk_closeCount :: "64 word"
  mk_nextHandle :: "64 word"
  mk_conns :: "handle \<Rightarrow> bool"
  mk_version :: version
  mk_capabilities :: capabilities
  mk_user :: 'u
  mk_objs :: "nat \<Rightarrow> row_stream option"
  mk_nobjs :: nat

definition mock_New :: "'u \<Rightarrow> 'u mock" where
  "mock_New u =
     \<lparr>mk_handlers = (\<lambda>_. None), mk_streams = (\<lambda>_ _. None), mk_descriptors = (\<lambda>_. None),
      mk_callCount = 0, mk_openCount = 0, mk_closeCount = 0, mk_nextHandle = 0, mk_conns = (\<lambda>_. False),
      mk_version = \<lparr>Major = 7, Minor = 50, PatchLevel = 18\<rparr>,
      mk_capabilities = \<lparr>WebSocketRFC = True, Throughput = True, BgRFC = True, UTCLongCap = True,
        FastSerialization = True\<rparr>,
      mk_user = u, mk_objs = (\<lambda>_. None), mk_nobjs = 0\<rparr>"

definition HandleFunc :: "go_string \<Rightarrow> 'u handler \<Rightarrow> 'u mock \<Rightarrow> 'u mock" where
  "HandleFunc fn h m = m\<lparr>mk_handlers := (mk_handlers m)(fn \<mapsto> h)\<rparr>"

definition HandleTableStreamFunc :: "go_string \<Rightarrow> go_string \<Rightarrow> 'u stream_handler \<Rightarrow> 'u mock \<Rightarrow> 'u mock" where
  "HandleTableStreamFunc fn table h m =
     m\<lparr>mk_streams := (mk_streams m)(fn := (mk_streams m fn)(table \<mapsto> h))\<rparr>"

definition SetDescriptor :: "go_string \<Rightarrow> func_desc \<Rightarrow> 'u mock \<Rightarrow> 'u mock" where
  "SetDescriptor fn d m = m\<lparr>mk_descriptors := (mk_descriptors m)(fn \<mapsto> d)\<rparr>"

definition mock_err :: "go_string \<Rightarrow> handle \<Rightarrow> goerr" where
  "mock_err op h = PlainErr (''nwrfcmock: '' @ op @ '' on unknown handle '' @ show_nat (unat h))"

definition mock_Open :: "ctx \<Rightarrow> bparams \<Rightarrow> ('u mock, handle) op" where
  "mock_Open c p m =
     (let h = mk_nextHandle m + 1
      in (Ok h, m\<lparr>mk_openCount := mk_openCount m + 1, mk_nextHandle := h, mk_conns := (mk_conns m)(h := True)\<rparr>))"

definition mock_Close :: "handle \<Rightarrow> 'u mock op0" where
  "mock_Close h m = (None, m\<lparr>mk_closeCount := mk_closeCount m + 1, mk_conns := (mk_conns m)(h := False)\<rparr>)"

definition mock_Ping :: "ctx \<Rightarrow> handle \<Rightarrow> 'u mock op0" where
  "mock_Ping c h m = (if mk_conns m h then None else Some (mock_err ''Ping'' h), m)"

definition mock_Attributes :: "handle \<Rightarrow> ('u mock, attributes) op" where
  "mock_Attributes h m =
     (if mk_conns m h
      then Ok (no_attributes\<lparr>at_SysID := ''MCK'', at_Client := ''100'', at_User := ''MOCK'',
                 at_Language := ''EN'', at_RfcRole := ''C''\<rparr>)
      else Err (mock_err ''Attributes'' h), m)"

definition mock_Reset :: "ctx \<Rightarrow> handle \<Rightarrow> 'u mock op0" where
  "mock_Reset c h m = (if mk_conns m h then None else Some (mock_err ''Reset'' h), m)"

definition mock_Cancel :: "handle \<Rightarrow> 'u mock op0" where
  "mock_Cancel h m = (if mk_conns m h then None else Some (mock_err ''Cancel'' h), m)"

definition mock_Describe :: "ctx \<Rightarrow> handle \<Rightarrow> go_string \<Rightarrow> ('u mock, func_desc) op" where
  "mock_Describe c h fn m =
     (if \<not> mk_conns m h then Err (mock_err ''Describe'' h)
      else case mk_descriptors m fn of
        Some d \<Rightarrow> Ok d
      | None \<Rightarrow> Err (PlainErr (''nwrfcmock: no descriptor for '' @ fn @ '' (use SetDescriptor)'')), m)"

definition mock_Invoke :: "ctx \<Rightarrow> handle \<Rightarrow> go_string \<Rightarrow> call_params \<Rightarrow> invoke_options \<Rightarrow> ('u mock, call_params) op" where
  "mock_Invoke c h fn i opt m0 =
     (let m = m0\<lparr>mk_callCount := mk_callCount m0 + 1\<rparr>
      in if \<not> mk_conns m h then (Err (mock_err ''Invoke'' h), m)
         else case mk_handlers m fn of
           None \<Rightarrow> (Err (PlainErr (''nwrfcmock: no handler for '' @ fn @ '' (use HandleFunc)'')), m)
         | Some f \<Rightarrow> (case f c i (mk_user m) of (r, u) \<Rightarrow> (r, m\<lparr>mk_user := u\<rparr>)))"

definition mock_InvokeTableStream ::
    "ctx \<Rightarrow> handle \<Rightarrow> go_string \<Rightarrow> go_string \<Rightarrow> call_params \<Rightarrow> invoke_options \<Rightarrow> ('u mock, nat) op" where
  "mock_InvokeTableStream c h fn table i opt m0 =
     (let m = m0\<lparr>mk_callCount := mk_callCount m0 + 1\<rparr>
      in if \<not> mk_conns m h then (Err (mock_err ''InvokeTableStream'' h), m)
         else case mk_streams m fn table of
           None \<Rightarrow> (Err (PlainErr (''nwrfcmock: no stream handler for '' @ fn @ ''/'' @ table @
                      '' (use HandleTableStreamFunc)'')), m)
         | Some f \<Rightarrow> (case f c i (mk_user m) of
               (Inl e, u) \<Rightarrow> (Err e, m\<lparr>mk_user := u\<rparr>)
             | (Inr s, u) \<Rightarrow> (Ok (mk_nobjs m), m\<lparr>mk_user := u, mk_nobjs := mk_nobjs m + 1,
                              mk_objs := (mk_objs m)(mk_nobjs m \<mapsto> s)\<rparr>)))"

definition mock_InvalidateMetadata :: "go_string \<Rightarrow> 'u mock op0" where
  "mock_InvalidateMetadata fn m = (None, m\<lparr>mk_descriptors := (mk_descriptors m)(fn := None)\<rparr>)"

text \<open>The methods of a stream object; a number that was never handed out cannot be used.\<close>

definition mock_stream_next :: "nat \<Rightarrow> ctx \<Rightarrow> ('u mock, call_params) op" where
  "mock_stream_next k c m =
     (case mk_objs m k of None \<Rightarrow> (Err ErrClosedPipe, m)
      | Some s \<Rightarrow> (case rowStream_Next c s of (r, s') \<Rightarrow> (r, m\<lparr>mk_objs := (mk_objs m)(k \<mapsto> s')\<rparr>)))"

definition mock_stream_close :: "nat \<Rightarrow> 'u mock op0" where
  "mock_stream_close k m =
     (case mk_objs m k of None \<Rightarrow> (None, m)
      | Some s \<Rightarrow> (case rowStream_Close s of (r, s') \<Rightarrow> (r, m\<lparr>mk_objs := (mk_objs m)(k \<mapsto> s')\<rparr>)))"

definition mock_backend :: "'u mock backend" where
  "mock_backend =
     \<lparr>bk_name = ''mock'', bk_version = mk_version, bk_caps = mk_capabilities,
      bk_open = mock_Open, bk_close = mock_Close, bk_ping = mock_Ping, bk_attributes = mock_Attributes,
      bk_reset = mock_Reset, bk_describe = mock_Describe, bk_invoke = mock_Invoke,
      bk_invalidate = mock_InvalidateMetadata, bk_cancel = Some mock_Cancel,
      bk_stream = Some \<lparr>so_invoke = mock_InvokeTableStream, so_next = mock_stream_next, so_close = mock_stream_close\<rparr>,
      bk_tx = None, bk_unit = None, bk_trace = None\<rparr>"

section \<open>The contract\<close>

definition mock_ok :: "'u mock \<Rightarrow> bool" where
  "mock_ok m \<longleftrightarrow> (\<forall>h. mk_conns m h \<longrightarrow> issued_upto (mk_nextHandle m) h)"

lemmas mock_defs = mock_backend_def mock_Open_def mock_Close_def mock_Ping_def mock_Attributes_def
  mock_Reset_def mock_Describe_def mock_Invoke_def

interpretation mock: backend_contract mock_backend mk_conns mock_ok "\<lambda>m. mk_nextHandle m \<noteq> - 1"
  by unfold_locales
    (auto simp: mock_defs mock_ok_def Let_def issued_upto_next split: option.splits prod.splits if_splits)

interpretation mock: backend_fresh mock_backend mk_conns mock_ok "\<lambda>m. mk_nextHandle m \<noteq> - 1"
  "\<lambda>m. issued_upto (mk_nextHandle m)"
proof unfold_locales
  fix m :: "'a mock" and h e
  assume "mk_nextHandle m \<noteq> - 1" "issued_upto (mk_nextHandle m) h"
  then show "issued_upto (mk_nextHandle (bk_run mock_backend e m)) h"
    by (cases e) (auto simp: mock_defs Let_def issued_upto_next split: option.splits prod.splits)
qed (auto simp: mock_defs mock_ok_def issued_upto_next Let_def)

lemma mock_ok_New [simp]: "mock_ok (mock_New u)"
  by (simp add: mock_ok_def mock_New_def)

section \<open>Row streams\<close>

text \<open>Reading a fresh stream \<open>k\<close> times yields the first rows in order, then \<open>io.EOF\<close>.\<close>

fun read_rows :: "nat \<Rightarrow> row_stream \<Rightarrow> (goerr, call_params) result list \<times> row_stream" where
  "read_rows 0 s = ([], s)"
| "read_rows (Suc k) s = (case rowStream_Next background s of (r, s') \<Rightarrow>
     (case read_rows k s' of (rs, s'') \<Rightarrow> (r # rs, s'')))"

lemma read_rows_from:
  "\<not> rs_closed s \<Longrightarrow> fst (read_rows k s) =
     map (\<lambda>j. if rs_i s + int j < rs_n s then Ok (rs_row s (rs_i s + int j)) else Err ErrEOF) [0..<k]"
proof (induction k arbitrary: s)
  case (Suc k)
  obtain r s' where n: "rowStream_Next background s = (r, s')" by force
  have s': "\<not> rs_closed s'" "rs_n s' = rs_n s" "rs_row s' = rs_row s"
    using n Suc.prems by (auto simp: rowStream_Next_def background_def split: if_splits)
  have upt: "[0..<Suc k] = 0 # map Suc [0..<k]" by (simp add: upt_conv_Cons map_Suc_upt del: upt_Suc)
  have unf: "fst (read_rows (Suc k) s) = r # fst (read_rows k s')" using n by (simp split: prod.splits)
  show ?case
  proof (cases "rs_i s < rs_n s")
    case True
    then have "r = Ok (rs_row s (rs_i s))" "rs_i s' = rs_i s + 1"
      using n Suc.prems by (auto simp: rowStream_Next_def background_def)
    moreover from this have "rs_i s' + int j = rs_i s + int (Suc j)" for j by simp
    ultimately show ?thesis unfolding unf Suc.IH [OF s'(1)] upt using True s' by (simp add: add.assoc)
  next
    case False
    then have "r = Err ErrEOF" "s' = s" using n Suc.prems by (auto simp: rowStream_Next_def background_def)
    then show ?thesis unfolding unf Suc.IH [OF s'(1)] upt using False by simp
  qed
qed simp

end
