(* ===== verification/Stream.thy ===== *)
theory Stream
  imports Call Mock_Backend
begin

text \<open>
  Lazy table results, \<open>nwrfc/stream.go\<close>. A stream owns the mutex of its connection from
  \<open>CallTableStream\<close> to the first \<open>Close\<close>: the state is the flag \<open>mu\<close> of the mutex with the
  backend side. Unlocking a mutex that is not locked ends a Go program; here it is \<open>None\<close>, and the
  lemmas show that it cannot happen, however the stream is used. The clock of a timeout error is the
  argument \<open>now\<close>.
\<close>

record table_stream =
  ts_id :: nat
  ts_fn :: go_string
  ts_table :: go_string
  ts_closed :: bool
  ts_once :: bool
  ts_err :: "goerr option"

datatype stream_result = StreamPanic | StreamBlocked | StreamErr goerr | StreamOk table_stream

definition mapStreamErr :: "'s rt_env \<Rightarrow> go_string \<Rightarrow> go_string \<Rightarrow> goerr \<Rightarrow> goerr" where
  "mapStreamErr re now fn e = mapContextOrBackendError (env_text (re_env re)) (env_cur (re_env re)) now fn e"

text \<open>The caller waits when the mutex is taken (\<open>StreamBlocked\<close>).\<close>

definition CallTableStream :: "'s rt_env \<Rightarrow> go_string \<Rightarrow> ctx \<Rightarrow> conn option \<Rightarrow> go_string \<Rightarrow> go_string \<Rightarrow> gval \<Rightarrow>
    call_options list \<Rightarrow> bool \<times> 's nw \<Rightarrow> stream_result \<times> bool \<times> 's nw" where
  "CallTableStream re now ctx c0 fn table inp opts mst =
     (case mst of (mu, st) \<Rightarrow>
      case c0 of
        None \<Rightarrow> (StreamErr (BrokenConnErr ''nil Conn'' (Some ErrConnClosed)), mu, st)
      | Some c \<Rightarrow>
          if \<not> Alive c then (StreamErr (BrokenConnErr ''closed Conn'' (Some ErrConnClosed)), mu, st)
          else if table = [] then (StreamErr (ConfigErr ''table'' ''TABLES parameter name is required''), mu, st)
          else (case bk_stream (re_ops re) of
              None \<Rightarrow> (StreamErr (unsupported (re_ops re) ''lazy table streaming'' st), mu, st)
            | Some so \<Rightarrow>
                (case marshalInput (re_tn re) inp of
                   None \<Rightarrow> (StreamPanic, mu, st)
                 | Some (Err e) \<Rightarrow> (StreamErr e, mu, st)
                 | Some (Ok m) \<Rightarrow>
                     if mu then (StreamBlocked, mu, st)
                     else (case with_bs (so_invoke so ctx (c_handle c) fn table m (toBackend (first_option opts))) st of
                         (Inl e, st') \<Rightarrow> (StreamErr (mapStreamErr re now fn e), False, st')
                       | (Inr j, st') \<Rightarrow>
                           (StreamOk \<lparr>ts_id = j, ts_fn = fn, ts_table = table, ts_closed = False, ts_once = False, ts_err = None\<rparr>,
                            True, st')))))"

definition close_backend :: "'s rt_env \<Rightarrow> nat \<Rightarrow> 's nw \<Rightarrow> goerr option \<times> 's nw" where
  "close_backend re j st =
     (case bk_stream (re_ops re) of
        None \<Rightarrow> (None, st)
      | Some so \<Rightarrow> (case with_bs (so_close so j) st of (e, st') \<Rightarrow> (map_option (mapE (re_env re)) e, st')))"

definition stream_Close :: "'s rt_env \<Rightarrow> table_stream \<times> bool \<times> 's nw \<Rightarrow> (goerr option \<times> table_stream \<times> bool \<times> 's nw) option" where
  "stream_Close re x =
     (case x of (s, mu, st) \<Rightarrow>
        if ts_once s then Some (ts_err s, x)
        else (case close_backend re (ts_id s) st of
          (e, st') \<Rightarrow>
            if \<not> mu then None
            else Some (e, s\<lparr>ts_once := True, ts_closed := True, ts_err := e\<rparr>, False, st')))"

definition stream_Next :: "'s rt_env \<Rightarrow> go_string \<Rightarrow> ctx \<Rightarrow> table_stream \<times> bool \<times> 's nw \<Rightarrow>
    ((goerr, call_params) result \<times> table_stream \<times> bool \<times> 's nw) option" where
  "stream_Next re now ctx x =
     (case x of (s, mu, st) \<Rightarrow>
        if ts_closed s then Some (Err ErrStreamClosed, x)
        else (case ctx_err ctx of
            Some e \<Rightarrow> map_option (\<lambda>(_, y). (Err (mapStreamErr re now (ts_fn s) e), y)) (stream_Close re x)
          | None \<Rightarrow>
              (case (case bk_stream (re_ops re) of
                       None \<Rightarrow> (Err ErrUnsupported, st) | Some so \<Rightarrow> with_bs (so_next so (ts_id s) ctx) st) of
                 (Inr row, st') \<Rightarrow> Some (Ok row, s, mu, st')
               | (Inl e, st') \<Rightarrow>
                   if errors_Is e ErrEOF then Some (Err e, s, mu, st')
                   else map_option (\<lambda>(_, y). (Err (mapStreamErr re now (ts_fn s) e), y)) (stream_Close re (s, mu, st')))))"

section \<open>The mutex\<close>

text \<open>As long as the stream exists, the mutex is locked exactly until the first \<open>Close\<close>.\<close>

definition holds_mutex :: "table_stream \<times> bool \<times> 's nw \<Rightarrow> bool" where
  "holds_mutex x = (case x of (s, mu, _) \<Rightarrow> mu = (\<not> ts_once s) \<and> ts_closed s = ts_once s)"

lemma Close_holds:
  assumes "holds_mutex x"
  shows "\<exists>e y. stream_Close re x = Some (e, y) \<and> holds_mutex y \<and> ts_once (fst y)"
  using assms by (auto simp: stream_Close_def holds_mutex_def split: prod.splits)

lemma Next_holds:
  assumes "holds_mutex x"
  shows "\<exists>r y. stream_Next re now ctx x = Some (r, y) \<and> holds_mutex y \<and> (ts_once (fst x) \<longrightarrow> y = x)"
proof -
  obtain s mu st where x: "x = (s, mu, st)" by (cases x)
  have h: "holds_mutex (s, mu, st')" for st' using assms x by (simp add: holds_mutex_def)
  show ?thesis
  proof (cases "ts_closed s")
    case True
    then show ?thesis using assms x by (simp add: stream_Next_def)
  next
    case False
    then have "\<not> ts_once s" using assms x by (simp add: holds_mutex_def)
    then show ?thesis
      using False x h Close_holds [OF h, of re]
      by (fastforce simp: stream_Next_def split: option.splits prod.splits sum.splits)
  qed
qed

text \<open>Any use of a stream: \<open>Some ctx\<close> is a call of \<open>Next\<close>, \<open>None\<close> one of \<open>Close\<close>.\<close>

fun use_stream :: "'s rt_env \<Rightarrow> go_string \<Rightarrow> ctx option list \<Rightarrow> table_stream \<times> bool \<times> 's nw \<Rightarrow>
    (table_stream \<times> bool \<times> 's nw) option" where
  "use_stream re now [] x = Some x"
| "use_stream re now (None # us) x =
     (case stream_Close re x of None \<Rightarrow> None | Some (_, y) \<Rightarrow> use_stream re now us y)"
| "use_stream re now (Some ctx # us) x =
     (case stream_Next re now ctx x of None \<Rightarrow> None | Some (_, y) \<Rightarrow> use_stream re now us y)"

lemma use_holds:
  "holds_mutex x \<Longrightarrow> \<exists>y. use_stream re now us x = Some y \<and> holds_mutex y \<and>
    (ts_once (fst x) \<or> None \<in> set us \<longrightarrow> ts_once (fst y)) \<and> (ts_once (fst x) \<longrightarrow> y = x)"
proof (induction us arbitrary: x)
  case Nil
  then show ?case by simp
next
  case (Cons u us)
  show ?case
  proof (cases u)
    case None
    obtain e y where y: "stream_Close re x = Some (e, y)" "holds_mutex y" "ts_once (fst y)"
      using Close_holds [OF Cons.prems] by blast
    moreover have "ts_once (fst x) \<longrightarrow> y = x" using y(1) by (auto simp: stream_Close_def split: prod.splits)
    ultimately show ?thesis using Cons.IH [OF y(2)] None by auto
  next
    case (Some ctx)
    obtain r y where y: "stream_Next re now ctx x = Some (r, y)" "holds_mutex y" "ts_once (fst x) \<longrightarrow> y = x"
      using Next_holds [OF Cons.prems] by blast
    then show ?thesis using Cons.IH [OF y(2)] Some by auto
  qed
qed

text \<open>C24: A table stream pins its connection and gives it back exactly once. From a successful
  \<open>CallTableStream\<close> on, over any backend and for every sequence of \<open>Next\<close> and \<open>Close\<close> calls, the
  program never unlocks an unlocked mutex; the mutex is locked until the stream is closed and free from then
  on; and a sequence with a \<open>Close\<close> in it leaves it free, whatever errors occurred on the way.\<close>

theorem stream_mutex:
  assumes "CallTableStream re now ctx c fn table inp opts (False, st) = (StreamOk s, mu, st')"
  shows "\<exists>s' mu' st''. use_stream re now us (s, mu, st') = Some (s', mu', st'') \<and>
    mu' = (\<not> ts_closed s') \<and> (None \<in> set us \<longrightarrow> \<not> mu')"
proof -
  have h: "holds_mutex (s, mu, st')"
    using assms by (auto simp: CallTableStream_def holds_mutex_def with_bs_def split: option.splits if_splits sum.splits prod.splits)
  obtain y where "use_stream re now us (s, mu, st') = Some y" "holds_mutex y" "None \<in> set us \<longrightarrow> ts_once (fst y)"
    using use_holds [OF h] by blast
  then show ?thesis by (cases y) (auto simp: holds_mutex_def)
qed

theorem stream_mutex_witness:
  "\<exists>re s st' y. CallTableStream (re :: unit rt_env) [] background
      (Some \<lparr>c_handle = 1, c_dest = [], c_closed = False, c_tp = None\<rparr>) ''RFC_READ_TABLE'' ''DATA'' VNil [] (False, undefined) = (StreamOk s, True, st') \<and>
     use_stream re [] [Some background, None, Some background, None] (s, True, st') = Some y \<and> \<not> fst (snd y)"
proof -
  let ?re = "\<lparr>re_ops = (unregisteredBackend :: unit backend)\<lparr>bk_stream := Some \<lparr>so_invoke = (\<lambda>_ _ _ _ _ _ s. (Ok 7, s)),
      so_next = (\<lambda>_ _ s. (Err ErrEOF, s)), so_close = (\<lambda>_ s. (None, s))\<rparr>\<rparr>, re_env = undefined, re_fo = undefined, re_tn = undefined\<rparr>"
  let ?c = "\<lparr>c_handle = 1, c_dest = [], c_closed = False, c_tp = None\<rparr>"
  let ?s = "\<lparr>ts_id = 7, ts_fn = ''RFC_READ_TABLE'', ts_table = ''DATA'', ts_closed = False, ts_once = False, ts_err = None\<rparr>"
  have c: "CallTableStream ?re [] background (Some ?c) ''RFC_READ_TABLE'' ''DATA'' VNil [] (False, undefined) = (StreamOk ?s, True, undefined)"
    by (simp add: CallTableStream_def Alive_def marshalInput_def with_bs_def)
  obtain s' mu' st'' where u: "use_stream ?re [] [Some background, None, Some background, None] (?s, True, undefined) = Some (s', mu', st'')"
      "None \<in> set [Some background, None, Some background, None] \<longrightarrow> \<not> mu'"
    using stream_mutex [OF c] by blast
  then show ?thesis using c by (intro exI [of _ ?re] exI [of _ ?s] exI [of _ undefined] exI [of _ "(s', mu', st'')"]) simp
qed

section \<open>Reading a table\<close>

text \<open>The loop of the documentation: rows until an error, which is returned.\<close>

fun drain :: "'s rt_env \<Rightarrow> go_string \<Rightarrow> ctx \<Rightarrow> nat \<Rightarrow> call_params list \<Rightarrow> table_stream \<times> bool \<times> 's nw \<Rightarrow>
    (call_params list \<times> goerr \<times> table_stream \<times> bool \<times> 's nw) option" where
  "drain re now ctx 0 acc x = None"
| "drain re now ctx (Suc n) acc x =
     (case stream_Next re now ctx x of
        None \<Rightarrow> None
      | Some (Inr row, y) \<Rightarrow> drain re now ctx n (acc @ [row]) y
      | Some (Inl e, y) \<Rightarrow> Some (acc, e, y))"

definition stream_at :: "'u mock nw \<Rightarrow> table_stream \<Rightarrow> row_stream \<Rightarrow> bool" where
  "stream_at st s r \<longleftrightarrow> mk_objs (nw_bs st) (ts_id s) = Some r \<and> \<not> rs_closed r"

lemma Next_mock:
  assumes "re_ops re = mock_backend" "\<not> ts_closed s" "stream_at st s r" "ctx_err ctx = None"
  shows "rs_i r < rs_n r \<Longrightarrow> \<exists>st'. stream_Next re now ctx (s, mu, st) = Some (Ok (rs_row r (rs_i r)), s, mu, st') \<and>
      stream_at st' s (r\<lparr>rs_i := rs_i r + 1\<rparr>)"
    and "\<not> rs_i r < rs_n r \<Longrightarrow> \<exists>st'. stream_Next re now ctx (s, mu, st) = Some (Err ErrEOF, s, mu, st') \<and> stream_at st' s r"
proof -
  have "errors_Is ErrEOF ErrEOF" by (simp add: plain_errs)
  note simps = stream_Next_def mock_backend_def with_bs_def mock_stream_next_def rowStream_Next_def stream_at_def this
  show "rs_i r < rs_n r \<Longrightarrow> \<exists>st'. stream_Next re now ctx (s, mu, st) = Some (Ok (rs_row r (rs_i r)), s, mu, st') \<and>
      stream_at st' s (r\<lparr>rs_i := rs_i r + 1\<rparr>)"
    using assms by (simp add: simps)
  show "\<not> rs_i r < rs_n r \<Longrightarrow> \<exists>st'. stream_Next re now ctx (s, mu, st) = Some (Err ErrEOF, s, mu, st') \<and> stream_at st' s r"
    using assms by (simp add: simps)
qed

lemma drain_mock:
  assumes "re_ops re = mock_backend" "\<not> ts_closed s" "ctx_err ctx = None"
  shows "stream_at st s r \<Longrightarrow> 0 < n \<Longrightarrow> rs_n r - rs_i r < int n \<Longrightarrow>
    \<exists>st'. drain re now ctx n acc (s, mu, st) = Some (acc @ map (rs_row r) [rs_i r..rs_n r - 1], ErrEOF, s, mu, st')"
proof (induction n arbitrary: r acc st)
  case (Suc n)
  show ?case
  proof (cases "rs_i r < rs_n r")
    case True
    then obtain st' where n: "stream_Next re now ctx (s, mu, st) = Some (Ok (rs_row r (rs_i r)), s, mu, st')"
      "stream_at st' s (r\<lparr>rs_i := rs_i r + 1\<rparr>)"
      using Next_mock(1) [OF assms(1,2) Suc.prems(1) assms(3)] by blast
    have "[rs_i r..rs_n r - 1] = rs_i r # [rs_i r + 1..rs_n r - 1]" using True by (simp add: upto_rec1)
    then show ?thesis using Suc.IH [OF n(2), of "acc @ [rs_row r (rs_i r)]"] Suc.prems(3) True n(1) by auto
  next
    case False
    then obtain st' where "stream_Next re now ctx (s, mu, st) = Some (Err ErrEOF, s, mu, st')"
      using Next_mock(2) [OF assms(1,2) Suc.prems(1) assms(3)] by blast
    then show ?thesis using False by auto
  qed
qed simp

text \<open>C25: The documented reading loop ends and yields the whole table: over the test backend, a stream whose
  handler answers with \<open>n\<close> rows is drained by \<open>n + 1\<close> calls of \<open>Next\<close> into exactly those rows in
  order, the last call returns \<open>io.EOF\<close> and leaves the stream open and the connection locked, and the
  deferred \<open>Close\<close> then returns nil and unlocks it.\<close>

theorem stream_drained:
  assumes "re_ops re = mock_backend" "ctx_err ctx = None"
    and "mk_conns (nw_bs st) (c_handle c)" "mk_streams (nw_bs st) fn table = Some (\<lambda>_ _ u. (Ok (TableRows n row), u))"
    and "CallTableStream re now ctx (Some c) fn table inp opts (False, st) = (StreamOk s, mu, st')"
    and "n < int k" "0 < k"
  shows "\<exists>st2 st3 s'. drain re now ctx k [] (s, mu, st') = Some (map row [0..n - 1], ErrEOF, s, True, st2) \<and>
    stream_Close re (s, True, st2) = Some (None, s', False, st3)"
proof -
  have s: "\<not> ts_closed s" "\<not> ts_once s" "mu" "stream_at st' s (TableRows n row)"
    using assms(1,3,4,5)
    by (auto simp: CallTableStream_def with_bs_def mock_backend_def mock_InvokeTableStream_def stream_at_def TableRows_def Let_def
        split: option.splits if_splits sum.splits prod.splits)
  obtain st2 where "drain re now ctx k [] (s, mu, st') = Some (map row [0..n - 1], ErrEOF, s, mu, st2)"
    using drain_mock [OF assms(1) s(1) assms(2) s(4), of k now "[]" mu] assms(6,7) by (auto simp: TableRows_def)
  moreover have "\<exists>s' st3. stream_Close re (s, True, st2) = Some (None, s', False, st3)"
    using assms(1) s(2)
    by (auto simp: stream_Close_def close_backend_def mock_backend_def with_bs_def mock_stream_close_def rowStream_Close_def
        split: option.splits)
  moreover have "mu = True" using s(3) by simp
  ultimately show ?thesis by auto
qed

theorem stream_drained_witness:
  "\<exists>re s st' st2. CallTableStream (re :: unit mock rt_env) [] background
      (Some \<lparr>c_handle = 1, c_dest = [], c_closed = False, c_tp = None\<rparr>) ''F'' ''T'' VNil []
      (False, \<lparr>nw_bs = (mock_New ())\<lparr>mk_conns := (\<lambda>_. True), mk_streams := (\<lambda>_ _. Some (\<lambda>_ _ u. (Ok (TableRows 2 (\<lambda>i. [(''I'', VInt KInt i)])), u)))\<rparr>,
         nw_listeners = [], nw_log = [], nw_maxTrace = 0\<rparr>) = (StreamOk s, True, st') \<and>
     drain re [] background 3 [] (s, True, st') = Some ([[(''I'', VInt KInt 0)], [(''I'', VInt KInt 1)]], ErrEOF, s, True, st2)"
proof -
  let ?re = "\<lparr>re_ops = (mock_backend :: unit mock backend), re_env = undefined, re_fo = undefined, re_tn = undefined\<rparr>"
  let ?c = "\<lparr>c_handle = 1, c_dest = [], c_closed = False, c_tp = None\<rparr>"
  let ?st = "\<lparr>nw_bs = (mock_New ())\<lparr>mk_conns := (\<lambda>_. True), mk_streams := (\<lambda>_ _. Some (\<lambda>_ _ u. (Ok (TableRows 2 (\<lambda>i. [(''I'', VInt KInt i)])), u)))\<rparr>,
         nw_listeners = [], nw_log = [], nw_maxTrace = 0\<rparr>"
  obtain s st' where c: "CallTableStream ?re [] background (Some ?c) ''F'' ''T'' VNil [] (False, ?st) = (StreamOk s, True, st')"
    by (simp add: CallTableStream_def Alive_def marshalInput_def with_bs_def mock_backend_def mock_InvokeTableStream_def Let_def)
  obtain st2 where "drain ?re [] background 3 [] (s, True, st') = Some (map (\<lambda>i. [(''I'', VInt KInt i)]) [0..2 - 1], ErrEOF, s, True, st2)"
    using stream_drained [OF _ _ _ _ c, of 2 "\<lambda>i. [(''I'', VInt KInt i)]" 3] by (auto simp: background_def)
  then show ?thesis using c by (intro exI [of _ ?re] exI [of _ s] exI [of _ st'] exI [of _ st2]) (simp add: upto_rec1)
qed

end
