(* ===== verification/Transaction.thy ===== *)
theory Transaction
  imports Call
begin

text \<open>
  Clients of tRFC, qRFC and bgRFC, \<open>nwrfc/transactional.go\<close>.

  \<open>dops\<close> is \<open>backend.Default()\<close>, which the functions use instead of the connection's own backend;
  the random bytes of an identifier are an argument. A transaction is never nil here (the methods return at
  once on nil) and remembers the handle of its connection, which never changes. The lemmas show the form of the
  identifiers and which operations still reach the backend once a transaction is confirmed or destroyed.
\<close>

section \<open>Identifiers\<close>

definition hex_digits :: go_string where
  "hex_digits = ''0123456789abcdef''"

definition EncodeToString :: "8 word list \<Rightarrow> go_string" where
  "EncodeToString bs = concat (map (\<lambda>b. [hex_digits ! (unat b div 16), hex_digits ! (unat b mod 16)]) bs)"

text \<open>\<open>NewTID\<close> draws 12 random bytes, \<open>NewUnitID\<close> 16.\<close>

definition NewTID :: "8 word list \<Rightarrow> go_string" where
  "NewTID bs = to_upper (EncodeToString (take 12 bs))"

definition NewUnitID :: "8 word list \<Rightarrow> go_string" where
  "NewUnitID bs = to_upper (EncodeToString (take 16 bs))"

definition HEX :: go_string where
  "HEX = ''0123456789ABCDEF''"

lemma to_upper_ascii: "is_ascii s \<Longrightarrow> to_upper s = map upper_char s"
  by (induction s) (auto simp: is_ascii_def)

lemma upper_hex: "n < 16 \<Longrightarrow> upper_char (hex_digits ! n) = HEX ! n"
proof -
  assume n: "n < 16"
  have "map upper_char hex_digits = HEX" by (simp add: hex_digits_def HEX_def)
  then show ?thesis using n nth_map [of n hex_digits upper_char] by (simp add: hex_digits_def)
qed

lemma hex_ascii: "n < 16 \<Longrightarrow> byte_of (hex_digits ! n) < (128 :: nat)"
proof -
  assume n: "n < 16"
  have "\<forall>c\<in>set hex_digits. byte_of c < (128 :: nat)" by (simp add: hex_digits_def)
  moreover have "hex_digits ! n \<in> set hex_digits" using n by (intro nth_mem) (simp add: hex_digits_def)
  ultimately show ?thesis by blast
qed

lemma HEX_mem: "n < 16 \<Longrightarrow> HEX ! n \<in> set HEX"
  by (rule nth_mem) (simp add: HEX_def)

lemma HEX_inj: "m < 16 \<Longrightarrow> n < 16 \<Longrightarrow> HEX ! m = HEX ! n \<longleftrightarrow> m = n"
  by (rule nth_eq_iff_index_eq) (simp_all add: HEX_def)

lemma byte_nibbles: "unat (b :: 8 word) div 16 < 16" "unat (b :: 8 word) mod 16 < 16"
  using unsigned_less [of b, where ?'a = nat] by simp_all

lemma EncodeToString_ascii: "is_ascii (EncodeToString bs)"
  by (induction bs) (auto simp: EncodeToString_def is_ascii_def hex_ascii byte_nibbles)

lemma upper_EncodeToString:
  "to_upper (EncodeToString bs) = concat (map (\<lambda>b. [HEX ! (unat b div 16), HEX ! (unat b mod 16)]) bs)"
  unfolding to_upper_ascii [OF EncodeToString_ascii]
  by (induction bs) (simp_all add: EncodeToString_def upper_hex byte_nibbles)

lemma hex_length: "length (to_upper (EncodeToString bs)) = 2 * length bs"
  unfolding upper_EncodeToString by (induction bs) simp_all

lemma hex_set: "set (to_upper (EncodeToString bs)) \<subseteq> set HEX"
proof -
  have "HEX ! (unat b div 16) \<in> set HEX" "HEX ! (unat b mod 16) \<in> set HEX" for b :: "8 word"
    by (rule HEX_mem [OF byte_nibbles(1)], rule HEX_mem [OF byte_nibbles(2)])
  then show ?thesis unfolding upper_EncodeToString by (induction bs) simp_all
qed

lemma hex_inj: "to_upper (EncodeToString as) = to_upper (EncodeToString bs) \<longleftrightarrow> as = bs"
  unfolding upper_EncodeToString
proof (induction as arbitrary: bs)
  case Nil
  then show ?case by (cases bs) auto
next
  case (Cons a as)
  show ?case
  proof (cases bs)
    case (Cons b bs')
    have "a = b" if "unat a div 16 = unat b div 16" "unat a mod 16 = unat b mod 16"
    proof -
      have "unat a = unat b" using that div_mult_mod_eq [of "unat a" 16] div_mult_mod_eq [of "unat b" 16] by argo
      then show ?thesis by (rule unsigned_word_eqI)
    qed
    then have "HEX ! (unat a div 16) = HEX ! (unat b div 16) \<and> HEX ! (unat a mod 16) = HEX ! (unat b mod 16) \<longleftrightarrow> a = b"
      using HEX_inj byte_nibbles [of a] byte_nibbles [of b] by blast
    then show ?thesis using Cons.IH [of bs'] Cons by simp blast
  qed simp
qed

text \<open>Identifiers have the form the SAP system requires: a TID is 24 and a unit identifier 32
  upper-case hexadecimal digits, and different random bytes give different identifiers.\<close>

theorem identifiers_wf:
  assumes "length as = 12" "length bs = 12" "length us = 16" "length vs = 16"
  shows "length (NewTID as) = 24 \<and> set (NewTID as) \<subseteq> set HEX \<and> (NewTID as = NewTID bs \<longleftrightarrow> as = bs) \<and>
    length (NewUnitID us) = 32 \<and> set (NewUnitID us) \<subseteq> set HEX \<and> (NewUnitID us = NewUnitID vs \<longleftrightarrow> us = vs)"
  using assms by (simp add: NewTID_def NewUnitID_def hex_length hex_set hex_inj)

theorem identifiers_wf_witness:
  "length (NewTID (replicate 12 0xAB)) = 24 \<and> NewTID (replicate 12 0xAB) \<noteq> NewTID (replicate 12 0xAC) \<and>
   NewTID [0xAB, 0x01] = ''AB01''"
proof -
  have "NewTID [0xAB, 0x01] = ''AB01''"
    by (simp add: NewTID_def upper_EncodeToString HEX_def)
  moreover have "replicate 12 0xAB \<noteq> replicate 12 (0xAC :: 8 word)" by simp
  ultimately show ?thesis
    using identifiers_wf [of "replicate 12 0xAB" "replicate 12 0xAC" "replicate 16 0" "replicate 16 0"] by simp
qed

section \<open>Transactions\<close>

record transaction =
  tx_conn :: handle
  tx_tid :: go_string
  tx_queue :: go_string
  tx_txHandle :: handle
  tx_closed :: bool

text \<open>\<open>dops\<close> with the error texts and type names come from the run-time environment \<open>re\<close>, whose backend
  is the default one here.\<close>

definition newTransaction :: "'s rt_env \<Rightarrow> conn \<Rightarrow> go_string \<Rightarrow> go_string \<Rightarrow> 's nw \<Rightarrow> (goerr, transaction) result \<times> 's nw" where
  "newTransaction re c tid queue st =
     (case bk_tx (re_ops re) of
        None \<Rightarrow> (Err (unsupported (re_ops re) ''tRFC/qRFC client'' st), st)
      | Some tb \<Rightarrow> (case with_bs (tx_create tb (c_handle c) tid queue) st of
            (Inl e, st') \<Rightarrow> (Err (mapE (re_env re) e), st')
          | (Inr h, st') \<Rightarrow>
              (Ok \<lparr>tx_conn = c_handle c, tx_tid = tid, tx_queue = queue, tx_txHandle = h, tx_closed = False\<rparr>, st')))"

definition NewTransaction :: "'s rt_env \<Rightarrow> 8 word list \<Rightarrow> conn \<Rightarrow> 's nw \<Rightarrow> (goerr, transaction) result \<times> 's nw" where
  "NewTransaction re rnd c st =
     (case checkOpen c of Some e \<Rightarrow> (Err e, st) | None \<Rightarrow> newTransaction re c (NewTID rnd) [] st)"

definition NewQueuedTransaction :: "'s rt_env \<Rightarrow> 8 word list \<Rightarrow> conn \<Rightarrow> go_string \<Rightarrow> 's nw \<Rightarrow>
    (goerr, transaction) result \<times> 's nw" where
  "NewQueuedTransaction re rnd c queueName st =
     (case checkOpen c of Some e \<Rightarrow> (Err e, st)
      | None \<Rightarrow> if queueName = [] then (Err (ConfigErr ''queueName'' ''required''), st)
                else newTransaction re c (NewTID rnd) queueName st)"

text \<open>The outcome of an operation that may panic: \<open>None\<close>, or the error.\<close>

type_synonym 's tx_result = "goerr option option \<times> transaction \<times> 's nw"

definition map_err :: "'s rt_env \<Rightarrow> goerr option \<times> 's nw \<Rightarrow> goerr option \<times> 's nw" where
  "map_err re r = (map_option (mapE (re_env re)) (fst r), snd r)"

definition tx_Call :: "'s rt_env \<Rightarrow> ctx \<Rightarrow> transaction \<Rightarrow> go_string \<Rightarrow> gval \<Rightarrow> call_options list \<Rightarrow> 's nw \<Rightarrow> 's tx_result" where
  "tx_Call re ctx t fn inp opts st =
     (if tx_closed t then (Some (Some (BrokenConnErr ''transaction closed'' (Some ErrConnClosed))), t, st)
      else case bk_tx (re_ops re) of
        None \<Rightarrow> (Some (Some (unsupported (re_ops re) ''tRFC/qRFC Call'' st)), t, st)
      | Some tb \<Rightarrow> (case marshalInput (re_tn re) inp of
            None \<Rightarrow> (None, t, st)
          | Some (Err e) \<Rightarrow> (Some (Some e), t, st)
          | Some (Ok m) \<Rightarrow>
              (case map_err re (with_bs (tx_invoke tb ctx (tx_conn t) (tx_txHandle t) fn m (toBackend (first_option opts))) st) of
                 (e, st') \<Rightarrow> (Some e, t, st'))))"

definition tx_Submit :: "'s rt_env \<Rightarrow> transaction \<Rightarrow> 's nw \<Rightarrow> 's tx_result" where
  "tx_Submit re t st =
     (if tx_closed t then (Some None, t, st)
      else case bk_tx (re_ops re) of
        None \<Rightarrow> (Some (Some (unsupported (re_ops re) ''tRFC/qRFC Submit'' st)), t, st)
      | Some tb \<Rightarrow> (case map_err re (with_bs (tx_submit tb (tx_txHandle t)) st) of (e, st') \<Rightarrow> (Some e, t, st')))"

definition tx_Confirm :: "'s rt_env \<Rightarrow> transaction \<Rightarrow> 's nw \<Rightarrow> 's tx_result" where
  "tx_Confirm re t st =
     (if tx_closed t then (Some None, t, st)
      else case bk_tx (re_ops re) of
        None \<Rightarrow> (Some (Some (unsupported (re_ops re) ''tRFC/qRFC Confirm'' st)), t, st)
      | Some tb \<Rightarrow> (case map_err re (with_bs (tx_confirm tb (tx_txHandle t)) st) of
            (Some e, st') \<Rightarrow> (Some (Some e), t, st')
          | (None, st') \<Rightarrow> (Some None, t\<lparr>tx_closed := True\<rparr>, st')))"

definition tx_Destroy :: "'s rt_env \<Rightarrow> transaction \<Rightarrow> 's nw \<Rightarrow> 's tx_result" where
  "tx_Destroy re t st =
     (if tx_txHandle t = 0 then (Some None, t, st)
      else case bk_tx (re_ops re) of
        None \<Rightarrow> (Some None, t, st)
      | Some tb \<Rightarrow> (case map_err re (with_bs (tx_destroy tb (tx_txHandle t)) st) of
            (e, st') \<Rightarrow> (Some e, t\<lparr>tx_txHandle := 0, tx_closed := True\<rparr>, st')))"

section \<open>Background units\<close>

record bg_unit =
  bu_conn :: handle
  bu_id :: go_string
  bu_queue :: "go_string list"
  bu_uHandle :: handle
  bu_identifier :: unit_identifier
  bu_closed :: bool

definition NewUnit :: "'s rt_env \<Rightarrow> 8 word list \<Rightarrow> conn \<Rightarrow> go_string list \<Rightarrow> 's nw \<Rightarrow> (goerr, bg_unit) result \<times> 's nw" where
  "NewUnit re rnd c queues st =
     (case checkOpen c of Some e \<Rightarrow> (Err e, st)
      | None \<Rightarrow> (case bk_unit (re_ops re) of
            None \<Rightarrow> (Err (unsupported (re_ops re) ''bgRFC client'' st), st)
          | Some bb \<Rightarrow> (case with_bs (un_create bb (c_handle c) (NewUnitID rnd) queues) st of
                (Inl e, st') \<Rightarrow> (Err (mapE (re_env re) e), st')
              | (Inr (h, ident), st') \<Rightarrow>
                  (Ok \<lparr>bu_conn = c_handle c, bu_id = NewUnitID rnd, bu_queue = queues, bu_uHandle = h,
                       bu_identifier = ident, bu_closed = False\<rparr>, st'))))"

type_synonym 's unit_result = "goerr option option \<times> bg_unit \<times> 's nw"

definition unit_Call :: "'s rt_env \<Rightarrow> ctx \<Rightarrow> bg_unit \<Rightarrow> go_string \<Rightarrow> gval \<Rightarrow> call_options list \<Rightarrow> 's nw \<Rightarrow> 's unit_result" where
  "unit_Call re ctx u fn inp opts st =
     (if bu_closed u then (Some (Some (BrokenConnErr ''unit closed'' (Some ErrConnClosed))), u, st)
      else case bk_unit (re_ops re) of
        None \<Rightarrow> (Some (Some (UnsupportedFeatureErr ''bgRFC Call'' \<lparr>Major = 7, Minor = 50, PatchLevel = 5\<rparr>
                   (bk_version (re_ops re) (nw_bs st)))), u, st)
      | Some bb \<Rightarrow> (case marshalInput (re_tn re) inp of
            None \<Rightarrow> (None, u, st)
          | Some (Err e) \<Rightarrow> (Some (Some e), u, st)
          | Some (Ok m) \<Rightarrow>
              (case map_err re (with_bs (un_invoke bb ctx (bu_conn u) (bu_uHandle u) fn m (toBackend (first_option opts))) st) of
                 (e, st') \<Rightarrow> (Some e, u, st'))))"

definition unit_Submit :: "'s rt_env \<Rightarrow> bg_unit \<Rightarrow> 's nw \<Rightarrow> 's unit_result" where
  "unit_Submit re u st =
     (if bu_closed u then (Some None, u, st)
      else case bk_unit (re_ops re) of
        None \<Rightarrow> (Some (Some (unsupported (re_ops re) ''bgRFC Submit'' st)), u, st)
      | Some bb \<Rightarrow> (case map_err re (with_bs (un_submit bb (bu_uHandle u)) st) of (e, st') \<Rightarrow> (Some e, u, st')))"

definition unit_Confirm :: "'s rt_env \<Rightarrow> bg_unit \<Rightarrow> 's nw \<Rightarrow> 's unit_result" where
  "unit_Confirm re u st =
     (if bu_closed u then (Some None, u, st)
      else case bk_unit (re_ops re) of
        None \<Rightarrow> (Some (Some (unsupported (re_ops re) ''bgRFC Confirm'' st)), u, st)
      | Some bb \<Rightarrow> (case map_err re (with_bs (un_confirm bb (bu_conn u) (bu_identifier u)) st) of
            (Some e, st') \<Rightarrow> (Some (Some e), u, st')
          | (None, st') \<Rightarrow> (Some None, u\<lparr>bu_closed := True\<rparr>, st')))"

text \<open>The state of a unit, with \<open>UnitStateUnknown\<close> (0) beside an error.\<close>

definition unit_State :: "'s rt_env \<Rightarrow> bg_unit \<Rightarrow> 's nw \<Rightarrow> nat \<times> goerr option \<times> 's nw" where
  "unit_State re u st =
     (case bk_unit (re_ops re) of
        None \<Rightarrow> (0, Some (unsupported (re_ops re) ''bgRFC GetState'' st), st)
      | Some bb \<Rightarrow> (case with_bs (un_state bb (bu_conn u) (bu_identifier u)) st of
            (Inl e, st') \<Rightarrow> (0, Some (mapE (re_env re) e), st')
          | (Inr n, st') \<Rightarrow> (n, None, st')))"

definition unit_Destroy :: "'s rt_env \<Rightarrow> bg_unit \<Rightarrow> 's nw \<Rightarrow> 's unit_result" where
  "unit_Destroy re u st =
     (if bu_uHandle u = 0 then (Some None, u, st)
      else case bk_unit (re_ops re) of
        None \<Rightarrow> (Some None, u, st)
      | Some bb \<Rightarrow> (case map_err re (with_bs (un_destroy bb (bu_uHandle u)) st) of
            (e, st') \<Rightarrow> (Some e, u\<lparr>bu_uHandle := 0, bu_closed := True\<rparr>, st')))"

section \<open>After the end\<close>

text \<open>The operations of a transaction, and a sequence of them.\<close>

datatype tx_op = TxCall ctx go_string gval "call_options list" | TxSubmit | TxConfirm | TxDestroy

fun tx_run :: "'s rt_env \<Rightarrow> tx_op \<Rightarrow> transaction \<times> 's nw \<Rightarrow> goerr option option \<times> transaction \<times> 's nw" where
  "tx_run re (TxCall ctx fn inp opts) (t, st) = tx_Call re ctx t fn inp opts st"
| "tx_run re TxSubmit (t, st) = tx_Submit re t st"
| "tx_run re TxConfirm (t, st) = tx_Confirm re t st"
| "tx_run re TxDestroy (t, st) = tx_Destroy re t st"

definition tx_runs :: "'s rt_env \<Rightarrow> tx_op list \<Rightarrow> transaction \<times> 's nw \<Rightarrow> transaction \<times> 's nw" where
  "tx_runs re = fold (\<lambda>k x. snd (tx_run re k x))"

lemma closed_ops:
  assumes "tx_closed t" "k \<noteq> TxDestroy"
  shows "snd (tx_run re k (t, st)) = (t, st)"
  using assms by (cases k) (simp_all add: tx_Call_def tx_Submit_def tx_Confirm_def)

lemma closed_runs:
  "tx_closed t \<Longrightarrow> TxDestroy \<notin> set ks \<Longrightarrow> tx_runs re ks (t, st) = (t, st)"
proof (induction ks)
  case (Cons k ks)
  then show ?case using closed_ops [of t k re st] by (cases "tx_run re k (t, st)") (auto simp: tx_runs_def)
qed (simp add: tx_runs_def)

lemma destroyed_op:
  "tx_closed t \<Longrightarrow> tx_txHandle t = 0 \<Longrightarrow> snd (tx_run re k (t, st)) = (t, st)"
  using closed_ops [of t k re st] by (cases k) (simp_all add: tx_Destroy_def)

lemma destroyed_runs:
  "tx_closed t \<Longrightarrow> tx_txHandle t = 0 \<Longrightarrow> tx_runs re ks (t, st) = (t, st)"
proof (induction ks)
  case (Cons k ks)
  then show ?case using destroyed_op [of t re k st] by (cases "tx_run re k (t, st)") (auto simp: tx_runs_def)
qed (simp add: tx_runs_def)

text \<open>C26: A confirmed transaction is over: after a \<open>Confirm\<close> that returned nil, no call, submit or
  confirm in any sequence reaches the backend again, calls fail with a closed-connection error, and submits and
  confirms return nil. After \<open>Destroy\<close>, whatever the backend answered to it, no operation at all reaches the
  backend; in particular a \<open>Submit\<close> of a destroyed transaction returns nil although nothing was ever
  submitted.\<close>

theorem transaction_over:
  assumes "bk_tx (re_ops re) = Some tb" "\<not> tx_closed t" "tx_txHandle t \<noteq> 0"
    and "tx_Confirm re t st = (Some None, t1, st1)" "tx_Destroy re t st = (r, t2, st2)" "TxDestroy \<notin> set ks"
  shows "tx_runs re ks (t1, st1) = (t1, st1) \<and>
    tx_Call re ctx t1 fn inp opts st1 = (Some (Some (BrokenConnErr ''transaction closed'' (Some ErrConnClosed))), t1, st1) \<and>
    tx_Confirm re t1 st1 = (Some None, t1, st1) \<and>
    tx_runs re js (t2, st2) = (t2, st2) \<and> tx_Submit re t2 st2 = (Some None, t2, st2) \<and> tx_Destroy re t2 st2 = (Some None, t2, st2)"
proof -
  have c1: "tx_closed t1"
    using assms(1,2,4) by (auto simp: tx_Confirm_def map_err_def split: prod.splits option.splits)
  have c2: "tx_closed t2" "tx_txHandle t2 = 0"
    using assms(1,3,5) by (auto simp: tx_Destroy_def split: prod.splits)
  show ?thesis
    using c1 c2
    by (simp add: closed_runs [OF c1 assms(6)] destroyed_runs [OF c2] tx_Call_def tx_Confirm_def tx_Submit_def tx_Destroy_def)
qed

theorem transaction_over_witness:
  "\<exists>(re :: unit rt_env) t1 t2 st. tx_runs re [TxSubmit, TxCall background [] VNil [], TxConfirm] (t1, st) = (t1, st) \<and>
     tx_runs re [TxSubmit, TxDestroy] (t2, st) = (t2, st) \<and> tx_Submit re t2 st = (Some None, t2, st) \<and>
     tx_txHandle t1 = 5 \<and> tx_txHandle t2 = 0"
proof -
  let ?tb = "\<lparr>tx_create = (\<lambda>_ _ _ s. (Ok 5, s)), tx_invoke = (\<lambda>_ _ _ _ _ _ s. (None, s)), tx_submit = (\<lambda>_ s. (None, s)),
      tx_confirm = (\<lambda>_ s. (None, s)), tx_destroy = (\<lambda>_ s. (Some ErrUnavailable, s))\<rparr> :: unit tx_ops"
  let ?re = "\<lparr>re_ops = unregisteredBackend\<lparr>bk_tx := Some ?tb\<rparr>, re_env = undefined, re_fo = undefined, re_tn = undefined\<rparr>"
  let ?st = "\<lparr>nw_bs = (), nw_listeners = [], nw_log = [], nw_maxTrace = 0\<rparr>"
  let ?t = "\<lparr>tx_conn = 1, tx_tid = [], tx_queue = [], tx_txHandle = 5, tx_closed = False\<rparr>"
  have "tx_Confirm ?re ?t ?st = (Some None, ?t\<lparr>tx_closed := True\<rparr>, ?st)"
    "\<exists>r. tx_Destroy ?re ?t ?st = (r, ?t\<lparr>tx_closed := True, tx_txHandle := 0\<rparr>, ?st)"
    by (simp_all add: tx_Confirm_def tx_Destroy_def with_bs_def map_err_def)
  then obtain r where c: "tx_Confirm ?re ?t ?st = (Some None, ?t\<lparr>tx_closed := True\<rparr>, ?st)"
    and d: "tx_Destroy ?re ?t ?st = (r, ?t\<lparr>tx_closed := True, tx_txHandle := 0\<rparr>, ?st)" by blast
  have p: "bk_tx (re_ops ?re) = Some ?tb" "\<not> tx_closed ?t" "tx_txHandle ?t \<noteq> 0" by simp_all
  have n: "TxDestroy \<notin> set [TxSubmit, TxCall background [] VNil [], TxConfirm]" by simp
  from transaction_over [OF p c d n, of undefined undefined undefined undefined "[TxSubmit, TxDestroy]"]
  show ?thesis
    by (intro exI [of _ ?re] exI [of _ "?t\<lparr>tx_closed := True\<rparr>"] exI [of _ "?t\<lparr>tx_closed := True, tx_txHandle := 0\<rparr>"] exI [of _ ?st])
      (simp del: tx_run.simps)
qed

end
