(* ===== verification/Sdk_C.thy ===== *)
theory Sdk_C
  imports Backend_Iface Timeext
begin

text \<open>
  The SAP NetWeaver RFC SDK as \<open>internal/sdkbackend\<close> calls it: a record of functions over an
  unknown C-side state \<open>'c\<close>, one per SDK entry point, and the fail-state actions the cgo code is
  written in. The SDK is not part of the repository, so nothing is assumed of it here; a handle is a
  number, a NULL result or a return code other than \<open>RFC_OK\<close> is \<open>Inl info\<close>. Go formatting of
  dynamic values that only enters messages (\<open>%T\<close>, \<open>%g\<close>, \<open>%v\<close>) and \<open>fmt.Stringer\<close> are in
  the same record. Running out of memory in \<open>mallocU\<close> is not modelled.

  Also here: \<open>errFromInfo\<close>, \<open>stringToSAPUC\<close>, \<open>sapUCNToString\<close> (\<open>errors.go\<close>,
  \<open>ucs.go\<close>) and the context helpers of \<open>cancel.go\<close>.
\<close>

section \<open>Actions\<close>

text \<open>How a Go function leaves early: with an error, by a panic, or (in the model) because the
  nesting bound is used up.\<close>

datatype fail = Fail goerr | Panic go_string | OutOfFuel

type_synonym ('c, 'a) act = "'c \<Rightarrow> (fail, 'a) result \<times> 'c"
type_synonym ('c, 'a) ccall = "'c \<Rightarrow> (sdk_error_info, 'a) result \<times> 'c"

definition ret :: "'a \<Rightarrow> ('c, 'a) act" where
  "ret a s = (Ok a, s)"

definition failA :: "fail \<Rightarrow> ('c, 'a) act" where
  "failA e s = (Err e, s)"

definition bindA :: "('c, 'a) act \<Rightarrow> ('a \<Rightarrow> ('c, 'b) act) \<Rightarrow> ('c, 'b) act" where
  "bindA m f s = (case m s of (Inl e, s') \<Rightarrow> (Err e, s') | (Inr a, s') \<Rightarrow> f a s')"

lemma act_simps [simp]:
  "ret a s = (Ok a, s)" "failA e s = (Err e, s)"
  by (simp_all add: ret_def failA_def)

lemma bindA_Inl: "m s = (Err e, s') \<Longrightarrow> bindA m f s = (Err e, s')"
  by (simp add: bindA_def)

lemma bindA_Inr: "m s = (Ok a, s') \<Longrightarrow> bindA m f s = f a s'"
  by (simp add: bindA_def)

lemma bindA_ret [simp]: "bindA (ret a) f = f a" "bindA (failA e) f = failA e"
  by (auto simp: bindA_def)

lemma bindA_assoc: "bindA (bindA m f) g = bindA m (\<lambda>a. bindA (f a) g)"
  by (auto simp: bindA_def split: prod.splits sum.splits)

lemma bindA_cong [fundef_cong]:
  "m = m' \<Longrightarrow> s = s' \<Longrightarrow> (\<And>a t. m' s' = (Ok a, t) \<Longrightarrow> f a t = g a t) \<Longrightarrow> bindA m f s = bindA m' g s'"
  by (auto simp: bindA_def split: prod.splits sum.splits)

text \<open>The fold over a list, from the first element on.\<close>

fun forA :: "('a \<Rightarrow> ('c, unit) act) \<Rightarrow> 'a list \<Rightarrow> ('c, unit) act" where
  "forA f [] = ret ()"
| "forA f (x # xs) = bindA (f x) (\<lambda>_. forA f xs)"

text \<open>\<open>keeps P m\<close>: the action keeps a predicate of the state, whatever it returns.\<close>

definition keeps :: "('c \<Rightarrow> bool) \<Rightarrow> ('c, 'a) act \<Rightarrow> bool" where
  "keeps P m \<longleftrightarrow> (\<forall>s. P s \<longrightarrow> P (snd (m s)))"

lemma keeps_ret [simp]: "keeps P (ret a)" "keeps P (failA e)"
  by (simp_all add: keeps_def)

lemma keeps_bind: "keeps P m \<Longrightarrow> (\<And>a. keeps P (f a)) \<Longrightarrow> keeps P (bindA m f)"
  by (fastforce simp: keeps_def bindA_def split: prod.splits sum.splits)

lemma keeps_forA: "(\<And>x. x \<in> set xs \<Longrightarrow> keeps P (f x)) \<Longrightarrow> keeps P (forA f xs)"
  by (induction xs) (auto intro: keeps_bind)

section \<open>The SDK\<close>

text \<open>\<open>RFC_PARAMETER_DESC\<close> and \<open>RFC_FIELD_DESC\<close>; names are decoded, a NULL type handle is 0.\<close>

record c_param =
  cp_name :: go_string
  cp_type :: rfc_type
  cp_direction :: nat
  cp_ucLength :: nat
  cp_decimals :: nat
  cp_optional :: nat
  cp_typeDesc :: nat

record c_field =
  cf_name :: go_string
  cf_type :: rfc_type
  cf_ucLength :: nat
  cf_decimals :: nat
  cf_ucOffset :: nat
  cf_typeDesc :: nat

type_synonym uc = "16 word list"

record 'c sdk =
  fmt_T :: "gval \<Rightarrow> go_string"
  fmt_g :: "gval \<Rightarrow> go_string"
  fmt_v :: "gval \<Rightarrow> go_string"
  fmt_Stringer :: "gval \<Rightarrow> go_string option"
  time_of :: "gval \<Rightarrow> civil option"
  time_err_text :: "time_err \<Rightarrow> go_string"
  RfcUTF8ToSAPUC :: "go_string \<Rightarrow> sdk_error_info option"
  RfcSAPUCToUTF8 :: "uc \<Rightarrow> (sdk_error_info, go_string) result"
  RfcOpenConnection :: "bparams \<Rightarrow> ('c, nat) ccall"
  RfcCloseConnection :: "nat \<Rightarrow> ('c, unit) ccall"
  RfcPing :: "bool \<Rightarrow> nat \<Rightarrow> ('c, unit) ccall"
  RfcResetServerContext :: "bool \<Rightarrow> nat \<Rightarrow> ('c, unit) ccall"
  RfcCancel :: "nat \<Rightarrow> ('c, unit) ccall"
  RfcGetConnectionAttributes :: "nat \<Rightarrow> ('c, attributes) ccall"
  RfcGetFunctionDesc :: "nat \<Rightarrow> go_string \<Rightarrow> ('c, nat) ccall"
  RfcRemoveFunctionDesc :: "go_string \<Rightarrow> go_string \<Rightarrow> ('c, unit) ccall"
  RfcCreateFunction :: "nat \<Rightarrow> ('c, nat) ccall"
  RfcDestroyFunction :: "nat \<Rightarrow> ('c, unit) ccall"
  RfcSetParameterActive :: "nat \<Rightarrow> go_string \<Rightarrow> ('c, unit) ccall"
  RfcInvoke :: "bool \<Rightarrow> nat \<Rightarrow> nat \<Rightarrow> ('c, unit) ccall"
  RfcGetParameterCount :: "nat \<Rightarrow> ('c, nat) ccall"
  RfcGetParameterDescByIndex :: "nat \<Rightarrow> nat \<Rightarrow> ('c, c_param) ccall"
  RfcGetParameterDescByName :: "nat \<Rightarrow> go_string \<Rightarrow> ('c, c_param) ccall"
  RfcGetTypeName :: "nat \<Rightarrow> ('c, go_string) ccall"
  RfcGetFieldCount :: "nat \<Rightarrow> ('c, nat) ccall"
  RfcGetFieldDescByIndex :: "nat \<Rightarrow> nat \<Rightarrow> ('c, c_field) ccall"
  RfcGetFieldDescByName :: "nat \<Rightarrow> go_string \<Rightarrow> ('c, c_field) ccall"
  RfcSetChars :: "nat \<Rightarrow> go_string \<Rightarrow> go_string \<Rightarrow> ('c, unit) ccall"
  RfcSetNum :: "nat \<Rightarrow> go_string \<Rightarrow> go_string \<Rightarrow> ('c, unit) ccall"
  RfcSetString :: "nat \<Rightarrow> go_string \<Rightarrow> go_string \<Rightarrow> ('c, unit) ccall"
  RfcSetDate :: "nat \<Rightarrow> go_string \<Rightarrow> go_string \<Rightarrow> ('c, unit) ccall"
  RfcSetTime :: "nat \<Rightarrow> go_string \<Rightarrow> go_string \<Rightarrow> ('c, unit) ccall"
  RfcSetBytes :: "nat \<Rightarrow> go_string \<Rightarrow> 8 word list \<Rightarrow> ('c, unit) ccall"
  RfcSetXString :: "nat \<Rightarrow> go_string \<Rightarrow> 8 word list \<Rightarrow> ('c, unit) ccall"
  RfcSetInt :: "nat \<Rightarrow> go_string \<Rightarrow> 32 word \<Rightarrow> ('c, unit) ccall"
  RfcGetStructure :: "nat \<Rightarrow> go_string \<Rightarrow> ('c, nat) ccall"
  RfcGetTable :: "nat \<Rightarrow> go_string \<Rightarrow> ('c, nat) ccall"
  RfcAppendNewRow :: "nat \<Rightarrow> ('c, nat) ccall"
  RfcGetChars :: "nat \<Rightarrow> go_string \<Rightarrow> nat \<Rightarrow> ('c, uc) ccall"
  RfcGetNum :: "nat \<Rightarrow> go_string \<Rightarrow> nat \<Rightarrow> ('c, uc) ccall"
  RfcGetStringLength :: "nat \<Rightarrow> go_string \<Rightarrow> ('c, nat) ccall"
  RfcGetString :: "nat \<Rightarrow> go_string \<Rightarrow> nat \<Rightarrow> ('c, uc) ccall"
  RfcGetInt :: "nat \<Rightarrow> go_string \<Rightarrow> ('c, 32 word) ccall"
  RfcGetBytes :: "nat \<Rightarrow> go_string \<Rightarrow> nat \<Rightarrow> ('c, 8 word list) ccall"
  RfcGetXString :: "nat \<Rightarrow> go_string \<Rightarrow> nat \<Rightarrow> ('c, 8 word list) ccall"
  RfcGetDate :: "nat \<Rightarrow> go_string \<Rightarrow> ('c, uc) ccall"
  RfcGetTime :: "nat \<Rightarrow> go_string \<Rightarrow> ('c, uc) ccall"
  RfcGetRowCount :: "nat \<Rightarrow> ('c, nat) ccall"
  RfcMoveToFirstRow :: "nat \<Rightarrow> ('c, unit) ccall"
  RfcMoveToNextRow :: "nat \<Rightarrow> ('c, unit) ccall"
  RfcGetCurrentRow :: "nat \<Rightarrow> ('c, nat) ccall"
  RfcCreateTransaction :: "nat \<Rightarrow> go_string \<Rightarrow> go_string option \<Rightarrow> ('c, nat) ccall"
  RfcInvokeInTransaction :: "bool \<Rightarrow> nat \<Rightarrow> nat \<Rightarrow> ('c, unit) ccall"
  RfcSubmitTransaction :: "nat \<Rightarrow> ('c, unit) ccall"
  RfcConfirmTransaction :: "nat \<Rightarrow> ('c, unit) ccall"
  RfcDestroyTransaction :: "nat \<Rightarrow> ('c, unit) ccall"
  RfcCreateUnit :: "nat \<Rightarrow> go_string \<Rightarrow> go_string list \<Rightarrow> ('c, nat \<times> unit_identifier) ccall"
  RfcInvokeInUnit :: "bool \<Rightarrow> nat \<Rightarrow> nat \<Rightarrow> ('c, unit) ccall"
  RfcSubmitUnit :: "nat \<Rightarrow> ('c, unit) ccall"
  RfcConfirmUnit :: "nat \<Rightarrow> unit_identifier \<Rightarrow> ('c, unit) ccall"
  RfcDestroyUnit :: "nat \<Rightarrow> ('c, unit) ccall"
  RfcGetUnitState :: "nat \<Rightarrow> unit_identifier \<Rightarrow> ('c, nat) ccall"
  RfcSetTraceLevel :: "nat \<Rightarrow> ('c, unit) ccall"
  RfcSetTraceDir :: "go_string \<Rightarrow> ('c, unit) ccall"

section \<open>Errors and strings\<close>

definition errFromInfo :: "sdk_error_info \<Rightarrow> go_string \<Rightarrow> goerr" where
  "errFromInfo info op = SDKErr op info"

text \<open>A call whose failure is returned as \<open>errFromInfo(&info, op)\<close>.\<close>

definition call :: "go_string \<Rightarrow> ('c, 'a) ccall \<Rightarrow> ('c, 'a) act" where
  "call op f s = (case f s of (Inl info, s') \<Rightarrow> (Err (Fail (errFromInfo info op)), s') | (Inr a, s') \<Rightarrow> (Ok a, s'))"

text \<open>The buffer itself is identified with the string it was made from; the empty string needs no
  conversion.\<close>

definition stringToSAPUC :: "'c sdk \<Rightarrow> go_string \<Rightarrow> ('c, go_string) act" where
  "stringToSAPUC k s =
     (if s = [] then ret []
      else case RfcUTF8ToSAPUC k s of
        Some info \<Rightarrow> failA (Fail (errFromInfo info ''RfcUTF8ToSAPUC''))
      | None \<Rightarrow> ret s)"

definition sapUCNToString :: "'c sdk \<Rightarrow> uc \<Rightarrow> ('c, go_string) act" where
  "sapUCNToString k u =
     (if u = [] then ret []
      else case RfcSAPUCToUTF8 k u of
        Inl info \<Rightarrow> failA (Fail (errFromInfo info ''RfcSAPUCToUTF8''))
      | Inr s \<Rightarrow> ret s)"

section \<open>Contexts\<close>

text \<open>\<open>withCancelWatcher\<close> calls \<open>RfcCancel\<close> while the SDK call is running when the context
  ends; the SDK functions that can be interrupted take that as their first argument.\<close>

definition watcher_fires :: "ctx \<Rightarrow> bool" where
  "watcher_fires c \<longleftrightarrow> ctx_err_after c \<noteq> None"

definition ctxErrorIfFired :: "ctx \<Rightarrow> go_string \<Rightarrow> goerr option" where
  "ctxErrorIfFired c op =
     (case ctx_err_after c of None \<Rightarrow> None
      | Some e \<Rightarrow> Some (WrapErr (op @ '': '') (if errors_Is e DeadlineExceeded then BkErrTimeout else BkErrCancelled)))"

text \<open>An interruptible call: its failure is the context's when the context has ended.\<close>

definition watched :: "ctx \<Rightarrow> go_string \<Rightarrow> (bool \<Rightarrow> ('c, 'a) ccall) \<Rightarrow> ('c, 'a) act" where
  "watched c op f s =
     (case f (watcher_fires c) s of
        (Inl info, s') \<Rightarrow> (Err (Fail (case ctxErrorIfFired c op of Some e \<Rightarrow> e | None \<Rightarrow> errFromInfo info op)), s')
      | (Inr a, s') \<Rightarrow> (Ok a, s'))"

definition check_ctx :: "ctx \<Rightarrow> ('c, unit) act" where
  "check_ctx c = (case ctx_err c of Some e \<Rightarrow> failA (Fail e) | None \<Rightarrow> ret ())"

lemma keeps_string [simp]: "keeps P (stringToSAPUC k s)" "keeps P (sapUCNToString k u)" "keeps P (check_ctx c)"
  by (auto simp: stringToSAPUC_def sapUCNToString_def check_ctx_def split: option.splits sum.splits)

lemma snd_call [simp]: "snd (call op f s) = snd (f s)"
  by (simp add: call_def split: prod.splits sum.splits)

lemma snd_watched [simp]: "snd (watched c op f s) = snd (f (watcher_fires c) s)"
  by (simp add: watched_def split: prod.splits sum.splits)

lemma keeps_call: "(\<And>s. P s \<Longrightarrow> P (snd (f s))) \<Longrightarrow> keeps P (call op f)"
  by (simp add: keeps_def)

lemma keeps_watched: "(\<And>b s. P s \<Longrightarrow> P (snd (f b s))) \<Longrightarrow> keeps P (watched c op f)"
  by (simp add: keeps_def)

end
