(* ===== verification/Sdk_Fill.thy ===== *)
theory Sdk_Fill
  imports Sdk_C
begin

text \<open>
  \<open>internal/sdkbackend/fill.go\<close>: writing Go values into an SDK container (a function, a structure
  or a table row). A Go map is filled in the order of its list, which stands for the iteration order;
  a panic of \<open>reflect\<close> is a value of the model. The lemmas show that the whole recursion keeps
  every predicate the SDK setters keep, and which values make it fail or panic.
\<close>

section \<open>Coercions\<close>

definition byte_val :: "gval \<Rightarrow> 8 word" where
  "byte_val v = (case v of VInt _ n \<Rightarrow> word_of_int n | _ \<Rightarrow> 0)"

text \<open>The type assertion \<open>value.([]byte)\<close>.\<close>

fun as_bytes :: "gval \<Rightarrow> 8 word list option" where
  "as_bytes (VSlice (TInt KUint8) None) = Some []"
| "as_bytes (VSlice (TInt KUint8) (Some vs)) = Some (map byte_val vs)"
| "as_bytes _ = None"

definition cannot_convert :: "'c sdk \<Rightarrow> gval \<Rightarrow> go_string \<Rightarrow> goerr" where
  "cannot_convert k v t = PlainErr (''cannot convert '' @ fmt_T k v @ '' to '' @ t)"

definition coerceToString :: "'c sdk \<Rightarrow> gval \<Rightarrow> (goerr, go_string) result" where
  "coerceToString k v =
     (case v of VString s \<Rightarrow> Ok s
      | _ \<Rightarrow> (case as_bytes v of
            Some bs \<Rightarrow> Ok (map (\<lambda>b. char_of (unat b)) bs)
          | None \<Rightarrow> (case fmt_Stringer k v of
                Some s \<Rightarrow> Ok s
              | None \<Rightarrow> (case raw v of
                    VInt _ n \<Rightarrow> Ok (show_int n)
                  | VFloat _ _ \<Rightarrow> Ok (fmt_g k v)
                  | _ \<Rightarrow> Err (cannot_convert k v ''string'')))))"

definition unsigned_kind :: "ikind \<Rightarrow> bool" where
  "unsigned_kind ik \<longleftrightarrow> ik \<in> {KUint, KUint8, KUint16, KUint32, KUint64}"

text \<open>\<open>rv.Int()\<close>, or \<open>int64(rv.Uint())\<close>.\<close>

definition coerceToInt64 :: "'c sdk \<Rightarrow> gval \<Rightarrow> (goerr, 64 word) result" where
  "coerceToInt64 k v =
     (case raw v of VInt _ n \<Rightarrow> Ok (word_of_int n) | _ \<Rightarrow> Err (cannot_convert k v ''int''))"

fun three_ints :: "gval list \<Rightarrow> int \<times> int \<times> int" where
  "three_ints [VInt _ a, VInt _ b, VInt _ c] = (a, b, c)"
| "three_ints _ = (0, 0, 0)"

fun struct_vals :: "gval \<Rightarrow> gval list" where
  "struct_vals (VStruct _ vs) = vs"
| "struct_vals _ = []"

definition as_date :: "gval \<Rightarrow> date option" where
  "as_date v = (if type_of v = date_type then
     (case three_ints (struct_vals (raw v)) of (y, m, d) \<Rightarrow>
        Some \<lparr>Year = word_of_int y, Month = word_of_int m, Day = word_of_int d\<rparr>) else None)"

definition as_time :: "gval \<Rightarrow> gtime option" where
  "as_time v = (if type_of v = time_type then
     (case three_ints (struct_vals (raw v)) of (h, m, s) \<Rightarrow>
        Some \<lparr>Hour = word_of_int h, Minute = word_of_int m, Second = word_of_int s\<rparr>) else None)"

definition lenient :: parse_options where
  "lenient = \<lparr>AllowZero = True, Strict = False\<rparr>"

definition coerceToDate :: "'c sdk \<Rightarrow> gval \<Rightarrow> (goerr, date) result" where
  "coerceToDate k v =
     (case as_date v of Some d \<Rightarrow> Ok d
      | None \<Rightarrow> (case time_of k v of
            Some t \<Rightarrow> Ok \<lparr>Year = of_nat (cYear t), Month = of_nat (cMonth t), Day = of_nat (cDay t)\<rparr>
          | None \<Rightarrow> (case v of
                VString s \<Rightarrow> (case ParseDate s lenient of
                    Inl e \<Rightarrow> Err (PlainErr (time_err_text k e)) | Inr d \<Rightarrow> Ok d)
              | _ \<Rightarrow> Err (cannot_convert k v ''Date''))))"

definition coerceToTime :: "'c sdk \<Rightarrow> gval \<Rightarrow> (goerr, gtime) result" where
  "coerceToTime k v =
     (case as_time v of Some t \<Rightarrow> Ok t
      | None \<Rightarrow> (case time_of k v of
            Some t \<Rightarrow> Ok \<lparr>Hour = of_nat (cHour t), Minute = of_nat (cMin t), Second = of_nat (cSec t)\<rparr>
          | None \<Rightarrow> (case v of
                VString s \<Rightarrow> (case ParseTime s lenient of
                    Inl e \<Rightarrow> Err (PlainErr (time_err_text k e)) | Inr t \<Rightarrow> Ok t)
              | _ \<Rightarrow> Err (cannot_convert k v ''Time''))))"

section \<open>Scalars\<close>

definition fail_marshal :: "'c sdk \<Rightarrow> go_string \<Rightarrow> gval \<Rightarrow> go_string \<Rightarrow> goerr \<Rightarrow> ('c, 'a) act" where
  "fail_marshal k field v t e = failA (Fail (errMarshal field (fmt_T k v) t (Some e)))"

definition fillStringLike :: "'c sdk \<Rightarrow> rfc_type \<Rightarrow> nat \<Rightarrow> go_string \<Rightarrow> go_string \<Rightarrow> go_string \<Rightarrow> ('c, unit) act" where
  "fillStringLike k t container cName s field =
     bindA (stringToSAPUC k s) (\<lambda>uc. call (''RfcSet*('' @ field @ '')'')
       (if t = TypeChar then RfcSetChars k container cName uc
        else if t = TypeNum then RfcSetNum k container cName uc
        else RfcSetString k container cName uc))"

definition fill_string :: "'c sdk \<Rightarrow> rfc_type \<Rightarrow> nat \<Rightarrow> go_string \<Rightarrow> gval \<Rightarrow> go_string \<Rightarrow> ('c, unit) act" where
  "fill_string k t container cName v field =
     (case coerceToString k v of
        Inl e \<Rightarrow> fail_marshal k field v (rfc_type_String t) e
      | Inr s \<Rightarrow> fillStringLike k t container cName s field)"

text \<open>An empty byte slice writes nothing.\<close>

definition fill_bytes :: "'c sdk \<Rightarrow> rfc_type \<Rightarrow> nat \<Rightarrow> go_string \<Rightarrow> gval \<Rightarrow> go_string \<Rightarrow> ('c, unit) act" where
  "fill_bytes k t container cName v field =
     (case as_bytes v of
        None \<Rightarrow> fail_marshal k field v (rfc_type_String t) (PlainErr ''expected []byte'')
      | Some bs \<Rightarrow>
          if bs = [] then ret ()
          else call (''RfcSetBytes/XString('' @ field @ '')'')
            (if t = TypeByte then RfcSetBytes k container cName bs else RfcSetXString k container cName bs))"

text \<open>The conversion \<open>C.RFC_INT(n)\<close> keeps the low 32 bits.\<close>

definition fill_int :: "'c sdk \<Rightarrow> rfc_type \<Rightarrow> nat \<Rightarrow> go_string \<Rightarrow> gval \<Rightarrow> go_string \<Rightarrow> ('c, unit) act" where
  "fill_int k t container cName v field =
     (case coerceToInt64 k v of
        Inl e \<Rightarrow> fail_marshal k field v (rfc_type_String t) e
      | Inr n \<Rightarrow> call (''RfcSetInt('' @ field @ '')'') (RfcSetInt k container cName (ucast n)))"

definition fill_date :: "'c sdk \<Rightarrow> nat \<Rightarrow> go_string \<Rightarrow> gval \<Rightarrow> go_string \<Rightarrow> ('c, unit) act" where
  "fill_date k container cName v field =
     (case coerceToDate k v of
        Inl e \<Rightarrow> fail_marshal k field v ''RFCTYPE_DATE'' e
      | Inr d \<Rightarrow> bindA (stringToSAPUC k (FormatDate d))
          (\<lambda>uc. call (''RfcSetDate('' @ field @ '')'') (RfcSetDate k container cName uc)))"

definition fill_time :: "'c sdk \<Rightarrow> nat \<Rightarrow> go_string \<Rightarrow> gval \<Rightarrow> go_string \<Rightarrow> ('c, unit) act" where
  "fill_time k container cName v field =
     (case coerceToTime k v of
        Inl e \<Rightarrow> fail_marshal k field v ''RFCTYPE_TIME'' e
      | Inr t \<Rightarrow> bindA (stringToSAPUC k (FormatTime t))
          (\<lambda>uc. call (''RfcSetTime('' @ field @ '')'') (RfcSetTime k container cName uc)))"

section \<open>The recursion\<close>

definition string_types :: "rfc_type list" where
  "string_types = [TypeChar, TypeString, TypeNum, TypeBCD, TypeFloat, TypeDecF16, TypeDecF34, TypeUTCLong]"

definition int_types :: "rfc_type list" where
  "int_types = [TypeInt1, TypeInt2, TypeInt, TypeInt8]"

lemma size_raw: "size (raw v) \<le> size v"
  by (induction v) auto

text \<open>\<open>v.Type()\<close> of the zero \<open>reflect.Value\<close> panics.\<close>

definition wrong_kind :: "'c sdk \<Rightarrow> gval \<Rightarrow> go_string \<Rightarrow> go_string \<Rightarrow> go_string \<Rightarrow> ('c, 'a) act" where
  "wrong_kind k v field t what =
     (if v = VNil then failA (Panic ''reflect: call of reflect.Value.Type on zero Value'')
      else failA (Fail (errMarshal field (fmt_T k v) t (Some (PlainErr what)))))"

function (sequential)
    fillVariable :: "'c sdk \<Rightarrow> rfc_type \<Rightarrow> nat \<Rightarrow> go_string \<Rightarrow> gval \<Rightarrow> nat \<Rightarrow> go_string \<Rightarrow> ('c, unit) act"
and fillStructure :: "'c sdk \<Rightarrow> nat \<Rightarrow> nat \<Rightarrow> gval \<Rightarrow> go_string \<Rightarrow> ('c, unit) act"
and fill_map :: "'c sdk \<Rightarrow> nat \<Rightarrow> nat \<Rightarrow> (gval \<times> gval) list \<Rightarrow> go_string \<Rightarrow> gval \<Rightarrow> ('c, unit) act"
and fill_struct :: "'c sdk \<Rightarrow> nat \<Rightarrow> nat \<Rightarrow> (go_string \<times> go_string \<times> bool \<times> bool \<times> gtype) list \<Rightarrow> gval list \<Rightarrow> ('c, unit) act"
and fillStructureField :: "'c sdk \<Rightarrow> nat \<Rightarrow> nat \<Rightarrow> go_string \<Rightarrow> gval \<Rightarrow> ('c, unit) act"
and fillTable :: "'c sdk \<Rightarrow> nat \<Rightarrow> nat \<Rightarrow> gval \<Rightarrow> go_string \<Rightarrow> ('c, unit) act"
and fill_rows :: "'c sdk \<Rightarrow> nat \<Rightarrow> nat \<Rightarrow> gval list \<Rightarrow> go_string \<Rightarrow> ('c, unit) act"
where
  "fillVariable k t container cName v td field =
     (if t \<in> set string_types then fill_string k t container cName v field
      else if t = TypeByte \<or> t = TypeXString then fill_bytes k t container cName v field
      else if t \<in> set int_types then fill_int k t container cName v field
      else if t = TypeDate then fill_date k container cName v field
      else if t = TypeTime then fill_time k container cName v field
      else if t = TypeStructure then
        bindA (call (''RfcGetStructure('' @ field @ '')'') (RfcGetStructure k container cName))
          (\<lambda>sub. fillStructure k td sub v field)
      else if t = TypeTable then
        bindA (call (''RfcGetTable('' @ field @ '')'') (RfcGetTable k container cName))
          (\<lambda>tbl. fillTable k td tbl v field)
      else fail_marshal k field v (rfc_type_String t) ErrUnknownType)"
| "fillStructure k td sub v parent =
     (case raw v of
        VMap _ _ (Some kvs) \<Rightarrow> fill_map k td sub kvs parent v
      | VMap _ _ None \<Rightarrow> ret ()
      | VStruct fs vs \<Rightarrow> fill_struct k td sub fs vs
      | _ \<Rightarrow> wrong_kind k v parent ''RFCTYPE_STRUCTURE'' ''expected map or struct'')"
| "fill_map k td sub [] parent v = ret ()"
| "fill_map k td sub ((key, x) # kvs) parent v =
     (case raw key of
        VString name \<Rightarrow> bindA (fillStructureField k td sub name x) (\<lambda>_. fill_map k td sub kvs parent v)
      | _ \<Rightarrow> failA (Fail (errMarshal parent (fmt_T k v) ''RFCTYPE_STRUCTURE'' (Some (PlainErr (''non-string key '' @ fmt_v k key))))))"
| "fill_struct k td sub ((name, tag, exported, emb, t) # fs) (x # vs) =
     (if \<not> exported then failA (Panic ''reflect.Value.Interface: cannot return value obtained from unexported field or method'')
      else bindA (fillStructureField k td sub (if tag \<noteq> [] then tag else name) x)
             (\<lambda>_. fill_struct k td sub fs vs))"
| "fill_struct k td sub _ _ = ret ()"
| "fillStructureField k td sub name x =
     bindA (stringToSAPUC k name) (\<lambda>uc.
     bindA (call (''RfcGetFieldDescByName('' @ name @ '')'') (RfcGetFieldDescByName k td uc)) (\<lambda>fd.
       fillVariable k (cf_type fd) sub (cf_name fd) x (cf_typeDesc fd) name))"
| "fillTable k td tbl v parent =
     (case raw v of
        VSlice _ (Some vs) \<Rightarrow> fill_rows k td tbl vs parent
      | VSlice _ None \<Rightarrow> ret ()
      | VArray _ vs \<Rightarrow> fill_rows k td tbl vs parent
      | _ \<Rightarrow> wrong_kind k v parent ''RFCTYPE_TABLE'' ''expected slice/array'')"
| "fill_rows k td tbl [] parent = ret ()"
| "fill_rows k td tbl (x # vs) parent =
     bindA (call ''RfcAppendNewRow'' (RfcAppendNewRow k tbl)) (\<lambda>row.
     bindA (fillStructure k td row x parent) (\<lambda>_. fill_rows k td tbl vs parent))"
  by pat_completeness auto

text \<open>The value shrinks on the way from a container to its components.\<close>

fun fill_measure where
  "fill_measure (Inl (Inl (k, t, container, cName, v, td, field))) = 4 * size v + 3"
| "fill_measure (Inl (Inr (Inl (k, td, sub, v, parent)))) = 4 * size v + 2"
| "fill_measure (Inl (Inr (Inr (k, td, sub, kvs, parent, v)))) = 4 * size_list (size_prod size size) kvs"
| "fill_measure (Inr (Inl (Inl (k, td, sub, fs, vs)))) = 4 * size_list size vs + 1"
| "fill_measure (Inr (Inl (Inr (k, td, sub, name, x)))) = 4 * size x + 4"
| "fill_measure (Inr (Inr (Inl (k, td, tbl, v, parent)))) = 4 * size v + 2"
| "fill_measure (Inr (Inr (Inr (k, td, tbl, vs, parent)))) = 4 * size_list size vs"

lemma fill_measure_parts:
  "raw v = VMap a b (Some kvs) \<Longrightarrow> size_list (size_prod size size) kvs < size v"
  "raw v = VStruct fs vs \<Longrightarrow> size_list size vs < size v"
  "raw v = VSlice a (Some vs) \<Longrightarrow> size_list size vs < size v"
  "raw v = VArray a vs \<Longrightarrow> size_list size vs < size v"
  using size_raw [of v] by auto

termination fillVariable
  by (relation "measure fill_measure") (auto dest!: fill_measure_parts)

declare fillVariable.simps [simp del] fillStructure.simps [simp del] fillTable.simps [simp del]
  fillStructureField.simps [simp del]

lemmas fill_induct = fillVariable_fillStructure_fill_map_fill_struct_fillStructureField_fillTable_fill_rows.induct

section \<open>What filling keeps\<close>

text \<open>The setters, getters of parts and row appenders keep \<open>P\<close>.\<close>

definition container_keeps :: "'c sdk \<Rightarrow> ('c \<Rightarrow> bool) \<Rightarrow> bool" where
  "container_keeps k P \<longleftrightarrow>
     (\<forall>s. P s \<longrightarrow>
       (\<forall>h n x. P (snd (RfcSetChars k h n x s)) \<and> P (snd (RfcSetNum k h n x s)) \<and> P (snd (RfcSetString k h n x s)) \<and>
          P (snd (RfcSetDate k h n x s)) \<and> P (snd (RfcSetTime k h n x s))) \<and>
       (\<forall>h n b. P (snd (RfcSetBytes k h n b s)) \<and> P (snd (RfcSetXString k h n b s))) \<and>
       (\<forall>h n i. P (snd (RfcSetInt k h n i s))) \<and>
       (\<forall>h n. P (snd (RfcGetStructure k h n s)) \<and> P (snd (RfcGetTable k h n s)) \<and>
          P (snd (RfcGetFieldDescByName k h n s)) \<and> P (snd (RfcGetParameterDescByName k h n s))) \<and>
       (\<forall>h. P (snd (RfcAppendNewRow k h s))))"

lemma keeps_scalars:
  assumes "container_keeps k P"
  shows "keeps P (fill_string k t h n v f)" "keeps P (fill_bytes k t h n v f)" "keeps P (fill_int k t h n v f)"
    "keeps P (fill_date k h n v f)" "keeps P (fill_time k h n v f)" "keeps P (fail_marshal k f v tx e)"
    "keeps P (wrong_kind k v f tx w)"
  using assms
  by (auto simp: fill_string_def fillStringLike_def fill_bytes_def fill_int_def fill_date_def fill_time_def
      fail_marshal_def wrong_kind_def container_keeps_def intro!: keeps_bind keeps_call split: sum.splits option.splits)


lemma keeps_container_calls:
  assumes "container_keeps k P"
  shows "keeps P (call op (RfcGetStructure k h n))" "keeps P (call op (RfcGetTable k h n))"
    "keeps P (call op (RfcGetFieldDescByName k h n))" "keeps P (call op (RfcGetParameterDescByName k h n))"
    "keeps P (call op (RfcAppendNewRow k h))"
  using assms by (auto simp: container_keeps_def intro!: keeps_call)

lemma keeps_fill:
  assumes "container_keeps k P"
  shows "keeps P (fillVariable k t container cName v td field)"
    and "keeps P (fillStructure k td sub v parent)"
    and "keeps P (fill_map k td sub kvs parent v)"
    and "keeps P (fill_struct k td sub fs vs)"
    and "keeps P (fillStructureField k td sub name x)"
    and "keeps P (fillTable k td tbl v parent)"
    and "keeps P (fill_rows k td tbl vs parent)"
  using assms
proof (induction k t container cName v td field and k td sub v parent and k td sub kvs parent v and
    k td sub fs vs and k td sub name x and k td tbl v parent and k td tbl vs parent rule: fill_induct)
  case (1 k t container cName v td field)
  then show ?case by (auto simp: fillVariable.simps intro!: keeps_bind keeps_scalars keeps_container_calls)
next
  case (2 k td sub v parent)
  then show ?case by (auto simp: fillStructure.simps keeps_scalars split: gval.splits option.splits)
next
  case (4 k td sub key x kvs parent v)
  then show ?case by (auto intro!: keeps_bind split: gval.splits)
next
  case (5 k td sub name tag exported emb t fs x vs)
  then show ?case by (auto intro!: keeps_bind)
next
  case (7 k td sub name x)
  then show ?case by (auto simp: fillStructureField.simps intro!: keeps_bind keeps_container_calls)
next
  case (8 k td tbl v parent)
  then show ?case by (auto simp: fillTable.simps keeps_scalars split: gval.splits option.splits)
next
  case (10 k td tbl x vs parent)
  then show ?case by (auto intro!: keeps_bind keeps_container_calls)
qed simp_all

section \<open>Parameters\<close>

definition fillFunctionParameter :: "'c sdk \<Rightarrow> nat \<Rightarrow> nat \<Rightarrow> go_string \<Rightarrow> gval \<Rightarrow> ('c, unit) act" where
  "fillFunctionParameter k fh desc name v =
     bindA (stringToSAPUC k name) (\<lambda>uc.
     bindA (call (''RfcGetParameterDescByName('' @ name @ '')'') (RfcGetParameterDescByName k desc uc)) (\<lambda>pd.
       fillVariable k (cp_type pd) fh (cp_name pd) v (cp_typeDesc pd) name))"

definition fillFunctionParameters :: "'c sdk \<Rightarrow> nat \<Rightarrow> nat \<Rightarrow> call_params \<Rightarrow> ('c, unit) act" where
  "fillFunctionParameters k fh desc i = forA (\<lambda>(name, v). fillFunctionParameter k fh desc name v) i"

lemma keeps_fill_params: "container_keeps k P \<Longrightarrow> keeps P (fillFunctionParameters k fh desc i)"
  unfolding fillFunctionParameters_def fillFunctionParameter_def
  by (rule keeps_forA) (auto intro!: keeps_bind keeps_container_calls keeps_fill)

section \<open>Properties\<close>

text \<open>A nil value for an ABAP structure or table (what the marshaller makes of a nil pointer
  field) panics instead of returning an error, once the SDK has handed out the sub-container.\<close>

theorem fill_nil_panics:
  assumes "RfcGetStructure k container cName s = (Ok sub, s')" and "RfcGetTable k container cName s = (Ok tbl, s'')"
  shows "\<exists>m. fillVariable k TypeStructure container cName VNil td field s = (Err (Panic m), s') \<and>
    fillVariable k TypeTable container cName VNil td field s = (Err (Panic m), s'')"
  using assms
  by (simp add: fillVariable.simps fillStructure.simps fillTable.simps string_types_def int_types_def
      bindA_def call_def wrong_kind_def)

lemma fill_nil_panics_witness:
  "\<exists>m. fst (fillVariable ((undefined :: unit sdk)\<lparr>RfcGetStructure := \<lambda>_ _ s. (Ok 2, s), RfcGetTable := \<lambda>_ _ s. (Ok 3, s)\<rparr>)
     TypeStructure 1 ''ADDRESS'' VNil 9 ''ADDRESS'' ()) = Err (Panic m)"
proof -
  let ?k = "(undefined :: unit sdk)\<lparr>RfcGetStructure := \<lambda>_ _ s. (Ok 2, s), RfcGetTable := \<lambda>_ _ s. (Ok 3, s)\<rparr>"
  have "RfcGetStructure ?k 1 ''ADDRESS'' () = (Ok 2, ())" "RfcGetTable ?k 1 ''ADDRESS'' () = (Ok 3, ())" by simp_all
  from fill_nil_panics [OF this, of 9 "''ADDRESS''"] show ?thesis by force
qed

end
