(* ===== verification/Sdk_Wrap.thy ===== *)
theory Sdk_Wrap
  imports Sdk_Fill
begin

text \<open>
  \<open>internal/sdkbackend/wrap.go\<close> and \<open>describe.go\<close>: reading an SDK container into Go values and
  the SDK's metadata into descriptors. Both follow type handles of the SDK, so the model bounds the
  nesting by a fuel; \<open>OutOfFuel\<close> is returned only when it is used up, and the lemmas show that a
  fuel above the nesting depth of the type is enough.
\<close>

section \<open>Scalars\<close>

definition bytes_val :: "8 word list \<Rightarrow> gval" where
  "bytes_val bs = VSlice (TInt KUint8) (Some (map (\<lambda>b. VInt KUint8 (uint b)) bs))"

fun struct_fields :: "gtype \<Rightarrow> (go_string \<times> go_string \<times> bool \<times> bool \<times> gtype) list" where
  "struct_fields (TNamed _ t) = struct_fields t"
| "struct_fields (TStruct fs) = fs"
| "struct_fields _ = []"

definition date_val :: "date \<Rightarrow> gval" where
  "date_val d = VNamed ''backend.Date'' (VStruct (struct_fields date_type)
     [VInt KUint16 (uint (Year d)), VInt KUint16 (uint (Month d)), VInt KUint16 (uint (Day d))])"

definition time_val :: "gtime \<Rightarrow> gval" where
  "time_val t = VNamed ''backend.Time'' (VStruct (struct_fields time_type)
     [VInt KUint8 (uint (Hour t)), VInt KUint8 (uint (Minute t)), VInt KUint8 (uint (Second t))])"

lemma as_date_val [simp]: "as_date (date_val d) = Some d"
  by (simp add: as_date_def date_val_def date_type_def)

lemma as_time_val [simp]: "as_time (time_val t) = Some t"
  by (simp add: as_time_def time_val_def time_type_def)

definition trimTrailing :: "go_string \<Rightarrow> go_string" where
  "trimTrailing s = trim_right_bytes {CHR '' '', CHR 0x00} s"

definition wants_rstrip :: "invoke_options \<Rightarrow> bool" where
  "wants_rstrip opt = (case RStripOpt opt of None \<Rightarrow> True | Some b \<Rightarrow> b)"

definition wrap_chars :: "'c sdk \<Rightarrow> nat \<Rightarrow> go_string \<Rightarrow> nat \<Rightarrow> invoke_options \<Rightarrow> go_string \<Rightarrow> ('c, gval) act" where
  "wrap_chars k h n ucLength opt field =
     bindA (call (''RfcGetChars('' @ field @ '')'') (RfcGetChars k h n ucLength)) (\<lambda>buf.
     bindA (sapUCNToString k (take ucLength buf)) (\<lambda>s.
       ret (VString (if wants_rstrip opt then trimTrailing s else s))))"

definition wrap_num :: "'c sdk \<Rightarrow> nat \<Rightarrow> go_string \<Rightarrow> nat \<Rightarrow> go_string \<Rightarrow> ('c, gval) act" where
  "wrap_num k h n ucLength field =
     bindA (call (''RfcGetNum('' @ field @ '')'') (RfcGetNum k h n ucLength)) (\<lambda>buf.
     bindA (sapUCNToString k (take ucLength buf)) (\<lambda>s. ret (VString s)))"

definition wrap_string :: "'c sdk \<Rightarrow> nat \<Rightarrow> go_string \<Rightarrow> go_string \<Rightarrow> ('c, gval) act" where
  "wrap_string k h n field =
     bindA (call (''RfcGetStringLength('' @ field @ '')'') (RfcGetStringLength k h n)) (\<lambda>len.
     bindA (call (''RfcGetString('' @ field @ '')'') (RfcGetString k h n (len + 1))) (\<lambda>buf.
     bindA (sapUCNToString k buf) (\<lambda>s. ret (VString s))))"

definition wrap_int :: "'c sdk \<Rightarrow> nat \<Rightarrow> go_string \<Rightarrow> go_string \<Rightarrow> ('c, gval) act" where
  "wrap_int k h n field =
     bindA (call (''RfcGetInt('' @ field @ '')'') (RfcGetInt k h n)) (\<lambda>i. ret (VInt KInt64 (sint i)))"

definition wrap_bytes :: "'c sdk \<Rightarrow> rfc_type \<Rightarrow> nat \<Rightarrow> go_string \<Rightarrow> nat \<Rightarrow> go_string \<Rightarrow> ('c, gval) act" where
  "wrap_bytes k t h n ucLength field =
     bindA (if t = TypeXString then call (''RfcGetStringLength('' @ field @ '')'') (RfcGetStringLength k h n)
            else ret ucLength) (\<lambda>len.
       if len = 0 then ret (bytes_val [])
       else bindA (call (''RfcGetBytes/XString('' @ field @ '')'')
              (if t = TypeByte then RfcGetBytes k h n len else RfcGetXString k h n len))
            (\<lambda>bs. ret (bytes_val (take len bs))))"

definition wrap_date :: "'c sdk \<Rightarrow> nat \<Rightarrow> go_string \<Rightarrow> invoke_options \<Rightarrow> go_string \<Rightarrow> ('c, gval) act" where
  "wrap_date k h n opt field =
     bindA (call (''RfcGetDate('' @ field @ '')'') (RfcGetDate k h n)) (\<lambda>buf.
     bindA (sapUCNToString k (take 8 buf)) (\<lambda>s.
       case ParseDate s \<lparr>AllowZero = AllowZeroDate opt, Strict = CheckDate opt\<rparr> of
         Inl e \<Rightarrow> failA (Fail (errMarshal field ''string'' ''RFCTYPE_DATE'' (Some (PlainErr (time_err_text k e)))))
       | Inr d \<Rightarrow> ret (date_val d)))"

definition wrap_time :: "'c sdk \<Rightarrow> nat \<Rightarrow> go_string \<Rightarrow> invoke_options \<Rightarrow> go_string \<Rightarrow> ('c, gval) act" where
  "wrap_time k h n opt field =
     bindA (call (''RfcGetTime('' @ field @ '')'') (RfcGetTime k h n)) (\<lambda>buf.
     bindA (sapUCNToString k (take 6 buf)) (\<lambda>s.
       case ParseTime s \<lparr>AllowZero = AllowZeroTime opt, Strict = CheckTime opt\<rparr> of
         Inl e \<Rightarrow> failA (Fail (errMarshal field ''string'' ''RFCTYPE_TIME'' (Some (PlainErr (time_err_text k e)))))
       | Inr t \<Rightarrow> ret (time_val t)))"

section \<open>The recursion\<close>

definition rows_val :: "call_params list \<Rightarrow> gval" where
  "rows_val ms = VSlice (TMap TString TIface) (Some (map any_map ms))"

function (sequential)
    wrapVariable :: "'c sdk \<Rightarrow> nat \<Rightarrow> rfc_type \<Rightarrow> nat \<Rightarrow> go_string \<Rightarrow> nat \<Rightarrow> nat \<Rightarrow> invoke_options \<Rightarrow> go_string \<Rightarrow> ('c, gval) act"
and wrapStructure :: "'c sdk \<Rightarrow> nat \<Rightarrow> nat \<Rightarrow> nat \<Rightarrow> invoke_options \<Rightarrow> go_string \<Rightarrow> ('c, call_params) act"
and wrap_fields :: "'c sdk \<Rightarrow> nat \<Rightarrow> nat \<Rightarrow> nat \<Rightarrow> invoke_options \<Rightarrow> nat list \<Rightarrow> call_params \<Rightarrow> ('c, call_params) act"
and wrapTable :: "'c sdk \<Rightarrow> nat \<Rightarrow> nat \<Rightarrow> nat \<Rightarrow> invoke_options \<Rightarrow> go_string \<Rightarrow> ('c, call_params list) act"
and wrap_rows :: "'c sdk \<Rightarrow> nat \<Rightarrow> nat \<Rightarrow> nat \<Rightarrow> invoke_options \<Rightarrow> go_string \<Rightarrow> nat \<Rightarrow> call_params list \<Rightarrow> ('c, call_params list) act"
where
  "wrapVariable k n t h cName ucLength td opt field =
     (if t = TypeChar then wrap_chars k h cName ucLength opt field
      else if t = TypeNum then wrap_num k h cName ucLength field
      else if t \<in> set string_types then wrap_string k h cName field
      else if t \<in> set int_types then wrap_int k h cName field
      else if t = TypeByte \<or> t = TypeXString then wrap_bytes k t h cName ucLength field
      else if t = TypeDate then wrap_date k h cName opt field
      else if t = TypeTime then wrap_time k h cName opt field
      else if t = TypeStructure then
        bindA (call (''RfcGetStructure('' @ field @ '')'') (RfcGetStructure k h cName)) (\<lambda>sub.
          case n of 0 \<Rightarrow> failA OutOfFuel
          | Suc m \<Rightarrow> bindA (wrapStructure k m td sub opt field) (\<lambda>r. ret (any_map r)))
      else if t = TypeTable then
        bindA (call (''RfcGetTable('' @ field @ '')'') (RfcGetTable k h cName)) (\<lambda>tbl.
          case n of 0 \<Rightarrow> failA OutOfFuel
          | Suc m \<Rightarrow> bindA (wrapTable k m td tbl opt field) (\<lambda>rs. ret (rows_val rs)))
      else failA (Fail (errMarshal field ''?'' (rfc_type_String t) None)))"
| "wrapStructure k n td sub opt parent =
     bindA (call ''RfcGetFieldCount'' (RfcGetFieldCount k td)) (\<lambda>cnt.
       wrap_fields k n td sub opt [0..<cnt] [])"
| "wrap_fields k n td sub opt [] out = ret out"
| "wrap_fields k n td sub opt (i # idxs) out =
     bindA (call ''RfcGetFieldDescByIndex'' (RfcGetFieldDescByIndex k td i)) (\<lambda>fd.
     bindA (wrapVariable k n (cf_type fd) sub (cf_name fd) (cf_ucLength fd) (cf_typeDesc fd) opt (cf_name fd))
       (\<lambda>v. wrap_fields k n td sub opt idxs (map_set (cf_name fd) v out)))"
| "wrapTable k n td tbl opt parent =
     bindA (call ''RfcGetRowCount'' (RfcGetRowCount k tbl)) (\<lambda>cnt.
       if cnt = 0 then ret []
       else bindA (call ''RfcMoveToFirstRow'' (RfcMoveToFirstRow k tbl)) (\<lambda>_.
         wrap_rows k n td tbl opt parent cnt []))"
| "wrap_rows k n td tbl opt parent 0 out = ret out"
| "wrap_rows k n td tbl opt parent (Suc left) out =
     bindA (call ''RfcGetCurrentRow'' (RfcGetCurrentRow k tbl)) (\<lambda>row.
     bindA (wrapStructure k n td row opt parent) (\<lambda>m.
     bindA (if left > 0 then call ''RfcMoveToNextRow'' (RfcMoveToNextRow k tbl) else ret ()) (\<lambda>_.
       wrap_rows k n td tbl opt parent left (out @ [m]))))"
  by pat_completeness auto

text \<open>The fuel drops where a type handle is followed; within one level the lists get shorter.\<close>

fun wrap_measure where
  "wrap_measure (Inl (Inl (k, n, t, h, cName, ucLength, td, opt, field))) = (n :: nat, 0 :: nat, 0 :: nat)"
| "wrap_measure (Inl (Inr (k, n, td, sub, opt, parent))) = (n, 2, 0)"
| "wrap_measure (Inr (Inl (k, n, td, sub, opt, idxs, out))) = (n, 1, length idxs)"
| "wrap_measure (Inr (Inr (Inl (k, n, td, tbl, opt, parent)))) = (n, 4, 0)"
| "wrap_measure (Inr (Inr (Inr (k, n, td, tbl, opt, parent, left, out)))) = (n, 3, left)"

termination wrapVariable
  by (relation "inv_image (less_than <*lex*> less_than <*lex*> less_than) wrap_measure") auto

declare wrapVariable.simps [simp del] wrapStructure.simps [simp del] wrapTable.simps [simp del]

lemmas wrap_induct = wrapVariable_wrapStructure_wrap_fields_wrapTable_wrap_rows.induct

section \<open>Parameters\<close>

text \<open>\<open>RFC_DIRECTION\<close>: 1 import, 2 export, 3 changing, 7 tables.\<close>

definition convertDirection :: "nat \<Rightarrow> direction" where
  "convertDirection d =
     (if d = 1 then DirImport else if d = 2 then DirExport else if d = 3 then DirChanging
      else if d = 7 then DirTables else 0)"

fun wrap_params :: "'c sdk \<Rightarrow> nat \<Rightarrow> nat \<Rightarrow> nat \<Rightarrow> invoke_options \<Rightarrow> direction \<Rightarrow> nat list \<Rightarrow> call_params \<Rightarrow> ('c, call_params) act" where
  "wrap_params k n fh desc opt want [] out = ret out"
| "wrap_params k n fh desc opt want (i # idxs) out =
     bindA (call ''RfcGetParameterDescByIndex'' (RfcGetParameterDescByIndex k desc i)) (\<lambda>pd.
       if \<not> dir_bit want (convertDirection (cp_direction pd)) then wrap_params k n fh desc opt want idxs out
       else bindA (wrapVariable k n (cp_type pd) fh (cp_name pd) (cp_ucLength pd) (cp_typeDesc pd) opt (cp_name pd))
         (\<lambda>v. wrap_params k n fh desc opt want idxs (map_set (cp_name pd) v out)))"

definition wrapFunctionParameters :: "'c sdk \<Rightarrow> nat \<Rightarrow> nat \<Rightarrow> nat \<Rightarrow> invoke_options \<Rightarrow> ('c, call_params) act" where
  "wrapFunctionParameters k n fh desc opt =
     bindA (call ''RfcGetParameterCount'' (RfcGetParameterCount k desc)) (\<lambda>cnt.
       wrap_params k n fh desc opt (if DirectionFilter opt = 0 then DirAllResults else DirectionFilter opt) [0..<cnt] [])"

section \<open>Metadata\<close>

fun wrapTypeDesc :: "'c sdk \<Rightarrow> nat \<Rightarrow> nat \<Rightarrow> ('c, type_desc) act"
and wrap_type_fields :: "'c sdk \<Rightarrow> nat \<Rightarrow> nat \<Rightarrow> nat list \<Rightarrow> field_desc list \<Rightarrow> ('c, field_desc list) act" where
  "wrapTypeDesc k 0 td = failA OutOfFuel"
| "wrapTypeDesc k (Suc n) td =
     bindA (call ''RfcGetTypeName'' (RfcGetTypeName k td)) (\<lambda>name.
     bindA (call ''RfcGetFieldCount'' (RfcGetFieldCount k td)) (\<lambda>cnt.
     bindA (wrap_type_fields k n td [0..<cnt] []) (\<lambda>fs. ret (TypeDesc name fs))))"
| "wrap_type_fields k n td [] out = ret out"
| "wrap_type_fields k n td (i # idxs) out =
     bindA (call ''RfcGetFieldDescByIndex'' (RfcGetFieldDescByIndex k td i)) (\<lambda>fd.
     bindA (if cf_typeDesc fd \<noteq> 0 \<and> (cf_type fd = TypeStructure \<or> cf_type fd = TypeTable)
            then bindA (wrapTypeDesc k n (cf_typeDesc fd)) (\<lambda>d. ret (Some d)) else ret None) (\<lambda>nested.
       wrap_type_fields k n td idxs (out @ [FieldDesc (cf_name fd) (cf_type fd) (cf_ucLength fd)
         (cf_decimals fd) (cf_ucOffset fd) nested])))"

definition wrapParameter :: "'c sdk \<Rightarrow> nat \<Rightarrow> c_param \<Rightarrow> ('c, param_desc) act" where
  "wrapParameter k n pd =
     bindA (if cp_typeDesc pd \<noteq> 0 \<and> (cp_type pd = TypeStructure \<or> cp_type pd = TypeTable)
            then bindA (wrapTypeDesc k n (cp_typeDesc pd)) (\<lambda>d. ret (Some d)) else ret None) (\<lambda>nested.
       ret \<lparr>pd_Name = cp_name pd, pd_Type = cp_type pd, pd_Direction = convertDirection (cp_direction pd),
            pd_Length = cp_ucLength pd, pd_Decimals = cp_decimals pd, pd_Optional = (cp_optional pd \<noteq> 0),
            pd_TypeDesc = nested\<rparr>)"

fun describe_params :: "'c sdk \<Rightarrow> nat \<Rightarrow> nat \<Rightarrow> nat list \<Rightarrow> param_desc list \<Rightarrow> ('c, param_desc list) act" where
  "describe_params k n desc [] out = ret out"
| "describe_params k n desc (i # idxs) out =
     bindA (call ''RfcGetParameterDescByIndex'' (RfcGetParameterDescByIndex k desc i)) (\<lambda>pd.
     bindA (wrapParameter k n pd) (\<lambda>p. describe_params k n desc idxs (out @ [p])))"

definition describeFunction :: "'c sdk \<Rightarrow> nat \<Rightarrow> ctx \<Rightarrow> nat \<Rightarrow> go_string \<Rightarrow> ('c, func_desc) act" where
  "describeFunction k n c conn fn =
     bindA (check_ctx c) (\<lambda>_.
     bindA (stringToSAPUC k fn) (\<lambda>uc.
     bindA (call (''RfcGetFunctionDesc('' @ fn @ '')'') (RfcGetFunctionDesc k conn uc)) (\<lambda>desc.
     bindA (call (''RfcGetParameterCount('' @ fn @ '')'') (RfcGetParameterCount k desc)) (\<lambda>cnt.
     bindA (describe_params k n desc [0..<cnt] []) (\<lambda>ps. ret \<lparr>fn_Name = fn, fn_Parameters = ps\<rparr>)))))"

definition invalidateMetadata :: "'c sdk \<Rightarrow> go_string \<Rightarrow> ('c, unit) act" where
  "invalidateMetadata k fn =
     bindA (stringToSAPUC k []) (\<lambda>sysid.
     bindA (stringToSAPUC k fn) (\<lambda>uc.
       call (''RfcRemoveFunctionDesc('' @ fn @ '')'') (RfcRemoveFunctionDesc k sysid uc)))"

section \<open>The nesting bound\<close>

text \<open>\<open>settles m s\<close>: from \<open>s\<close> the action does not run out of fuel.\<close>

definition settles :: "('c, 'a) act \<Rightarrow> 'c \<Rightarrow> bool" where
  "settles m s \<longleftrightarrow> fst (m s) \<noteq> Err OutOfFuel"

lemma settles_ret [simp]: "settles (ret a) s" "settles (failA e) s \<longleftrightarrow> e \<noteq> OutOfFuel"
  by (simp_all add: settles_def)

lemma settles_Pair [simp]: "settles (Pair x) s \<longleftrightarrow> x \<noteq> Err OutOfFuel"
  by (simp add: settles_def)

lemma settles_bind: "settles m s \<Longrightarrow> (\<And>a s'. m s = (Ok a, s') \<Longrightarrow> settles (f a) s') \<Longrightarrow> settles (bindA m f) s"
  by (auto simp: settles_def bindA_def split: prod.splits sum.splits)

lemma settles_call [simp]: "settles (call op f) s" "settles (watched c op g) s"
  by (auto simp: settles_def call_def watched_def split: prod.splits sum.splits)

lemma settles_string [simp]: "settles (stringToSAPUC k x) s" "settles (sapUCNToString k u) s" "settles (check_ctx c) s"
  by (auto simp: stringToSAPUC_def sapUCNToString_def check_ctx_def split: option.splits sum.splits)

lemma call_Ok: "call op f s = (Ok a, s') \<longleftrightarrow> f s = (Ok a, s')"
  by (auto simp: call_def split: prod.splits sum.splits)

lemmas wrap_scalar_defs = wrap_chars_def wrap_num_def wrap_string_def wrap_int_def wrap_bytes_def wrap_date_def wrap_time_def

lemma settles_scalars [simp]:
  "settles (wrap_chars k h c u opt f) s" "settles (wrap_num k h c u f) s" "settles (wrap_string k h c f) s"
  "settles (wrap_int k h c f) s" "settles (wrap_bytes k t h c u f) s" "settles (wrap_date k h c opt f) s"
  "settles (wrap_time k h c opt f) s"
  by (auto simp: wrap_scalar_defs intro!: settles_bind split: sum.splits)

text \<open>Nested types are finite: the type of a structured field has a smaller rank.\<close>

definition nested_rank :: "'c sdk \<Rightarrow> (nat \<Rightarrow> nat) \<Rightarrow> bool" where
  "nested_rank k rank \<longleftrightarrow> (\<forall>td i s fd s'. RfcGetFieldDescByIndex k td i s = (Ok fd, s') \<longrightarrow>
     cf_type fd \<in> {TypeStructure, TypeTable} \<longrightarrow> rank (cf_typeDesc fd) < rank td)"

lemma settles_wrap:
  assumes "nested_rank k rank"
  shows "(t \<in> {TypeStructure, TypeTable} \<Longrightarrow> rank td < n) \<Longrightarrow> settles (wrapVariable k n t h c u td opt f) s"
    and "rank td \<le> n \<Longrightarrow> settles (wrapStructure k n td sub opt parent) s"
    and "rank td \<le> n \<Longrightarrow> settles (wrap_fields k n td sub opt idxs out) s"
    and "rank td \<le> n \<Longrightarrow> settles (wrapTable k n td tbl opt parent) s"
    and "rank td \<le> n \<Longrightarrow> settles (wrap_rows k n td tbl opt parent left out') s"
  using assms
proof (induction k n t h c u td opt f and k n td sub opt parent and k n td sub opt idxs out and
    k n td tbl opt parent and k n td tbl opt parent left out' arbitrary: s and s and s and s and s rule: wrap_induct)
  case (1 k n t h cName ucLength td opt field)
  then show ?case
    by (auto simp: wrapVariable.simps intro!: settles_bind split: nat.splits)
next
  case (2 k n td sub opt parent)
  then show ?case by (auto simp: wrapStructure.simps intro!: settles_bind)
next
  case (4 k n td sub opt i idxs out)
  then show ?case
    by (fastforce simp: call_Ok nested_rank_def intro!: settles_bind)
next
  case (5 k n td tbl opt parent)
  then show ?case by (auto simp: wrapTable.simps intro!: settles_bind)
next
  case (7 k n td tbl opt parent left out)
  then show ?case by (auto intro!: settles_bind)
qed simp_all

lemma settles_describe:
  assumes "nested_rank k rank"
  shows "rank td < n \<Longrightarrow> settles (wrapTypeDesc k n td) s"
    and "rank td \<le> n \<Longrightarrow> settles (wrap_type_fields k n td idxs out) s"
  using assms
proof (induction k n td and k n td idxs out arbitrary: s and s rule: wrapTypeDesc_wrap_type_fields.induct)
  case (4 k n td i idxs out)
  then show ?case by (fastforce simp: call_Ok nested_rank_def intro!: settles_bind)
qed (auto intro!: settles_bind)

definition param_rank :: "'c sdk \<Rightarrow> (nat \<Rightarrow> nat) \<Rightarrow> nat \<Rightarrow> bool" where
  "param_rank k rank n \<longleftrightarrow> (\<forall>desc i s pd s'. RfcGetParameterDescByIndex k desc i s = (Ok pd, s') \<longrightarrow>
     cp_type pd \<in> {TypeStructure, TypeTable} \<longrightarrow> rank (cp_typeDesc pd) < n)"

lemma settles_wrap_params:
  assumes "nested_rank k rank" "param_rank k rank n"
  shows "settles (wrap_params k n fh desc opt want idxs out) s"
  using assms
proof (induction k n fh desc opt want idxs out arbitrary: s rule: wrap_params.induct)
  case (2 k n fh desc opt want i idxs out)
  then show ?case by (fastforce simp: call_Ok param_rank_def intro!: settles_bind settles_wrap(1))
qed simp

lemma settles_describe_params:
  assumes "nested_rank k rank" "param_rank k rank n"
  shows "settles (describe_params k n desc idxs out) s"
  using assms
proof (induction k n desc idxs out arbitrary: s rule: describe_params.induct)
  case (2 k n desc i idxs out)
  then show ?case
    by (fastforce simp: call_Ok param_rank_def wrapParameter_def intro!: settles_bind settles_describe(1))
qed simp

section \<open>What reading keeps\<close>

definition reader_keeps :: "'c sdk \<Rightarrow> ('c \<Rightarrow> bool) \<Rightarrow> bool" where
  "reader_keeps k P \<longleftrightarrow>
     (\<forall>s. P s \<longrightarrow>
       (\<forall>h n i. P (snd (RfcGetChars k h n i s)) \<and> P (snd (RfcGetNum k h n i s)) \<and> P (snd (RfcGetString k h n i s)) \<and>
          P (snd (RfcGetBytes k h n i s)) \<and> P (snd (RfcGetXString k h n i s))) \<and>
       (\<forall>h n. P (snd (RfcGetStringLength k h n s)) \<and> P (snd (RfcGetInt k h n s)) \<and> P (snd (RfcGetDate k h n s)) \<and>
          P (snd (RfcGetTime k h n s)) \<and> P (snd (RfcGetStructure k h n s)) \<and> P (snd (RfcGetTable k h n s))) \<and>
       (\<forall>h. P (snd (RfcGetRowCount k h s)) \<and> P (snd (RfcMoveToFirstRow k h s)) \<and> P (snd (RfcMoveToNextRow k h s)) \<and>
          P (snd (RfcGetCurrentRow k h s)) \<and> P (snd (RfcGetParameterCount k h s)) \<and> P (snd (RfcGetFieldCount k h s)) \<and>
          P (snd (RfcGetTypeName k h s))) \<and>
       (\<forall>h i. P (snd (RfcGetParameterDescByIndex k h i s)) \<and> P (snd (RfcGetFieldDescByIndex k h i s))))"

lemma keeps_reader_calls:
  assumes "reader_keeps k P"
  shows "keeps P (call op (RfcGetStructure k h n))" "keeps P (call op (RfcGetTable k h n))"
    "keeps P (call op (RfcGetRowCount k h))" "keeps P (call op (RfcMoveToFirstRow k h))"
    "keeps P (call op (RfcMoveToNextRow k h))" "keeps P (call op (RfcGetCurrentRow k h))"
    "keeps P (call op (RfcGetParameterCount k h))" "keeps P (call op (RfcGetFieldCount k h))"
    "keeps P (call op (RfcGetTypeName k h))"
    "keeps P (call op (RfcGetParameterDescByIndex k h i))" "keeps P (call op (RfcGetFieldDescByIndex k h i))"
  using assms by (auto simp: reader_keeps_def intro!: keeps_call)

lemma keeps_wrap_scalars:
  assumes "reader_keeps k P"
  shows "keeps P (wrap_chars k h c u opt f)" "keeps P (wrap_num k h c u f)" "keeps P (wrap_string k h c f)"
    "keeps P (wrap_int k h c f)" "keeps P (wrap_bytes k t h c u f)" "keeps P (wrap_date k h c opt f)"
    "keeps P (wrap_time k h c opt f)"
  using assms
  by (auto simp: wrap_scalar_defs reader_keeps_def intro!: keeps_bind keeps_call split: sum.splits)

lemma keeps_Pair [simp]: "keeps P (Pair x)"
  by (simp add: keeps_def)

lemma keeps_wrap:
  assumes "reader_keeps k P"
  shows "keeps P (wrapVariable k n t h c u td opt f)"
    and "keeps P (wrapStructure k n td sub opt parent)"
    and "keeps P (wrap_fields k n td sub opt idxs out)"
    and "keeps P (wrapTable k n td tbl opt parent)"
    and "keeps P (wrap_rows k n td tbl opt parent left out')"
  using assms
proof (induction k n t h c u td opt f and k n td sub opt parent and k n td sub opt idxs out and
    k n td tbl opt parent and k n td tbl opt parent left out' rule: wrap_induct)
  case (1 k n t h cName ucLength td opt field)
  then show ?case
    by (auto simp: wrapVariable.simps intro!: keeps_bind keeps_wrap_scalars keeps_reader_calls split: nat.splits)
next
  case (2 k n td sub opt parent)
  then show ?case by (auto simp: wrapStructure.simps intro!: keeps_bind keeps_reader_calls)
next
  case (4 k n td sub opt i idxs out)
  then show ?case by (auto intro!: keeps_bind keeps_reader_calls)
next
  case (5 k n td tbl opt parent)
  then show ?case by (auto simp: wrapTable.simps intro!: keeps_bind keeps_reader_calls)
next
  case (7 k n td tbl opt parent left out)
  then show ?case by (auto intro!: keeps_bind keeps_reader_calls)
qed simp_all

lemma keeps_wrap_params:
  "reader_keeps k P \<Longrightarrow> keeps P (wrap_params k n fh desc opt want idxs out)"
  by (induction k n fh desc opt want idxs out rule: wrap_params.induct)
    (auto intro!: keeps_bind keeps_reader_calls keeps_wrap(1))

lemma keeps_wrapFunctionParameters: "reader_keeps k P \<Longrightarrow> keeps P (wrapFunctionParameters k n fh desc opt)"
  by (auto simp: wrapFunctionParameters_def intro!: keeps_bind keeps_reader_calls keeps_wrap_params)

section \<open>Properties\<close>



text \<open>Integer fields of every width go through a 32-bit slot. On an SDK that stores what is
  written, an \<open>RFCTYPE_INT8\<close> field reads back as written exactly when the value fits 32 bits;
  otherwise it comes back wrapped, without an error.\<close>

theorem int8_through_32_bits:
  assumes "raw v = VInt ik n"
    and "RfcSetInt k h c (word_of_int n) s = (Ok (), s')" and "RfcGetInt k h c s' = (Ok (word_of_int n), s'')"
  shows "fillVariable k TypeInt8 h c v td f s = (Ok (), s') \<and>
    wrapVariable k m TypeInt8 h c u td opt f s' = (Ok (VInt KInt64 (sint (word_of_int n :: 32 word))), s'') \<and>
    (sint (word_of_int n :: 32 word) = n \<longleftrightarrow> - (2 ^ 31) \<le> n \<and> n < 2 ^ 31)"
proof -
  have u: "ucast (word_of_int n :: 64 word) = (word_of_int n :: 32 word)"
    by transfer (simp add: take_bit_take_bit min_def)
  have "sint (word_of_int n :: 32 word) = signed_take_bit 31 n" by (simp add: sint_sbintrunc')
  moreover have "signed_take_bit 31 n = n \<longleftrightarrow> - (2 ^ 31) \<le> n \<and> n < 2 ^ 31"
    by (simp add: signed_take_bit_int_eq_self_iff)
  ultimately show ?thesis using assms u
    by (simp add: fillVariable.simps wrapVariable.simps string_types_def int_types_def fill_int_def wrap_int_def
        coerceToInt64_def call_def bindA_def)
qed

lemma int8_through_32_bits_witness:
  "fst (wrapVariable ((undefined :: 32 word sdk)\<lparr>RfcSetInt := \<lambda>_ _ i _. (Ok (), i), RfcGetInt := \<lambda>_ _ i. (Ok i, i)\<rparr>)
     0 TypeInt8 1 ''F'' 8 0 undefined ''F'' (word_of_int (2 ^ 32 + 5))) = Ok (VInt KInt64 5)"
  using int8_through_32_bits [of "VInt KInt64 (2 ^ 32 + 5)" KInt64 "2 ^ 32 + 5"
      "(undefined :: 32 word sdk)\<lparr>RfcSetInt := \<lambda>_ _ i _. (Ok (), i), RfcGetInt := \<lambda>_ _ i. (Ok i, i)\<rparr>"
      1 "''F''" 0 "word_of_int (2 ^ 32 + 5)" "word_of_int (2 ^ 32 + 5)" 0 "''F''" 0 8 undefined]
  by simp

end
