(* ===== verification/Sdk_Invoke.thy ===== *)
theory Sdk_Invoke
  imports Sdk_Wrap
begin

text \<open>
  \<open>internal/sdkbackend/invoke.go\<close>: the call of a remote function and the lazy table stream, with
  the life of the SDK's function containers. \<open>finallyA\<close> is a Go \<open>defer\<close> (it also runs on a
  panic), \<open>or_destroy\<close> the explicit \<open>destroyAndFail\<close> of the stream constructor (it does not).
  The lemmas show that a call releases its container on every path and that a stream owns exactly one
  until it is closed.
\<close>

definition finallyA :: "('c, 'a) act \<Rightarrow> ('c, unit) ccall \<Rightarrow> ('c, 'a) act" where
  "finallyA m d s = (case m s of (r, s') \<Rightarrow> (r, snd (d s')))"

definition or_destroy :: "('c, 'a) act \<Rightarrow> ('c, unit) ccall \<Rightarrow> ('c, 'a) act" where
  "or_destroy m d s = (case m s of
       (Inl (Fail e), s') \<Rightarrow> (Err (Fail e), snd (d s'))
     | (r, s') \<Rightarrow> (r, s'))"

section \<open>Invoke\<close>

definition deactivate :: "'c sdk \<Rightarrow> nat \<Rightarrow> go_string list \<Rightarrow> ('c, unit) act" where
  "deactivate k fh names = forA (\<lambda>name. bindA (stringToSAPUC k name) (\<lambda>uc.
     call (''RfcSetParameterActive('' @ name @ '')'') (RfcSetParameterActive k fh uc))) names"

text \<open>The part \<open>invokeFunction\<close>, \<open>InvokeInTransaction\<close> and \<open>InvokeInUnit\<close> share: describe,
  create, fill, deactivate, run \<open>f\<close>, destroy.\<close>

definition with_function :: "'c sdk \<Rightarrow> nat \<Rightarrow> go_string \<Rightarrow> call_params \<Rightarrow> invoke_options \<Rightarrow>
    (nat \<Rightarrow> nat \<Rightarrow> ('c, 'a) act) \<Rightarrow> ('c, 'a) act" where
  "with_function k conn fn i opt f =
     bindA (stringToSAPUC k fn) (\<lambda>uc.
     bindA (call (''RfcGetFunctionDesc('' @ fn @ '')'') (RfcGetFunctionDesc k conn uc)) (\<lambda>desc.
     bindA (call (''RfcCreateFunction('' @ fn @ '')'') (RfcCreateFunction k desc)) (\<lambda>fh.
       finallyA
         (bindA (fillFunctionParameters k fh desc i) (\<lambda>_.
          bindA (deactivate k fh (NotRequested opt)) (\<lambda>_. f fh desc)))
         (RfcDestroyFunction k fh))))"

text \<open>IMPORT parameters are echoed unless the result has them.\<close>

definition echo_imports :: "invoke_options \<Rightarrow> call_params \<Rightarrow> call_params \<Rightarrow> call_params" where
  "echo_imports opt i out =
     (if ReturnImportParams opt
      then foldl (\<lambda>m (key, v). if map_of m key \<noteq> None then m else map_set key v m) out i else out)"

definition invokeFunction :: "'c sdk \<Rightarrow> nat \<Rightarrow> ctx \<Rightarrow> nat \<Rightarrow> go_string \<Rightarrow> call_params \<Rightarrow> invoke_options \<Rightarrow> ('c, call_params) act" where
  "invokeFunction k n c conn fn i opt =
     bindA (check_ctx c) (\<lambda>_.
     with_function k conn fn i opt (\<lambda>fh desc.
       bindA (watched c (''RfcInvoke('' @ fn @ '')'') (\<lambda>b. RfcInvoke k b conn fh)) (\<lambda>_.
       bindA (wrapFunctionParameters k n fh desc opt) (\<lambda>out. ret (echo_imports opt i out)))))"

section \<open>The table stream\<close>

record sdk_stream =
  ss_fh :: nat
  ss_table :: nat
  ss_typeDesc :: nat
  ss_opts :: invoke_options
  ss_parent :: go_string
  ss_rowCount :: nat
  ss_index :: nat
  ss_started :: bool
  ss_closed :: bool

fun find_table :: "'c sdk \<Rightarrow> nat \<Rightarrow> go_string \<Rightarrow> nat list \<Rightarrow> ('c, c_param) act" where
  "find_table k desc table [] = failA (Fail (errMarshal table ''TABLES'' ''missing parameter'' None))"
| "find_table k desc table (i # idxs) =
     bindA (call ''RfcGetParameterDescByIndex'' (RfcGetParameterDescByIndex k desc i)) (\<lambda>pd.
       if equal_fold (cp_name pd) table
       then (if cp_type pd \<noteq> TypeTable
             then failA (Fail (errMarshal table ''TABLES'' (rfc_type_String (cp_type pd)) None)) else ret pd)
       else find_table k desc table idxs)"

definition findTableParameter :: "'c sdk \<Rightarrow> nat \<Rightarrow> go_string \<Rightarrow> ('c, c_param) act" where
  "findTableParameter k desc table =
     bindA (call ''RfcGetParameterCount'' (RfcGetParameterCount k desc)) (\<lambda>cnt. find_table k desc table [0..<cnt])"

text \<open>The part of \<open>invokeTableStream\<close> between creation and the stream.\<close>

definition stream_body :: "'c sdk \<Rightarrow> ctx \<Rightarrow> nat \<Rightarrow> go_string \<Rightarrow> go_string \<Rightarrow> call_params \<Rightarrow> invoke_options \<Rightarrow> nat \<Rightarrow> nat \<Rightarrow> ('c, sdk_stream) act" where
  "stream_body k c conn fn table i opt desc fh =
     (bindA (fillFunctionParameters k fh desc i) (\<lambda>_.
      bindA (deactivate k fh (NotRequested opt)) (\<lambda>_.
      bindA (watched c (''RfcInvoke('' @ fn @ '')'') (\<lambda>b. RfcInvoke k b conn fh)) (\<lambda>_.
      bindA (findTableParameter k desc table) (\<lambda>pd.
      bindA (call (''RfcGetTable('' @ table @ '')'') (RfcGetTable k fh (cp_name pd))) (\<lambda>tbl.
      bindA (call (''RfcGetRowCount('' @ table @ '')'') (RfcGetRowCount k tbl)) (\<lambda>cnt.
        ret \<lparr>ss_fh = fh, ss_table = tbl, ss_typeDesc = cp_typeDesc pd, ss_opts = opt,
             ss_parent = cp_name pd, ss_rowCount = cnt, ss_index = 0, ss_started = False,
             ss_closed = False\<rparr>)))))))"

definition invokeTableStream :: "'c sdk \<Rightarrow> ctx \<Rightarrow> nat \<Rightarrow> go_string \<Rightarrow> go_string \<Rightarrow> call_params \<Rightarrow> invoke_options \<Rightarrow> ('c, sdk_stream) act" where
  "invokeTableStream k c conn fn table i opt =
     bindA (check_ctx c) (\<lambda>_.
     bindA (stringToSAPUC k fn) (\<lambda>uc.
     bindA (call (''RfcGetFunctionDesc('' @ fn @ '')'') (RfcGetFunctionDesc k conn uc)) (\<lambda>desc.
     bindA (call (''RfcCreateFunction('' @ fn @ '')'') (RfcCreateFunction k desc)) (\<lambda>fh.
       or_destroy (stream_body k c conn fn table i opt desc fh) (RfcDestroyFunction k fh)))))"

text \<open>\<open>Close\<close>; the connection's mutex is given back with it.\<close>

definition sdkStream_Close :: "'c sdk \<Rightarrow> sdk_stream \<Rightarrow> 'c \<Rightarrow> goerr option \<times> sdk_stream \<times> 'c" where
  "sdkStream_Close k s st =
     (if ss_closed s then (None, s, st)
      else case RfcDestroyFunction k (ss_fh s) st of
        (Inl info, st') \<Rightarrow> (Some (errFromInfo info ''RfcDestroyFunction''), s\<lparr>ss_closed := True\<rparr>, st')
      | (Inr _, st') \<Rightarrow> (None, s\<lparr>ss_closed := True\<rparr>, st'))"

definition closed_pipe :: goerr where
  "closed_pipe = PlainErr ''io: read/write on closed pipe''"

definition next_row :: "'c sdk \<Rightarrow> nat \<Rightarrow> sdk_stream \<Rightarrow> ('c, call_params) act" where
  "next_row k n s =
     bindA (if \<not> ss_started s then call ''RfcMoveToFirstRow'' (RfcMoveToFirstRow k (ss_table s))
            else call ''RfcMoveToNextRow'' (RfcMoveToNextRow k (ss_table s))) (\<lambda>_.
     bindA (call ''RfcGetCurrentRow'' (RfcGetCurrentRow k (ss_table s))) (\<lambda>row.
       wrapStructure k n (ss_typeDesc s) row (ss_opts s) (ss_parent s)))"

text \<open>\<open>started\<close> is set once the cursor has moved to the first row, \<open>index\<close> once the row has been
  read.\<close>

definition sdkStream_Next :: "'c sdk \<Rightarrow> nat \<Rightarrow> ctx \<Rightarrow> sdk_stream \<Rightarrow> 'c \<Rightarrow> (fail, call_params) result \<times> sdk_stream \<times> 'c" where
  "sdkStream_Next k n c s st =
     (case ctx_err c of
        Some e \<Rightarrow> (case sdkStream_Close k s st of (_, s', st') \<Rightarrow> (Err (Fail e), s', st'))
      | None \<Rightarrow>
          if ss_closed s then (Err (Fail closed_pipe), s, st)
          else if ss_index s \<ge> ss_rowCount s then (Err (Fail ErrEOF), s, st)
          else case next_row k n s st of
            (Inr m, st') \<Rightarrow> (Ok m, s\<lparr>ss_started := True, ss_index := ss_index s + 1\<rparr>, st')
          | (Inl e, st') \<Rightarrow>
              (Err e, s\<lparr>ss_started := (ss_started s \<or> is_ok (fst (RfcMoveToFirstRow k (ss_table s) st)))\<rparr>, st'))"

section \<open>Function containers\<close>

text \<open>
  \<open>live\<close> is the set of containers the SDK has handed out and not been told to destroy. The laws
  are those of the SDK's documentation: creation hands out a new one, destruction removes it (even
  when it reports an error), every other call leaves them alone.
\<close>

definition fh_laws :: "'c sdk \<Rightarrow> ('c \<Rightarrow> nat set) \<Rightarrow> bool" where
  "fh_laws k live \<longleftrightarrow>
     (\<forall>L. container_keeps k (\<lambda>s. live s = L) \<and> reader_keeps k (\<lambda>s. live s = L)) \<and>
     (\<forall>s d. case RfcCreateFunction k d s of
          (Inl _, s') \<Rightarrow> live s' = live s
        | (Inr fh, s') \<Rightarrow> fh \<notin> live s \<and> live s' = insert fh (live s)) \<and>
     (\<forall>s fh. live (snd (RfcDestroyFunction k fh s)) = live s - {fh}) \<and>
     (\<forall>s c n. live (snd (RfcGetFunctionDesc k c n s)) = live s \<and> live (snd (RfcSetParameterActive k c n s)) = live s) \<and>
     (\<forall>s b c fh. live (snd (RfcInvoke k b c fh s)) = live s \<and> live (snd (RfcInvokeInTransaction k b c fh s)) = live s \<and>
        live (snd (RfcInvokeInUnit k b c fh s)) = live s)"

lemma keepsD:
  assumes "keeps P m" and "m s = (r, s')" and "P s"
  shows "P s'"
proof -
  have "P (snd (m s))" using assms(1,3) by (simp add: keeps_def)
  then show ?thesis using assms(2) by simp
qed

lemma live_keeps: "(\<And>L. keeps (\<lambda>s. live s = L) m) \<Longrightarrow> live (snd (m s)) = live s"
  by (simp add: keeps_def)

lemma live_bindI:
  assumes "live (snd (m s)) = live s" and "\<And>a s'. live (snd (f a s')) = live s'"
  shows "live (snd (bindA m f s)) = live s"
proof -
  obtain r s' where m: "m s = (r, s')" by (cases "m s")
  then have "live s' = live s" using assms(1) by simp
  then show ?thesis using m assms(2) by (cases r) (simp_all add: bindA_def)
qed

lemma fh_laws_parts:
  assumes "fh_laws k live"
  shows "container_keeps k (\<lambda>s. live s = L)" "reader_keeps k (\<lambda>s. live s = L)"
    "case RfcCreateFunction k d s of (Inl _, s') \<Rightarrow> live s' = live s
       | (Inr fh, s') \<Rightarrow> fh \<notin> live s \<and> live s' = insert fh (live s)"
    "live (snd (RfcDestroyFunction k fh s)) = live s - {fh}"
    "live (snd (RfcGetFunctionDesc k h n s)) = live s" "live (snd (RfcSetParameterActive k h n s)) = live s"
    "live (snd (RfcInvoke k b h fh s)) = live s" "live (snd (RfcInvokeInTransaction k b h fh s)) = live s"
    "live (snd (RfcInvokeInUnit k b h fh s)) = live s"
  using assms [unfolded fh_laws_def] by simp_all

lemma created:
  assumes "fh_laws k live" "RfcCreateFunction k d s = (Ok fh, s')"
  shows "fh \<notin> live s" "live s' = insert fh (live s)"
  using fh_laws_parts(3) [OF assms(1), where d = d and s = s] assms(2) by simp_all

lemma not_created: "fh_laws k live \<Longrightarrow> RfcCreateFunction k d s = (Err e, s') \<Longrightarrow> live s' = live s"
  using fh_laws_parts(3) [where k = k and live = live and d = d and s = s] by simp

lemma keeps_deactivate: "fh_laws k live \<Longrightarrow> keeps (\<lambda>s. live s = L) (deactivate k fh names)"
  unfolding deactivate_def
  by (rule keeps_forA) (auto simp: fh_laws_parts intro!: keeps_bind keeps_call)

lemma live_function_parts:
  assumes "fh_laws k live"
  shows "live (snd (fillFunctionParameters k fh desc i s)) = live s"
    "live (snd (deactivate k fh names s)) = live s"
    "live (snd (wrapFunctionParameters k n fh desc opt s)) = live s"
    "live (snd (call op (RfcGetFunctionDesc k conn uc) s)) = live s"
    "live (snd (watched c op (\<lambda>b. RfcInvoke k b conn fh) s)) = live s"
    "live (snd (wrapStructure k n td row opt parent s)) = live s"
  using keeps_fill_params [OF fh_laws_parts(1) [OF assms, of "live s"], of fh desc i]
    keeps_deactivate [OF assms, of "live s" fh names]
    keeps_wrapFunctionParameters [OF fh_laws_parts(2) [OF assms, of "live s"], of n fh desc opt]
    keeps_wrap(2) [OF fh_laws_parts(2) [OF assms, of "live s"], of n td row opt parent]
  by (simp_all add: keeps_def fh_laws_parts [OF assms])

lemma live_string [simp]: "snd (stringToSAPUC k x s) = s" "snd (check_ctx c s) = s"
  by (auto simp: stringToSAPUC_def check_ctx_def split: option.splits)

lemma created_finally:
  assumes k: "fh_laws k live" and "\<And>fh s'. live (snd (body fh s')) = live s'"
  shows "live (snd (bindA (call op (RfcCreateFunction k desc)) (\<lambda>fh. finallyA (body fh) (RfcDestroyFunction k fh)) s)) = live s"
proof (cases "RfcCreateFunction k desc s")
  case (Pair r s')
  show ?thesis
  proof (cases r)
    case (Inl e)
    then show ?thesis using Pair not_created [OF k] by (simp add: bindA_def call_def)
  next
    case (Inr fh)
    obtain q t where b: "body fh s' = (q, t)" by (cases "body fh s'")
    have "live t = live s'" using assms(2) [of fh s'] b by simp
    then show ?thesis using Pair Inr b created [OF k, of desc s fh s'] fh_laws_parts(4) [OF k, of fh t]
      by (simp add: bindA_def call_def finallyA_def)
  qed
qed

lemma with_function_releases:
  assumes "fh_laws k live" and "\<And>fh desc s'. live (snd (f fh desc s')) = live s'"
  shows "live (snd (with_function k conn fn i opt f s)) = live s"
  unfolding with_function_def
  apply (rule live_bindI, simp)
  apply (rule live_bindI, simp add: fh_laws_parts [OF assms(1)])
  apply (rule created_finally [OF assms(1)])
  apply (intro live_bindI; simp add: live_function_parts [OF assms(1)] assms(2))
  done

lemma live_find_table: "fh_laws k live \<Longrightarrow> live (snd (find_table k desc table idxs s)) = live s"
proof (induction k desc table idxs arbitrary: s rule: find_table.induct)
  case (2 k desc table i idxs)
  have "live (snd (RfcGetParameterDescByIndex k desc i s')) = live s'" for s'
    using fh_laws_parts(2) [OF 2(2), of "live s'"] by (simp add: reader_keeps_def)
  then show ?case unfolding find_table.simps by (intro live_bindI) (simp_all add: 2)
qed simp

lemma live_readers:
  assumes "fh_laws k live"
  shows "live (snd (RfcGetParameterCount k h s)) = live s" "live (snd (RfcGetTable k h n s)) = live s"
    "live (snd (RfcGetRowCount k h s)) = live s" "live (snd (RfcMoveToFirstRow k h s)) = live s"
    "live (snd (RfcMoveToNextRow k h s)) = live s" "live (snd (RfcGetCurrentRow k h s)) = live s"
  using fh_laws_parts(2) [OF assms, of "live s"] by (simp_all add: reader_keeps_def)

lemma live_stream_body:
  assumes "fh_laws k live"
  shows "live (snd (stream_body k c conn fn table i opt desc fh s)) = live s"
  unfolding stream_body_def findTableParameter_def
  by (intro live_bindI) (simp_all add: live_function_parts [OF assms] fh_laws_parts [OF assms]
      live_find_table [OF assms] live_readers [OF assms])

lemma stream_body_fh:
  "stream_body k c conn fn table i opt desc fh s = (Ok st, s') \<Longrightarrow> ss_fh st = fh \<and> \<not> ss_closed st"
  by (auto simp: stream_body_def bindA_def split: prod.splits sum.splits)

lemma created_stream:
  assumes k: "fh_laws k live"
  shows "case bindA (call op (RfcCreateFunction k desc))
        (\<lambda>fh. or_destroy (stream_body k c conn fn table i opt desc fh) (RfcDestroyFunction k fh)) t of
      (Inr st, s') \<Rightarrow> ss_fh st \<notin> live t \<and> live s' = insert (ss_fh st) (live t) \<and> \<not> ss_closed st
    | (Inl (Fail e), s') \<Rightarrow> live s' = live t
    | (Inl _, s') \<Rightarrow> (\<exists>fh. fh \<notin> live t \<and> live s' = insert fh (live t))"
proof (cases "RfcCreateFunction k desc t")
  case (Pair r t1)
  show ?thesis
  proof (cases r)
    case (Inl e)
    then show ?thesis using Pair not_created [OF k] by (simp add: bindA_def call_def)
  next
    case (Inr fh)
    obtain q t2 where b: "stream_body k c conn fn table i opt desc fh t1 = (q, t2)" by force
    have l: "fh \<notin> live t" "live t2 = insert fh (live t)"
      using created [OF k, of desc t fh t1] live_stream_body [OF k, of c conn fn table i opt desc fh t1] b Pair Inr
      by simp_all
    moreover have "ss_fh st = fh \<and> \<not> ss_closed st" if "q = Ok st" for st using stream_body_fh [of k c conn fn table i opt desc fh t1 st t2] b that by simp
    moreover have "live (snd (RfcDestroyFunction k fh t2)) = live t"
      using fh_laws_parts(4) [OF k, of fh t2] l by simp
    ultimately show ?thesis using Pair Inr b
      by (auto simp: bindA_def call_def or_destroy_def split: sum.splits fail.splits)
  qed
qed

section \<open>Properties\<close>

text \<open>C15: A call leaves the set of live function containers unchanged on every path: success,
  SDK errors at any step, conversion errors, cancellation and panics.\<close>

theorem invoke_releases_function:
  assumes "fh_laws k live"
  shows "live (snd (invokeFunction k n c conn fn i opt s)) = live s"
  unfolding invokeFunction_def
  by (intro live_bindI with_function_releases [OF assms]) (simp_all add: live_function_parts [OF assms] fh_laws_parts [OF assms])

text \<open>An SDK that only counts containers.\<close>

definition counting_sdk :: "nat list sdk" where
  "counting_sdk = (undefined :: nat list sdk)
     \<lparr>RfcUTF8ToSAPUC := \<lambda>_. None,
      RfcGetFunctionDesc := \<lambda>_ _ s. (Ok 1, s), RfcSetParameterActive := \<lambda>_ _ s. (Ok (), s),
      RfcCreateFunction := \<lambda>_ L. (Ok (Suc (sum_list L)), Suc (sum_list L) # L),
      RfcDestroyFunction := \<lambda>fh L. (Ok (), removeAll fh L),
      RfcInvoke := \<lambda>_ _ _ s. (Ok (), s), RfcInvokeInTransaction := \<lambda>_ _ _ s. (Ok (), s),
      RfcInvokeInUnit := \<lambda>_ _ _ s. (Ok (), s),
      RfcSetChars := \<lambda>_ _ _ s. (Ok (), s), RfcSetNum := \<lambda>_ _ _ s. (Ok (), s), RfcSetString := \<lambda>_ _ _ s. (Ok (), s),
      RfcSetDate := \<lambda>_ _ _ s. (Ok (), s), RfcSetTime := \<lambda>_ _ _ s. (Ok (), s), RfcSetBytes := \<lambda>_ _ _ s. (Ok (), s),
      RfcSetXString := \<lambda>_ _ _ s. (Ok (), s), RfcSetInt := \<lambda>_ _ _ s. (Ok (), s),
      RfcGetStructure := \<lambda>_ _ s. (Ok 1, s), RfcGetTable := \<lambda>_ _ s. (Ok 1, s), RfcAppendNewRow := \<lambda>_ s. (Ok 1, s),
      RfcGetFieldDescByName := \<lambda>_ _ s. (Err undefined, s), RfcGetParameterDescByName := \<lambda>_ _ s. (Err undefined, s),
      RfcGetFieldDescByIndex := \<lambda>_ _ s. (Err undefined, s), RfcGetParameterDescByIndex := \<lambda>_ _ s. (Err undefined, s),
      RfcGetParameterCount := \<lambda>_ s. (Ok 0, s), RfcGetFieldCount := \<lambda>_ s. (Ok 0, s), RfcGetTypeName := \<lambda>_ s. (Ok [], s),
      RfcGetChars := \<lambda>_ _ _ s. (Ok [], s), RfcGetNum := \<lambda>_ _ _ s. (Ok [], s), RfcGetString := \<lambda>_ _ _ s. (Ok [], s),
      RfcGetBytes := \<lambda>_ _ _ s. (Ok [], s), RfcGetXString := \<lambda>_ _ _ s. (Ok [], s),
      RfcGetStringLength := \<lambda>_ _ s. (Ok 0, s), RfcGetInt := \<lambda>_ _ s. (Ok 0, s), RfcGetDate := \<lambda>_ _ s. (Ok [], s),
      RfcGetTime := \<lambda>_ _ s. (Ok [], s), RfcGetRowCount := \<lambda>_ s. (Ok 0, s), RfcMoveToFirstRow := \<lambda>_ s. (Ok (), s),
      RfcMoveToNextRow := \<lambda>_ s. (Ok (), s), RfcGetCurrentRow := \<lambda>_ s. (Ok 0, s)\<rparr>"

lemma counting_sdk_laws: "fh_laws counting_sdk set"
proof -
  have "x \<le> sum_list L" if "x \<in> set L" for x :: nat and L using member_le_sum_list that by blast
  then have fresh: "Suc (sum_list L) \<notin> set L" for L :: "nat list" using not_less_eq_eq by blast
  show ?thesis
    using fresh by (auto simp: fh_laws_def container_keeps_def reader_keeps_def counting_sdk_def)
qed

lemma invoke_releases_function_witness:
  "set (snd (invokeFunction counting_sdk 1 background 0 ''FN'' [(''P'', VNil)] undefined [7])) = {7}"
  using invoke_releases_function [OF counting_sdk_laws] by simp

text \<open>C16: A stream constructor that returns a stream leaves exactly one more live container, the
  stream's, which closing the stream destroys; one that returns an error leaves none behind; one that
  panics (a nil structure among the inputs) leaks its container, because only errors run
  \<open>destroyAndFail\<close>.\<close>

theorem stream_owns_its_function:
  assumes k: "fh_laws k live"
  shows "case invokeTableStream k c conn fn table i opt s of
      (Inr st, s') \<Rightarrow> ss_fh st \<notin> live s \<and> live s' = insert (ss_fh st) (live s) \<and>
        live (snd (snd (sdkStream_Close k st s'))) = live s
    | (Inl (Fail e), s') \<Rightarrow> live s' = live s
    | (Inl _, s') \<Rightarrow> (\<exists>fh. fh \<notin> live s \<and> live s' = insert fh (live s))"
proof -
  have "live (snd (snd (sdkStream_Close k st s'))) = live s"
    if "ss_fh st \<notin> live s" "live s' = insert (ss_fh st) (live s)" "\<not> ss_closed st" for st s'
    using that fh_laws_parts(4) [OF k, of "ss_fh st" s']
    by (auto simp: sdkStream_Close_def split: prod.splits sum.splits)
  note closes = this
  show ?thesis
  proof (cases "ctx_err c")
    case (Some e)
    then show ?thesis by (simp add: invokeTableStream_def check_ctx_def)
  next
    case None
    show ?thesis
    proof (cases "stringToSAPUC k fn s")
      case (Pair u s0)
      have s0: "s0 = s" using live_string(1) [of k fn s] Pair by simp
      show ?thesis
      proof (cases "u")
        case (Inl e)
        then show ?thesis using None Pair s0
          by (auto simp: invokeTableStream_def check_ctx_def bindA_def stringToSAPUC_def split: if_splits option.splits)
      next
        case (Inr uc)
        obtain d s1 where d: "RfcGetFunctionDesc k conn uc s = (d, s1)" by force
        have l: "live s1 = live s" using fh_laws_parts(5) [OF k, of conn uc s] d by simp
        show ?thesis
        proof (cases d)
          case (Inl e)
          then show ?thesis using None Pair s0 Inr d l
            by (simp add: invokeTableStream_def check_ctx_def bindA_def call_def)
        next
          case desc: (Inr desc)
          have str: "stringToSAPUC k fn s = (Ok uc, s)" using Pair s0 Inr by simp
          have get: "call op (RfcGetFunctionDesc k conn uc) s = (Ok desc, s1)" for op
            by (simp add: call_def d desc)
          have "invokeTableStream k c conn fn table i opt s =
              bindA (call (''RfcCreateFunction('' @ fn @ '')'') (RfcCreateFunction k desc))
                (\<lambda>fh. or_destroy (stream_body k c conn fn table i opt desc fh) (RfcDestroyFunction k fh)) s1"
            unfolding invokeTableStream_def using None
            by (simp only: check_ctx_def option.simps bindA_ret bindA_Inr [where m = "stringToSAPUC k fn", OF str]
                bindA_Inr [where m = "call op (RfcGetFunctionDesc k conn uc)" for op, OF get])
          then show ?thesis
            using created_stream [OF k, where desc = desc and t = s1 and op = "''RfcCreateFunction('' @ fn @ '')''" and
              c = c and conn = conn and fn = fn and table = table and i = i and opt = opt] closes l
            by (auto split: prod.splits sum.splits fail.splits)
        qed
      qed
    qed
  qed
qed

lemma stream_owns_its_function_witness:
  "case invokeTableStream counting_sdk background 0 ''FN'' ''T'' [] undefined [7] of
      (Inr st, s') \<Rightarrow> ss_fh st \<notin> {7} \<and> set s' = insert (ss_fh st) {7} \<and>
        set (snd (snd (sdkStream_Close counting_sdk st s'))) = {7}
    | (Inl (Fail e), s') \<Rightarrow> set s' = {7}
    | (Inl _, s') \<Rightarrow> (\<exists>fh. fh \<notin> {7} \<and> set s' = insert fh {7})"
  by (rule stream_owns_its_function [OF counting_sdk_laws, where c = background and conn = 0 and
      fn = "''FN''" and table = "''T''" and i = "[]" and opt = undefined and s = "[7]", unfolded list.set])

end
