(* ===== verification/Sdk_Backend.thy ===== *)
theory Sdk_Backend
  imports Sdk_Invoke
begin

text \<open>
  \<open>internal/sdkbackend\<close> as an implementation of \<open>Backend\<close>: \<open>backend_sdk.go\<close>, \<open>conn.go\<close>,
  \<open>transaction.go\<close>, \<open>unit.go\<close>, \<open>trace.go\<close> over the registries of \<open>Handle_Registry\<close>, the
  calls of \<open>Sdk_Invoke\<close> and an arbitrary SDK \<open>k\<close> with nesting bound \<open>n\<close>.

  The state holds the three registries, the open table streams and the C side. The mutexes are not
  part of it: an operation is one step. \<open>sb_panic\<close> records a panic (or an exhausted nesting
  bound); the error the model returns then is never seen by a caller. The backend satisfies
  \<open>backend_contract\<close> for every SDK.
\<close>

record 'c sdk_state =
  sb_conns :: conn_registry
  sb_txns :: txn_registry
  sb_units :: unit_registry
  sb_streams :: "nat \<Rightarrow> sdk_stream option"
  sb_nstreams :: nat
  sb_panic :: "fail option"
  sb_c :: 'c

definition panicked :: goerr where
  "panicked = PlainErr ''panic''"

definition lift :: "('c, 'a) act \<Rightarrow> ('c sdk_state, 'a) op" where
  "lift m st = (case m (sb_c st) of
       (Inr a, c) \<Rightarrow> (Ok a, st\<lparr>sb_c := c\<rparr>)
     | (Inl (Fail e), c) \<Rightarrow> (Err e, st\<lparr>sb_c := c\<rparr>)
     | (Inl f, c) \<Rightarrow> (Err panicked, st\<lparr>sb_c := c, sb_panic := Some f\<rparr>))"

definition op_err :: "('s, 'a) op \<Rightarrow> 's op0" where
  "op_err m s = (case m s of (Inl e, s') \<Rightarrow> (Some e, s') | (Inr _, s') \<Rightarrow> (None, s'))"

text \<open>\<open>c, err := b.conns.get(h); if err != nil { return err }\<close>, and likewise for the others.\<close>

definition with_conn :: "handle \<Rightarrow> (conn_handle \<Rightarrow> ('c sdk_state, 'a) op) \<Rightarrow> ('c sdk_state, 'a) op" where
  "with_conn h f st = (case conn_get h (sb_conns st) of Inl e \<Rightarrow> (Err e, st) | Inr c \<Rightarrow> f c st)"

definition with_txn :: "handle \<Rightarrow> (txn_handle \<Rightarrow> ('c sdk_state, 'a) op) \<Rightarrow> ('c sdk_state, 'a) op" where
  "with_txn h f st = (case txn_get h (sb_txns st) of Inl e \<Rightarrow> (Err e, st) | Inr t \<Rightarrow> f t st)"

definition with_unit :: "handle \<Rightarrow> (unit_handle \<Rightarrow> ('c sdk_state, 'a) op) \<Rightarrow> ('c sdk_state, 'a) op" where
  "with_unit h f st = (case unit_get h (sb_units st) of Inl e \<Rightarrow> (Err e, st) | Inr u \<Rightarrow> f u st)"

section \<open>Connections\<close>

text \<open>\<open>openConn\<close>: the context is looked at before the SDK call and when it has failed.\<close>

definition openConn :: "'c sdk \<Rightarrow> ctx \<Rightarrow> bparams \<Rightarrow> ('c, conn_handle) act" where
  "openConn k c p =
     bindA (check_ctx c) (\<lambda>_.
     bindA (forA (\<lambda>(key, v). bindA (stringToSAPUC k key) (\<lambda>_. bindA (stringToSAPUC k v) (\<lambda>_. ret ()))) p) (\<lambda>_.
     bindA (\<lambda>s. case RfcOpenConnection k p s of
         (Inl info, s') \<Rightarrow> (Err (Fail (case ctxErrorIfFired c ''RfcOpenConnection'' of
             Some e \<Rightarrow> e | None \<Rightarrow> errFromInfo info ''RfcOpenConnection'')), s')
       | (Inr h, s') \<Rightarrow> (Ok h, s')) (\<lambda>h.
       ret \<lparr>ch_id = 0, ch_closed = False, ch_sdkPtr = h\<rparr>)))"

definition sdk_Open :: "'c sdk \<Rightarrow> ctx \<Rightarrow> bparams \<Rightarrow> ('c sdk_state, handle) op" where
  "sdk_Open k c p st =
     (case lift (openConn k c p) st of
        (Inl e, st') \<Rightarrow> (Err e, st')
      | (Inr ch, st') \<Rightarrow> (case conn_put ch (sb_conns st') of (h, r) \<Rightarrow> (Ok h, st'\<lparr>sb_conns := r\<rparr>)))"

definition closeConn :: "'c sdk \<Rightarrow> conn_handle \<Rightarrow> ('c, unit) act" where
  "closeConn k c = (if ch_closed c then ret ()
     else call ''RfcCloseConnection'' (RfcCloseConnection k (ch_sdkPtr c)))"

text \<open>The compare-and-swap marks the handle, the deferred \<open>remove\<close> forgets it.\<close>

definition mark_closed :: "handle \<Rightarrow> conn_registry \<Rightarrow> conn_registry" where
  "mark_closed h r = r\<lparr>cr_m := (cr_m r)(h := map_option (\<lambda>c. c\<lparr>ch_closed := True\<rparr>) (cr_m r h))\<rparr>"

definition sdk_Close :: "'c sdk \<Rightarrow> handle \<Rightarrow> 'c sdk_state op0" where
  "sdk_Close k h = op_err (with_conn h (\<lambda>c st.
     case lift (closeConn k c) (st\<lparr>sb_conns := mark_closed h (sb_conns st)\<rparr>) of
       (r, st') \<Rightarrow> (r, st'\<lparr>sb_conns := conn_remove h (sb_conns st')\<rparr>)))"

definition pingConn :: "'c sdk \<Rightarrow> ctx \<Rightarrow> conn_handle \<Rightarrow> ('c, unit) act" where
  "pingConn k c ch = bindA (check_ctx c) (\<lambda>_. watched c ''RfcPing'' (\<lambda>b. RfcPing k b (ch_sdkPtr ch)))"

definition resetConn :: "'c sdk \<Rightarrow> ctx \<Rightarrow> conn_handle \<Rightarrow> ('c, unit) act" where
  "resetConn k c ch = bindA (check_ctx c)
     (\<lambda>_. watched c ''RfcResetServerContext'' (\<lambda>b. RfcResetServerContext k b (ch_sdkPtr ch)))"

definition connAttributes :: "'c sdk \<Rightarrow> conn_handle \<Rightarrow> ('c, attributes) act" where
  "connAttributes k ch = call ''RfcGetConnectionAttributes'' (RfcGetConnectionAttributes k (ch_sdkPtr ch))"

definition cancelConn :: "'c sdk \<Rightarrow> conn_handle \<Rightarrow> ('c, unit) act" where
  "cancelConn k ch = (if ch_closed ch then ret () else call ''RfcCancel'' (RfcCancel k (ch_sdkPtr ch)))"

definition sdk_Ping :: "'c sdk \<Rightarrow> ctx \<Rightarrow> handle \<Rightarrow> 'c sdk_state op0" where
  "sdk_Ping k c h = op_err (with_conn h (\<lambda>ch. lift (pingConn k c ch)))"

definition sdk_Reset :: "'c sdk \<Rightarrow> ctx \<Rightarrow> handle \<Rightarrow> 'c sdk_state op0" where
  "sdk_Reset k c h = op_err (with_conn h (\<lambda>ch. lift (resetConn k c ch)))"

definition sdk_Attributes :: "'c sdk \<Rightarrow> handle \<Rightarrow> ('c sdk_state, attributes) op" where
  "sdk_Attributes k h = with_conn h (\<lambda>ch. lift (connAttributes k ch))"

definition sdk_Describe :: "'c sdk \<Rightarrow> nat \<Rightarrow> ctx \<Rightarrow> handle \<Rightarrow> go_string \<Rightarrow> ('c sdk_state, func_desc) op" where
  "sdk_Describe k n c h fn = with_conn h (\<lambda>ch. lift (describeFunction k n c (ch_sdkPtr ch) fn))"

definition sdk_Invoke :: "'c sdk \<Rightarrow> nat \<Rightarrow> ctx \<Rightarrow> handle \<Rightarrow> go_string \<Rightarrow> call_params \<Rightarrow> invoke_options \<Rightarrow> ('c sdk_state, call_params) op" where
  "sdk_Invoke k n c h fn i opt = with_conn h (\<lambda>ch. lift (invokeFunction k n c (ch_sdkPtr ch) fn i opt))"

definition sdk_InvalidateMetadata :: "'c sdk \<Rightarrow> go_string \<Rightarrow> 'c sdk_state op0" where
  "sdk_InvalidateMetadata k fn = op_err (lift (invalidateMetadata k fn))"

text \<open>A handle that is not registered counts as already cancelled.\<close>

definition sdk_Cancel :: "'c sdk \<Rightarrow> handle \<Rightarrow> 'c sdk_state op0" where
  "sdk_Cancel k h st = (case conn_get h (sb_conns st) of
     Inl _ \<Rightarrow> (None, st) | Inr ch \<Rightarrow> op_err (lift (cancelConn k ch)) st)"

section \<open>Streams\<close>

definition sdk_InvokeTableStream :: "'c sdk \<Rightarrow> ctx \<Rightarrow> handle \<Rightarrow> go_string \<Rightarrow> go_string \<Rightarrow> call_params \<Rightarrow> invoke_options \<Rightarrow> ('c sdk_state, nat) op" where
  "sdk_InvokeTableStream k c h fn table i opt = with_conn h (\<lambda>ch st.
     case lift (invokeTableStream k c (ch_sdkPtr ch) fn table i opt) st of
       (Inl e, st') \<Rightarrow> (Err e, st')
     | (Inr s, st') \<Rightarrow> (Ok (sb_nstreams st'), st'\<lparr>sb_nstreams := sb_nstreams st' + 1,
                         sb_streams := (sb_streams st')(sb_nstreams st' \<mapsto> s)\<rparr>))"

definition sdk_stream_next :: "'c sdk \<Rightarrow> nat \<Rightarrow> nat \<Rightarrow> ctx \<Rightarrow> ('c sdk_state, call_params) op" where
  "sdk_stream_next k n j c st =
     (case sb_streams st j of None \<Rightarrow> (Err closed_pipe, st)
      | Some s \<Rightarrow> (case sdkStream_Next k n c s (sb_c st) of (r, s', c') \<Rightarrow>
          lift (\<lambda>_. (r, c')) (st\<lparr>sb_streams := (sb_streams st)(j \<mapsto> s')\<rparr>)))"

definition sdk_stream_close :: "'c sdk \<Rightarrow> nat \<Rightarrow> 'c sdk_state op0" where
  "sdk_stream_close k j st =
     (case sb_streams st j of None \<Rightarrow> (None, st)
      | Some s \<Rightarrow> (case sdkStream_Close k s (sb_c st) of (r, s', c') \<Rightarrow>
          (r, st\<lparr>sb_streams := (sb_streams st)(j \<mapsto> s'), sb_c := c'\<rparr>)))"

section \<open>Transactions\<close>

definition CreateTransaction :: "'c sdk \<Rightarrow> handle \<Rightarrow> go_string \<Rightarrow> go_string \<Rightarrow> ('c sdk_state, handle) op" where
  "CreateTransaction k h tid queue = with_conn h (\<lambda>ch st.
     if length tid \<noteq> 24
     then (Err (PlainErr (''nwrfc/sdkbackend: TID must be exactly 24 chars, got '' @ show_nat (length tid))), st)
     else case lift
         (bindA (stringToSAPUC k tid) (\<lambda>uc.
          bindA (if queue \<noteq> [] then bindA (stringToSAPUC k queue) (\<lambda>q. ret (Some q)) else ret None) (\<lambda>q.
            call (if queue \<noteq> [] then ''RfcCreateTransaction(qRFC, queue='' @ queue @ '')'' else ''RfcCreateTransaction(tRFC)'')
              (RfcCreateTransaction k (ch_sdkPtr ch) uc q)))) st of
       (Inl e, st') \<Rightarrow> (Err e, st')
     | (Inr p, st') \<Rightarrow> (case txn_put \<lparr>th_id = 0, th_connID = h, th_sdkPtr = p\<rparr> (sb_txns st') of
         (t, r) \<Rightarrow> (Ok t, st'\<lparr>sb_txns := r\<rparr>)))"

definition InvokeInTransaction :: "'c sdk \<Rightarrow> ctx \<Rightarrow> handle \<Rightarrow> handle \<Rightarrow> go_string \<Rightarrow> call_params \<Rightarrow> invoke_options \<Rightarrow> 'c sdk_state op0" where
  "InvokeInTransaction k c h tx fn i opt st =
     (case ctx_err c of Some e \<Rightarrow> (Some e, st)
      | None \<Rightarrow> op_err (with_conn h (\<lambda>ch. with_txn tx (\<lambda>t st.
          if th_connID t \<noteq> h
          then (Err (PlainErr (''nwrfc/sdkbackend: transaction '' @ show_nat (unat tx) @ '' belongs to a different connection'')), st)
          else lift (with_function k (ch_sdkPtr ch) fn i opt (\<lambda>fh _.
            watched c (''RfcInvokeInTransaction('' @ fn @ '')'') (\<lambda>b. RfcInvokeInTransaction k b (th_sdkPtr t) fh))) st))) st)"

definition SubmitTransaction :: "'c sdk \<Rightarrow> handle \<Rightarrow> 'c sdk_state op0" where
  "SubmitTransaction k tx = op_err (with_txn tx (\<lambda>t.
     lift (call ''RfcSubmitTransaction'' (RfcSubmitTransaction k (th_sdkPtr t)))))"

definition ConfirmTransaction :: "'c sdk \<Rightarrow> handle \<Rightarrow> 'c sdk_state op0" where
  "ConfirmTransaction k tx = op_err (with_txn tx (\<lambda>t.
     lift (call ''RfcConfirmTransaction'' (RfcConfirmTransaction k (th_sdkPtr t)))))"

text \<open>The entry is removed whether or not the SDK call succeeds.\<close>

definition DestroyTransaction :: "'c sdk \<Rightarrow> handle \<Rightarrow> 'c sdk_state op0" where
  "DestroyTransaction k tx = op_err (with_txn tx (\<lambda>t st.
     case lift (call ''RfcDestroyTransaction'' (RfcDestroyTransaction k (th_sdkPtr t))) st of
       (r, st') \<Rightarrow> (r, st'\<lparr>sb_txns := txn_remove tx (sb_txns st')\<rparr>)))"

section \<open>Units\<close>

definition bad_unit_id :: "go_string \<Rightarrow> goerr" where
  "bad_unit_id i = PlainErr (''nwrfc/sdkbackend: UnitID must be exactly 32 chars, got '' @ show_nat (length i))"

fun encode_queues :: "'c sdk \<Rightarrow> nat \<Rightarrow> go_string list \<Rightarrow> ('c, unit) act" where
  "encode_queues k j [] = ret ()"
| "encode_queues k j (q # qs) =
     (if q = [] then failA (Fail (PlainErr (''nwrfc/sdkbackend: empty queue name in queues['' @ show_nat j @ '']'')))
      else bindA (stringToSAPUC k q) (\<lambda>_. encode_queues k (Suc j) qs))"

definition CreateUnit :: "'c sdk \<Rightarrow> handle \<Rightarrow> go_string \<Rightarrow> go_string list \<Rightarrow> ('c sdk_state, handle \<times> unit_identifier) op" where
  "CreateUnit k h uid queues = with_conn h (\<lambda>ch st.
     if length uid \<noteq> 32 then (Err (bad_unit_id uid), st)
     else case lift
         (bindA (stringToSAPUC k uid) (\<lambda>uc. bindA (encode_queues k 0 queues) (\<lambda>_.
            call ''RfcCreateUnit'' (RfcCreateUnit k (ch_sdkPtr ch) uc queues)))) st of
       (Inl e, st') \<Rightarrow> (Err e, st')
     | (Inr (p, ident), st') \<Rightarrow>
         (case unit_put \<lparr>uh_id = 0, uh_connID = h, uh_sdkPtr = p, uh_identifier = ident\<rparr> (sb_units st') of
            (u, r) \<Rightarrow> (Ok (u, ident), st'\<lparr>sb_units := r\<rparr>)))"

definition InvokeInUnit :: "'c sdk \<Rightarrow> ctx \<Rightarrow> handle \<Rightarrow> handle \<Rightarrow> go_string \<Rightarrow> call_params \<Rightarrow> invoke_options \<Rightarrow> 'c sdk_state op0" where
  "InvokeInUnit k c h u fn i opt st =
     (case ctx_err c of Some e \<Rightarrow> (Some e, st)
      | None \<Rightarrow> op_err (with_conn h (\<lambda>ch. with_unit u (\<lambda>uh st.
          if uh_connID uh \<noteq> h
          then (Err (PlainErr (''nwrfc/sdkbackend: unit '' @ show_nat (unat u) @ '' belongs to a different connection'')), st)
          else lift (with_function k (ch_sdkPtr ch) fn i opt (\<lambda>fh _.
            watched c (''RfcInvokeInUnit('' @ fn @ '')'') (\<lambda>b. RfcInvokeInUnit k b (uh_sdkPtr uh) fh))) st))) st)"

definition SubmitUnit :: "'c sdk \<Rightarrow> handle \<Rightarrow> 'c sdk_state op0" where
  "SubmitUnit k u = op_err (with_unit u (\<lambda>uh. lift (call ''RfcSubmitUnit'' (RfcSubmitUnit k (uh_sdkPtr uh)))))"

definition ConfirmUnit :: "'c sdk \<Rightarrow> handle \<Rightarrow> unit_identifier \<Rightarrow> 'c sdk_state op0" where
  "ConfirmUnit k h ident = op_err (with_conn h (\<lambda>ch st.
     if length (snd ident) \<noteq> 32 then (Err (bad_unit_id (snd ident)), st)
     else if fst ident \<noteq> CHR ''T'' \<and> fst ident \<noteq> CHR ''Q''
     then (Err (PlainErr (''nwrfc/sdkbackend: UnitIdentifier.Type='' @ [CHR 0x27, fst ident, CHR 0x27] @
             '' must be '' @ [CHR 0x27, CHR ''T'', CHR 0x27] @ '' or '' @ [CHR 0x27, CHR ''Q'', CHR 0x27])), st)
     else lift (bindA (stringToSAPUC k (snd ident)) (\<lambda>uc.
       call ''RfcConfirmUnit'' (RfcConfirmUnit k (ch_sdkPtr ch) (fst ident, uc)))) st))"

definition DestroyUnit :: "'c sdk \<Rightarrow> handle \<Rightarrow> 'c sdk_state op0" where
  "DestroyUnit k u = op_err (with_unit u (\<lambda>uh st.
     case lift (call ''RfcDestroyUnit'' (RfcDestroyUnit k (uh_sdkPtr uh))) st of
       (r, st') \<Rightarrow> (r, st'\<lparr>sb_units := unit_remove u (sb_units st')\<rparr>)))"

definition GetUnitState :: "'c sdk \<Rightarrow> handle \<Rightarrow> unit_identifier \<Rightarrow> ('c sdk_state, nat) op" where
  "GetUnitState k h ident = with_conn h (\<lambda>ch st.
     if length (snd ident) \<noteq> 32 then (Err (bad_unit_id (snd ident)), st)
     else lift (bindA (stringToSAPUC k (snd ident)) (\<lambda>uc.
       call ''RfcGetUnitState'' (RfcGetUnitState k (ch_sdkPtr ch) (fst ident, uc)))) st)"

section \<open>Trace\<close>

definition sdk_SetTraceLevel :: "'c sdk \<Rightarrow> int \<Rightarrow> 'c sdk_state op0" where
  "sdk_SetTraceLevel k level st =
     (if level < 0 \<or> level > 3
      then (Some (PlainErr (''nwrfc/sdkbackend: trace level '' @ show_int level @ '' out of range [0,3]'')), st)
      else op_err (lift (call ''RfcSetTraceLevel'' (RfcSetTraceLevel k (nat level)))) st)"

definition sdk_SetTraceDir :: "'c sdk \<Rightarrow> go_string \<Rightarrow> 'c sdk_state op0" where
  "sdk_SetTraceDir k dir = op_err (lift (bindA (stringToSAPUC k dir) (\<lambda>uc.
     call ''RfcSetTraceDir'' (RfcSetTraceDir k uc))))"

section \<open>The backend\<close>

text \<open>\<open>v\<close> is what \<open>RfcGetVersion\<close> reports.\<close>

definition sdk_backend :: "'c sdk \<Rightarrow> nat \<Rightarrow> version \<Rightarrow> 'c sdk_state backend" where
  "sdk_backend k n v =
     \<lparr>bk_name = ''sdk'', bk_version = (\<lambda>_. v), bk_caps = (\<lambda>_. sdk_capabilities v),
      bk_open = sdk_Open k, bk_close = sdk_Close k, bk_ping = sdk_Ping k, bk_attributes = sdk_Attributes k,
      bk_reset = sdk_Reset k, bk_describe = sdk_Describe k n, bk_invoke = sdk_Invoke k n,
      bk_invalidate = sdk_InvalidateMetadata k, bk_cancel = Some (sdk_Cancel k),
      bk_stream = Some \<lparr>so_invoke = sdk_InvokeTableStream k, so_next = sdk_stream_next k n, so_close = sdk_stream_close k\<rparr>,
      bk_tx = Some \<lparr>tx_create = CreateTransaction k, tx_invoke = InvokeInTransaction k, tx_submit = SubmitTransaction k,
                    tx_confirm = ConfirmTransaction k, tx_destroy = DestroyTransaction k\<rparr>,
      bk_unit = Some \<lparr>un_create = CreateUnit k, un_invoke = InvokeInUnit k, un_submit = SubmitUnit k,
                      un_confirm = ConfirmUnit k, un_destroy = DestroyUnit k, un_state = GetUnitState k\<rparr>,
      bk_trace = Some \<lparr>to_level = sdk_SetTraceLevel k, to_dir = sdk_SetTraceDir k\<rparr>\<rparr>"


section \<open>The contract\<close>

lemma lift_frame [simp]:
  "sb_conns (snd (lift m st)) = sb_conns st" "sb_txns (snd (lift m st)) = sb_txns st"
  "sb_units (snd (lift m st)) = sb_units st"
  by (auto simp: lift_def split: prod.splits sum.splits fail.splits)

lemma lift_frameD:
  "lift m st = (r, st') \<Longrightarrow> sb_conns st' = sb_conns st \<and> sb_txns st' = sb_txns st \<and> sb_units st' = sb_units st"
  using lift_frame [of m st] by (cases "lift m st") simp

lemma snd_op_err [simp]: "snd (op_err m s) = snd (m s)"
  by (simp add: op_err_def split: prod.splits sum.splits)

lemma fst_op_err [simp]: "fst (op_err m s) = None \<longleftrightarrow> is_ok (fst (m s))"
  by (simp add: op_err_def split: prod.splits sum.splits)

lemma op_err_eq: "op_err m s = (r, s') \<Longrightarrow> snd (m s) = s'"
  using snd_op_err [of m s] by simp

definition sb_live :: "'c sdk_state \<Rightarrow> handle \<Rightarrow> bool" where
  "sb_live st h \<longleftrightarrow> is_ok (conn_get h (sb_conns st))"

lemma with_conn_dead [simp]:
  assumes "\<not> sb_live st h"
  shows "snd (with_conn h f st) = st" "\<not> is_ok (fst (with_conn h f st))"
  using assms by (auto simp: sb_live_def with_conn_def split: sum.splits)

lemma with_conn_frame:
  assumes "\<And>ch. sb_conns (snd (f ch st)) = sb_conns st"
  shows "sb_conns (snd (with_conn h f st)) = sb_conns st"
  using assms by (auto simp: with_conn_def split: sum.splits)

lemma live_same: "sb_conns st' = sb_conns st \<Longrightarrow> sb_live st' = sb_live st"
  by (auto simp: sb_live_def fun_eq_iff)

lemma close_conns:
  "sb_conns (snd (sdk_Close k h st)) = sb_conns st \<or>
   sb_conns (snd (sdk_Close k h st)) = conn_remove h (mark_closed h (sb_conns st))"
  by (auto simp: sdk_Close_def with_conn_def split: sum.splits prod.splits dest!: lift_frameD)

lemma conn_remove_marked: "conn_remove h (mark_closed h r) = conn_remove h r"
  by (simp add: conn_remove_def mark_closed_def fun_eq_iff)

lemma close_conns_live: "sb_live st h \<Longrightarrow> sb_conns (snd (sdk_Close k h st)) = conn_remove h (sb_conns st)"
  by (auto simp: sdk_Close_def with_conn_def sb_live_def split: sum.splits prod.splits
      dest!: lift_frameD simp: conn_remove_marked)

lemma close_live_iff: "sb_live (snd (sdk_Close k h st)) j \<longleftrightarrow> j \<noteq> h \<and> sb_live st j"
proof (cases "sb_live st h")
  case True
  then show ?thesis using conns.remove_gone [of h "sb_conns st"] conns.get_remove [of j h "sb_conns st"]
    by (cases "j = h") (simp_all add: sb_live_def close_conns_live)
next
  case False
  then have "snd (sdk_Close k h st) = st" by (simp add: sdk_Close_def)
  then show ?thesis using False by auto
qed

lemma close_wf: "cr_wf (sb_conns st) \<Longrightarrow> cr_wf (sb_conns (snd (sdk_Close k h st)))"
  using close_conns [of k h st] conns.remove_wf [of "sb_conns st" h] conn_remove_marked by metis

lemma open_cases:
  "sdk_Open k c p st = (Ok h, st') \<Longrightarrow> \<exists>ch. conn_put ch (sb_conns st) = (h, sb_conns st')"
  "sdk_Open k c p st = (Err e, st') \<Longrightarrow> sb_conns st' = sb_conns st"
  by (auto simp: sdk_Open_def split: prod.splits sum.splits dest!: lift_frameD)

lemma others_frame:
  "sb_conns (snd (sdk_Ping k c h st)) = sb_conns st" "sb_conns (snd (sdk_Reset k c h st)) = sb_conns st"
  "sb_conns (snd (sdk_Attributes k h st)) = sb_conns st" "sb_conns (snd (sdk_Describe k n c h fn st)) = sb_conns st"
  "sb_conns (snd (sdk_Invoke k n c h fn i opt st)) = sb_conns st"
  by (simp_all add: sdk_Ping_def sdk_Reset_def sdk_Attributes_def sdk_Describe_def sdk_Invoke_def with_conn_frame)

lemma others_keep:
  "sdk_Ping k c h st = (r, st') \<Longrightarrow> sb_conns st' = sb_conns st"
  "sdk_Reset k c h st = (r, st') \<Longrightarrow> sb_conns st' = sb_conns st"
  "sdk_Attributes k h st = (a, st') \<Longrightarrow> sb_conns st' = sb_conns st"
  "sdk_Describe k n c h fn st = (d, st') \<Longrightarrow> sb_conns st' = sb_conns st"
  "sdk_Invoke k n c h fn i opt st = (q, st') \<Longrightarrow> sb_conns st' = sb_conns st"
  using others_frame(1) [of k c h st] others_frame(2) [of k c h st] others_frame(3) [of k h st]
    others_frame(4) [of k n c h fn st] others_frame(5) [of k n c h fn i opt st] by simp_all

lemma others_dead:
  assumes "\<not> sb_live st h"
  shows "fst (sdk_Ping k c h st) \<noteq> None" "fst (sdk_Reset k c h st) \<noteq> None"
    "\<not> is_ok (fst (sdk_Attributes k h st))" "\<not> is_ok (fst (sdk_Describe k n c h fn st))"
    "\<not> is_ok (fst (sdk_Invoke k n c h fn i opt st))"
  using assms by (simp_all add: sdk_Ping_def sdk_Reset_def sdk_Attributes_def sdk_Describe_def sdk_Invoke_def)

interpretation sdkb: backend_contract "sdk_backend k n v" sb_live "\<lambda>st. cr_wf (sb_conns st)"
  "\<lambda>st. cr_next (sb_conns st) \<noteq> - 1" for k n v
proof unfold_locales
  fix s s' :: "'a sdk_state" and c p h
  assume wf: "cr_wf (sb_conns s)" and room: "cr_next (sb_conns s) \<noteq> - 1"
    and o: "bk_open (sdk_backend k n v) c p s = (Ok h, s')"
  obtain ch where put: "conn_put ch (sb_conns s) = (h, sb_conns s')"
    using o open_cases(1) [of k c p s h s'] by (simp add: sdk_backend_def) blast
  show "\<not> sb_live s h \<and> cr_wf (sb_conns s') \<and> (\<forall>k. sb_live s' k \<longleftrightarrow> k = h \<or> sb_live s k)"
    using conns.put_fresh [OF wf room put] conns.put_wf [OF wf room put] conns.wf_issued [OF wf]
      conns.get_put [OF put] by (auto simp: sb_live_def)
next
  fix s s' :: "'a sdk_state" and c p e
  assume "cr_wf (sb_conns s)" and "bk_open (sdk_backend k n v) c p s = (Err e, s')"
  then show "cr_wf (sb_conns s') \<and> sb_live s' = sb_live s"
    using open_cases(2) [of k c p s e s'] live_same [of s' s] by (auto simp: sdk_backend_def)
next
  fix s s' :: "'a sdk_state" and h r
  assume "cr_wf (sb_conns s)" and "bk_close (sdk_backend k n v) h s = (r, s')"
  then show "cr_wf (sb_conns s') \<and> (\<forall>j. sb_live s' j \<longleftrightarrow> j \<noteq> h \<and> sb_live s j)"
    using close_wf [of s k h] close_live_iff [of k h s] by (simp add: sdk_backend_def)
qed (auto simp: sdk_backend_def others_dead sb_live_def fun_eq_iff dest!: others_keep)


interpretation sdkb: backend_fresh "sdk_backend k n v" sb_live "\<lambda>st. cr_wf (sb_conns st)"
  "\<lambda>st. cr_next (sb_conns st) \<noteq> - 1" "\<lambda>st. issued_upto (cr_next (sb_conns st))" for k n v
proof unfold_locales
  fix s :: "'a sdk_state" and h
  assume "cr_wf (sb_conns s)" and "sb_live s h"
  then show "issued_upto (cr_next (sb_conns s)) h" using conns.wf_issued by (simp add: sb_live_def)
next
  fix s s' :: "'a sdk_state" and c p h
  assume wf: "cr_wf (sb_conns s)" and room: "cr_next (sb_conns s) \<noteq> - 1"
    and o: "bk_open (sdk_backend k n v) c p s = (Ok h, s')"
  obtain ch where "conn_put ch (sb_conns s) = (h, sb_conns s')"
    using o open_cases(1) [of k c p s h s'] by (simp add: sdk_backend_def) blast
  then show "\<not> issued_upto (cr_next (sb_conns s)) h" using conns.put_fresh [OF wf room] by blast
next
  fix s :: "'a sdk_state" and h e
  assume room: "cr_next (sb_conns s) \<noteq> - 1" and used: "issued_upto (cr_next (sb_conns s)) h"
  show "issued_upto (cr_next (sb_conns (bk_run (sdk_backend k n v) e s))) h"
  proof (cases e)
    case (SOpen c p)
    obtain r s' where o: "sdk_Open k c p s = (r, s')" by force
    show ?thesis
    proof (cases r)
      case (Inl x)
      then show ?thesis using SOpen o used open_cases(2) [of k c p s x s'] by (simp add: sdk_backend_def)
    next
      case (Inr j)
      then obtain ch where "conn_put ch (sb_conns s) = (j, sb_conns s')"
        using o open_cases(1) [of k c p s j s'] by auto
      then show ?thesis using SOpen o used conns.put_issued [OF room] by (simp add: sdk_backend_def)
    qed
  next
    case (SClose j)
    then show ?thesis using used close_conns [of k j s]
      by (auto simp: sdk_backend_def conn_remove_marked conn_remove_def mark_closed_def)
  qed (use used in \<open>simp_all add: sdk_backend_def others_frame\<close>)
qed

section \<open>Properties\<close>

text \<open>C17: Once a connection handle is closed, no later sequence of operations of any client makes it
  valid again: handles are never reused, and a call with the closed one is refused before the SDK is
  reached. This holds for every SDK, as long as the 64-bit counter does not wrap.\<close>

theorem sdk_closed_handle_stays_dead:
  assumes "cr_wf (sb_conns st)" and "cr_next (sb_conns st) \<noteq> - 1" and "sb_live st h"
    and "has_room (sdk_backend k n v) (\<lambda>st. cr_next (sb_conns st) \<noteq> - 1) es (snd (sdk_Close k h st))"
  defines "later \<equiv> fold (bk_run (sdk_backend k n v)) (SClose h # es) st"
  shows "\<not> sb_live later h \<and> fst (sdk_Ping k c h later) \<noteq> None \<and>
    \<not> is_ok (fst (sdk_Invoke k n c h fn i opt later)) \<and> snd (sdk_Invoke k n c h fn i opt later) = later"
proof -
  have "\<not> sb_live later h"
    using sdkb.closed_forever [OF assms(1-3)] assms(4) unfolding later_def by (simp add: sdk_backend_def)
  then show ?thesis using others_dead [of later h] by (simp add: sdk_Invoke_def)
qed

definition one_conn :: "unit sdk_state" where
  "one_conn = \<lparr>sb_conns = \<lparr>cr_next = 1, cr_m = [1 \<mapsto> \<lparr>ch_id = 1, ch_closed = False, ch_sdkPtr = 77\<rparr>]\<rparr>,
     sb_txns = \<lparr>tr_next = 0, tr_m = Map.empty\<rparr>, sb_units = \<lparr>ur_next = 0, ur_m = Map.empty\<rparr>,
     sb_streams = Map.empty, sb_nstreams = 0, sb_panic = None, sb_c = ()\<rparr>"

lemma sdk_closed_handle_stays_dead_witness:
  "\<not> sb_live (fold (bk_run (sdk_backend ((undefined :: unit sdk)\<lparr>RfcCloseConnection := \<lambda>_ s. (Ok (), s)\<rparr>) 1 zero_version))
     [SClose 1] one_conn) 1"
proof -
  let ?k = "(undefined :: unit sdk)\<lparr>RfcCloseConnection := \<lambda>_ s. (Ok (), s)\<rparr>"
  have "cr_wf (sb_conns one_conn)" "cr_next (sb_conns one_conn) \<noteq> - 1" "sb_live one_conn 1"
    by (simp_all add: one_conn_def cr_wf_def issued_upto_def sb_live_def conn_get_def)
  from sdk_closed_handle_stays_dead [OF this, of ?k 1 zero_version "[]"] show ?thesis by simp
qed

text \<open>A second \<open>Close\<close> of a connection handle returns an error, although \<open>Backend.Close\<close> is
  documented to be idempotent and to return nil then.\<close>

theorem sdk_Close_twice_fails:
  "fst (sdk_Close k h (snd (sdk_Close k h st))) \<noteq> None"
proof -
  have "\<not> sb_live (snd (sdk_Close k h st)) h" by (simp add: close_live_iff)
  then show ?thesis by (simp add: sdk_Close_def)
qed

text \<open>C18: Transactions: a created one can be used on its own connection only; \<open>DestroyTransaction\<close>
  forgets it even when the SDK reports an error, so it cannot be destroyed again and every later
  operation on it is refused without reaching the SDK.\<close>

theorem transaction_lifecycle:
  assumes "CreateTransaction k h tid queue st = (Ok tx, st')"
  shows "length tid = 24 \<and> sb_live st h \<and> (\<exists>t. txn_get tx (sb_txns st') = Ok t \<and> th_connID t = h) \<and>
    (h' = h \<or> fst (InvokeInTransaction k c h' tx fn i opt st') \<noteq> None) \<and>
    (let st'' = snd (DestroyTransaction k tx st')
     in \<not> is_ok (txn_get tx (sb_txns st'')) \<and>
        fst (SubmitTransaction k tx st'') \<noteq> None \<and> snd (SubmitTransaction k tx st'') = st'' \<and>
        fst (ConfirmTransaction k tx st'') \<noteq> None \<and> snd (ConfirmTransaction k tx st'') = st'' \<and>
        fst (DestroyTransaction k tx st'') \<noteq> None \<and> snd (DestroyTransaction k tx st'') = st'' \<and>
        fst (InvokeInTransaction k c h tx fn i opt st'') \<noteq> None \<and> snd (InvokeInTransaction k c h tx fn i opt st'') = st'')"
proof -
  obtain p s1 where p: "length tid = 24" "sb_live st h"
      "txn_put \<lparr>th_id = 0, th_connID = h, th_sdkPtr = p\<rparr> s1 = (tx, sb_txns st')"
    using assms by (auto simp: CreateTransaction_def with_conn_def sb_live_def split: sum.splits if_splits prod.splits)
  then have g: "txn_get tx (sb_txns st') = Ok \<lparr>th_id = tx, th_connID = h, th_sdkPtr = p\<rparr>"
    using txns.put_then_get [OF p(3)] by simp
  have other: "h' = h \<or> fst (InvokeInTransaction k c h' tx fn i opt st') \<noteq> None"
    using g by (auto simp: InvokeInTransaction_def op_err_def with_conn_def with_txn_def split: option.splits sum.splits)
  define st'' where "st'' = snd (DestroyTransaction k tx st')"
  have "sb_txns st'' = txn_remove tx (sb_txns st')"
    using g by (auto simp: st''_def DestroyTransaction_def with_txn_def split: prod.splits dest!: lift_frameD)
  then have "\<not> is_ok (txn_get tx (sb_txns st''))" using txns.remove_gone by simp
  then obtain e where e: "txn_get tx (sb_txns st'') = Err e" by (cases "txn_get tx (sb_txns st'')") simp_all
  have "fst (InvokeInTransaction k c h tx fn i opt st'') \<noteq> None \<and> snd (InvokeInTransaction k c h tx fn i opt st'') = st''"
    using e by (auto simp: InvokeInTransaction_def op_err_def with_conn_def with_txn_def split: option.splits sum.splits)
  then show ?thesis unfolding Let_def st''_def [symmetric]
    using p(1,2) g other e
    by (simp add: SubmitTransaction_def ConfirmTransaction_def DestroyTransaction_def with_txn_def op_err_def)
qed

lemma transaction_lifecycle_witness:
  "let k = (undefined :: unit sdk)\<lparr>RfcUTF8ToSAPUC := \<lambda>_. None, RfcCreateTransaction := \<lambda>_ _ _ s. (Ok 5, s)\<rparr>;
       st' = snd (CreateTransaction k 1 (replicate 24 (CHR ''A'')) [] one_conn)
   in fst (InvokeInTransaction k background 2 1 ''FN'' [] undefined st') \<noteq> None"
proof -
  let ?k = "(undefined :: unit sdk)\<lparr>RfcUTF8ToSAPUC := \<lambda>_. None, RfcCreateTransaction := \<lambda>_ _ _ s. (Ok 5, s)\<rparr>"
  have c: "CreateTransaction ?k 1 (replicate 24 (CHR ''A'')) [] one_conn =
      (Ok 1, one_conn\<lparr>sb_txns := \<lparr>tr_next = 1, tr_m = [1 \<mapsto> \<lparr>th_id = 1, th_connID = 1, th_sdkPtr = 5\<rparr>]\<rparr>\<rparr>)"
    by (simp add: CreateTransaction_def with_conn_def conn_get_def one_conn_def lift_def stringToSAPUC_def bindA_def
        call_def txn_put_def)
  show ?thesis using transaction_lifecycle [OF c, of 2 background "''FN''" "[]" undefined] c by (simp add: Let_def)
qed

text \<open>Submitting, confirming or destroying a transaction does not look at its connection: after
  the connection has been closed the SDK is still called, with the transaction's pointer into it.\<close>

theorem submit_after_connection_close:
  assumes "txn_get tx (sb_txns st) = Ok t" and "sdk_Close k h st = (r, st')"
  shows "\<not> sb_live st' h \<and>
    SubmitTransaction k tx st' = op_err (lift (call ''RfcSubmitTransaction'' (RfcSubmitTransaction k (th_sdkPtr t)))) st'"
proof -
  have "sb_txns st' = sb_txns st"
    using assms(2) by (auto simp: sdk_Close_def op_err_def with_conn_def split: prod.splits sum.splits dest!: lift_frameD)
  moreover have "\<not> sb_live st' h" using close_live_iff [of k h st h] assms(2) by simp
  ultimately show ?thesis using assms(1) by (simp add: SubmitTransaction_def with_txn_def op_err_def)
qed

lemma submit_after_connection_close_witness:
  "fst (SubmitTransaction ((undefined :: nat sdk)\<lparr>RfcCloseConnection := \<lambda>_ s. (Ok (), s), RfcSubmitTransaction := \<lambda>p s. (Ok (), p)\<rparr>) 1
     (snd (sdk_Close ((undefined :: nat sdk)\<lparr>RfcCloseConnection := \<lambda>_ s. (Ok (), s), RfcSubmitTransaction := \<lambda>p s. (Ok (), p)\<rparr>) 1
       \<lparr>sb_conns = \<lparr>cr_next = 1, cr_m = [1 \<mapsto> \<lparr>ch_id = 1, ch_closed = False, ch_sdkPtr = 77\<rparr>]\<rparr>,
        sb_txns = \<lparr>tr_next = 1, tr_m = [1 \<mapsto> \<lparr>th_id = 1, th_connID = 1, th_sdkPtr = 5\<rparr>]\<rparr>,
        sb_units = \<lparr>ur_next = 0, ur_m = Map.empty\<rparr>, sb_streams = Map.empty, sb_nstreams = 0, sb_panic = None, sb_c = 0\<rparr>))) = None"
  (is "fst (SubmitTransaction ?k 1 (snd (sdk_Close ?k 1 ?st))) = None")
proof -
  obtain r st' where c: "sdk_Close ?k 1 ?st = (r, st')" by force
  have g: "txn_get 1 (sb_txns ?st) = Ok \<lparr>th_id = 1, th_connID = 1, th_sdkPtr = 5\<rparr>" by (simp add: txn_get_def)
  show ?thesis using submit_after_connection_close [OF g c] c by (simp add: op_err_def lift_def call_def)
qed

end
