(* ===== verification/Gorfc_C.thy ===== *)
theory Gorfc_C
  imports Sdk_Wrap
begin

text \<open>
  \<open>gorfc/gorfc.go\<close>, the older binding, up to the connection: its errors, the conversion of
  strings, filling a container from Go values, reading a container into Go values, and the metadata.
  The SDK is a record of functions again, with the signatures this package uses: output buffers and
  \<open>RFC_ERROR_INFO\<close> are what a call leaves in them, strings are units, and a C string ends at its
  first NUL. Panics of \<open>reflect\<close> are values; following a type handle costs one unit of fuel.

  Memory is not modelled: allocation, the frees, and buffers that are too small
  (\<open>C.malloc(8)\<close> for eight units of a date).
\<close>

section \<open>The SDK as this package calls it\<close>

text \<open>\<open>RFC_ERROR_INFO\<close>.\<close>

record c_error_info =
  ci_code :: nat
  ci_message :: uc
  ci_key :: uc
  ci_abapMsgClass :: uc
  ci_abapMsgType :: uc
  ci_abapMsgNumber :: uc
  ci_abapMsgV1 :: uc
  ci_abapMsgV2 :: uc
  ci_abapMsgV3 :: uc
  ci_abapMsgV4 :: uc

definition no_info :: c_error_info where
  "no_info = \<lparr>ci_code = 0, ci_message = [], ci_key = [], ci_abapMsgClass = [], ci_abapMsgType = [],
     ci_abapMsgNumber = [], ci_abapMsgV1 = [], ci_abapMsgV2 = [], ci_abapMsgV3 = [], ci_abapMsgV4 = []\<rparr>"

text \<open>\<open>RFC_FIELD_DESC\<close> and \<open>RFC_PARAMETER_DESC\<close>, a NULL type handle is 0.\<close>

record l_field =
  lf_name :: uc
  lf_type :: rfc_type
  lf_nucLength :: nat
  lf_nucOffset :: nat
  lf_ucLength :: nat
  lf_ucOffset :: nat
  lf_decimals :: nat
  lf_typeDesc :: nat

record l_param =
  lp_name :: uc
  lp_type :: rfc_type
  lp_direction :: nat
  lp_nucLength :: nat
  lp_ucLength :: nat
  lp_decimals :: nat
  lp_optional :: nat
  lp_defaultValue :: uc
  lp_parameterText :: uc
  lp_typeDesc :: nat

type_synonym ('c, 'a) lcall = "'c \<Rightarrow> (c_error_info, 'a) result \<times> 'c"

record 'c lsdk =
  l_fmt_g :: "64 word \<Rightarrow> go_string"
  l_typeString :: "gtype \<Rightarrow> go_string"
  l_time_of :: "gval \<Rightarrow> civil option"
  l_time_val :: "civil \<Rightarrow> gval"
  l_parse_text :: "go_string \<Rightarrow> go_string \<Rightarrow> go_string"
  l_ptr_text :: "uc \<Rightarrow> go_string"
  L_UTF8ToSAPUC :: "go_string \<Rightarrow> c_error_info option \<times> uc"
  L_SAPUCToUTF8 :: "uc \<Rightarrow> nat \<Rightarrow> (nat, go_string) result"
  L_RcAsString :: "nat \<Rightarrow> uc"
  L_TypeAsString :: "rfc_type \<Rightarrow> uc"
  L_DirectionAsString :: "nat \<Rightarrow> uc"
  L_Version :: "nat \<times> nat \<times> nat"
  L_OpenConnection :: "(uc \<times> uc) list \<Rightarrow> 'c \<Rightarrow> (nat \<times> c_error_info) \<times> 'c"
  L_CloseConnection :: "nat \<Rightarrow> ('c, unit) lcall"
  L_Ping :: "nat \<Rightarrow> ('c, unit) lcall"
  L_GetConnectionAttributes :: "nat \<Rightarrow> ('c, go_string \<Rightarrow> uc) lcall"
  L_GetFunctionDesc :: "nat \<Rightarrow> uc \<Rightarrow> ('c, nat) lcall"
  L_CreateFunction :: "nat \<Rightarrow> ('c, nat) lcall"
  L_DestroyFunction :: "nat \<Rightarrow> ('c, unit) lcall"
  L_Invoke :: "nat \<Rightarrow> nat \<Rightarrow> ('c, unit) lcall"
  L_GetFunctionName :: "nat \<Rightarrow> ('c, uc) lcall"
  L_GetParameterCount :: "nat \<Rightarrow> ('c, nat) lcall"
  L_GetParameterDescByIndex :: "nat \<Rightarrow> nat \<Rightarrow> ('c, l_param) lcall"
  L_GetParameterDescByName :: "nat \<Rightarrow> uc \<Rightarrow> ('c, l_param) lcall"
  L_GetTypeName :: "nat \<Rightarrow> ('c, uc) lcall"
  L_GetTypeLength :: "nat \<Rightarrow> ('c, nat \<times> nat) lcall"
  L_GetFieldCount :: "nat \<Rightarrow> ('c, nat) lcall"
  L_GetFieldDescByIndex :: "nat \<Rightarrow> nat \<Rightarrow> ('c, l_field) lcall"
  L_GetFieldDescByName :: "nat \<Rightarrow> uc \<Rightarrow> ('c, l_field) lcall"
  L_SetChars :: "nat \<Rightarrow> uc \<Rightarrow> uc \<Rightarrow> ('c, unit) lcall"
  L_SetNum :: "nat \<Rightarrow> uc \<Rightarrow> uc \<Rightarrow> ('c, unit) lcall"
  L_SetString :: "nat \<Rightarrow> uc \<Rightarrow> uc \<Rightarrow> ('c, unit) lcall"
  L_SetDate :: "nat \<Rightarrow> uc \<Rightarrow> uc \<Rightarrow> ('c, unit) lcall"
  L_SetTime :: "nat \<Rightarrow> uc \<Rightarrow> uc \<Rightarrow> ('c, unit) lcall"
  L_SetBytes :: "nat \<Rightarrow> uc \<Rightarrow> 8 word list \<Rightarrow> ('c, unit) lcall"
  L_SetXString :: "nat \<Rightarrow> uc \<Rightarrow> 8 word list \<Rightarrow> ('c, unit) lcall"
  L_SetInt :: "nat \<Rightarrow> uc \<Rightarrow> 32 word \<Rightarrow> ('c, unit) lcall"
  L_GetStructure :: "nat \<Rightarrow> uc \<Rightarrow> ('c, nat) lcall"
  L_GetTable :: "nat \<Rightarrow> uc \<Rightarrow> ('c, nat) lcall"
  L_AppendNewRow :: "nat \<Rightarrow> ('c, nat) lcall"
  L_GetChars :: "nat \<Rightarrow> uc \<Rightarrow> nat \<Rightarrow> ('c, uc) lcall"
  L_GetNum :: "nat \<Rightarrow> uc \<Rightarrow> nat \<Rightarrow> ('c, uc) lcall"
  L_GetStringLength :: "nat \<Rightarrow> uc \<Rightarrow> ('c, nat) lcall"
  L_GetString :: "nat \<Rightarrow> uc \<Rightarrow> nat \<Rightarrow> 'c \<Rightarrow> (c_error_info \<times> uc \<times> nat) \<times> 'c"
  L_GetBytes :: "nat \<Rightarrow> uc \<Rightarrow> nat \<Rightarrow> ('c, 8 word list) lcall"
  L_GetXString :: "nat \<Rightarrow> uc \<Rightarrow> nat \<Rightarrow> ('c, 8 word list) lcall"
  L_GetFloat :: "nat \<Rightarrow> uc \<Rightarrow> ('c, 64 word) lcall"
  L_GetInt :: "nat \<Rightarrow> uc \<Rightarrow> ('c, 32 word) lcall"
  L_GetInt1 :: "nat \<Rightarrow> uc \<Rightarrow> ('c, 8 word) lcall"
  L_GetInt2 :: "nat \<Rightarrow> uc \<Rightarrow> ('c, 16 word) lcall"
  L_GetInt8 :: "nat \<Rightarrow> uc \<Rightarrow> ('c, 64 word) lcall"
  L_GetDate :: "nat \<Rightarrow> uc \<Rightarrow> ('c, uc) lcall"
  L_GetTime :: "nat \<Rightarrow> uc \<Rightarrow> ('c, uc) lcall"
  L_GetRowCount :: "nat \<Rightarrow> ('c, nat) lcall"
  L_MoveTo :: "nat \<Rightarrow> nat \<Rightarrow> ('c, unit) lcall"
  L_GetCurrentRow :: "nat \<Rightarrow> 'c \<Rightarrow> nat \<times> 'c"

text \<open>The string of a NUL-terminated buffer (\<open>strlenU\<close>).\<close>

definition ustr :: "uc \<Rightarrow> uc" where
  "ustr u = takeWhile (\<lambda>w. w \<noteq> 0) u"

section \<open>Errors\<close>

record rfc_sdk_error =
  re_Message :: go_string
  re_Code :: go_string
  re_Key :: go_string
  re_AbapMsgClass :: go_string
  re_AbapMsgType :: go_string
  re_AbapMsgNumber :: go_string
  re_AbapMsgV1 :: go_string
  re_AbapMsgV2 :: go_string
  re_AbapMsgV3 :: go_string
  re_AbapMsgV4 :: go_string

datatype lerr = RfcError go_string rfc_sdk_error | GoRfcError go_string "go_string option" | PlainError go_string

definition rfcSDKError_String :: "rfc_sdk_error \<Rightarrow> go_string" where
  "rfcSDKError_String e = ''rfcSDKError['' @ re_Message e @ '', '' @ re_Code e @ '', '' @ re_Key e @ '', '' @
     re_AbapMsgClass e @ '', '' @ re_AbapMsgType e @ '', '' @ re_AbapMsgNumber e @ '', '' @ re_AbapMsgV1 e @
     '', '' @ re_AbapMsgV2 e @ '', '' @ re_AbapMsgV3 e @ '', '' @ re_AbapMsgV4 e @ '']''"

fun lerr_Error :: "lerr \<Rightarrow> go_string" where
  "lerr_Error (RfcError d i) = ''NWRFC SDK error: '' @ d @ '' | '' @ rfcSDKError_String i"
| "lerr_Error (GoRfcError d (Some e)) = ''GORFC error: '' @ d @ '' | '' @ e"
| "lerr_Error (GoRfcError d None) = ''GORFC error: '' @ d"
| "lerr_Error (PlainError t) = t"

text \<open>Five bytes per unit and a terminator, in C's 32-bit arithmetic; a failed conversion reports the
  size the SDK left in the variable.\<close>

definition nWrapString :: "'c lsdk \<Rightarrow> uc \<Rightarrow> nat \<Rightarrow> bool \<Rightarrow> go_string \<times> lerr option" where
  "nWrapString k u n strip =
     (if n = 0 then ([], None)
      else case L_SAPUCToUTF8 k (take n u) ((5 * n + 1) mod 2 ^ 32) of
        Inl sz \<Rightarrow> ([], Some (PlainError (''wrapString sapucLength '' @ show_nat n @ '' utf8size '' @ show_nat sz)))
      | Inr s \<Rightarrow> (if strip then trimTrailing s else s, None))"

definition gorfc_wrapString :: "'c lsdk \<Rightarrow> uc \<Rightarrow> bool \<Rightarrow> go_string \<times> lerr option" where
  "gorfc_wrapString k u strip = nWrapString k u (length (ustr u)) strip"

definition wrapError :: "'c lsdk \<Rightarrow> c_error_info \<Rightarrow> rfc_sdk_error" where
  "wrapError k i = (let w = (\<lambda>u. fst (gorfc_wrapString k u True)) in
     \<lparr>re_Message = w (ci_message i), re_Code = w (L_RcAsString k (ci_code i)), re_Key = w (ci_key i),
      re_AbapMsgClass = w (ci_abapMsgClass i), re_AbapMsgType = w (ci_abapMsgType i),
      re_AbapMsgNumber = w (ci_abapMsgNumber i), re_AbapMsgV1 = w (ci_abapMsgV1 i),
      re_AbapMsgV2 = w (ci_abapMsgV2 i), re_AbapMsgV3 = w (ci_abapMsgV3 i), re_AbapMsgV4 = w (ci_abapMsgV4 i)\<rparr>)"

definition rfcError :: "'c lsdk \<Rightarrow> c_error_info \<Rightarrow> go_string \<Rightarrow> lerr" where
  "rfcError k i description = RfcError description (wrapError k i)"

text \<open>The buffer is what the conversion leaves, also when it fails.\<close>

definition gorfc_fillString :: "'c lsdk \<Rightarrow> go_string \<Rightarrow> uc \<times> lerr option" where
  "gorfc_fillString k s =
     (case L_UTF8ToSAPUC k s of
        (None, u) \<Rightarrow> (u, None)
      | (Some i, u) \<Rightarrow> (u, Some (rfcError k i (''Could not fill the string '' @ [CHR 0x22] @ s @ [CHR 0x22]))))"

text \<open>A call of the SDK whose failure is looked at by the caller, and one whose failure makes it
  return \<open>d\<close> with an error.\<close>

definition sdk_call :: "('c, 'a) lcall \<Rightarrow> ('c, (c_error_info, 'a) result) act" where
  "sdk_call f s = (case f s of (r, s') \<Rightarrow> (Ok r, s'))"

definition or_err :: "'c lsdk \<Rightarrow> 'b \<Rightarrow> go_string \<Rightarrow> ('c, 'a) lcall \<Rightarrow> ('a \<Rightarrow> ('c, 'b \<times> lerr option) act) \<Rightarrow>
    ('c, 'b \<times> lerr option) act" where
  "or_err k d msg f g = bindA (sdk_call f) (\<lambda>r. case r of Inl i \<Rightarrow> ret (d, Some (rfcError k i msg)) | Inr a \<Rightarrow> g a)"

lemma or_err_cong [fundef_cong]:
  "k = k' \<Longrightarrow> d = d' \<Longrightarrow> msg = msg' \<Longrightarrow> f = f' \<Longrightarrow> s = s' \<Longrightarrow> (\<And>a t. f' s' = (Ok a, t) \<Longrightarrow> g a t = g' a t) \<Longrightarrow>
   or_err k d msg f g s = or_err k' d' msg' f' g' s'"
  by (auto simp: or_err_def bindA_def sdk_call_def split: prod.splits sum.splits)

end
