(* ===== verification/Gorfc_Fill.thy ===== *)
theory Gorfc_Fill
  imports Gorfc_C
begin

text \<open>
  The fill functions of \<open>gorfc/gorfc.go\<close>: writing Go values into an SDK container. The functions
  return the error as a value, because the loops over fields and rows go on after one; a panic ends the
  action. A map is visited in the order of its list. Following a type handle costs one unit of fuel,
  and the lemmas show that fuel above the nesting rank of the types is never used up.
\<close>

section \<open>Reflection\<close>

fun int_kind_name :: "ikind \<Rightarrow> go_string" where
  "int_kind_name KInt = ''int''"
| "int_kind_name KInt8 = ''int8''"
| "int_kind_name KInt16 = ''int16''"
| "int_kind_name KInt32 = ''int32''"
| "int_kind_name KInt64 = ''int64''"
| "int_kind_name KUint = ''uint''"
| "int_kind_name KUint8 = ''uint8''"
| "int_kind_name KUint16 = ''uint16''"
| "int_kind_name KUint32 = ''uint32''"
| "int_kind_name KUint64 = ''uint64''"

fun kind_name :: "gval \<Rightarrow> go_string" where
  "kind_name VNil = ''zero''"
| "kind_name (VBool _) = ''bool''"
| "kind_name (VString _) = ''string''"
| "kind_name (VInt ik _) = int_kind_name ik"
| "kind_name (VFloat KFloat32 _) = ''float32''"
| "kind_name (VFloat KFloat64 _) = ''float64''"
| "kind_name (VSlice _ _) = ''slice''"
| "kind_name (VArray _ _) = ''array''"
| "kind_name (VPtr _ _) = ''ptr''"
| "kind_name (VMap _ _ _) = ''map''"
| "kind_name (VStruct _ _) = ''struct''"
| "kind_name (VNamed _ v) = kind_name v"

text \<open>The panic of \<open>reflect\<close> on a value of the wrong kind, and on a nil \<open>reflect.Type\<close>.\<close>

definition value_error :: "go_string \<Rightarrow> gval \<Rightarrow> fail" where
  "value_error m v = Panic (''reflect: call of reflect.Value.'' @ m @ '' on '' @ kind_name v @ '' Value'')"

definition nil_deref :: fail where
  "nil_deref = Panic ''runtime error: invalid memory address or nil pointer dereference''"

text \<open>\<open>reflect.ValueOf(v).String()\<close>: the string, or for other kinds the name of the type.\<close>

definition reflect_String :: "'c lsdk \<Rightarrow> gval \<Rightarrow> go_string" where
  "reflect_String k v =
     (case raw v of
        VString s \<Rightarrow> s
      | VNil \<Rightarrow> ''<invalid Value>''
      | _ \<Rightarrow> ''<'' @ l_typeString k (type_of v) @ '' Value>'')"

definition reflect_Bytes :: "gval \<Rightarrow> ('c, 8 word list) act" where
  "reflect_Bytes v =
     (case raw v of
        VSlice t vs \<Rightarrow>
          if under t = TInt KUint8
          then ret (map (\<lambda>x. byte_val (raw x)) (case vs of None \<Rightarrow> [] | Some xs \<Rightarrow> xs))
          else failA (Panic ''reflect.Value.Bytes of non-byte slice'')
      | VArray t vs \<Rightarrow>
          if under t = TInt KUint8 then failA (Panic ''reflect.Value.Bytes of unaddressable byte array'')
          else failA (Panic ''reflect.Value.Bytes of non-byte array'')
      | _ \<Rightarrow> failA (value_error ''Bytes'' v))"

definition reflect_Int :: "gval \<Rightarrow> ('c, int) act" where
  "reflect_Int v =
     (case raw v of VInt ik n \<Rightarrow> if unsigned_kind ik then failA (value_error ''Int'' v) else ret n
      | _ \<Rightarrow> failA (value_error ''Int'' v))"

definition reflect_Uint :: "gval \<Rightarrow> ('c, int) act" where
  "reflect_Uint v =
     (case raw v of VInt ik n \<Rightarrow> if unsigned_kind ik then ret n else failA (value_error ''Uint'' v)
      | _ \<Rightarrow> failA (value_error ''Uint'' v))"

text \<open>The first byte of the name of a type is \<open>[\<close> exactly for unnamed slices and arrays.\<close>

definition bracketed :: "gval \<Rightarrow> bool" where
  "bracketed v = (case type_of v of TSlice _ \<Rightarrow> True | TArray _ _ \<Rightarrow> True | _ \<Rightarrow> False)"

section \<open>Scalars\<close>

text \<open>What \<open>fillVariable\<close> returns after a setter: the error of a failed setter replaces the one of
  the conversion, which otherwise is returned although the field was set.\<close>

definition after_set :: "'c lsdk \<Rightarrow> uc \<Rightarrow> rfc_type \<Rightarrow> lerr option \<Rightarrow> (c_error_info, unit) result \<Rightarrow> lerr option" where
  "after_set k cName t err rc =
     (case rc of
        Inr _ \<Rightarrow> err
      | Inl i \<Rightarrow> Some (rfcError k i (''Could not fill '' @ fst (gorfc_wrapString k cName True) @
          '' of type '' @ show_nat (rfc_code t))))"

definition set_with :: "'c lsdk \<Rightarrow> uc \<Rightarrow> rfc_type \<Rightarrow> lerr option \<Rightarrow> ('c, unit) lcall \<Rightarrow> ('c, lerr option) act" where
  "set_with k cName t err f = bindA (sdk_call f) (\<lambda>rc. ret (after_set k cName t err rc))"

definition set_text :: "'c lsdk \<Rightarrow> uc \<Rightarrow> rfc_type \<Rightarrow> go_string \<Rightarrow> (uc \<Rightarrow> ('c, unit) lcall) \<Rightarrow> ('c, lerr option) act" where
  "set_text k cName t s f = (case gorfc_fillString k s of (u, err) \<Rightarrow> set_with k cName t err (f u))"

text \<open>\<open>time.Time.Format\<close> with the layouts \<open>20060102\<close> and \<open>150405\<close>.\<close>

definition format_date :: "civil \<Rightarrow> go_string" where
  "format_date c = fmt_0d 4 (cYear c) @ fmt_0d 2 (cMonth c) @ fmt_0d 2 (cDay c)"

definition format_clock :: "civil \<Rightarrow> go_string" where
  "format_clock c = fmt_0d 2 (cHour c) @ fmt_0d 2 (cMin c) @ fmt_0d 2 (cSec c)"

definition as_civil :: "'c lsdk \<Rightarrow> gval \<Rightarrow> ('c, civil) act" where
  "as_civil k v =
     (case l_time_of k v of
        Some c \<Rightarrow> ret c
      | None \<Rightarrow> failA (Panic (''interface conversion: interface {} is '' @
          (if v = VNil then ''nil'' else l_typeString k (type_of v)) @ '', not time.Time'')))"

definition decimal_text :: "'c lsdk \<Rightarrow> gval \<Rightarrow> ('c, go_string) act" where
  "decimal_text k v =
     (case raw v of
        VNil \<Rightarrow> failA nil_deref
      | VFloat KFloat64 w \<Rightarrow> ret (l_fmt_g k w)
      | _ \<Rightarrow> ret (reflect_String k v))"

definition int1_value :: "gval \<Rightarrow> ('c, int) act" where
  "int1_value v =
     (case raw v of
        VNil \<Rightarrow> failA nil_deref
      | VInt KInt n \<Rightarrow> ret n
      | _ \<Rightarrow> reflect_Uint v)"

text \<open>All types but structures and tables.\<close>

definition gorfc_fillScalar :: "'c lsdk \<Rightarrow> rfc_type \<Rightarrow> nat \<Rightarrow> uc \<Rightarrow> gval \<Rightarrow> ('c, lerr option) act" where
  "gorfc_fillScalar k t h cName v =
     (if t = TypeByte then
        bindA (reflect_Bytes v) (\<lambda>bs. set_with k cName t None (L_SetBytes k h cName bs))
      else if t = TypeXString then
        bindA (reflect_Bytes v) (\<lambda>bs. set_with k cName t None (L_SetXString k h cName bs))
      else if t = TypeChar then
        set_text k cName t (reflect_String k v) (\<lambda>u. L_SetChars k h cName (ustr u))
      else if t = TypeString \<or> t = TypeUTCLong then
        set_text k cName t (reflect_String k v) (\<lambda>u. L_SetString k h cName (ustr u))
      else if t = TypeNum then
        set_text k cName t (reflect_String k v) (\<lambda>u. L_SetNum k h cName (ustr u))
      else if t \<in> {TypeFloat, TypeBCD, TypeDecF16, TypeDecF34} then
        bindA (decimal_text k v) (\<lambda>s. set_text k cName t s (\<lambda>u. L_SetString k h cName (ustr u)))
      else if t = TypeInt1 then
        bindA (int1_value v) (\<lambda>n. set_with k cName t None (L_SetInt k h cName (word_of_int n)))
      else if t \<in> {TypeInt2, TypeInt, TypeInt8} then
        bindA (reflect_Int v) (\<lambda>n. set_with k cName t None (L_SetInt k h cName (word_of_int n)))
      else if t = TypeDate then
        bindA (as_civil k v) (\<lambda>c. set_text k cName t (format_date c) (L_SetDate k h cName))
      else if t = TypeTime then
        bindA (as_civil k v) (\<lambda>c. set_text k cName t (format_clock c) (L_SetTime k h cName))
      else ret (Some (rfcError k no_info (''Unknown RFC type '' @ show_nat (rfc_code t) @ '' when filling '' @
             fst (gorfc_wrapString k cName True)))))"

section \<open>The recursion\<close>

definition or_fail :: "'c lsdk \<Rightarrow> go_string \<Rightarrow> ('c, 'a) lcall \<Rightarrow> ('a \<Rightarrow> ('c, lerr option) act) \<Rightarrow> ('c, lerr option) act" where
  "or_fail k msg f g = bindA (sdk_call f) (\<lambda>r. case r of Inl i \<Rightarrow> ret (Some (rfcError k i msg)) | Inr a \<Rightarrow> g a)"

lemma or_fail_cong [fundef_cong]:
  "k = k' \<Longrightarrow> msg = msg' \<Longrightarrow> f = f' \<Longrightarrow> s = s' \<Longrightarrow> (\<And>a t. f' s' = (Ok a, t) \<Longrightarrow> g a t = g' a t) \<Longrightarrow>
   or_fail k msg f g s = or_fail k' msg' f' g' s'"
  by (auto simp: or_fail_def bindA_def sdk_call_def split: prod.splits sum.splits)

function (sequential)
    gorfc_fillVariable :: "'c lsdk \<Rightarrow> nat \<Rightarrow> rfc_type \<Rightarrow> nat \<Rightarrow> uc \<Rightarrow> gval \<Rightarrow> nat \<Rightarrow> ('c, lerr option) act"
and gorfc_fillStructure :: "'c lsdk \<Rightarrow> nat \<Rightarrow> nat \<Rightarrow> nat \<Rightarrow> gval \<Rightarrow> ('c, lerr option) act"
and gorfc_fill_map :: "'c lsdk \<Rightarrow> nat \<Rightarrow> nat \<Rightarrow> nat \<Rightarrow> (gval \<times> gval) list \<Rightarrow> lerr option \<Rightarrow> ('c, lerr option) act"
and gorfc_fill_struct :: "'c lsdk \<Rightarrow> nat \<Rightarrow> nat \<Rightarrow> nat \<Rightarrow> (go_string \<times> go_string \<times> bool \<times> bool \<times> gtype) list \<Rightarrow> gval list \<Rightarrow> lerr option \<Rightarrow> ('c, lerr option) act"
and gorfc_fillStructureField :: "'c lsdk \<Rightarrow> nat \<Rightarrow> nat \<Rightarrow> nat \<Rightarrow> go_string \<Rightarrow> gval \<Rightarrow> ('c, lerr option) act"
and gorfc_fillTable :: "'c lsdk \<Rightarrow> nat \<Rightarrow> nat \<Rightarrow> nat \<Rightarrow> gval \<Rightarrow> ('c, lerr option) act"
and gorfc_fill_rows :: "'c lsdk \<Rightarrow> nat \<Rightarrow> nat \<Rightarrow> nat \<Rightarrow> gval list \<Rightarrow> lerr option \<Rightarrow> ('c, lerr option) act"
where
  "gorfc_fillVariable k n t h cName v td =
     (if t = TypeStructure then
        or_fail k ''Could not get structure'' (L_GetStructure k h cName) (\<lambda>sub.
          case n of 0 \<Rightarrow> failA OutOfFuel | Suc m \<Rightarrow> gorfc_fillStructure k m td sub v)
      else if t = TypeTable then
        (if v = VNil then failA nil_deref
         else if \<not> bracketed v then
           ret (Some (GoRfcError (''GO '' @ l_typeString k (type_of v) @
             '' passed to ABAP TABLE parameter, expected GO array'') None))
         else or_fail k ''Could not get table'' (L_GetTable k h cName) (\<lambda>tbl.
           case n of 0 \<Rightarrow> failA OutOfFuel | Suc m \<Rightarrow> gorfc_fillTable k m td tbl v))
      else gorfc_fillScalar k t h cName v)"
| "gorfc_fillStructure k n td sub v =
     (case raw v of
        VMap kt et (Some kvs) \<Rightarrow>
          if kvs = [] then ret None
          else if under kt = TString then gorfc_fill_map k n td sub kvs None
          else ret (Some (rfcError k no_info ''Could not fill structure passed as map with non-string keys''))
      | VMap kt et None \<Rightarrow> ret None
      | VStruct fs vs \<Rightarrow> gorfc_fill_struct k n td sub fs vs None
      | VNil \<Rightarrow> failA (value_error ''Type'' VNil)
      | _ \<Rightarrow> gorfc_fillStructureField k n td sub [] v)"
| "gorfc_fill_map k n td sub [] err = ret err"
| "gorfc_fill_map k n td sub ((key, x) # kvs) err =
     bindA (gorfc_fillStructureField k n td sub (reflect_String k key) x) (\<lambda>err'.
       gorfc_fill_map k n td sub kvs err')"
| "gorfc_fill_struct k n td sub ((name, tag, exported, emb, ty) # fs) (x # vs) err =
     (if \<not> exported then failA (Panic ''reflect.Value.Interface: cannot return value obtained from unexported field or method'')
      else bindA (gorfc_fillStructureField k n td sub name x) (\<lambda>err'. gorfc_fill_struct k n td sub fs vs err'))"
| "gorfc_fill_struct k n td sub _ _ err = ret err"
| "gorfc_fillStructureField k n td sub name x =
     or_fail k (''Could not get field description for '' @ [CHR 0x22] @ name @ [CHR 0x22])
       (L_GetFieldDescByName k td (ustr (fst (gorfc_fillString k name)))) (\<lambda>fd.
         gorfc_fillVariable k n (lf_type fd) sub (lf_name fd) x (lf_typeDesc fd))"
| "gorfc_fillTable k n td tbl v =
     (case raw v of
        VSlice _ (Some vs) \<Rightarrow> gorfc_fill_rows k n td tbl vs None
      | VSlice _ None \<Rightarrow> ret None
      | VArray _ vs \<Rightarrow> gorfc_fill_rows k n td tbl vs None
      | _ \<Rightarrow> failA (value_error ''Len'' v))"
| "gorfc_fill_rows k n td tbl [] err = ret err"
| "gorfc_fill_rows k n td tbl (x # vs) err =
     or_fail k ''Could not append new row to table'' (L_AppendNewRow k tbl) (\<lambda>row.
       bindA (gorfc_fillStructure k n td row x) (\<lambda>err'. gorfc_fill_rows k n td tbl vs err'))"
  by pat_completeness auto

fun gorfc_fill_measure where
  "gorfc_fill_measure (Inl (Inl (k, n, t, h, cName, v, td))) = (n :: nat, 0 :: nat, 0 :: nat)"
| "gorfc_fill_measure (Inl (Inr (Inl (k, n, td, sub, v)))) = (n, 3, 0)"
| "gorfc_fill_measure (Inl (Inr (Inr (k, n, td, sub, kvs, err)))) = (n, 2, length kvs)"
| "gorfc_fill_measure (Inr (Inl (Inl (k, n, td, sub, fs, vs, err)))) = (n, 2, length vs)"
| "gorfc_fill_measure (Inr (Inl (Inr (k, n, td, sub, name, x)))) = (n, 1, 0)"
| "gorfc_fill_measure (Inr (Inr (Inl (k, n, td, tbl, v)))) = (n, 5, 0)"
| "gorfc_fill_measure (Inr (Inr (Inr (k, n, td, tbl, vs, err)))) = (n, 4, length vs)"

termination gorfc_fillVariable
  by (relation "inv_image (less_than <*lex*> less_than <*lex*> less_than) gorfc_fill_measure") auto

declare gorfc_fillVariable.simps [simp del] gorfc_fillStructure.simps [simp del]
  gorfc_fillStructureField.simps [simp del] gorfc_fillTable.simps [simp del]

lemmas gorfc_fill_induct =
  gorfc_fillVariable_gorfc_fillStructure_gorfc_fill_map_gorfc_fill_struct_gorfc_fillStructureField_gorfc_fillTable_gorfc_fill_rows.induct

definition gorfc_fillFunctionParameter :: "'c lsdk \<Rightarrow> nat \<Rightarrow> nat \<Rightarrow> nat \<Rightarrow> go_string \<Rightarrow> gval \<Rightarrow> ('c, lerr option) act" where
  "gorfc_fillFunctionParameter k n desc h goName v =
     (case gorfc_fillString k goName of
        (u, Some e) \<Rightarrow> ret (Some e)
      | (u, None) \<Rightarrow>
          or_fail k (''Could not get the parameter description for '' @ [CHR 0x22] @ goName @ [CHR 0x22])
            (L_GetParameterDescByName k desc (ustr u)) (\<lambda>pd.
              gorfc_fillVariable k n (lp_type pd) h (lp_name pd) v (lp_typeDesc pd)))"

section \<open>The nesting bound\<close>

text \<open>Nested types are finite: the type a field refers to has a smaller rank.\<close>

definition gorfc_ranked :: "'c lsdk \<Rightarrow> (nat \<Rightarrow> nat) \<Rightarrow> bool" where
  "gorfc_ranked k rank \<longleftrightarrow>
     (\<forall>td s. (\<forall>u fd s'. L_GetFieldDescByName k td u s = (Ok fd, s') \<longrightarrow>
          lf_type fd \<in> {TypeStructure, TypeTable} \<or> lf_typeDesc fd \<noteq> 0 \<longrightarrow> rank (lf_typeDesc fd) < rank td) \<and>
        (\<forall>i fd s'. L_GetFieldDescByIndex k td i s = (Ok fd, s') \<longrightarrow>
          lf_type fd \<in> {TypeStructure, TypeTable} \<or> lf_typeDesc fd \<noteq> 0 \<longrightarrow> rank (lf_typeDesc fd) < rank td))"

lemma settles_sdk_call [simp]: "settles (sdk_call f) s"
  by (simp add: settles_def sdk_call_def split: prod.splits)

lemma sdk_call_Ok: "sdk_call f s = (Ok r, s') \<longleftrightarrow> f s = (r, s')"
  by (auto simp: sdk_call_def split: prod.splits)

lemma settles_or_fail: "(\<And>a s'. f s = (Ok a, s') \<Longrightarrow> settles (g a) s') \<Longrightarrow> settles (or_fail k msg f g) s"
  by (auto simp: or_fail_def sdk_call_Ok intro!: settles_bind split: sum.splits)

lemma settles_or_err: "(\<And>a s'. f s = (Ok a, s') \<Longrightarrow> settles (g a) s') \<Longrightarrow> settles (or_err k d msg f g) s"
  by (auto simp: or_err_def sdk_call_Ok intro!: settles_bind split: sum.splits)

lemmas reflect_defs = reflect_Bytes_def reflect_Int_def reflect_Uint_def int1_value_def decimal_text_def as_civil_def
  value_error_def nil_deref_def

lemma settles_reflect [simp]:
  "settles (reflect_Bytes v) s" "settles (reflect_Int v) s" "settles (reflect_Uint v) s" "settles (int1_value v) s"
  "settles (decimal_text k v) s" "settles (as_civil k v) s"
  by (auto simp: reflect_defs split: gval.splits option.splits ikind.splits fkind.splits)

lemma settles_set [simp]: "settles (set_with k c t e f) s" "settles (set_text k c t x g) s"
  by (auto simp: set_with_def set_text_def intro!: settles_bind split: prod.splits)

lemma settles_fillScalar [simp]: "settles (gorfc_fillScalar k t h c v) s"
  by (auto simp: gorfc_fillScalar_def intro!: settles_bind)

lemma settles_gorfc_fill:
  assumes "gorfc_ranked k rank"
  shows "(t \<in> {TypeStructure, TypeTable} \<Longrightarrow> rank td < n) \<Longrightarrow> settles (gorfc_fillVariable k n t h c v td) s"
    and "rank td \<le> n \<Longrightarrow> settles (gorfc_fillStructure k n td sub v) s"
    and "rank td \<le> n \<Longrightarrow> settles (gorfc_fill_map k n td sub kvs err) s"
    and "rank td \<le> n \<Longrightarrow> settles (gorfc_fill_struct k n td sub fs vs err) s"
    and "rank td \<le> n \<Longrightarrow> settles (gorfc_fillStructureField k n td sub name v) s"
    and "rank td \<le> n \<Longrightarrow> settles (gorfc_fillTable k n td tbl v) s"
    and "rank td \<le> n \<Longrightarrow> settles (gorfc_fill_rows k n td tbl vs err) s"
  using assms
proof (induction k n t h c v td and k n td sub v and k n td sub kvs err and k n td sub fs vs err and
    k n td sub name v and k n td tbl v and k n td tbl vs err arbitrary: s and s and s and s and s and s and s
    rule: gorfc_fill_induct)
  case (1 k n t h c v td)
  then show ?case
    by (auto simp: gorfc_fillVariable.simps nil_deref_def intro!: settles_or_fail split: nat.splits)
next
  case (2 k n td sub v)
  then show ?case by (auto simp: gorfc_fillStructure.simps value_error_def split: gval.splits option.splits)
next
  case (4 k n td sub key x kvs err)
  then show ?case by (auto intro!: settles_bind)
next
  case (5 k n td sub name tag exported emb ty fs x vs err)
  then show ?case by (auto intro!: settles_bind)
next
  case (7 k n td sub name w s)
  show ?case unfolding gorfc_fillStructureField.simps
  proof (rule settles_or_fail)
    fix fd s' assume get: "L_GetFieldDescByName k td (ustr (fst (gorfc_fillString k name))) s = (Ok fd, s')"
    have "rank (lf_typeDesc fd) < n" if "lf_type fd \<in> {TypeStructure, TypeTable}"
    proof -
      have "rank (lf_typeDesc fd) < rank td" using "7.prems"(2) get that unfolding gorfc_ranked_def by blast
      then show ?thesis using "7.prems"(1) by linarith
    qed
    then show "settles (gorfc_fillVariable k n (lf_type fd) sub (lf_name fd) w (lf_typeDesc fd)) s'"
      using 7 get by blast
  qed
next
  case (8 k n td tbl v)
  then show ?case by (auto simp: gorfc_fillTable.simps value_error_def split: gval.splits option.splits)
next
  case (10 k n td tbl x vs err)
  then show ?case by (auto intro!: settles_or_fail settles_bind)
qed simp_all

section \<open>What filling keeps\<close>

text \<open>A call of the SDK that keeps a predicate of its state.\<close>

definition call_keeps :: "('c \<Rightarrow> bool) \<Rightarrow> ('c \<Rightarrow> 'r \<times> 'c) \<Rightarrow> bool" where
  "call_keeps P f \<longleftrightarrow> (\<forall>s. P s \<longrightarrow> P (snd (f s)))"

definition gorfc_setters_keep :: "'c lsdk \<Rightarrow> ('c \<Rightarrow> bool) \<Rightarrow> bool" where
  "gorfc_setters_keep k P \<longleftrightarrow>
     (\<forall>h c u. call_keeps P (L_SetChars k h c u) \<and> call_keeps P (L_SetNum k h c u) \<and> call_keeps P (L_SetString k h c u) \<and>
        call_keeps P (L_SetDate k h c u) \<and> call_keeps P (L_SetTime k h c u)) \<and>
     (\<forall>h c b. call_keeps P (L_SetBytes k h c b) \<and> call_keeps P (L_SetXString k h c b)) \<and>
     (\<forall>h c i. call_keeps P (L_SetInt k h c i)) \<and>
     (\<forall>h c. call_keeps P (L_GetStructure k h c) \<and> call_keeps P (L_GetTable k h c) \<and>
        call_keeps P (L_GetFieldDescByName k h c) \<and> call_keeps P (L_GetParameterDescByName k h c)) \<and>
     (\<forall>h. call_keeps P (L_AppendNewRow k h))"

lemma keeps_sdk_call: "call_keeps P f \<Longrightarrow> keeps P (sdk_call f)"
  by (simp add: keeps_def call_keeps_def sdk_call_def case_prod_beta)

lemma keeps_or_fail: "call_keeps P f \<Longrightarrow> (\<And>a. keeps P (g a)) \<Longrightarrow> keeps P (or_fail k msg f g)"
  by (auto simp: or_fail_def intro!: keeps_bind keeps_sdk_call split: sum.splits)

lemma keeps_or_err: "call_keeps P f \<Longrightarrow> (\<And>a. keeps P (g a)) \<Longrightarrow> keeps P (or_err k d msg f g)"
  by (auto simp: or_err_def intro!: keeps_bind keeps_sdk_call split: sum.splits)

lemma keeps_reflect [simp]:
  "keeps P (reflect_Bytes v)" "keeps P (reflect_Int v)" "keeps P (reflect_Uint v)" "keeps P (int1_value v)"
  "keeps P (decimal_text k v)" "keeps P (as_civil k v)"
  by (auto simp: reflect_defs split: gval.splits option.splits ikind.splits fkind.splits)

lemma keeps_set_with: "call_keeps P f \<Longrightarrow> keeps P (set_with k c t e f)"
  by (auto simp: set_with_def intro!: keeps_bind keeps_sdk_call)

lemma keeps_set_text: "(\<And>u. call_keeps P (f u)) \<Longrightarrow> keeps P (set_text k c t x f)"
  by (auto simp: set_text_def intro!: keeps_set_with split: prod.splits)

lemma gorfc_setters:
  assumes "gorfc_setters_keep k P"
  shows "call_keeps P (L_SetChars k h c u)" "call_keeps P (L_SetNum k h c u)" "call_keeps P (L_SetString k h c u)"
    "call_keeps P (L_SetDate k h c u)" "call_keeps P (L_SetTime k h c u)" "call_keeps P (L_SetBytes k h c b)"
    "call_keeps P (L_SetXString k h c b)" "call_keeps P (L_SetInt k h c i)" "call_keeps P (L_GetStructure k h c)"
    "call_keeps P (L_GetTable k h c)" "call_keeps P (L_GetFieldDescByName k h c)"
    "call_keeps P (L_GetParameterDescByName k h c)" "call_keeps P (L_AppendNewRow k h)"
  using assms by (simp_all add: gorfc_setters_keep_def)

lemma keeps_fillScalar: "gorfc_setters_keep k P \<Longrightarrow> keeps P (gorfc_fillScalar k t h c v)"
  by (auto simp: gorfc_fillScalar_def intro!: keeps_bind keeps_set_with keeps_set_text gorfc_setters)

lemma keeps_gorfc_fill:
  assumes "gorfc_setters_keep k P"
  shows "keeps P (gorfc_fillVariable k n t h c v td)"
    and "keeps P (gorfc_fillStructure k n td sub v)"
    and "keeps P (gorfc_fill_map k n td sub kvs err)"
    and "keeps P (gorfc_fill_struct k n td sub fs vs err)"
    and "keeps P (gorfc_fillStructureField k n td sub name v)"
    and "keeps P (gorfc_fillTable k n td tbl v)"
    and "keeps P (gorfc_fill_rows k n td tbl vs err)"
  using assms
proof (induction k n t h c v td and k n td sub v and k n td sub kvs err and k n td sub fs vs err and
    k n td sub name v and k n td tbl v and k n td tbl vs err rule: gorfc_fill_induct)
  case (1 k n t h c v td)
  then show ?case
    by (auto simp: gorfc_fillVariable.simps intro!: keeps_or_fail keeps_fillScalar gorfc_setters split: nat.splits)
next
  case (2 k n td sub v)
  then show ?case by (auto simp: gorfc_fillStructure.simps split: gval.splits option.splits)
next
  case (4 k n td sub key x kvs err)
  then show ?case by (auto intro!: keeps_bind)
next
  case (5 k n td sub name tag exported emb ty fs x vs err)
  then show ?case by (auto intro!: keeps_bind)
next
  case (7 k n td sub name x)
  then show ?case by (auto simp: gorfc_fillStructureField.simps intro!: keeps_or_fail gorfc_setters)
next
  case (8 k n td tbl v)
  then show ?case by (auto simp: gorfc_fillTable.simps split: gval.splits option.splits)
next
  case (10 k n td tbl x vs err)
  then show ?case by (auto intro!: keeps_or_fail keeps_bind gorfc_setters)
qed simp_all

lemma keeps_gorfc_parameter:
  "gorfc_setters_keep k P \<Longrightarrow> keeps P (gorfc_fillFunctionParameter k n desc h goName v)"
  by (auto simp: gorfc_fillFunctionParameter_def intro!: keeps_or_fail keeps_gorfc_fill gorfc_setters
      split: prod.splits option.splits)

end
