(* ===== verification/Gorfc_Wrap.thy ===== *)
theory Gorfc_Wrap
  imports Gorfc_Fill
begin

text \<open>
  The wrap functions of \<open>gorfc/gorfc.go\<close>: reading an SDK container into Go values, the metadata, and
  the texts of descriptions. A function returns its result beside the error, as the Go function does:
  what has been read so far, with the first error. Following a type handle costs one unit of fuel.
\<close>

section \<open>Scalars\<close>

text \<open>A string result, with the error of the conversion.\<close>

definition str_result :: "go_string \<times> lerr option \<Rightarrow> ('c, gval \<times> lerr option) act" where
  "str_result r = (case r of (s, e) \<Rightarrow> ret (VString s, e))"

definition got :: "gval \<Rightarrow> ('c, gval \<times> lerr option) act" where
  "got v = ret (v, None)"

definition get_string :: "'c lsdk \<Rightarrow> nat \<Rightarrow> uc \<Rightarrow> nat \<Rightarrow> ('c, c_error_info \<times> uc \<times> nat) act" where
  "get_string k h cName n s = (case L_GetString k h cName n s of (r, s') \<Rightarrow> (Ok r, s'))"

text \<open>BCD and DECF16/34: the buffer is guessed, and enlarged once when the SDK answers 23
  (\<open>RFC_BUFFER_TOO_SMALL\<close>); another failure of the first attempt is not looked at.\<close>

definition wrap_decimal :: "'c lsdk \<Rightarrow> nat \<Rightarrow> uc \<Rightarrow> nat \<Rightarrow> go_string \<Rightarrow> bool \<Rightarrow> ('c, gval \<times> lerr option) act" where
  "wrap_decimal k h cName strLen msg strip =
     bindA (get_string k h cName (strLen + 1)) (\<lambda>(i, buf, resultLen).
       if ci_code i = 23 then
         bindA (get_string k h cName (resultLen + 1)) (\<lambda>(i', buf', _).
           if ci_code i' \<noteq> 0 then ret (VNil, Some (rfcError k i' msg))
           else str_result (gorfc_wrapString k buf' strip))
       else str_result (gorfc_wrapString k buf strip))"

text \<open>\<open>time.Parse\<close> with the layouts \<open>20060102\<close> and \<open>150405\<close>.\<close>

definition parse_date :: "go_string \<Rightarrow> civil option" where
  "parse_date v =
     Option.bind (tp_year v) (\<lambda>(y, v). Option.bind (tp_getnum True v) (\<lambda>(m, v).
       if m < 1 \<or> m > 12 then None else Option.bind (tp_getnum True v) (\<lambda>(d, v).
         if v \<noteq> [] then None
         else if d < 1 \<or> int d > daysInMonth (int y) (int m) then None
         else Some \<lparr>cYear = y, cMonth = m, cDay = d, cHour = 0, cMin = 0, cSec = 0, cNsec = 0\<rparr>)))"

definition parse_clock :: "go_string \<Rightarrow> civil option" where
  "parse_clock v =
     Option.bind (tp_getnum False v) (\<lambda>(h, v). if h \<ge> 24 then None else
     Option.bind (tp_getnum True v) (\<lambda>(mi, v). if mi \<ge> 60 then None else
     Option.bind (tp_getnum True v) (\<lambda>(sec, v). if sec \<ge> 60 then None else
       let (ns, v) = tp_frac v
       in if v \<noteq> [] then None
          else Some \<lparr>cYear = 0, cMonth = 1, cDay = 1, cHour = h, cMin = mi, cSec = sec, cNsec = ns\<rparr>)))"

definition index_panic :: "nat \<Rightarrow> nat \<Rightarrow> fail" where
  "index_panic i n = Panic (''runtime error: index out of range ['' @ show_nat i @ ''] with length '' @ show_nat n)"

definition slice_panic :: "nat \<Rightarrow> nat \<Rightarrow> fail" where
  "slice_panic i n = Panic (''runtime error: slice bounds out of range '' @
     (if i < 20 then ''[:'' @ show_nat i @ ''] with length '' @ show_nat n else ''['' @ show_nat i @ '':'' @ show_nat n @ '']''))"

text \<open>The initial date, and one that is not filled, are nil; the second byte is looked at first.\<close>

definition gorfc_wrap_date :: "'c lsdk \<Rightarrow> nat \<Rightarrow> uc \<Rightarrow> ('c, gval \<times> lerr option) act" where
  "gorfc_wrap_date k h cName =
     or_err k VNil ''Failed getting DATE'' (L_GetDate k h cName) (\<lambda>buf.
       let value = fst (nWrapString k buf 8 False)
       in if value = ''00000000'' then got VNil
          else if length value < 2 then failA (index_panic 1 (length value))
          else if value ! 1 = CHR '' '' then got VNil
          else case parse_date value of
            Some c \<Rightarrow> got (l_time_val k c)
          | None \<Rightarrow> ret (VNil, Some (GoRfcError ''Error parsing ABAP RFC_DATE field'' (Some (l_parse_text k ''20060102'' value)))))"

definition gorfc_wrap_time :: "'c lsdk \<Rightarrow> nat \<Rightarrow> uc \<Rightarrow> ('c, gval \<times> lerr option) act" where
  "gorfc_wrap_time k h cName =
     or_err k VNil ''Failed getting TIME'' (L_GetTime k h cName) (\<lambda>buf.
       let value = fst (nWrapString k buf 6 False)
       in case parse_clock value of
            Some c \<Rightarrow> got (l_time_val k c)
          | None \<Rightarrow> ret (VNil, Some (GoRfcError ''Error parsing ABAP RFC_TIME field'' (Some (l_parse_text k ''150405'' value)))))"

definition wrap_utclong :: "'c lsdk \<Rightarrow> nat \<Rightarrow> uc \<Rightarrow> bool \<Rightarrow> ('c, gval \<times> lerr option) act" where
  "wrap_utclong k h cName strip =
     bindA (get_string k h cName 28) (\<lambda>(i, buf, _).
       if ci_code i \<noteq> 0 then ret (VNil, Some (rfcError k i ''Failed getting UTCLONG''))
       else let utc = fst (nWrapString k buf 27 strip)
            in if length utc < 19 then failA (slice_panic 19 (length utc))
               else if length utc < 20 then failA (slice_panic 20 (length utc))
               else got (VString (take 19 utc @ ''.'' @ drop 20 utc)))"

text \<open>All types but structures and tables.\<close>

definition gorfc_wrapScalar :: "'c lsdk \<Rightarrow> rfc_type \<Rightarrow> nat \<Rightarrow> uc \<Rightarrow> nat \<Rightarrow> bool \<Rightarrow> ('c, gval \<times> lerr option) act" where
  "gorfc_wrapScalar k t h cName cLen strip =
     (if t = TypeChar then
        or_err k VNil ''Failed getting chars'' (L_GetChars k h cName cLen) (\<lambda>buf. str_result (nWrapString k buf cLen strip))
      else if t = TypeString then
        or_err k VNil ''Failed getting string length'' (L_GetStringLength k h cName) (\<lambda>strLen.
          bindA (get_string k h cName (strLen + 1)) (\<lambda>(i, buf, _).
            if ci_code i \<noteq> 0 then ret (VNil, Some (rfcError k i ''Failed getting string''))
            else str_result (gorfc_wrapString k buf strip)))
      else if t = TypeNum then
        or_err k VNil ''Failed getting num'' (L_GetNum k h cName cLen) (\<lambda>buf. str_result (nWrapString k buf cLen strip))
      else if t = TypeByte then
        or_err k VNil ''Failed getting bytes'' (L_GetBytes k h cName cLen) (\<lambda>bs. got (bytes_val (take cLen bs)))
      else if t = TypeXString then
        or_err k VNil ''Failed getting xstring length'' (L_GetStringLength k h cName) (\<lambda>strLen.
        or_err k VNil ''Failed getting xstring'' (L_GetXString k h cName strLen) (\<lambda>bs. got (bytes_val (take strLen bs))))
      else if t = TypeBCD then wrap_decimal k h cName (2 * cLen + 1) ''Failed getting BCD'' strip
      else if t \<in> {TypeDecF16, TypeDecF34} then wrap_decimal k h cName (2 * cLen + 10) ''Failed getting DECF'' strip
      else if t = TypeFloat then
        or_err k VNil ''Failed getting FLOAT'' (L_GetFloat k h cName) (\<lambda>w. got (VFloat KFloat64 w))
      else if t = TypeInt then
        or_err k VNil ''Failed getting INT'' (L_GetInt k h cName) (\<lambda>w. got (VInt KInt32 (sint w)))
      else if t = TypeInt1 then
        or_err k VNil ''Failed getting INT1'' (L_GetInt1 k h cName) (\<lambda>w. got (VInt KUint8 (uint w)))
      else if t = TypeInt2 then
        or_err k VNil ''Failed getting INT2'' (L_GetInt2 k h cName) (\<lambda>w. got (VInt KInt16 (sint w)))
      else if t = TypeInt8 then
        or_err k VNil ''Failed getting INT8'' (L_GetInt8 k h cName) (\<lambda>w. got (VInt KInt64 (sint w)))
      else if t = TypeDate then gorfc_wrap_date k h cName
      else if t = TypeTime then gorfc_wrap_time k h cName
      else if t = TypeUTCLong then wrap_utclong k h cName strip
      else ret (VNil, Some (rfcError k no_info (''Unknown RFC type '' @ show_nat (rfc_code t) @ '' when wrapping variable''))))"

section \<open>The recursion\<close>

text \<open>A \<open>map[string]interface{}\<close> and a \<open>[]interface{}\<close>; nil before the first read succeeded.\<close>

definition map_val :: "call_params option \<Rightarrow> gval" where
  "map_val m = VMap TString TIface (map_option (map (\<lambda>(k, v). (VString k, v))) m)"

definition slice_val :: "gval list option \<Rightarrow> gval" where
  "slice_val vs = VSlice TIface vs"

definition as_val :: "('a \<Rightarrow> gval) \<Rightarrow> ('c, 'a \<times> lerr option) act \<Rightarrow> ('c, gval \<times> lerr option) act" where
  "as_val f m = bindA m (\<lambda>(r, e). ret (f r, e))"

lemma as_val_cong [fundef_cong]: "f = f' \<Longrightarrow> s = s' \<Longrightarrow> m s' = m' s' \<Longrightarrow> as_val f m s = as_val f' m' s'"
  by (simp add: as_val_def bindA_def)

text \<open>Going on with a converted string, or returning \<open>d\<close> with the error of the conversion.\<close>

definition with_string :: "'b \<Rightarrow> go_string \<times> lerr option \<Rightarrow> (go_string \<Rightarrow> ('c, 'b \<times> lerr option) act) \<Rightarrow> ('c, 'b \<times> lerr option) act" where
  "with_string d r g = (case r of (_, Some e) \<Rightarrow> ret (d, Some e) | (x, None) \<Rightarrow> g x)"

lemma with_string_cong [fundef_cong]:
  "d = d' \<Longrightarrow> r = r' \<Longrightarrow> s = s' \<Longrightarrow> (\<And>x. g x s' = g' x s') \<Longrightarrow> with_string d r g s = with_string d' r' g' s'"
  by (auto simp: with_string_def split: prod.splits option.splits)

function (sequential)
    gorfc_wrapVariable :: "'c lsdk \<Rightarrow> nat \<Rightarrow> rfc_type \<Rightarrow> nat \<Rightarrow> uc \<Rightarrow> nat \<Rightarrow> nat \<Rightarrow> bool \<Rightarrow> ('c, gval \<times> lerr option) act"
and gorfc_wrapStructure :: "'c lsdk \<Rightarrow> nat \<Rightarrow> nat \<Rightarrow> nat \<Rightarrow> bool \<Rightarrow> ('c, call_params option \<times> lerr option) act"
and gorfc_wrap_fields :: "'c lsdk \<Rightarrow> nat \<Rightarrow> nat \<Rightarrow> nat \<Rightarrow> bool \<Rightarrow> nat list \<Rightarrow> call_params \<Rightarrow> ('c, call_params option \<times> lerr option) act"
and gorfc_wrapTable :: "'c lsdk \<Rightarrow> nat \<Rightarrow> nat \<Rightarrow> nat \<Rightarrow> bool \<Rightarrow> ('c, gval list option \<times> lerr option) act"
and gorfc_wrap_rows :: "'c lsdk \<Rightarrow> nat \<Rightarrow> nat \<Rightarrow> nat \<Rightarrow> bool \<Rightarrow> nat \<Rightarrow> gval list \<Rightarrow> ('c, gval list option \<times> lerr option) act"
where
  "gorfc_wrapVariable k n t h cName cLen td strip =
     (if t = TypeStructure then
        or_err k VNil ''Failed getting structure'' (L_GetStructure k h cName) (\<lambda>sub.
          case n of 0 \<Rightarrow> failA OutOfFuel | Suc m \<Rightarrow> as_val map_val (gorfc_wrapStructure k m td sub strip))
      else if t = TypeTable then
        or_err k VNil ''Failed getting table'' (L_GetTable k h cName) (\<lambda>tbl.
          case n of 0 \<Rightarrow> failA OutOfFuel | Suc m \<Rightarrow> as_val slice_val (gorfc_wrapTable k m td tbl strip))
      else gorfc_wrapScalar k t h cName cLen strip)"
| "gorfc_wrapStructure k n td sub strip =
     or_err k None ''Failed getting field count'' (L_GetFieldCount k td) (\<lambda>cnt.
       gorfc_wrap_fields k n td sub strip [0..<cnt] [])"
| "gorfc_wrap_fields k n td sub strip [] out = ret (Some out, None)"
| "gorfc_wrap_fields k n td sub strip (i # idxs) out =
     or_err k (Some out) (''Failed getting field description by index('' @ show_nat i @ '')'') (L_GetFieldDescByIndex k td i) (\<lambda>fd.
       with_string (Some out) (gorfc_wrapString k (lf_name fd) strip) (\<lambda>fieldName.
         bindA (gorfc_wrapVariable k n (lf_type fd) sub (lf_name fd) (lf_nucLength fd) (lf_typeDesc fd) strip) (\<lambda>(v, e).
             case e of
               Some e' \<Rightarrow> ret (Some (map_set fieldName v out), Some e')
             | None \<Rightarrow> gorfc_wrap_fields k n td sub strip idxs (map_set fieldName v out))))"
| "gorfc_wrapTable k n td tbl strip =
     or_err k None ''Failed getting row count'' (L_GetRowCount k tbl) (\<lambda>cnt. gorfc_wrap_rows k n td tbl strip cnt [])"
| "gorfc_wrap_rows k n td tbl strip 0 out = ret (Some out, None)"
| "gorfc_wrap_rows k n td tbl strip (Suc left) out =
     or_err k (Some (out @ replicate (Suc left) VNil)) (''Failed getting moving cursor to index('' @ show_nat (length out) @ '')'')
       (L_MoveTo k tbl (length out)) (\<lambda>_.
       bindA (\<lambda>s. case L_GetCurrentRow k tbl s of (row, s') \<Rightarrow> (Ok row, s')) (\<lambda>row.
       bindA (gorfc_wrapStructure k n td row strip) (\<lambda>(line, e).
         case e of
           Some e' \<Rightarrow> ret (Some (out @ replicate (Suc left) VNil), Some e')
         | None \<Rightarrow> gorfc_wrap_rows k n td tbl strip left (out @ [map_val line]))))"
  by pat_completeness auto

fun gorfc_wrap_measure where
  "gorfc_wrap_measure (Inl (Inl (k, n, t, h, cName, cLen, td, strip))) = (n :: nat, 0 :: nat, 0 :: nat)"
| "gorfc_wrap_measure (Inl (Inr (k, n, td, sub, strip))) = (n, 2, 0)"
| "gorfc_wrap_measure (Inr (Inl (k, n, td, sub, strip, idxs, out))) = (n, 1, length idxs)"
| "gorfc_wrap_measure (Inr (Inr (Inl (k, n, td, tbl, strip)))) = (n, 4, 0)"
| "gorfc_wrap_measure (Inr (Inr (Inr (k, n, td, tbl, strip, left, out)))) = (n, 3, left)"

termination gorfc_wrapVariable
  by (relation "inv_image (less_than <*lex*> less_than <*lex*> less_than) gorfc_wrap_measure") auto

declare gorfc_wrapVariable.simps [simp del] gorfc_wrapStructure.simps [simp del] gorfc_wrapTable.simps [simp del]

lemmas gorfc_wrap_induct =
  gorfc_wrapVariable_gorfc_wrapStructure_gorfc_wrap_fields_gorfc_wrapTable_gorfc_wrap_rows.induct

fun gorfc_wrap_params :: "'c lsdk \<Rightarrow> nat \<Rightarrow> nat \<Rightarrow> nat \<Rightarrow> nat \<Rightarrow> bool \<Rightarrow> nat list \<Rightarrow> call_params \<Rightarrow> ('c, call_params option \<times> lerr option) act" where
  "gorfc_wrap_params k n desc h filt strip [] out = ret (Some out, None)"
| "gorfc_wrap_params k n desc h filt strip (i # idxs) out =
     or_err k (Some out) (''Failed getting parameter decription by index('' @ show_nat i @ '')'') (L_GetParameterDescByIndex k desc i) (\<lambda>pd.
       if lp_direction pd = filt then gorfc_wrap_params k n desc h filt strip idxs out
       else with_string (Some out) (gorfc_wrapString k (lp_name pd) strip) (\<lambda>fieldName.
         bindA (gorfc_wrapVariable k n (lp_type pd) h (lp_name pd) (lp_nucLength pd) (lp_typeDesc pd) strip) (\<lambda>(v, e).
             case e of
               Some e' \<Rightarrow> ret (Some (map_set fieldName v out), Some e')
             | None \<Rightarrow> gorfc_wrap_params k n desc h filt strip idxs (map_set fieldName v out))))"

definition wrapResult :: "'c lsdk \<Rightarrow> nat \<Rightarrow> nat \<Rightarrow> nat \<Rightarrow> nat \<Rightarrow> bool \<Rightarrow> ('c, call_params option \<times> lerr option) act" where
  "wrapResult k n desc h filt strip =
     or_err k None ''Failed getting parameter count'' (L_GetParameterCount k desc) (\<lambda>cnt.
       gorfc_wrap_params k n desc h filt strip [0..<cnt] [])"

section \<open>Metadata\<close>

datatype l_type_desc = LTypeDesc go_string nat nat "l_field_desc list"
  and l_field_desc = LFieldDesc go_string go_string nat nat nat nat nat l_type_desc

definition no_type :: l_type_desc where
  "no_type = LTypeDesc [] 0 0 []"

text \<open>The error of a field's name is overwritten by the one of its type's name.\<close>

fun wrapTypeDescription :: "'c lsdk \<Rightarrow> nat \<Rightarrow> nat \<Rightarrow> ('c, l_type_desc \<times> lerr option) act"
and wrap_desc_fields :: "'c lsdk \<Rightarrow> nat \<Rightarrow> nat \<Rightarrow> nat list \<Rightarrow> l_field_desc list \<Rightarrow> ('c, l_field_desc list \<times> lerr option) act" where
  "wrapTypeDescription k 0 td = failA OutOfFuel"
| "wrapTypeDescription k (Suc n) td =
     or_err k no_type ''Failed getting type name'' (L_GetTypeName k td) (\<lambda>typeName.
       with_string no_type (gorfc_wrapString k typeName False) (\<lambda>name.
         or_err k no_type (''Failed getting type('' @ name @ '') length'') (L_GetTypeLength k td) (\<lambda>(nuc, uc).
           or_err k (LTypeDesc name nuc uc []) ''Failed getting field count'' (L_GetFieldCount k td) (\<lambda>cnt.
           bindA (wrap_desc_fields k n td [0..<cnt] []) (\<lambda>(fs, e). ret (LTypeDesc name nuc uc fs, e))))))"
| "wrap_desc_fields k n td [] out = ret (out, None)"
| "wrap_desc_fields k n td (i # idxs) out =
     or_err k out (''Failed getting field by index('' @ show_nat i @ '')'') (L_GetFieldDescByIndex k td i) (\<lambda>fd.
       with_string out (gorfc_wrapString k (L_TypeAsString k (lf_type fd)) False) (\<lambda>fieldType.
         bindA (if lf_typeDesc fd \<noteq> 0 then wrapTypeDescription k n (lf_typeDesc fd) else ret (no_type, None)) (\<lambda>(nested, e).
             case e of
               Some e' \<Rightarrow> ret (out, Some e')
             | None \<Rightarrow> wrap_desc_fields k n td idxs (out @ [LFieldDesc (fst (gorfc_wrapString k (lf_name fd) False)) fieldType
                 (lf_nucLength fd) (lf_nucOffset fd) (lf_ucLength fd) (lf_ucOffset fd) (lf_decimals fd) nested]))))"

record l_param_desc =
  lpd_Name :: go_string
  lpd_ParameterType :: go_string
  lpd_Direction :: go_string
  lpd_NucLength :: nat
  lpd_UcLength :: nat
  lpd_Decimals :: nat
  lpd_DefaultValue :: go_string
  lpd_ParameterText :: go_string
  lpd_Optional :: bool
  lpd_TypeDesc :: l_type_desc

record l_func_desc =
  lfd_Name :: go_string
  lfd_Parameters :: "l_param_desc list"

fun wrap_desc_params :: "'c lsdk \<Rightarrow> nat \<Rightarrow> nat \<Rightarrow> go_string \<Rightarrow> nat list \<Rightarrow> l_param_desc list \<Rightarrow> ('c, l_param_desc list \<times> lerr option) act" where
  "wrap_desc_params k n desc fn [] out = ret (out, None)"
| "wrap_desc_params k n desc fn (i # idxs) out =
     or_err k out (''Failed getting function('' @ fn @ '') parameter description by index('' @ show_nat i @ '')'')
       (L_GetParameterDescByIndex k desc i) (\<lambda>pd.
       with_string out (gorfc_wrapString k (lp_parameterText pd) False) (\<lambda>paramText.
         bindA (if lp_typeDesc pd \<noteq> 0 then wrapTypeDescription k n (lp_typeDesc pd) else ret (no_type, None)) (\<lambda>(nested, e).
             case e of
               Some e' \<Rightarrow> ret (out, Some e')
             | None \<Rightarrow> wrap_desc_params k n desc fn idxs (out @
                 [\<lparr>lpd_Name = fst (gorfc_wrapString k (lp_name pd) False),
                   lpd_ParameterType = fst (gorfc_wrapString k (L_TypeAsString k (lp_type pd)) False),
                   lpd_Direction = fst (gorfc_wrapString k (L_DirectionAsString k (lp_direction pd)) False),
                   lpd_NucLength = lp_nucLength pd, lpd_UcLength = lp_ucLength pd, lpd_Decimals = lp_decimals pd,
                   lpd_DefaultValue = fst (gorfc_wrapString k (lp_defaultValue pd) False),
                   lpd_ParameterText = paramText, lpd_Optional = (lp_optional pd \<noteq> 0), lpd_TypeDesc = nested\<rparr>]))))"

definition wrapFunctionDescription :: "'c lsdk \<Rightarrow> nat \<Rightarrow> nat \<Rightarrow> ('c, l_func_desc \<times> lerr option) act" where
  "wrapFunctionDescription k n desc =
     (let no_desc = \<lparr>lfd_Name = [], lfd_Parameters = []\<rparr> in
      or_err k no_desc ''Failed getting function name'' (L_GetFunctionName k desc) (\<lambda>funcName.
        with_string no_desc (gorfc_wrapString k funcName False) (\<lambda>fn.
         or_err k \<lparr>lfd_Name = fn, lfd_Parameters = []\<rparr> (''Failed getting function('' @ fn @ '') parameter count'')
              (L_GetParameterCount k desc) (\<lambda>cnt.
              bindA (wrap_desc_params k n desc fn [0..<cnt] []) (\<lambda>(ps, e).
                ret (\<lparr>lfd_Name = fn, lfd_Parameters = ps\<rparr>, e))))))"

text \<open>The texts: \<open>%v\<close> prints a struct as its fields between braces.\<close>

fun show_type :: "l_type_desc \<Rightarrow> go_string"
and show_type_fields :: "l_field_desc list \<Rightarrow> go_string"
and show_type_field :: "l_field_desc \<Rightarrow> go_string" where
  "show_type (LTypeDesc name nuc uc fs) =
     ''{'' @ name @ '' '' @ show_nat nuc @ '' '' @ show_nat uc @ '' ['' @ show_type_fields fs @ '']}''"
| "show_type_fields [] = []"
| "show_type_fields [f] = show_type_field f"
| "show_type_fields (f # fs) = show_type_field f @ '' '' @ show_type_fields fs"
| "show_type_field (LFieldDesc name ty nuc nucOff uc ucOff dec td) =
     ''{'' @ name @ '' '' @ ty @ '' '' @ show_nat nuc @ '' '' @ show_nat nucOff @ '' '' @ show_nat uc @ '' '' @
     show_nat ucOff @ '' '' @ show_nat dec @ '' '' @ show_type td @ ''}''"

definition paramDesc_String :: "l_param_desc \<Rightarrow> go_string" where
  "paramDesc_String p =
     ''paramDesc(name= '' @ lpd_Name p @ '', paramType= '' @ lpd_ParameterType p @ '', dir= '' @ lpd_Direction p @
     '', nucLen= '' @ show_nat (lpd_NucLength p) @ '', ucLen= '' @ show_nat (lpd_UcLength p) @ '', dec= '' @
     show_nat (lpd_Decimals p) @ '', defValue= '' @ lpd_DefaultValue p @ '', paramText= '' @ lpd_ParameterText p @
     '', optional= '' @ (if lpd_Optional p then ''true'' else ''false'') @ '', typeDesc= '' @
     show_type (lpd_TypeDesc p) @ '')''"

definition newline :: go_string where
  "newline = [char_of (10 :: nat)]"

definition funcDesc_String :: "l_func_desc \<Rightarrow> go_string" where
  "funcDesc_String f =
     ''FunctionDescription:'' @ newline @ '' Name: '' @ lfd_Name f @ newline @ '' Parameters:'' @ newline @
     concat (map (\<lambda>p. ''    '' @ paramDesc_String p @ newline) (lfd_Parameters f))"

text \<open>The sizes \<open>wrapConnectionAttributes\<close> passes; only the error of the last conversion is
  returned.\<close>

definition attribute_fields :: "(go_string \<times> nat) list" where
  "attribute_fields =
     [(''dest'', 64), (''host'', 100), (''partnerHost'', 100), (''sysNumber'', 2), (''sysId'', 8), (''client'', 3),
      (''user'', 12), (''language'', 2), (''trace'', 1), (''isoLanguage'', 2), (''codepage'', 4),
      (''partnerCodepage'', 4), (''rfcRole'', 1), (''type'', 1), (''partnerType'', 1), (''rel'', 4),
      (''partnerRel'', 4), (''kernelRel'', 4), (''cpicConvId'', 8), (''progName'', 128),
      (''partnerBytesPerChar'', 1), (''partnerSystemCodepage'', 4), (''partnerIP'', 15), (''partnerIPv6'', 45)]"

definition wrapConnectionAttributes :: "'c lsdk \<Rightarrow> (go_string \<Rightarrow> uc) \<Rightarrow> bool \<Rightarrow> (go_string \<times> go_string) list \<times> lerr option" where
  "wrapConnectionAttributes k attrs strip =
     (map (\<lambda>(name, len). (name, fst (nWrapString k (attrs name) len strip))) attribute_fields,
      snd (nWrapString k (attrs ''partnerIPv6'') 45 strip))"

section \<open>The nesting bound\<close>

lemma settles_with_string: "(\<And>x. settles (g x) s) \<Longrightarrow> settles (with_string d r g) s"
  by (auto simp: with_string_def split: prod.splits option.splits)

lemma settles_get_string [simp]: "settles (get_string k h c n) s"
  by (simp add: settles_def get_string_def split: prod.splits)

lemma settles_results [simp]: "settles (str_result r) s" "settles (got v) s"
  by (simp_all add: str_result_def got_def case_prod_beta)

lemma settles_decimal [simp]: "settles (wrap_decimal k h c n msg strip) s"
  by (auto simp: wrap_decimal_def intro!: settles_bind)

lemma settles_times [simp]:
  "settles (gorfc_wrap_date k h c) s" "settles (gorfc_wrap_time k h c) s" "settles (wrap_utclong k h c strip) s"
  by (auto simp: gorfc_wrap_date_def gorfc_wrap_time_def wrap_utclong_def index_panic_def slice_panic_def Let_def
      intro!: settles_bind settles_or_err split: option.splits)

lemma settles_wrapScalar [simp]: "settles (gorfc_wrapScalar k t h c len strip) s"
  by (auto simp: gorfc_wrapScalar_def intro!: settles_bind settles_or_err)

lemma settles_as_val: "settles m s \<Longrightarrow> settles (as_val f m) s"
  by (auto simp: as_val_def intro!: settles_bind)

lemma gorfc_ranked_index:
  assumes "gorfc_ranked k rank" "rank td \<le> n" "L_GetFieldDescByIndex k td i s = (Ok fd, s')"
  shows "lf_type fd \<in> {TypeStructure, TypeTable} \<or> lf_typeDesc fd \<noteq> 0 \<Longrightarrow> rank (lf_typeDesc fd) < n"
proof -
  assume "lf_type fd \<in> {TypeStructure, TypeTable} \<or> lf_typeDesc fd \<noteq> 0"
  then have "rank (lf_typeDesc fd) < rank td" using assms(1,3) unfolding gorfc_ranked_def by blast
  then show ?thesis using assms(2) by linarith
qed

lemma settles_pure [simp]: "settles (\<lambda>s. (Ok (f s), g s)) s"
  by (simp add: settles_def)

lemma settles_gorfc_wrap:
  assumes "gorfc_ranked k rank"
  shows "(t \<in> {TypeStructure, TypeTable} \<Longrightarrow> rank td < n) \<Longrightarrow> settles (gorfc_wrapVariable k n t h c len td strip) s"
    and "rank td \<le> n \<Longrightarrow> settles (gorfc_wrapStructure k n td sub strip) s"
    and "rank td \<le> n \<Longrightarrow> settles (gorfc_wrap_fields k n td sub strip idxs out) s"
    and "rank td \<le> n \<Longrightarrow> settles (gorfc_wrapTable k n td tbl strip) s"
    and "rank td \<le> n \<Longrightarrow> settles (gorfc_wrap_rows k n td tbl strip left out') s"
  using assms
proof (induction k n t h c len td strip and k n td sub strip and k n td sub strip idxs out and
    k n td tbl strip and k n td tbl strip left out' arbitrary: s and s and s and s and s rule: gorfc_wrap_induct)
  case (1 k n t h c len td strip)
  then show ?case by (auto simp: gorfc_wrapVariable.simps intro!: settles_or_err settles_as_val split: nat.splits)
next
  case (2 k n td sub strip)
  then show ?case by (auto simp: gorfc_wrapStructure.simps intro!: settles_or_err)
next
  case (4 k n td sub strip i idxs out s)
  note rank = gorfc_ranked_index [OF "4.prems"(2,1)]
  show ?case
    by (auto intro!: settles_or_err settles_with_string settles_bind "4.IH" "4.prems" intro: rank split: option.splits)
next
  case (5 k n td tbl strip)
  then show ?case by (auto simp: gorfc_wrapTable.simps intro!: settles_or_err)
next
  case (7 k n td tbl strip left out)
  then show ?case by (auto intro!: settles_or_err settles_with_string settles_bind simp: case_prod_beta split: option.splits)
qed simp_all

lemma settles_gorfc_describe:
  assumes "gorfc_ranked k rank"
  shows "rank td < n \<Longrightarrow> settles (wrapTypeDescription k n td) s"
    and "rank td \<le> n \<Longrightarrow> settles (wrap_desc_fields k n td idxs fs) s"
  using assms
proof (induction k n td and k n td idxs fs arbitrary: s and s rule: wrapTypeDescription_wrap_desc_fields.induct)
  case (2 k n td s)
  then show ?case by (auto intro!: settles_or_err settles_with_string settles_bind split: prod.splits option.splits)
next
  case (4 k n td i idxs out s)
  note rank = gorfc_ranked_index [OF "4.prems"(2,1)]
  show ?case
    by (auto intro!: settles_or_err settles_with_string settles_bind "4.IH" "4.prems" intro: rank split: option.splits)
qed auto

definition gorfc_param_ranked :: "'c lsdk \<Rightarrow> (nat \<Rightarrow> nat) \<Rightarrow> nat \<Rightarrow> bool" where
  "gorfc_param_ranked k rank n \<longleftrightarrow>
     (\<forall>desc s. (\<forall>u pd s'. L_GetParameterDescByName k desc u s = (Ok pd, s') \<longrightarrow>
          lp_type pd \<in> {TypeStructure, TypeTable} \<or> lp_typeDesc pd \<noteq> 0 \<longrightarrow> rank (lp_typeDesc pd) < n) \<and>
        (\<forall>i pd s'. L_GetParameterDescByIndex k desc i s = (Ok pd, s') \<longrightarrow>
          lp_type pd \<in> {TypeStructure, TypeTable} \<or> lp_typeDesc pd \<noteq> 0 \<longrightarrow> rank (lp_typeDesc pd) < n))"

lemma settles_gorfc_params:
  assumes "gorfc_ranked k rank" "gorfc_param_ranked k rank n"
  shows "settles (gorfc_wrap_params k n desc h filt strip idxs out) s"
    and "settles (wrap_desc_params k n desc fn idxs ps) s"
    and "settles (gorfc_fillFunctionParameter k n desc h goName v) s"
proof -
  have rank: "lp_type pd \<in> {TypeStructure, TypeTable} \<or> lp_typeDesc pd \<noteq> 0 \<Longrightarrow> rank (lp_typeDesc pd) < n"
    if "L_GetParameterDescByIndex k desc i s = (Ok pd, s') \<or> L_GetParameterDescByName k desc u s = (Ok pd, s')"
    for i u pd s s' using that assms(2) unfolding gorfc_param_ranked_def by blast
  show "settles (gorfc_wrap_params k n desc h filt strip idxs out) s"
    by (induction idxs arbitrary: out s)
      (auto intro!: settles_or_err settles_with_string settles_bind settles_gorfc_wrap(1) [OF assms(1)] intro: rank split: option.splits)
  show "settles (wrap_desc_params k n desc fn idxs ps) s"
    by (induction idxs arbitrary: ps s)
      (auto intro!: settles_or_err settles_with_string settles_bind settles_gorfc_describe(1) [OF assms(1)] intro: rank split: option.splits)
  show "settles (gorfc_fillFunctionParameter k n desc h goName v) s"
    by (auto simp: gorfc_fillFunctionParameter_def intro!: settles_or_fail settles_gorfc_fill(1) [OF assms(1)] intro: rank
        split: prod.splits option.splits)
qed

lemma settles_wrapResult:
  "gorfc_ranked k rank \<Longrightarrow> gorfc_param_ranked k rank n \<Longrightarrow> settles (wrapResult k n desc h filt strip) s"
  "gorfc_ranked k rank \<Longrightarrow> gorfc_param_ranked k rank n \<Longrightarrow> settles (wrapFunctionDescription k n desc) s"
  by (auto simp: wrapResult_def wrapFunctionDescription_def Let_def intro!: settles_or_err settles_with_string settles_bind settles_gorfc_params
      split: prod.splits option.splits)

section \<open>What reading keeps\<close>

definition gorfc_readers_keep :: "'c lsdk \<Rightarrow> ('c \<Rightarrow> bool) \<Rightarrow> bool" where
  "gorfc_readers_keep k P \<longleftrightarrow>
     (\<forall>h c n. call_keeps P (L_GetChars k h c n) \<and> call_keeps P (L_GetNum k h c n) \<and> call_keeps P (L_GetString k h c n) \<and>
        call_keeps P (L_GetBytes k h c n) \<and> call_keeps P (L_GetXString k h c n)) \<and>
     (\<forall>h c. call_keeps P (L_GetStringLength k h c) \<and> call_keeps P (L_GetFloat k h c) \<and> call_keeps P (L_GetInt k h c) \<and>
        call_keeps P (L_GetInt1 k h c) \<and> call_keeps P (L_GetInt2 k h c) \<and> call_keeps P (L_GetInt8 k h c) \<and>
        call_keeps P (L_GetDate k h c) \<and> call_keeps P (L_GetTime k h c) \<and>
        call_keeps P (L_GetStructure k h c) \<and> call_keeps P (L_GetTable k h c)) \<and>
     (\<forall>h. call_keeps P (L_GetRowCount k h) \<and> call_keeps P (L_GetCurrentRow k h) \<and> call_keeps P (L_GetParameterCount k h) \<and>
        call_keeps P (L_GetFieldCount k h) \<and> call_keeps P (L_GetTypeName k h) \<and> call_keeps P (L_GetTypeLength k h) \<and>
        call_keeps P (L_GetFunctionName k h)) \<and>
     (\<forall>h i. call_keeps P (L_MoveTo k h i) \<and> call_keeps P (L_GetParameterDescByIndex k h i) \<and>
        call_keeps P (L_GetFieldDescByIndex k h i))"

lemma gorfc_readers:
  assumes "gorfc_readers_keep k P"
  shows "call_keeps P (L_GetChars k h c n)" "call_keeps P (L_GetNum k h c n)" "call_keeps P (L_GetString k h c n)"
    "call_keeps P (L_GetBytes k h c n)" "call_keeps P (L_GetXString k h c n)" "call_keeps P (L_GetStringLength k h c)"
    "call_keeps P (L_GetFloat k h c)" "call_keeps P (L_GetInt k h c)" "call_keeps P (L_GetInt1 k h c)"
    "call_keeps P (L_GetInt2 k h c)" "call_keeps P (L_GetInt8 k h c)" "call_keeps P (L_GetDate k h c)"
    "call_keeps P (L_GetTime k h c)" "call_keeps P (L_GetStructure k h c)" "call_keeps P (L_GetTable k h c)"
    "call_keeps P (L_GetRowCount k h)" "call_keeps P (L_GetCurrentRow k h)" "call_keeps P (L_GetParameterCount k h)"
    "call_keeps P (L_GetFieldCount k h)" "call_keeps P (L_GetTypeName k h)" "call_keeps P (L_GetTypeLength k h)"
    "call_keeps P (L_GetFunctionName k h)" "call_keeps P (L_MoveTo k h i)"
    "call_keeps P (L_GetParameterDescByIndex k h i)" "call_keeps P (L_GetFieldDescByIndex k h i)"
  using assms by (simp_all add: gorfc_readers_keep_def)

lemma keeps_with_string: "(\<And>x. keeps P (g x)) \<Longrightarrow> keeps P (with_string d r g)"
  by (auto simp: with_string_def split: prod.splits option.splits)

lemma keeps_get_string: "gorfc_readers_keep k P \<Longrightarrow> keeps P (get_string k h c n)"
  using gorfc_readers(3) [of k P h c n]
  by (simp add: keeps_def call_keeps_def get_string_def case_prod_beta)

lemma keeps_results [simp]: "keeps P (str_result r)" "keeps P (got v)"
  by (simp_all add: str_result_def got_def case_prod_beta)

lemma keeps_wrapScalar: "gorfc_readers_keep k P \<Longrightarrow> keeps P (gorfc_wrapScalar k t h c len strip)"
  by (auto simp: gorfc_wrapScalar_def wrap_decimal_def gorfc_wrap_date_def gorfc_wrap_time_def wrap_utclong_def Let_def
      intro!: keeps_bind keeps_or_err keeps_get_string gorfc_readers split: option.splits)

lemma keeps_as_val: "keeps P m \<Longrightarrow> keeps P (as_val f m)"
  by (auto simp: as_val_def intro!: keeps_bind)

lemma keeps_current_row:
  "gorfc_readers_keep k P \<Longrightarrow> keeps P (\<lambda>s. case L_GetCurrentRow k tbl s of (row, s') \<Rightarrow> (Ok row, s'))"
  using gorfc_readers(17) [of k P tbl] by (simp add: keeps_def call_keeps_def case_prod_beta)

lemma keeps_gorfc_wrap:
  assumes "gorfc_readers_keep k P"
  shows "keeps P (gorfc_wrapVariable k n t h c len td strip)"
    and "keeps P (gorfc_wrapStructure k n td sub strip)"
    and "keeps P (gorfc_wrap_fields k n td sub strip idxs out)"
    and "keeps P (gorfc_wrapTable k n td tbl strip)"
    and "keeps P (gorfc_wrap_rows k n td tbl strip left out')"
  using assms
proof (induction k n t h c len td strip and k n td sub strip and k n td sub strip idxs out and
    k n td tbl strip and k n td tbl strip left out' rule: gorfc_wrap_induct)
  case (1 k n t h c len td strip)
  then show ?case
    by (auto simp: gorfc_wrapVariable.simps intro!: keeps_or_err keeps_as_val keeps_wrapScalar gorfc_readers split: nat.splits)
next
  case (2 k n td sub strip)
  then show ?case by (auto simp: gorfc_wrapStructure.simps intro!: keeps_or_err gorfc_readers)
next
  case (4 k n td sub strip i idxs out)
  then show ?case by (auto intro!: keeps_or_err keeps_with_string keeps_bind gorfc_readers split: prod.splits option.splits)
next
  case (5 k n td tbl strip)
  then show ?case by (auto simp: gorfc_wrapTable.simps intro!: keeps_or_err gorfc_readers)
next
  case (7 k n td tbl strip left out)
  then show ?case by (auto intro!: keeps_or_err keeps_with_string keeps_bind keeps_current_row gorfc_readers split: prod.splits option.splits)
qed simp_all

lemma keeps_gorfc_describe:
  assumes "gorfc_readers_keep k P"
  shows "keeps P (wrapTypeDescription k n td)" and "keeps P (wrap_desc_fields k n td idxs fs)"
  using assms
  by (induction k n td and k n td idxs fs rule: wrapTypeDescription_wrap_desc_fields.induct)
    (auto intro!: keeps_or_err keeps_with_string keeps_bind gorfc_readers split: prod.splits option.splits)

lemma keeps_gorfc_params:
  assumes "gorfc_readers_keep k P"
  shows "keeps P (gorfc_wrap_params k n desc h filt strip idxs out)" and "keeps P (wrap_desc_params k n desc fn idxs ps)"
proof -
  show "keeps P (gorfc_wrap_params k n desc h filt strip idxs out)"
    by (induction idxs arbitrary: out)
      (auto intro!: keeps_or_err keeps_with_string keeps_bind keeps_gorfc_wrap(1) gorfc_readers assms split: prod.splits option.splits)
  show "keeps P (wrap_desc_params k n desc fn idxs ps)"
    by (induction idxs arbitrary: ps)
      (auto intro!: keeps_or_err keeps_with_string keeps_bind keeps_gorfc_describe(1) gorfc_readers assms split: prod.splits option.splits)
qed

lemma keeps_wrapResult:
  "gorfc_readers_keep k P \<Longrightarrow> keeps P (wrapResult k n desc h filt strip)"
  "gorfc_readers_keep k P \<Longrightarrow> keeps P (wrapFunctionDescription k n desc)"
  by (auto simp: wrapResult_def wrapFunctionDescription_def Let_def
      intro!: keeps_or_err keeps_with_string keeps_bind keeps_gorfc_params gorfc_readers split: prod.splits option.splits)

end
