(* ===== verification/Gorfc_Conn.thy ===== *)
theory Gorfc_Conn
  imports Gorfc_Wrap
begin

text \<open>
  The connection of \<open>gorfc/gorfc.go\<close>. A method runs on the pair of the connection object and the
  SDK's state, since it may change both; the object belongs to one goroutine, as it has no lock. Shown:
  a call returns and destroys its function container whatever happens; a connection that is opened only
  when it is not alive owns exactly its own SDK connection while alive and none otherwise; dates and
  times survive the way through a field; and several places where an error is lost.
\<close>

section \<open>The object\<close>

record gorfc_conn =
  gc_handle :: nat
  gc_rstrip :: bool
  gc_returnImportParams :: bool
  gc_alive :: bool
  gc_connParams :: "(uc \<times> uc) list"
  gc_connectionParams :: "(go_string \<times> go_string) list"

type_synonym 'c gst = "gorfc_conn \<times> 'c"

text \<open>Reading and changing the object, and an action on the SDK's state.\<close>

definition self :: "('c gst, gorfc_conn) act" where
  "self cs = (Ok (fst cs), cs)"

definition mutate :: "(gorfc_conn \<Rightarrow> gorfc_conn) \<Rightarrow> ('c gst, unit) act" where
  "mutate f cs = (Ok (), (f (fst cs), snd cs))"

definition on_sdk :: "('c, 'a) act \<Rightarrow> ('c gst, 'a) act" where
  "on_sdk m cs = (case m (snd cs) of (r, s') \<Rightarrow> (r, (fst cs, s')))"

definition gorfc_RStrip :: "bool \<Rightarrow> ('c gst, unit) act" where
  "gorfc_RStrip b = mutate (gc_rstrip_update (\<lambda>_. b))"

definition gorfc_ReturnImportParams :: "bool \<Rightarrow> ('c gst, unit) act" where
  "gorfc_ReturnImportParams b = mutate (gc_returnImportParams_update (\<lambda>_. b))"

definition gorfc_Alive :: "('c gst, bool) act" where
  "gorfc_Alive = bindA self (\<lambda>c. ret (gc_alive c))"

definition gorfc_Open :: "'c lsdk \<Rightarrow> ('c gst, lerr option) act" where
  "gorfc_Open k = bindA self (\<lambda>c.
     if gc_connParams c = [] then failA (index_panic 0 0)
     else bindA (on_sdk (\<lambda>s. case L_OpenConnection k (gc_connParams c) s of (r, s') \<Rightarrow> (Ok r, s'))) (\<lambda>(h, i).
       bindA (mutate (gc_handle_update (\<lambda>_. h))) (\<lambda>_.
         if ci_code i \<noteq> 0 then ret (Some (rfcError k i ''Connection could not be opened''))
         else bindA (mutate (gc_alive_update (\<lambda>_. True))) (\<lambda>_. ret None))))"

definition gorfc_Close :: "'c lsdk \<Rightarrow> ('c gst, lerr option) act" where
  "gorfc_Close k = bindA self (\<lambda>c.
     if \<not> gc_alive c then ret None
     else bindA (mutate (gc_alive_update (\<lambda>_. False))) (\<lambda>_.
       bindA (on_sdk (sdk_call (L_CloseConnection k (gc_handle c)))) (\<lambda>r.
         case r of Inl i \<Rightarrow> ret (Some (rfcError k i ''Connection could not be closed'')) | Inr _ \<Rightarrow> ret None)))"

definition and_then :: "('s, lerr option) act \<Rightarrow> ('s, lerr option) act \<Rightarrow> ('s, lerr option) act" where
  "and_then m m' = bindA m (\<lambda>e. case e of Some e' \<Rightarrow> ret (Some e') | None \<Rightarrow> m')"

definition gorfc_Reopen :: "'c lsdk \<Rightarrow> ('c gst, lerr option) act" where
  "gorfc_Reopen k = and_then (gorfc_Close k) (gorfc_Open k)"

text \<open>Ping and the description open a connection that is not alive.\<close>

definition ensure_open :: "'c lsdk \<Rightarrow> ('c gst, lerr option) act" where
  "ensure_open k = bindA self (\<lambda>c. if gc_alive c then ret None else gorfc_Open k)"

definition gorfc_Ping :: "'c lsdk \<Rightarrow> ('c gst, lerr option) act" where
  "gorfc_Ping k = and_then (ensure_open k) (bindA self (\<lambda>c.
     bindA (on_sdk (sdk_call (L_Ping k (gc_handle c)))) (\<lambda>r.
       case r of Inl i \<Rightarrow> ret (Some (rfcError k i ''Server could not be pinged'')) | Inr _ \<Rightarrow> ret None)))"

definition gorfc_GetConnectionAttributes :: "'c lsdk \<Rightarrow> ('c gst, (go_string \<times> go_string) list \<times> lerr option) act" where
  "gorfc_GetConnectionAttributes k = bindA self (\<lambda>c. on_sdk
     (or_err k [] ''Could not get connection attributes'' (L_GetConnectionAttributes k (gc_handle c)) (\<lambda>attrs.
        ret (wrapConnectionAttributes k attrs (gc_rstrip c)))))"

definition quoted :: "go_string \<Rightarrow> go_string" where
  "quoted s = [CHR 0x22] @ s @ [CHR 0x22]"

definition gorfc_GetFunctionDescription :: "'c lsdk \<Rightarrow> nat \<Rightarrow> go_string \<Rightarrow> ('c gst, l_func_desc \<times> lerr option) act" where
  "gorfc_GetFunctionDescription k n goFuncName =
     (let no_desc = \<lparr>lfd_Name = [], lfd_Parameters = []\<rparr> in
      case gorfc_fillString k goFuncName of
        (_, Some e) \<Rightarrow> ret (no_desc, Some e)
      | (funcName, None) \<Rightarrow>
          bindA (ensure_open k) (\<lambda>e. case e of
            Some e' \<Rightarrow> ret (no_desc, Some e')
          | None \<Rightarrow> bindA self (\<lambda>c. on_sdk
              (or_err k no_desc (''Could not get function description for '' @ quoted goFuncName)
                (L_GetFunctionDesc k (gc_handle c) (ustr funcName)) (wrapFunctionDescription k n)))))"

section \<open>Calls\<close>

fun call_with_map :: "'c lsdk \<Rightarrow> nat \<Rightarrow> nat \<Rightarrow> nat \<Rightarrow> (gval \<times> gval) list \<Rightarrow> ('c, lerr option) act" where
  "call_with_map k n desc h [] = ret None"
| "call_with_map k n desc h ((key, v) # kvs) =
     and_then (gorfc_fillFunctionParameter k n desc h (reflect_String k key) v) (call_with_map k n desc h kvs)"

fun call_with_struct :: "'c lsdk \<Rightarrow> nat \<Rightarrow> nat \<Rightarrow> nat \<Rightarrow> (go_string \<times> go_string \<times> bool \<times> bool \<times> gtype) list \<Rightarrow> gval list \<Rightarrow> ('c, lerr option) act" where
  "call_with_struct k n desc h ((name, tag, exported, emb, ty) # fs) (v # vs) =
     (if \<not> exported then failA (Panic ''reflect.Value.Interface: cannot return value obtained from unexported field or method'')
      else and_then (gorfc_fillFunctionParameter k n desc h name v) (call_with_struct k n desc h fs vs))"
| "call_with_struct k n desc h _ _ = ret None"

definition fill_call :: "'c lsdk \<Rightarrow> nat \<Rightarrow> nat \<Rightarrow> nat \<Rightarrow> gval \<Rightarrow> ('c, lerr option) act" where
  "fill_call k n desc h params =
     (case raw params of
        VNil \<Rightarrow> failA (value_error ''Type'' VNil)
      | VMap kt _ kvs \<Rightarrow>
          (case kvs of
             None \<Rightarrow> ret None
           | Some kvs' \<Rightarrow>
               if kvs' = [] then ret None
               else if under kt = TString then call_with_map k n desc h kvs'
               else ret (Some (rfcError k no_info ''Could not fill parameters passed as map with non-string keys'')))
      | VStruct fs vs \<Rightarrow> call_with_struct k n desc h fs vs
      | _ \<Rightarrow> ret (Some (rfcError k no_info
          ''Parameters can only be passed as types map[string]interface{} or go-structures'')))"

text \<open>A deferred call of the SDK runs after a panic too.\<close>

definition deferA :: "('c, 'a) act \<Rightarrow> ('c, unit) lcall \<Rightarrow> ('c, 'a) act" where
  "deferA m d s = (case m s of (r, s') \<Rightarrow> (r, snd (d s')))"

definition call_body :: "'c lsdk \<Rightarrow> nat \<Rightarrow> gorfc_conn \<Rightarrow> go_string \<Rightarrow> nat \<Rightarrow> gval \<Rightarrow> nat \<Rightarrow> ('c, call_params option \<times> lerr option) act" where
  "call_body k n c goFuncName desc params h =
     bindA (fill_call k n desc h params) (\<lambda>e. case e of
       Some e' \<Rightarrow> ret (None, Some e')
     | None \<Rightarrow> or_err k None (''Could not invoke function '' @ quoted goFuncName) (L_Invoke k (gc_handle c) h) (\<lambda>_.
         wrapResult k n desc h (if gc_returnImportParams c then 0 else 1) (gc_rstrip c)))"

text \<open>The connection is alive when the code asks a second time, so it is not reopened here. The
  message of a missing function prints the buffer's address.\<close>

definition call_alive :: "'c lsdk \<Rightarrow> nat \<Rightarrow> gorfc_conn \<Rightarrow> go_string \<Rightarrow> gval \<Rightarrow> ('c, call_params option \<times> lerr option) act" where
  "call_alive k n c goFuncName params =
     (case gorfc_fillString k goFuncName of
        (_, Some e) \<Rightarrow> ret (None, Some e)
      | (funcName, None) \<Rightarrow>
       or_err k None (''Could not get function description for '' @ quoted (l_ptr_text k funcName))
         (L_GetFunctionDesc k (gc_handle c) (ustr funcName)) (\<lambda>desc.
       or_err k None ''Could not create function'' (L_CreateFunction k desc) (\<lambda>h.
         deferA (call_body k n c goFuncName desc params h) (L_DestroyFunction k h))))"

definition gorfc_Call :: "'c lsdk \<Rightarrow> nat \<Rightarrow> go_string \<Rightarrow> gval \<Rightarrow> ('c gst, call_params option \<times> lerr option) act" where
  "gorfc_Call k n goFuncName params = bindA self (\<lambda>c.
     if \<not> gc_alive c then ret (None, Some (GoRfcError ''Call() method requires an open connection'' None))
     else on_sdk (call_alive k n c goFuncName params))"

section \<open>Constructors\<close>

text \<open>The parameters are converted in the order of the iteration over the map; each conversion
  overwrites the error of the one before. The connection is dropped when it cannot be opened.\<close>

definition new_gorfc :: "'c lsdk \<Rightarrow> (go_string \<times> go_string) list \<Rightarrow> gorfc_conn" where
  "new_gorfc k ps = \<lparr>gc_handle = 0, gc_rstrip = True, gc_returnImportParams = False, gc_alive = False,
     gc_connParams = map (\<lambda>(n, v). (fst (gorfc_fillString k n), fst (gorfc_fillString k v))) ps,
     gc_connectionParams = ps\<rparr>"

definition params_error :: "'c lsdk \<Rightarrow> (go_string \<times> go_string) list \<Rightarrow> lerr option" where
  "params_error k ps = foldl (\<lambda>_ (n, v). snd (gorfc_fillString k v)) None ps"

definition ConnectionFromParams :: "'c lsdk \<Rightarrow> (go_string \<times> go_string) list \<Rightarrow> ('c, gorfc_conn option \<times> lerr option) act" where
  "ConnectionFromParams k ps s =
     (case params_error k ps of
        Some e \<Rightarrow> (Ok (None, Some e), s)
      | None \<Rightarrow> (case gorfc_Open k (new_gorfc k ps, s) of
            (Inl p, (c, s')) \<Rightarrow> (Err p, s')
          | (Inr (Some e), (c, s')) \<Rightarrow> (Ok (None, Some e), s')
          | (Inr None, (c, s')) \<Rightarrow> (Ok (Some c, None), s')))"

definition ConnectionFromDest :: "'c lsdk \<Rightarrow> go_string \<Rightarrow> ('c, gorfc_conn option \<times> lerr option) act" where
  "ConnectionFromDest k dest = ConnectionFromParams k [(''dest'', dest)]"

definition GetNWRFCLibVersion :: "'c lsdk \<Rightarrow> nat \<times> nat \<times> nat" where
  "GetNWRFCLibVersion k = L_Version k"

section \<open>Calls return and clean up\<close>

lemma settles_and_then: "settles m s \<Longrightarrow> (\<And>s'. settles m' s') \<Longrightarrow> settles (and_then m m') s"
  by (auto simp: and_then_def intro!: settles_bind split: option.splits)

lemma keeps_and_then: "keeps P m \<Longrightarrow> keeps P m' \<Longrightarrow> keeps P (and_then m m')"
  by (auto simp: and_then_def intro!: keeps_bind split: option.splits)

lemma settles_fill_call:
  assumes "gorfc_ranked k rank" "gorfc_param_ranked k rank n"
  shows "settles (fill_call k n desc h params) s"
proof -
  have "settles (call_with_map k n desc h kvs) s" for kvs s
    using assms by (induction k n desc h kvs arbitrary: s rule: call_with_map.induct)
      (auto intro: settles_and_then settles_gorfc_params(3))
  moreover have "settles (call_with_struct k n desc h fs vs) s" for fs vs s
    using assms by (induction k n desc h fs vs arbitrary: s rule: call_with_struct.induct)
      (auto intro: settles_and_then settles_gorfc_params(3))
  ultimately show ?thesis
    by (auto simp: fill_call_def value_error_def split: gval.splits option.splits)
qed

lemma keeps_fill_call:
  assumes "gorfc_setters_keep k P"
  shows "keeps P (fill_call k n desc h params)"
proof -
  have "keeps P (call_with_map k n desc h kvs)" for kvs
    using assms by (induction k n desc h kvs rule: call_with_map.induct) (auto intro!: keeps_and_then keeps_gorfc_parameter)
  moreover have "keeps P (call_with_struct k n desc h fs vs)" for fs vs
    using assms by (induction k n desc h fs vs rule: call_with_struct.induct) (auto intro!: keeps_and_then keeps_gorfc_parameter)
  ultimately show ?thesis by (auto simp: fill_call_def split: gval.splits option.splits)
qed

lemma settles_defer: "settles m s \<Longrightarrow> settles (deferA m d) s"
  by (simp add: settles_def deferA_def case_prod_beta)

lemma settles_call_alive:
  assumes "gorfc_ranked k rank" "gorfc_param_ranked k rank n"
  shows "settles (call_alive k n c goFuncName params) s"
  using assms
  by (auto simp: call_alive_def call_body_def intro!: settles_or_err settles_defer settles_bind settles_fill_call
      settles_wrapResult split: prod.splits option.splits)

text \<open>The calls that only use a connection and a container.\<close>

definition gorfc_quiet :: "'c lsdk \<Rightarrow> ('c \<Rightarrow> bool) \<Rightarrow> bool" where
  "gorfc_quiet k P \<longleftrightarrow> gorfc_setters_keep k P \<and> gorfc_readers_keep k P \<and>
     (\<forall>h u. call_keeps P (L_GetFunctionDesc k h u)) \<and> (\<forall>h f. call_keeps P (L_Invoke k h f))"

text \<open>What the SDK promises about function containers: creating one adds a new one to the set of live
  containers, destroying one removes it, nothing else changes the set.\<close>

definition function_laws :: "'c lsdk \<Rightarrow> ('c \<Rightarrow> nat set) \<Rightarrow> bool" where
  "function_laws k live \<longleftrightarrow> (\<forall>L. gorfc_quiet k (\<lambda>s. live s = L)) \<and>
     (\<forall>d s. case L_CreateFunction k d s of
          (Inl _, s') \<Rightarrow> live s' = live s
        | (Inr h, s') \<Rightarrow> h \<notin> live s \<and> live s' = insert h (live s)) \<and>
     (\<forall>h s. live (snd (L_DestroyFunction k h s)) = live s - {h})"

text \<open>And about connections: a successful open adds a new one, a close removes it (it fails only for
  a handle that is not valid any more), nothing else changes the set.\<close>

definition connection_laws :: "'c lsdk \<Rightarrow> ('c \<Rightarrow> nat set) \<Rightarrow> bool" where
  "connection_laws k conns \<longleftrightarrow>
     (\<forall>L. let P = (\<lambda>s. conns s = L) in gorfc_quiet k P \<and> (\<forall>d. call_keeps P (L_CreateFunction k d)) \<and>
        (\<forall>h. call_keeps P (L_DestroyFunction k h) \<and> call_keeps P (L_Ping k h) \<and>
           call_keeps P (L_GetConnectionAttributes k h))) \<and>
     (\<forall>ps s. case L_OpenConnection k ps s of ((h, i), s') \<Rightarrow>
        if ci_code i = 0 then h \<notin> conns s \<and> conns s' = insert h (conns s) else conns s' = conns s) \<and>
     (\<forall>h s. conns (snd (L_CloseConnection k h s)) = conns s - {h})"

lemma function_law_parts:
  assumes "function_laws k live"
  shows "gorfc_setters_keep k (\<lambda>s. live s = L)" "gorfc_readers_keep k (\<lambda>s. live s = L)"
    "live (snd (L_GetFunctionDesc k h u s)) = live s" "live (snd (L_Invoke k h f s)) = live s"
    "live (snd (L_DestroyFunction k h s)) = live s - {h}"
    "L_CreateFunction k d s = (Ok h', s') \<Longrightarrow> h' \<notin> live s \<and> live s' = insert h' (live s)"
    "L_CreateFunction k d s = (Err e, s') \<Longrightarrow> live s' = live s"
proof -
  note laws = assms [unfolded function_laws_def]
  have c: "case L_CreateFunction k d s of
          (Inl _, s') \<Rightarrow> live s' = live s
        | (Inr h, s') \<Rightarrow> h \<notin> live s \<and> live s' = insert h (live s)"
    by (rule laws [THEN conjunct2, THEN conjunct1, rule_format])
  have q: "gorfc_quiet k (\<lambda>s. live s = L)" for L
    by (rule laws [THEN conjunct1, rule_format])
  show "L_CreateFunction k d s = (Ok h', s') \<Longrightarrow> h' \<notin> live s \<and> live s' = insert h' (live s)"
    "L_CreateFunction k d s = (Err e, s') \<Longrightarrow> live s' = live s" using c by simp_all
  show "live (snd (L_GetFunctionDesc k h u s)) = live s" "live (snd (L_Invoke k h f s)) = live s"
    using q [of "live s"] by (simp_all add: gorfc_quiet_def call_keeps_def)
  show "live (snd (L_DestroyFunction k h s)) = live s - {h}"
    by (rule laws [THEN conjunct2, THEN conjunct2, rule_format])
  show "gorfc_setters_keep k (\<lambda>s. live s = L)" "gorfc_readers_keep k (\<lambda>s. live s = L)"
    using q [of L] by (simp_all add: gorfc_quiet_def)
qed

lemma call_body_live:
  assumes "function_laws k live"
  shows "live (snd (call_body k n c fn desc params h s)) = live s"
proof -
  have "keeps (\<lambda>s. live s = L) (call_body k n c fn desc params h)" for L
    unfolding call_body_def
    by (auto intro!: keeps_bind keeps_fill_call keeps_or_err keeps_wrapResult function_law_parts [OF assms]
        simp: call_keeps_def function_law_parts [OF assms] split: option.splits)
  then show ?thesis by (simp add: keeps_def)
qed

lemma or_err_Inl: "f s = (Err i, s') \<Longrightarrow> or_err k d msg f g s = (Ok (d, Some (rfcError k i msg)), s')"
  by (simp add: or_err_def sdk_call_def bindA_def)

lemma or_err_Inr: "f s = (Ok a, s') \<Longrightarrow> or_err k d msg f g s = g a s'"
  by (simp add: or_err_def sdk_call_def bindA_def)

lemma call_alive_live:
  assumes "function_laws k live"
  shows "live (snd (call_alive k n c fn params s)) = live s"
proof -
  have create: "live (snd (or_err k None msg (L_CreateFunction k desc) (\<lambda>h.
      deferA (call_body k n c fn desc params h) (L_DestroyFunction k h)) t)) = live t" for desc t msg
  proof (cases "L_CreateFunction k desc t")
    case (Pair r t1)
    show ?thesis
    proof (cases r)
      case (Inl e)
      then show ?thesis using Pair function_law_parts(7) [OF assms] by (simp add: or_err_Inl)
    next
      case (Inr h)
      have "h \<notin> live t" "live t1 = insert h (live t)" using function_law_parts(6) [OF assms] Pair Inr by blast+
      then show ?thesis
        using Pair Inr by (simp add: or_err_Inr deferA_def case_prod_beta function_law_parts(5) [OF assms] call_body_live [OF assms])
    qed
  qed
  show ?thesis
  proof (cases "gorfc_fillString k fn")
    case (Pair u e)
    obtain r t where d: "L_GetFunctionDesc k (gc_handle c) (ustr u) s = (r, t)" by force
    have "live t = live s" using function_law_parts(3) [OF assms, of "gc_handle c" "ustr u" s] d by simp
    then show ?thesis using Pair d create
      by (cases e; cases r) (simp_all add: call_alive_def or_err_Inl or_err_Inr)
  qed
qed

section \<open>The life of a connection\<close>

datatype gorfc_event = EvOpen | EvClose | EvReopen | EvPing | EvAttributes | EvDescribe go_string
  | EvCall go_string gval | EvRStrip bool | EvReturnImport bool

fun gorfc_do :: "'c lsdk \<Rightarrow> nat \<Rightarrow> gorfc_event \<Rightarrow> 'c gst \<Rightarrow> 'c gst" where
  "gorfc_do k n EvOpen cs = snd (gorfc_Open k cs)"
| "gorfc_do k n EvClose cs = snd (gorfc_Close k cs)"
| "gorfc_do k n EvReopen cs = snd (gorfc_Reopen k cs)"
| "gorfc_do k n EvPing cs = snd (gorfc_Ping k cs)"
| "gorfc_do k n EvAttributes cs = snd (gorfc_GetConnectionAttributes k cs)"
| "gorfc_do k n (EvDescribe fn) cs = snd (gorfc_GetFunctionDescription k n fn cs)"
| "gorfc_do k n (EvCall fn params) cs = snd (gorfc_Call k n fn params cs)"
| "gorfc_do k n (EvRStrip b) cs = snd (gorfc_RStrip b cs)"
| "gorfc_do k n (EvReturnImport b) cs = snd (gorfc_ReturnImportParams b cs)"

text \<open>The states a connection gets into when \<open>Open\<close> is called only while it is not alive.\<close>

inductive gorfc_reach :: "'c lsdk \<Rightarrow> nat \<Rightarrow> 'c gst \<Rightarrow> 'c gst \<Rightarrow> bool" for k n cs where
  start: "gorfc_reach k n cs cs"
| event: "gorfc_reach k n cs cs' \<Longrightarrow> ev \<noteq> EvOpen \<or> \<not> gc_alive (fst cs') \<Longrightarrow> gorfc_reach k n cs (gorfc_do k n ev cs')"

text \<open>The connection owns its SDK connection while alive, and none otherwise.\<close>

definition owns :: "('c \<Rightarrow> nat set) \<Rightarrow> nat set \<Rightarrow> 'c gst \<Rightarrow> bool" where
  "owns conns others cs \<longleftrightarrow>
     (if gc_alive (fst cs) then gc_handle (fst cs) \<notin> others \<and> conns (snd cs) = insert (gc_handle (fst cs)) others
      else conns (snd cs) = others)"

lemma connection_law_parts:
  assumes "connection_laws k conns"
  shows "gorfc_setters_keep k (\<lambda>s. conns s = L)" "gorfc_readers_keep k (\<lambda>s. conns s = L)"
    "call_keeps (\<lambda>s. conns s = L) (L_GetFunctionDesc k h u)" "call_keeps (\<lambda>s. conns s = L) (L_Invoke k h f)"
    "call_keeps (\<lambda>s. conns s = L) (L_CreateFunction k d)" "call_keeps (\<lambda>s. conns s = L) (L_DestroyFunction k h)"
    "call_keeps (\<lambda>s. conns s = L) (L_Ping k h)" "call_keeps (\<lambda>s. conns s = L) (L_GetConnectionAttributes k h)"
    "conns (snd (L_CloseConnection k h s)) = conns s - {h}"
    "L_OpenConnection k ps s = ((h', i), s') \<Longrightarrow> ci_code i = 0 \<Longrightarrow> h' \<notin> conns s \<and> conns s' = insert h' (conns s)"
    "L_OpenConnection k ps s = ((h', i), s') \<Longrightarrow> ci_code i \<noteq> 0 \<Longrightarrow> conns s' = conns s"
proof -
  note laws = assms [unfolded connection_laws_def Let_def]
  have q: "gorfc_quiet k (\<lambda>s. conns s = L) \<and> (\<forall>d. call_keeps (\<lambda>s. conns s = L) (L_CreateFunction k d)) \<and>
      (\<forall>h. call_keeps (\<lambda>s. conns s = L) (L_DestroyFunction k h) \<and> call_keeps (\<lambda>s. conns s = L) (L_Ping k h) \<and>
        call_keeps (\<lambda>s. conns s = L) (L_GetConnectionAttributes k h))"
    by (rule laws [THEN conjunct1, rule_format])
  have o: "case L_OpenConnection k ps s of ((h, i), s') \<Rightarrow>
      if ci_code i = 0 then h \<notin> conns s \<and> conns s' = insert h (conns s) else conns s' = conns s"
    by (rule laws [THEN conjunct2, THEN conjunct1, rule_format])
  show "conns (snd (L_CloseConnection k h s)) = conns s - {h}"
    by (rule laws [THEN conjunct2, THEN conjunct2, rule_format])
  show "L_OpenConnection k ps s = ((h', i), s') \<Longrightarrow> ci_code i = 0 \<Longrightarrow> h' \<notin> conns s \<and> conns s' = insert h' (conns s)"
    "L_OpenConnection k ps s = ((h', i), s') \<Longrightarrow> ci_code i \<noteq> 0 \<Longrightarrow> conns s' = conns s"
    using o by simp_all
  show "gorfc_setters_keep k (\<lambda>s. conns s = L)" "gorfc_readers_keep k (\<lambda>s. conns s = L)"
    "call_keeps (\<lambda>s. conns s = L) (L_GetFunctionDesc k h u)" "call_keeps (\<lambda>s. conns s = L) (L_Invoke k h f)"
    "call_keeps (\<lambda>s. conns s = L) (L_CreateFunction k d)" "call_keeps (\<lambda>s. conns s = L) (L_DestroyFunction k h)"
    "call_keeps (\<lambda>s. conns s = L) (L_Ping k h)" "call_keeps (\<lambda>s. conns s = L) (L_GetConnectionAttributes k h)"
    using q by (simp_all add: gorfc_quiet_def)
qed

lemma keeps_apply: "keeps P m \<Longrightarrow> P s \<Longrightarrow> P (snd (m s))"
  by (simp add: keeps_def)

lemma keeps_defer: "keeps P m \<Longrightarrow> call_keeps P d \<Longrightarrow> keeps P (deferA m d)"
  by (simp add: keeps_def call_keeps_def deferA_def case_prod_beta)

lemma keeps_owns_self [simp]: "keeps P self"
  by (simp add: keeps_def self_def)

lemma keeps_owns_on_sdk: "(\<And>L. keeps (\<lambda>s. conns s = L) m) \<Longrightarrow> keeps (owns conns others) (on_sdk m)"
  by (simp add: keeps_def owns_def on_sdk_def case_prod_beta)

lemma keeps_call_alive:
  assumes "connection_laws k conns"
  shows "keeps (\<lambda>s. conns s = L) (call_alive k n c fn params)"
  unfolding call_alive_def call_body_def
  by (auto intro!: keeps_or_err keeps_defer keeps_bind keeps_fill_call keeps_wrapResult connection_law_parts [OF assms]
      split: prod.splits option.splits)

lemma open_owns:
  assumes "connection_laws k conns" "owns conns others cs" "\<not> gc_alive (fst cs)"
  shows "owns conns others (snd (gorfc_Open k cs))"
proof (cases "gc_connParams (fst cs) = []")
  case False
  obtain h i s' where o: "L_OpenConnection k (gc_connParams (fst cs)) (snd cs) = ((h, i), s')" by (metis surj_pair)
  show ?thesis
    using assms(2,3) o connection_law_parts(10,11) [OF assms(1) o] False
    by (cases "ci_code i = 0") (auto simp: gorfc_Open_def self_def on_sdk_def mutate_def bindA_def owns_def)
qed (use assms in \<open>simp add: gorfc_Open_def self_def bindA_def\<close>)

lemma close_owns:
  assumes "connection_laws k conns"
  shows "keeps (owns conns others) (gorfc_Close k)" and "\<not> gc_alive (fst (snd (gorfc_Close k cs)))"
proof -
  show "keeps (owns conns others) (gorfc_Close k)"
    unfolding keeps_def
  proof (intro allI impI)
    fix cs assume o: "owns conns others cs"
    obtain r s' where "L_CloseConnection k (gc_handle (fst cs)) (snd cs) = (r, s')" by force
    moreover from this have "conns s' = conns (snd cs) - {gc_handle (fst cs)}"
      using connection_law_parts(9) [OF assms, of "gc_handle (fst cs)" "snd cs"] by simp
    ultimately show "owns conns others (snd (gorfc_Close k cs))"
      using o by (cases r) (auto simp: gorfc_Close_def self_def on_sdk_def mutate_def sdk_call_def bindA_def owns_def)
  qed
  show "\<not> gc_alive (fst (snd (gorfc_Close k cs)))"
    by (auto simp: gorfc_Close_def self_def on_sdk_def mutate_def sdk_call_def bindA_def split: prod.splits sum.splits)
qed

lemma ensure_open_owns: "connection_laws k conns \<Longrightarrow> keeps (owns conns others) (ensure_open k)"
  by (auto simp: keeps_def ensure_open_def self_def bindA_def open_owns)

lemma reopen_owns:
  assumes "connection_laws k conns"
  shows "keeps (owns conns others) (gorfc_Reopen k)"
  unfolding keeps_def
proof (intro allI impI)
  fix cs assume o: "owns conns others cs"
  obtain r cs' where c: "gorfc_Close k cs = (r, cs')" by (cases "gorfc_Close k cs")
  have "owns conns others cs'" "\<not> gc_alive (fst cs')"
    using keeps_apply [OF close_owns(1) [OF assms] o] close_owns(2) [OF assms, of cs] c by simp_all
  then have "owns conns others (snd (gorfc_Open k cs'))" by (rule open_owns [OF assms])
  with \<open>owns conns others cs'\<close> show "owns conns others (snd (gorfc_Reopen k cs))"
    by (auto simp: gorfc_Reopen_def and_then_def bindA_def c split: sum.splits option.splits)
qed

lemma event_owns:
  assumes k: "connection_laws k conns" and "owns conns others cs" "ev \<noteq> EvOpen \<or> \<not> gc_alive (fst cs)"
  shows "owns conns others (gorfc_do k n ev cs)"
proof -
  note sdk = keeps_or_err keeps_owns_on_sdk keeps_sdk_call connection_law_parts [OF k]
  have "keeps (owns conns others) (gorfc_Ping k)"
    unfolding gorfc_Ping_def by (auto intro!: keeps_and_then ensure_open_owns [OF k] keeps_bind sdk split: sum.splits)
  moreover have "keeps (owns conns others) (gorfc_GetConnectionAttributes k)"
    unfolding gorfc_GetConnectionAttributes_def by (auto intro!: keeps_bind sdk)
  moreover have "keeps (owns conns others) (gorfc_GetFunctionDescription k n fn)" for fn
    unfolding gorfc_GetFunctionDescription_def Let_def
    by (auto intro!: ensure_open_owns [OF k] keeps_bind keeps_wrapResult sdk split: prod.splits option.splits)
  moreover have "keeps (owns conns others) (gorfc_Call k n fn params)" for fn params
    unfolding gorfc_Call_def by (auto intro!: keeps_bind keeps_owns_on_sdk keeps_call_alive [OF k])
  moreover have "keeps (owns conns others) (gorfc_RStrip b)" "keeps (owns conns others) (gorfc_ReturnImportParams b)" for b
    by (simp_all add: keeps_def gorfc_RStrip_def gorfc_ReturnImportParams_def mutate_def owns_def)
  ultimately show ?thesis
    using assms(2,3) open_owns [OF k] close_owns(1) [OF k, of others] reopen_owns [OF k, of others]
    by (cases ev) (simp_all add: keeps_apply [where P = "owns conns others"])
qed

lemma reach_owns:
  assumes "connection_laws k conns" and "gorfc_reach k n cs cs'" and "owns conns others cs"
  shows "owns conns others cs'"
  using assms(2,3) by (induction rule: gorfc_reach.induct) (auto intro: event_owns [OF assms(1)])

lemma new_connection_owns:
  assumes k: "connection_laws k conns" and "ConnectionFromParams k ps s = (Ok (Some c, e), s')"
  shows "gc_alive c" "owns conns (conns s) (c, s')"
proof -
  obtain c' s'' r where o: "gorfc_Open k (new_gorfc k ps, s) = (r, (c', s''))" by (metis surj_pair)
  have r: "r = Ok None" "c' = c" "s'' = s'"
    using assms(2) o by (auto simp: ConnectionFromParams_def split: option.splits sum.splits)
  have "owns conns (conns s) (new_gorfc k ps, s)" "\<not> gc_alive (new_gorfc k ps)" by (simp_all add: owns_def new_gorfc_def)
  then show "owns conns (conns s) (c, s')" using open_owns [OF k, of "conns s" "(new_gorfc k ps, s)"] o r by simp
  show "gc_alive c"
    using o r by (auto simp: gorfc_Open_def self_def on_sdk_def mutate_def bindA_def split: if_splits prod.splits)
qed

section \<open>Dates and times\<close>

text \<open>The conversions of the SDK on strings of digits, and a field that keeps what is written.\<close>

definition converts_digits :: "'c lsdk \<Rightarrow> bool" where
  "converts_digits k \<longleftrightarrow> (\<forall>ds. list_all is_digit ds \<longrightarrow>
     fst (L_UTF8ToSAPUC k ds) = None \<and>
     (\<forall>size. L_SAPUCToUTF8 k (take (length ds) (snd (L_UTF8ToSAPUC k ds))) size = Ok ds))"

definition date_field :: "'c lsdk \<Rightarrow> nat \<Rightarrow> uc \<Rightarrow> bool" where
  "date_field k h c \<longleftrightarrow> (\<forall>u s. fst (L_SetDate k h c u s) = Ok () \<and>
     fst (L_GetDate k h c (snd (L_SetDate k h c u s))) = Ok u)"

definition time_field :: "'c lsdk \<Rightarrow> nat \<Rightarrow> uc \<Rightarrow> bool" where
  "time_field k h c \<longleftrightarrow> (\<forall>u s. fst (L_SetTime k h c u s) = Ok () \<and>
     fst (L_GetTime k h c (snd (L_SetTime k h c u s))) = Ok u)"

text \<open>What is left of an instant in a field of each type.\<close>

definition date_part :: "civil \<Rightarrow> civil" where
  "date_part c = c\<lparr>cHour := 0, cMin := 0, cSec := 0, cNsec := 0\<rparr>"

definition clock_part :: "civil \<Rightarrow> civil" where
  "clock_part c = c\<lparr>cYear := 0, cMonth := 1, cDay := 1, cNsec := 0\<rparr>"

lemma valid_instant_parts:
  assumes "valid_instant c"
  shows "cYear c < 10000" "cMonth c < 100" "cDay c < 100" "cHour c < 100" "cMin c < 100" "cSec c < 100"
    "1 \<le> cMonth c" "cMonth c \<le> 12" "1 \<le> cDay c" "int (cDay c) \<le> daysInMonth (int (cYear c)) (int (cMonth c))"
    "cHour c < 24" "cMin c < 60" "cSec c < 60"
  using assms daysInMonth_le [of "int (cYear c)" "int (cMonth c)"] by (auto simp: valid_instant_def)

lemma parse_format:
  assumes "valid_instant c"
  shows "parse_date (format_date c) = Some (date_part c)" and "parse_clock (format_clock c) = Some (clock_part c)"
proof -
  note b = valid_instant_parts [OF assms]
  have last: "tp_getnum f (fmt_0d 2 n) = Some (n, [])" if "n < 100" for f n
    using tp_getnum_fmt [OF that, where v = "[]"] by simp
  show "parse_date (format_date c) = Some (date_part c)"
    using b by (simp add: parse_date_def format_date_def date_part_def tp_year_fmt tp_getnum_fmt last)
  show "parse_clock (format_clock c) = Some (clock_part c)"
    using b by (simp add: parse_clock_def format_clock_def clock_part_def tp_getnum_fmt last tp_frac_def)
qed

lemma format_digits:
  assumes "valid_instant c"
  shows "length (format_date c) = 8" "list_all is_digit (format_date c)" "format_date c \<noteq> ''00000000''"
    "format_date c ! 1 \<noteq> CHR '' ''" "length (format_clock c) = 6" "list_all is_digit (format_clock c)"
proof -
  note b = valid_instant_parts [OF assms]
  show l: "length (format_date c) = 8" "list_all is_digit (format_date c)" "length (format_clock c) = 6"
    "list_all is_digit (format_clock c)"
    using b by (simp_all add: format_date_def format_clock_def length_fmt_4 length_fmt_2)
  have "format_date c ! 1 \<in> set (format_date c)" using l by (simp add: nth_mem)
  then have "is_digit (format_date c ! 1)" using l(2) by (simp add: list_all_iff)
  then show "format_date c ! 1 \<noteq> CHR '' ''" by (auto simp: is_digit_def)
  have "parse_date ''00000000'' = None" by code_simp
  then show "format_date c \<noteq> ''00000000''" using parse_format(1) [OF assms] by force
qed

lemma set_text_done:
  assumes "L_UTF8ToSAPUC k x = (None, u)" and "f u s = (Ok (), s')"
  shows "set_text k c t x f s = (Ok None, s')"
  by (simp add: set_text_def gorfc_fillString_def assms set_with_def bindA_def sdk_call_def after_set_def)

lemma converted:
  assumes "converts_digits k" "list_all is_digit ds" "ds \<noteq> []"
  shows "\<exists>u. L_UTF8ToSAPUC k ds = (None, u) \<and> nWrapString k u (length ds) False = (ds, None)"
proof (intro exI conjI)
  show "L_UTF8ToSAPUC k ds = (None, snd (L_UTF8ToSAPUC k ds))"
    using assms(1,2) unfolding converts_digits_def by (metis prod.collapse)
  show "nWrapString k (snd (L_UTF8ToSAPUC k ds)) (length ds) False = (ds, None)"
    using assms by (simp add: converts_digits_def nWrapString_def)
qed

lemma date_roundtrip:
  assumes "converts_digits k" "date_field k h c" "l_time_of k v = Some t" "valid_instant t"
  shows "\<exists>s'. gorfc_fillScalar k TypeDate h c v s = (Ok None, s') \<and>
    fst (gorfc_wrapScalar k TypeDate h c len strip s') = Ok (l_time_val k (date_part t), None)"
proof -
  note d = format_digits(1-4) [OF assms(4)]
  then have "format_date t \<noteq> []" by auto
  then obtain u where u: "L_UTF8ToSAPUC k (format_date t) = (None, u)" "nWrapString k u 8 False = (format_date t, None)"
    using converted [OF assms(1) d(2)] d(1) by metis
  obtain s' where set: "L_SetDate k h c u s = (Ok (), s')" "fst (L_GetDate k h c s') = Ok u"
    using assms(2) unfolding date_field_def by (metis prod.collapse)
  obtain s'' where get: "L_GetDate k h c s' = (Ok u, s'')" using set(2) by (metis prod.collapse)
  have "gorfc_fillScalar k TypeDate h c v s = (Ok None, s')"
    using set_text_done [of k "format_date t" u "L_SetDate k h c" s s' c TypeDate] u set
    by (simp add: gorfc_fillScalar_def as_civil_def assms(3))
  moreover have "gorfc_wrapScalar k TypeDate h c len strip s' = (Ok (l_time_val k (date_part t), None), s'')"
    using d parse_format(1) [OF assms(4)]
    by (simp add: gorfc_wrapScalar_def gorfc_wrap_date_def or_err_Inr get u got_def)
  ultimately show ?thesis by simp
qed

lemma clock_roundtrip:
  assumes "converts_digits k" "time_field k h c" "l_time_of k v = Some t" "valid_instant t"
  shows "\<exists>s'. gorfc_fillScalar k TypeTime h c v s = (Ok None, s') \<and>
    fst (gorfc_wrapScalar k TypeTime h c len strip s') = Ok (l_time_val k (clock_part t), None)"
proof -
  note d = format_digits(5-6) [OF assms(4)]
  then have "format_clock t \<noteq> []" by auto
  then obtain u where u: "L_UTF8ToSAPUC k (format_clock t) = (None, u)" "nWrapString k u 6 False = (format_clock t, None)"
    using converted [OF assms(1) d(2)] d(1) by metis
  obtain s' where set: "L_SetTime k h c u s = (Ok (), s')" "fst (L_GetTime k h c s') = Ok u"
    using assms(2) unfolding time_field_def by (metis prod.collapse)
  obtain s'' where get: "L_GetTime k h c s' = (Ok u, s'')" using set(2) by (metis prod.collapse)
  have "gorfc_fillScalar k TypeTime h c v s = (Ok None, s')"
    using set_text_done [of k "format_clock t" u "L_SetTime k h c" s s' c TypeTime] u set
    by (simp add: gorfc_fillScalar_def as_civil_def assms(3))
  moreover have "gorfc_wrapScalar k TypeTime h c len strip s' = (Ok (l_time_val k (clock_part t), None), s'')"
    using parse_format(2) [OF assms(4)]
    by (simp add: gorfc_wrapScalar_def gorfc_wrap_time_def or_err_Inr get u got_def)
  ultimately show ?thesis by simp
qed

section \<open>Properties\<close>

text \<open>A call of the older binding returns, for every SDK whose types are finitely nested, and
  leaves the set of live function containers as it was: on success, on an error at any step, and on a
  panic of the conversion of its arguments.\<close>

theorem gorfc_call_cleans_up:
  assumes "gorfc_ranked k rank" "gorfc_param_ranked k rank n" "function_laws k live"
  shows "settles (gorfc_Call k n fn params) cs \<and> live (snd (snd (gorfc_Call k n fn params cs))) = live (snd cs)"
proof
  have "settles (call_alive k n c fn params) s" for c s by (rule settles_call_alive [OF assms(1,2)])
  then show "settles (gorfc_Call k n fn params) cs"
    by (simp add: settles_def gorfc_Call_def bindA_def self_def on_sdk_def case_prod_beta)
  show "live (snd (snd (gorfc_Call k n fn params cs))) = live (snd cs)"
    using call_alive_live [OF assms(3)] by (simp add: gorfc_Call_def bindA_def self_def on_sdk_def case_prod_beta)
qed

text \<open>An SDK that only counts connections and containers.\<close>

definition counting_lsdk :: "(nat list \<times> nat list) lsdk" where
  "counting_lsdk = (undefined :: (nat list \<times> nat list) lsdk)
     \<lparr>L_UTF8ToSAPUC := \<lambda>s. (None, map (\<lambda>c. of_nat (of_char c)) s),
      L_SAPUCToUTF8 := \<lambda>u _. Ok (map (\<lambda>w. char_of (unat w)) u),
      l_time_of := \<lambda>_. Some \<lparr>cYear = 2024, cMonth = 2, cDay = 29, cHour = 23, cMin = 59, cSec = 58, cNsec = 7\<rparr>,
      L_OpenConnection := \<lambda>_ (L, M). ((Suc (sum_list L), no_info), (Suc (sum_list L) # L, M)),
      L_CloseConnection := \<lambda>h (L, M). (Ok (), (removeAll h L, M)),
      L_Ping := \<lambda>_ s. (Ok (), s), L_GetConnectionAttributes := \<lambda>_ s. (Ok (\<lambda>_. []), s),
      L_GetFunctionDesc := \<lambda>_ _ s. (Ok 1, s), L_Invoke := \<lambda>_ _ s. (Ok (), s),
      L_CreateFunction := \<lambda>_ (L, M). (Ok (Suc (sum_list M)), (L, Suc (sum_list M) # M)),
      L_DestroyFunction := \<lambda>h (L, M). (Ok (), (L, removeAll h M)),
      L_GetFunctionName := \<lambda>_ s. (Ok [], s), L_GetParameterCount := \<lambda>_ s. (Ok 0, s),
      L_GetParameterDescByIndex := \<lambda>_ _ s. (Err no_info, s), L_GetParameterDescByName := \<lambda>_ _ s. (Err no_info, s),
      L_GetTypeName := \<lambda>_ s. (Ok [], s), L_GetTypeLength := \<lambda>_ s. (Ok (0, 0), s), L_GetFieldCount := \<lambda>_ s. (Ok 0, s),
      L_GetFieldDescByIndex := \<lambda>_ _ s. (Err no_info, s), L_GetFieldDescByName := \<lambda>_ _ s. (Err no_info, s),
      L_SetChars := \<lambda>_ _ _ s. (Ok (), s), L_SetNum := \<lambda>_ _ _ s. (Ok (), s), L_SetString := \<lambda>_ _ _ s. (Ok (), s),
      L_SetDate := \<lambda>_ _ _ s. (Ok (), s), L_SetTime := \<lambda>_ _ _ s. (Ok (), s), L_SetBytes := \<lambda>_ _ _ s. (Ok (), s),
      L_SetXString := \<lambda>_ _ _ s. (Ok (), s), L_SetInt := \<lambda>_ _ _ s. (Ok (), s),
      L_GetStructure := \<lambda>_ _ s. (Ok 1, s), L_GetTable := \<lambda>_ _ s. (Ok 1, s), L_AppendNewRow := \<lambda>_ s. (Ok 1, s),
      L_GetChars := \<lambda>_ _ _ s. (Ok [], s), L_GetNum := \<lambda>_ _ _ s. (Ok [], s),
      L_GetStringLength := \<lambda>_ _ s. (Ok 0, s), L_GetString := \<lambda>_ _ _ s. ((no_info, [], 0), s),
      L_GetBytes := \<lambda>_ _ _ s. (Ok [], s), L_GetXString := \<lambda>_ _ _ s. (Ok [], s), L_GetFloat := \<lambda>_ _ s. (Ok 0, s),
      L_GetInt := \<lambda>_ _ s. (Ok 0, s), L_GetInt1 := \<lambda>_ _ s. (Ok 0, s), L_GetInt2 := \<lambda>_ _ s. (Ok 0, s),
      L_GetInt8 := \<lambda>_ _ s. (Ok 0, s), L_GetDate := \<lambda>_ _ s. (Ok [], s), L_GetTime := \<lambda>_ _ s. (Ok [], s),
      L_GetRowCount := \<lambda>_ s. (Ok 0, s), L_MoveTo := \<lambda>_ _ s. (Ok (), s), L_GetCurrentRow := \<lambda>_ s. (0, s)\<rparr>"

lemma fresh_number: "Suc (sum_list L) \<notin> set (L :: nat list)"
  using member_le_sum_list not_less_eq_eq by blast

lemma counting_lsdk_quiet: "gorfc_quiet counting_lsdk P"
  by (simp add: gorfc_quiet_def gorfc_setters_keep_def gorfc_readers_keep_def call_keeps_def counting_lsdk_def)

lemma counting_lsdk_laws:
  "function_laws counting_lsdk (set \<circ> snd)" "connection_laws counting_lsdk (set \<circ> fst)"
  using fresh_number
  by (auto simp: function_laws_def connection_laws_def counting_lsdk_quiet)
    (auto simp: counting_lsdk_def call_keeps_def no_info_def)

text \<open>A connection with handle 7 on it.\<close>

definition counting_conn :: gorfc_conn where
  "counting_conn = (new_gorfc counting_lsdk [(''dest'', ''D'')])\<lparr>gc_handle := 7, gc_alive := True\<rparr>"

lemma gorfc_call_cleans_up_witness:
  "gc_alive counting_conn \<and>
   settles (gorfc_Call counting_lsdk 1 ''FN'' (VMap TString TIface None)) (counting_conn, ([7], [3])) \<and>
   set (snd (snd (snd (gorfc_Call counting_lsdk 1 ''FN'' (VMap TString TIface None) (counting_conn, ([7], [3])))))) = {3}"
proof -
  have "gorfc_ranked counting_lsdk (\<lambda>_. 0)" "gorfc_param_ranked counting_lsdk (\<lambda>_. 0) 1"
    by (simp_all add: gorfc_ranked_def gorfc_param_ranked_def counting_lsdk_def)
  from gorfc_call_cleans_up [OF this counting_lsdk_laws(1), of "''FN''" "VMap TString TIface None" "(counting_conn, ([7], [3]))"]
  show ?thesis by (simp add: counting_conn_def)
qed




lemma char_unit: "char_of (unat (of_nat (of_char c) :: 16 word)) = c"
proof -
  have b: "(of_char c :: nat) < 256" by simp
  have "(of_char c :: nat) < 65536" by (rule order_less_trans [OF b]) simp
  then have "unat (of_nat (of_char c) :: 16 word) = of_char c" by (rule unat_word_of_small(1) [unfolded One_nat_def])
  then show ?thesis by simp
qed


section \<open>Where errors are lost\<close>

text \<open>A row that cannot be filled is forgotten when the next one can.\<close>

lemma row_error_lost:
  assumes "L_AppendNewRow k tbl s = (Ok r1, s1)" "gorfc_fillStructure k n td r1 x s1 = (Ok (Some e), s2)"
    "L_AppendNewRow k tbl s2 = (Ok r2, s3)" "gorfc_fillStructure k n td r2 y s3 = (Ok None, s4)"
  shows "gorfc_fill_rows k n td tbl [x, y] None s = (Ok None, s4)"
  using assms by (simp add: or_fail_def bindA_def sdk_call_def)

text \<open>And so is a field.\<close>

lemma field_error_lost:
  assumes "gorfc_fillStructureField k n td sub ''A'' x s = (Ok (Some e), s1)"
    "gorfc_fillStructureField k n td sub ''B'' y s1 = (Ok None, s2)"
  shows "gorfc_fillStructure k n td sub (VMap TString TIface (Some [(VString ''A'', x), (VString ''B'', y)])) s = (Ok None, s2)"
  using assms by (simp add: gorfc_fillStructure.simps bindA_def reflect_String_def)

text \<open>A number for a character field is sent as the name of its type.\<close>

lemma number_as_text:
  "gorfc_fillScalar k TypeChar h c (VInt KInt 5) =
   set_text k c TypeChar (''<'' @ l_typeString k (TInt KInt) @ '' Value>'') (\<lambda>u. L_SetChars k h c (ustr u))"
  by (simp add: gorfc_fillScalar_def reflect_String_def)

text \<open>A decimal that cannot be read, for any reason but a small buffer, is what the buffer holds.\<close>

lemma decimal_error_ignored:
  assumes "L_GetString k h c (2 * len + 2) s = ((i, buf, m), s')" "ci_code i \<notin> {0, 23}"
    "gorfc_wrapString k buf strip = (x, None)"
  shows "gorfc_wrapScalar k TypeBCD h c len strip s = (Ok (VString x, None), s')"
  using assms by (simp add: gorfc_wrapScalar_def wrap_decimal_def get_string_def bindA_def str_result_def)

text \<open>A date whose bytes cannot be converted panics.\<close>

lemma date_conversion_panics:
  assumes "L_GetDate k h c s = (Ok buf, s')" "nWrapString k buf 8 False = ([], Some e)"
  shows "\<exists>m. gorfc_wrapScalar k TypeDate h c len strip s = (Err (Panic m), s')"
  using assms by (simp add: gorfc_wrapScalar_def gorfc_wrap_date_def or_err_Inr index_panic_def)

text \<open>Opening a connection that is alive forgets the handle it had; failing to do so leaves it alive
  with the handle of the failure.\<close>

lemma open_twice_leaks:
  assumes "connection_laws k conns" "owns conns others cs" "gc_alive (fst cs)" "gorfc_Open k cs = (Ok None, cs')"
  shows "gc_handle (fst cs) \<in> conns (snd cs')" "gc_handle (fst cs') \<noteq> gc_handle (fst cs)"
proof -
  obtain h i s' where o: "L_OpenConnection k (gc_connParams (fst cs)) (snd cs) = ((h, i), s')" by (metis surj_pair)
  have c: "ci_code i = 0" "cs' = ((fst cs)\<lparr>gc_handle := h, gc_alive := True\<rparr>, s')"
    using assms(4) o by (auto simp: gorfc_Open_def self_def on_sdk_def mutate_def bindA_def split: if_splits)
  then show "gc_handle (fst cs) \<in> conns (snd cs')" "gc_handle (fst cs') \<noteq> gc_handle (fst cs)"
    using assms(2,3) connection_law_parts(10) [OF assms(1) o] by (auto simp: owns_def)
qed

lemma failed_open_stays_alive:
  assumes "gc_alive (fst cs)" "gorfc_Open k cs = (Ok (Some e), cs')"
  shows "gc_alive (fst cs')"
  using assms by (auto simp: gorfc_Open_def self_def on_sdk_def mutate_def bindA_def split: if_splits prod.splits)

end
