(* ===== verification/Idoc.thy ===== *)
theory Idoc
  imports Go_Strings
begin

text \<open>
  The package \<open>nwrfcidoc\<close> (nwrfcidoc/idoc.go): control record and segments of an IDoc as
  fixed-width lines. The writer is the closure \<open>field\<close> (cut or pad to a width), the reader the
  closure \<open>read\<close> with the position \<open>cur\<close> it captures passed and returned.

  The lemmas say what the reader sees behind what the writer wrote, one field at a time; the
  properties are the two round trips, the layout of the lines and what is lost.
\<close>

section \<open>Records\<close>

record partner_info =
  Port :: go_string
  Partyp :: go_string
  Parnum :: go_string
  Partyp2 :: go_string
  Parvw :: go_string
  Sndprn :: go_string
  Sndprt :: go_string
  Sndpfc :: go_string

record control_record =
  Tabnam :: go_string
  Mandt :: go_string
  DocNum :: go_string
  DocRel :: go_string
  Status :: go_string
  DocType :: go_string
  IdocType :: go_string
  MesType :: go_string
  MesCode :: go_string
  MesFct :: go_string
  Std :: go_string
  StdVrs :: go_string
  StdMes :: go_string
  Sender :: partner_info
  Receiver :: partner_info
  CreDate :: go_string
  CreTime :: go_string

text \<open>A Go structure that contains a slice of itself is a datatype.\<close>

datatype segment = Segment
  (seg_Segnum: go_string) (seg_Mandt: go_string) (seg_DocNum: go_string) (seg_Segnam: go_string)
  (Sdata: go_string) (Children: "segment list")

record idoc =
  Control :: control_record
  Segments :: "segment list"

section \<open>Writing\<close>

definition orDefault :: "go_string \<Rightarrow> go_string \<Rightarrow> go_string" where
  "orDefault v def = (if v = [] then def else v)"

abbreviation blank :: char where "blank \<equiv> CHR '' ''"

definition field :: "go_string \<times> nat \<Rightarrow> go_string" where
  "field = (\<lambda>(s, n). if n \<le> length s then take n s else s @ replicate (n - length s) blank)"

text \<open>The calls of \<open>field\<close> in \<open>encodeControl\<close>, in their order.\<close>

definition control_fields :: "control_record \<Rightarrow> (go_string \<times> nat) list" where
  "control_fields c =
    [(orDefault (Tabnam c) ''EDI_DC40'', 10), (Mandt c, 3), (DocNum c, 16), (DocRel c, 4),
     (Status c, 2), (DocType c, 30), (IdocType c, 30), (MesType c, 30), (MesCode c, 3),
     (MesFct c, 3), (Std c, 1), (StdVrs c, 6), (StdMes c, 6),
     (Port (Sender c), 10), (Partyp (Sender c), 2), (Parnum (Sender c), 10), (Parvw (Sender c), 2),
     (Port (Receiver c), 10), (Partyp (Receiver c), 2), (Parnum (Receiver c), 10),
     (Parvw (Receiver c), 2), (CreDate c, 8), (CreTime c, 6)]"

definition encodeControl :: "control_record \<Rightarrow> go_string" where
  "encodeControl c = concat (map field (control_fields c))"

definition encodeSegment :: "go_string \<Rightarrow> segment \<Rightarrow> go_string" where
  "encodeSegment docNum s =
     (let segnum = (if seg_Segnum s = [] then ''000001'' else seg_Segnum s)
      in concat (map field [(seg_Segnam s, 30), (seg_Mandt s, 3), (docNum, 16), (segnum, 6), ([], 14)]) @
         (if 1000 < length (Sdata s) then take 1000 (Sdata s)
          else Sdata s @ replicate (1000 - length (Sdata s)) blank))"

definition Encode_idoc :: "idoc \<Rightarrow> go_string \<times> go_string list" where
  "Encode_idoc d =
     (encodeControl (Control d),
      concat (map (\<lambda>s. encodeSegment (DocNum (Control d)) s #
                       map (encodeSegment (DocNum (Control d))) (Children s)) (Segments d)))"

section \<open>Reading\<close>

abbreviation trim_blanks :: "go_string \<Rightarrow> go_string" where
  "trim_blanks \<equiv> trim_right_bytes {blank}"

text \<open>Near the end of the line the position stays where it is.\<close>

definition read_field :: "go_string \<Rightarrow> nat \<Rightarrow> nat \<Rightarrow> go_string \<times> nat" where
  "read_field s n cur =
     (if length s < cur + n then (trim_blanks (drop cur s), cur)
      else (trim_blanks (take n (drop cur s)), cur + n))"

text \<open>Consecutive calls of \<open>read\<close>, with the values in order and the final position.\<close>

fun read_fields :: "go_string \<Rightarrow> nat list \<Rightarrow> nat \<Rightarrow> go_string list \<times> nat" where
  "read_fields s [] cur = ([], cur)"
| "read_fields s (n # ns) cur =
     (let (v, cur1) = read_field s n cur; (vs, cur2) = read_fields s ns cur1 in (v # vs, cur2))"

abbreviation partner :: "go_string \<Rightarrow> go_string \<Rightarrow> go_string \<Rightarrow> go_string \<Rightarrow> partner_info" where
  "partner port typ num role \<equiv>
     \<lparr>Port = port, Partyp = typ, Parnum = num, Partyp2 = [], Parvw = role, Sndprn = [], Sndprt = [], Sndpfc = []\<rparr>"

definition decodeControl :: "go_string \<Rightarrow> control_record" where
  "decodeControl s =
     (let v = fst (read_fields s [10, 3, 16, 4, 2, 30, 30, 30, 3, 3, 1, 6, 6, 10, 2, 10, 2, 10, 2, 10, 2, 8, 6] 0)
      in \<lparr>Tabnam = v ! 0, Mandt = v ! 1, DocNum = v ! 2, DocRel = v ! 3, Status = v ! 4,
          DocType = v ! 5, IdocType = v ! 6, MesType = v ! 7, MesCode = v ! 8, MesFct = v ! 9,
          Std = v ! 10, StdVrs = v ! 11, StdMes = v ! 12,
          Sender = partner (v ! 13) (v ! 14) (v ! 15) (v ! 16),
          Receiver = partner (v ! 17) (v ! 18) (v ! 19) (v ! 20),
          CreDate = v ! 21, CreTime = v ! 22\<rparr>)"

definition decodeSegment :: "go_string \<Rightarrow> segment" where
  "decodeSegment s =
     (let (v, cur) = read_fields s [30, 3, 16, 6] 0; cur = cur + 14
      in Segment (v ! 3) (v ! 1) (v ! 2) (v ! 0) (if cur < length s then trim_blanks (drop cur s) else []) [])"

datatype idoc_error = ControlTooShort nat

definition Decode_idoc :: "go_string \<Rightarrow> go_string list \<Rightarrow> (idoc_error, idoc) result" where
  "Decode_idoc control segs =
     (if length control < 100 then Err (ControlTooShort (length control))
      else Ok \<lparr>Control = decodeControl control, Segments = map decodeSegment segs\<rparr>)"

text \<open>\<open>None\<close> is the panic.\<close>

definition MustAtoi :: "go_string \<Rightarrow> int option" where
  "MustAtoi s = atoi (trim_space s)"

section \<open>One field\<close>

lemma length_field [simp]: "length (field (s, n)) = n"
  by (simp add: field_def)

lemma trim_field [simp]: "trim_blanks (field (s, n)) = trim_blanks (take n s)"
  by (simp add: field_def)

lemma trim_blanks_split: "\<exists>k. s = trim_blanks s @ replicate k blank"
proof -
  have "rev (takeWhile (\<lambda>c. c \<in> {blank}) (rev s)) = replicate (length (takeWhile (\<lambda>c. c \<in> {blank}) (rev s))) blank"
    by (intro replicate_eqI) (auto dest: set_takeWhileD)
  then show ?thesis unfolding trim_right_bytes_def
    by (metis rev_append rev_rev_ident takeWhile_dropWhile_id)
qed

lemma length_trim_blanks: "length (trim_blanks s) \<le> length s"
  by (metis length_append le_add1 trim_blanks_split)

lemma field_pad: "field (trim_blanks (take n s), n) = field (s, n)"
proof -
  obtain k where k: "take n s = trim_blanks (take n s) @ replicate k blank"
    using trim_blanks_split by blast
  have l: "length (trim_blanks (take n s)) + k = min (length s) n"
    using arg_cong [OF k, of length] by simp
  show ?thesis
  proof (cases "length s < n")
    case True
    have "s = trim_blanks s @ replicate k blank" using k True by simp
    then have "s @ replicate (n - length s) blank = trim_blanks s @ replicate (k + (n - length s)) blank"
      by (metis append.assoc replicate_add)
    then show ?thesis using True l by (auto simp: field_def)
  next
    case False
    then have "n - length (trim_blanks (take n s)) = k" using l by simp
    then show ?thesis using False k l by (auto simp: field_def)
  qed
qed

text \<open>Reading \<open>n\<close> bytes and writing them again gives the bytes back.\<close>

lemma field_of_read: "length s = n \<Longrightarrow> field (trim_blanks s, n) = s"
  using field_pad [of n s] by (simp add: field_def)

lemma trim_blanks_idem_take: "trim_blanks (take n (trim_blanks (take n s))) = trim_blanks (take n s)"
  using length_trim_blanks [of "take n s"] by simp

section \<open>Lines\<close>

lemma fst_read_fields:
  "cur + n \<le> length s \<Longrightarrow>
     fst (read_fields s (n # ns) cur) = trim_blanks (take n (drop cur s)) # fst (read_fields s ns (cur + n))"
  "length s < cur + n \<Longrightarrow>
     fst (read_fields s (n # ns) cur) = trim_blanks (drop cur s) # fst (read_fields s ns cur)"
  by (simp_all add: read_field_def split_beta)

lemma read_fields_written:
  "read_fields (pre @ concat (map field fs) @ post) (map snd fs) (length pre) =
     (map (\<lambda>(s, n). trim_blanks (take n s)) fs, length pre + sum_list (map snd fs))"
proof (induction fs arbitrary: pre)
  case (Cons f fs)
  obtain s n where f: "f = (s, n)" by (cases f)
  have "read_field (pre @ concat (map field (f # fs)) @ post) n (length pre) = (trim_blanks (take n s), length pre + n)"
    by (simp add: read_field_def f)
  moreover have "read_fields (pre @ concat (map field (f # fs)) @ post) (map snd fs) (length pre + n) =
      (map (\<lambda>(s, n). trim_blanks (take n s)) fs, length pre + n + sum_list (map snd fs))"
    using Cons.IH [of "pre @ field (s, n)"] by (simp add: f)
  ultimately show ?case by (simp add: f)
qed simp

text \<open>Cutting a line into widths and joining what was read, each piece padded, restores it.\<close>

lemma read_fields_exact:
  "cur + sum_list ns \<le> length s \<Longrightarrow>
     length (fst (read_fields s ns cur)) = length ns \<and> snd (read_fields s ns cur) = cur + sum_list ns \<and>
     concat (map field (zip (fst (read_fields s ns cur)) ns)) = take (sum_list ns) (drop cur s)"
proof (induction ns arbitrary: cur)
  case (Cons n ns)
  have r: "read_field s n cur = (trim_blanks (take n (drop cur s)), cur + n)"
    using Cons.prems by (simp add: read_field_def)
  have f: "field (trim_blanks (take n (drop cur s)), n) = take n (drop cur s)"
    using Cons.prems by (intro field_of_read) simp
  have "take n (drop cur s) @ take (sum_list ns) (drop (cur + n) s) = take (n + sum_list ns) (drop cur s)"
    by (simp add: take_add add.commute)
  then show ?case using Cons.IH [of "cur + n"] Cons.prems
    by (simp add: r f split_beta ac_simps)
qed simp

section \<open>What arrives\<close>

text \<open>The specification of a transfer: every field cut to its width and without trailing blanks, the
  defaults filled in, one level of children behind their parents, all with the number of the
  control record.\<close>

abbreviation norm :: "nat \<Rightarrow> go_string \<Rightarrow> go_string" where
  "norm n s \<equiv> trim_blanks (take n s)"

definition received_partner :: "partner_info \<Rightarrow> partner_info" where
  "received_partner p = partner (norm 10 (Port p)) (norm 2 (Partyp p)) (norm 10 (Parnum p)) (norm 2 (Parvw p))"

definition received_control :: "control_record \<Rightarrow> control_record" where
  "received_control c =
     \<lparr>Tabnam = norm 10 (orDefault (Tabnam c) ''EDI_DC40''), Mandt = norm 3 (Mandt c),
      DocNum = norm 16 (DocNum c), DocRel = norm 4 (DocRel c), Status = norm 2 (Status c),
      DocType = norm 30 (DocType c), IdocType = norm 30 (IdocType c), MesType = norm 30 (MesType c),
      MesCode = norm 3 (MesCode c), MesFct = norm 3 (MesFct c), Std = norm 1 (Std c),
      StdVrs = norm 6 (StdVrs c), StdMes = norm 6 (StdMes c),
      Sender = received_partner (Sender c), Receiver = received_partner (Receiver c),
      CreDate = norm 8 (CreDate c), CreTime = norm 6 (CreTime c)\<rparr>"

definition received_segment :: "go_string \<Rightarrow> segment \<Rightarrow> segment" where
  "received_segment docNum s =
     Segment (norm 6 (orDefault (seg_Segnum s) ''000001'')) (norm 3 (seg_Mandt s)) (norm 16 docNum)
       (norm 30 (seg_Segnam s)) (norm 1000 (Sdata s)) []"

definition flattened :: "segment list \<Rightarrow> segment list" where
  "flattened ss = concat (map (\<lambda>s. s # Children s) ss)"

definition received :: "idoc \<Rightarrow> idoc" where
  "received d =
     \<lparr>Control = received_control (Control d),
      Segments = map (received_segment (DocNum (Control d))) (flattened (Segments d))\<rparr>"

definition fits :: "nat \<Rightarrow> go_string \<Rightarrow> bool" where
  "fits n s \<longleftrightarrow> length s \<le> n \<and> (s = [] \<or> last s \<noteq> blank)"

definition fits_partner :: "partner_info \<Rightarrow> bool" where
  "fits_partner p \<longleftrightarrow> Partyp2 p = [] \<and> Sndprn p = [] \<and> Sndprt p = [] \<and> Sndpfc p = []"

definition fits_control :: "control_record \<Rightarrow> bool" where
  "fits_control c \<longleftrightarrow> Tabnam c \<noteq> [] \<and> list_all (\<lambda>(s, n). fits n s) (control_fields c) \<and>
     fits_partner (Sender c) \<and> fits_partner (Receiver c)"

definition fits_segment :: "go_string \<Rightarrow> segment \<Rightarrow> bool" where
  "fits_segment docNum s \<longleftrightarrow> Children s = [] \<and> seg_DocNum s = docNum \<and> seg_Segnum s \<noteq> [] \<and>
     fits 6 (seg_Segnum s) \<and> fits 3 (seg_Mandt s) \<and> fits 30 (seg_Segnam s) \<and> fits 1000 (Sdata s)"

definition fits_idoc :: "idoc \<Rightarrow> bool" where
  "fits_idoc d \<longleftrightarrow> fits_control (Control d) \<and> list_all (fits_segment (DocNum (Control d))) (Segments d)"

lemma last_trim_blanks: "trim_blanks s \<noteq> [] \<Longrightarrow> last (trim_blanks s) \<noteq> blank"
  using hd_dropWhile [of "\<lambda>c. c \<in> {blank}" "rev s"] by (auto simp: trim_right_bytes_def last_rev)

lemma norm_fits: "norm n s = s \<longleftrightarrow> fits n s"
proof
  assume e: "norm n s = s"
  have "length s \<le> n" using length_trim_blanks [of "take n s"] e by simp
  then show "fits n s" using e last_trim_blanks [of s] by (cases "s = []") (auto simp: fits_def)
next
  assume "fits n s"
  then show "norm n s = s" by (auto simp: fits_def intro: trim_right_bytes_id)
qed

lemma default_fits:
  assumes "fits n d" "d \<noteq> []"
  shows "norm n (orDefault s d) = s \<longleftrightarrow> s \<noteq> [] \<and> fits n s"
  using assms norm_fits [of n s] norm_fits [of n d] by (auto simp: orDefault_def)

lemma control_fields_widths:
  "map snd (control_fields c) = [10, 3, 16, 4, 2, 30, 30, 30, 3, 3, 1, 6, 6, 10, 2, 10, 2, 10, 2, 10, 2, 8, 6]"
  by (simp add: control_fields_def)

lemma decode_encode_control: "decodeControl (encodeControl c) = received_control c"
proof -
  have "fst (read_fields (encodeControl c) (map snd (control_fields c)) 0) =
      map (\<lambda>(s, n). norm n s) (control_fields c)"
    using read_fields_written [of "[]" "control_fields c" "[]"] by (simp add: encodeControl_def)
  then show ?thesis
    by (simp add: decodeControl_def control_fields_widths) (simp add: control_fields_def received_control_def received_partner_def)
qed

lemma segment_payload:
  "(if 1000 < length v then take 1000 v else v @ replicate (1000 - length v) blank) = field (v, 1000)"
  by (simp add: field_def)

definition segment_fields :: "go_string \<Rightarrow> segment \<Rightarrow> (go_string \<times> nat) list" where
  "segment_fields docNum s =
     [(seg_Segnam s, 30), (seg_Mandt s, 3), (docNum, 16), (orDefault (seg_Segnum s) ''000001'', 6)]"

lemma encodeSegment_fields:
  "encodeSegment docNum s = concat (map field (segment_fields docNum s)) @ replicate 14 blank @ field (Sdata s, 1000)"
  unfolding encodeSegment_def segment_payload by (simp add: segment_fields_def orDefault_def) (simp add: field_def)

lemma encodeSegment_childless:
  "encodeSegment docNum (Segment (seg_Segnum s) (seg_Mandt s) n (seg_Segnam s) (Sdata s) cs) = encodeSegment docNum s"
  by (simp add: encodeSegment_fields segment_fields_def)

lemma decode_encode_segment: "decodeSegment (encodeSegment docNum s) = received_segment docNum s"
proof -
  have "read_fields (encodeSegment docNum s) (map snd (segment_fields docNum s)) 0 =
      (map (\<lambda>(s, n). norm n s) (segment_fields docNum s), 55)"
    using read_fields_written [of "[]" "segment_fields docNum s" "replicate 14 blank @ field (Sdata s, 1000)"]
    by (simp add: encodeSegment_fields segment_fields_def)
  moreover have "drop 69 (encodeSegment docNum s) = field (Sdata s, 1000)"
    by (simp add: encodeSegment_fields segment_fields_def)
  moreover have "length (encodeSegment docNum s) = 1069"
    by (simp add: encodeSegment_fields segment_fields_def)
  ultimately show ?thesis
    by (simp add: decodeSegment_def segment_fields_def received_segment_def)
qed

lemma Encode_flattened:
  "Encode_idoc d = (encodeControl (Control d), map (encodeSegment (DocNum (Control d))) (flattened (Segments d)))"
  by (simp add: Encode_idoc_def flattened_def map_concat o_def)

lemma length_encodeControl: "length (encodeControl c) = 206"
  by (simp add: encodeControl_def control_fields_def)

lemma decode_encode_received: "Decode_idoc (fst (Encode_idoc d)) (snd (Encode_idoc d)) = Ok (received d)"
  by (simp add: Decode_idoc_def Encode_flattened length_encodeControl received_def decode_encode_control
      decode_encode_segment o_def)

lemma received_partner_fits:
  "received_partner p = p \<longleftrightarrow>
     fits 10 (Port p) \<and> fits 2 (Partyp p) \<and> fits 10 (Parnum p) \<and> fits 2 (Parvw p) \<and> fits_partner p"
  by (cases p) (auto simp: received_partner_def norm_fits fits_partner_def)

lemma default_Tabnam: "norm 10 (orDefault s ''EDI_DC40'') = s \<longleftrightarrow> s \<noteq> [] \<and> fits 10 s"
  by (rule default_fits) (simp_all add: fits_def)

lemma default_Segnum: "norm 6 (orDefault s ''000001'') = s \<longleftrightarrow> s \<noteq> [] \<and> fits 6 s"
  by (rule default_fits) (simp_all add: fits_def)

lemma received_control_fits: "received_control c = c \<longleftrightarrow> fits_control c"
proof -
  have "received_control c = c \<longleftrightarrow> Tabnam c \<noteq> [] \<and> list_all (\<lambda>(s, n). fits n s)
      ((Tabnam c, 10) # tl (control_fields c)) \<and> fits_partner (Sender c) \<and> fits_partner (Receiver c)"
    by (cases c) (simp add: received_control_def norm_fits default_Tabnam received_partner_fits control_fields_def; argo)
  then show ?thesis by (auto simp: fits_control_def control_fields_def orDefault_def)
qed

lemma received_segment_fits:
  assumes "fits 16 docNum"
  shows "received_segment docNum s = s \<longleftrightarrow> fits_segment docNum s"
proof -
  have n: "norm 16 docNum = docNum" using assms norm_fits by blast
  have "received_segment docNum s = s \<longleftrightarrow>
      seg_Segnum s \<noteq> [] \<and> fits 6 (seg_Segnum s) \<and> fits 3 (seg_Mandt s) \<and> docNum = seg_DocNum s \<and>
      fits 30 (seg_Segnam s) \<and> fits 1000 (Sdata s) \<and> Children s = []"
    by (cases s) (simp add: received_segment_def n norm_fits default_Segnum eq_commute [of "[]"] cong: conj_cong)
  then show ?thesis unfolding fits_segment_def by blast
qed

lemma flattened_simps [simp]: "flattened [] = []" "flattened (s # ss) = s # Children s @ flattened ss"
  by (simp_all add: flattened_def)

lemma flattened_flat: "length (flattened ss) = length ss \<longleftrightarrow> list_all (\<lambda>s. Children s = []) ss"
proof -
  have longer: "length ss \<le> length (flattened ss)" for ss
    by (induction ss) auto
  show ?thesis
  proof (induction ss)
    case (Cons a ss)
    then show ?case using longer [of ss] by (cases "Children a") auto
  qed simp
qed

lemma flattened_same: "list_all (\<lambda>s. Children s = []) ss \<Longrightarrow> flattened ss = ss"
  by (induction ss) auto

lemma received_fits: "received d = d \<longleftrightarrow> fits_idoc d"
proof (cases "fits_control (Control d)")
  case True
  have n: "fits 16 (DocNum (Control d))" using True by (simp add: fits_control_def control_fields_def)
  have "map (received_segment (DocNum (Control d))) (flattened (Segments d)) = Segments d \<longleftrightarrow>
      list_all (fits_segment (DocNum (Control d))) (Segments d)" (is "?e \<longleftrightarrow> ?f")
  proof
    assume e: ?e
    have "list_all (\<lambda>s. Children s = []) (Segments d)"
      using arg_cong [OF e, of length] by (intro iffD1 [OF flattened_flat]) simp
    then have "map (received_segment (DocNum (Control d))) (Segments d) = Segments d"
      using e flattened_same by simp
    then have "\<forall>s\<in>set (Segments d). received_segment (DocNum (Control d)) s = s"
      using map_eq_conv [of "received_segment (DocNum (Control d))" _ "\<lambda>s. s"] by simp
    then show ?f using received_segment_fits [OF n] by (simp add: list_all_iff)
  next
    assume f: ?f
    then have "flattened (Segments d) = Segments d"
      by (intro flattened_same) (auto simp: list_all_iff fits_segment_def)
    then show ?e using f received_segment_fits [OF n] by (auto simp: list_all_iff intro: map_idI)
  qed
  then show ?thesis using True received_control_fits by (cases d) (auto simp: received_def fits_idoc_def)
next
  case False
  then show ?thesis using received_control_fits by (cases d) (auto simp: received_def fits_idoc_def)
qed

section \<open>Lines that are documents\<close>

lemma zip_upt: "length xs = length ys \<Longrightarrow> zip xs ys = map (\<lambda>i. (xs ! i, ys ! i)) [0..<length ys]"
  by (rule nth_equalityI) simp_all

lemma encode_decode_control:
  assumes l: "length w = 206" and t: "trim_blanks (take 10 w) \<noteq> []"
  shows "encodeControl (decodeControl w) = w"
proof -
  define ns :: "nat list" where "ns = [10, 3, 16, 4, 2, 30, 30, 30, 3, 3, 1, 6, 6, 10, 2, 10, 2, 10, 2, 10, 2, 8, 6]"
  define v where "v = fst (read_fields w ns 0)"
  have e: "length v = length ns" "concat (map field (zip v ns)) = w"
    using read_fields_exact [of 0 ns w] l by (simp_all add: v_def ns_def)
  have "v ! 0 = trim_blanks (take 10 w)"
    using l by (simp add: v_def ns_def fst_read_fields(1) del: read_fields.simps)
  then have "orDefault (v ! 0) ''EDI_DC40'' = v ! 0" using t by (simp add: orDefault_def)
  moreover have "decodeControl w = (let v = v in
      \<lparr>Tabnam = v ! 0, Mandt = v ! 1, DocNum = v ! 2, DocRel = v ! 3, Status = v ! 4,
       DocType = v ! 5, IdocType = v ! 6, MesType = v ! 7, MesCode = v ! 8, MesFct = v ! 9,
       Std = v ! 10, StdVrs = v ! 11, StdMes = v ! 12, Sender = partner (v ! 13) (v ! 14) (v ! 15) (v ! 16),
       Receiver = partner (v ! 17) (v ! 18) (v ! 19) (v ! 20), CreDate = v ! 21, CreTime = v ! 22\<rparr>)"
    by (simp only: decodeControl_def v_def ns_def)
  moreover have "zip v ns = map (\<lambda>i. (v ! i, ns ! i))
      [0, 1, 2, 3, 4, 5, 6, 7, 8, 9, 10, 11, 12, 13, 14, 15, 16, 17, 18, 19, 20, 21, 22]"
  proof -
    have "[0..<length ns] =
        [0, 1, 2, 3, 4, 5, 6, 7, 8, 9, 10, 11, 12, 13, 14, 15, 16, 17, 18, 19, 20, 21, 22]" unfolding ns_def by code_simp
    then show ?thesis using zip_upt [OF e(1)] by metis
  qed
  ultimately have "control_fields (decodeControl w) = zip v ns"
    by (simp add: control_fields_def ns_def)
  then show ?thesis using e(2) by (simp add: encodeControl_def)
qed

definition segment_line :: "go_string \<Rightarrow> go_string \<Rightarrow> bool" where
  "segment_line docNum s \<longleftrightarrow> length s = 1069 \<and> take 16 (drop 33 s) = field (docNum, 16) \<and>
     trim_blanks (take 6 (drop 49 s)) \<noteq> [] \<and> take 14 (drop 55 s) = replicate 14 blank"

lemma line_parts:
  assumes "length s = (1069 :: nat)"
  shows "s = take 30 s @ take 3 (drop 30 s) @ take 16 (drop 33 s) @ take 6 (drop 49 s) @ take 14 (drop 55 s) @ drop 69 s"
proof -
  have "take n (drop k s) @ drop (k + n) s = drop k s" for k n
    by (metis add.commute append_take_drop_id drop_drop)
  from this [of 30 0] this [of 3 30] this [of 16 33] this [of 6 49] this [of 14 55] show ?thesis by simp
qed

lemma encode_decode_segment:
  assumes "segment_line docNum s"
  shows "encodeSegment docNum (decodeSegment s) = s"
proof -
  have l: "length s = 1069" and d: "take 16 (drop 33 s) = field (docNum, 16)"
    and n: "trim_blanks (take 6 (drop 49 s)) \<noteq> []" and r: "take 14 (drop 55 s) = replicate 14 blank"
    using assms by (simp_all add: segment_line_def)
  have "decodeSegment s = Segment (trim_blanks (take 6 (drop 49 s))) (trim_blanks (take 3 (drop 30 s)))
      (trim_blanks (take 16 (drop 33 s))) (trim_blanks (take 30 s)) (trim_blanks (drop 69 s)) []"
    using l by (simp add: decodeSegment_def read_field_def split_beta)
  then have "encodeSegment docNum (decodeSegment s) =
      take 30 s @ take 3 (drop 30 s) @ take 16 (drop 33 s) @ take 6 (drop 49 s) @ take 14 (drop 55 s) @ drop 69 s"
    using l n by (simp add: encodeSegment_fields segment_fields_def orDefault_def field_of_read d r)
  then show ?thesis using line_parts [OF l] by simp
qed

section \<open>Properties\<close>

text \<open>C30: Decoding what Encode wrote always succeeds. It returns the document itself exactly when every
  field fits its width and has no trailing blank, the two defaulted fields are set, no segment has
  children, every segment carries the number of the control record, and the partner fields without a
  column are empty.\<close>

theorem idoc_Decode_Encode:
  "is_ok (Decode_idoc (fst (Encode_idoc d)) (snd (Encode_idoc d))) \<and>
   (Decode_idoc (fst (Encode_idoc d)) (snd (Encode_idoc d)) = Ok d \<longleftrightarrow> fits_idoc d)"
  by (simp add: decode_encode_received received_fits)

text \<open>Encoding what Decode read gives back the same control record and the same segment lines, for
  a control record of 206 bytes whose table name is not blank and segment lines of 1069 bytes that carry
  its number, a row number and blanks in the reserved columns.\<close>

theorem idoc_Encode_Decode:
  assumes "length w = 206" "trim_blanks (take 10 w) \<noteq> []"
    and "list_all (segment_line (DocNum (decodeControl w))) ws"
  shows "\<exists>d. Decode_idoc w ws = Ok d \<and> Encode_idoc d = (w, ws)"
proof -
  have "flattened (map decodeSegment ws) = map decodeSegment ws"
    by (rule flattened_same) (auto simp: list_all_iff decodeSegment_def split_beta Let_def)
  moreover have "map (encodeSegment (DocNum (decodeControl w)) \<circ> decodeSegment) ws = ws"
    using assms(3) by (auto simp: list_all_iff encode_decode_segment intro: map_idI)
  ultimately show ?thesis using assms(1,2)
    by (simp add: Decode_idoc_def Encode_flattened encode_decode_control)
qed

theorem idoc_Encode_Decode_witness:
  "\<exists>d. Decode_idoc (encodeControl \<lparr>Tabnam = ''EDI_DC40'', Mandt = ''100'', DocNum = ''1'', DocRel = [], Status = [],
      DocType = [], IdocType = [], MesType = [], MesCode = [], MesFct = [], Std = [], StdVrs = [], StdMes = [],
      Sender = partner [] [] [] [], Receiver = partner [] [] [] [], CreDate = [], CreTime = []\<rparr>)
      [encodeSegment ''1'' (Segment ''000001'' ''100'' [] ''E1MARAM'' ''x'' [])] = Ok d \<and>
     length (Segments d) = 1" (is "\<exists>d. Decode_idoc (encodeControl ?c) [encodeSegment ?n ?s] = _ \<and> _")
proof -
  let ?w = "encodeControl ?c"
  have t: "take 10 ?w = ''EDI_DC40  ''"
    by (simp add: encodeControl_def control_fields_def field_def orDefault_def numeral_2_eq_2)
  have n: "DocNum (decodeControl ?w) = ''1''"
    by (simp add: decode_encode_control received_control_def trim_right_bytes_def)
  have s: "segment_line ''1'' (encodeSegment ?n ?s)"
    unfolding segment_line_def encodeSegment_fields segment_fields_def
    by (simp add: field_def orDefault_def trim_right_bytes_def)
  obtain d where d: "Decode_idoc ?w [encodeSegment ?n ?s] = Ok d" "Encode_idoc d = (?w, [encodeSegment ?n ?s])"
    using idoc_Encode_Decode [of ?w "[encodeSegment ?n ?s]"] t n s
    by (auto simp: length_encodeControl trim_right_bytes_def)
  then have "length (Segments d) = 1" by (auto simp: Decode_idoc_def split: if_splits)
  then show ?thesis using d by blast
qed

text \<open>C31: Encode writes a control record of 206 bytes and segment lines of 1069 bytes with the payload
  at byte 69, and what it writes does not depend on the children of children.\<close>

theorem idoc_layout:
  "length (fst (Encode_idoc d)) = 206 \<and>
   set (map length (snd (Encode_idoc d))) \<subseteq> {1069} \<and>
   map (\<lambda>l. trim_blanks (drop 69 l)) (snd (Encode_idoc d)) = map (\<lambda>s. norm 1000 (Sdata s)) (flattened (Segments d)) \<and>
   Encode_idoc (d\<lparr>Segments := map (\<lambda>s. Segment (seg_Segnum s) (seg_Mandt s) (seg_DocNum s) (seg_Segnam s) (Sdata s)
      (map (\<lambda>c. Segment (seg_Segnum c) (seg_Mandt c) (seg_DocNum c) (seg_Segnam c) (Sdata c) []) (Children s)))
      (Segments d)\<rparr>) = Encode_idoc d"
proof (intro conjI)
  show "length (fst (Encode_idoc d)) = 206" by (simp add: Encode_flattened length_encodeControl)
  show "set (map length (snd (Encode_idoc d))) \<subseteq> {1069}"
    by (auto simp: Encode_flattened encodeSegment_fields segment_fields_def)
  show "map (\<lambda>l. trim_blanks (drop 69 l)) (snd (Encode_idoc d)) = map (\<lambda>s. norm 1000 (Sdata s)) (flattened (Segments d))"
    by (simp add: Encode_flattened encodeSegment_fields segment_fields_def)
qed (simp add: Encode_idoc_def encodeSegment_childless o_def)

text \<open>Behind the end of a short record the position stays, so the next, narrower fields read the same
  bytes again.\<close>

theorem idoc_short_record:
  "length s = 100 \<Longrightarrow>
     MesType (decodeControl s) = trim_blanks (drop 95 s) \<and> MesCode (decodeControl s) = trim_blanks (take 3 (drop 95 s)) \<and>
     MesFct (decodeControl s) = trim_blanks (drop 98 s) \<and> Std (decodeControl s) = trim_blanks (take 1 (drop 98 s))"
  by (simp add: decodeControl_def fst_read_fields Let_def del: read_fields.simps(2))

lemma MustAtoi_fmt: "MustAtoi (fmt_0d w n) = Some (int n)"
proof -
  have d: "c \<in> set (fmt_0d w n) \<Longrightarrow> byte_of c < (128 :: nat) \<and> \<not> is_space (byte_of c)" for c
    using fmt_0d_digits [of w n] by (auto simp: list_all_iff is_digit_def is_space_def)
  have "trim_space (fmt_0d w n) = fmt_0d w n"
    by (rule trim_space_keep) (simp add: d)
  then show ?thesis by (simp add: MustAtoi_def)
qed

end
