(* ===== verification/Bapi.thy ===== *)
theory Bapi
  imports Session
begin

text \<open>
  The package \<open>nwrfcparam\<close> (nwrfcparam/bapiret2.go): rows of BAPIRET2 read from a response and
  turned into an error. A response is the parameter map of \<open>Go_Values\<close>; the name \<open>%T\<close>
  prints for a value is an argument.

  The lemmas characterise the rows that make a response an error and the errors that come out;
  the last section compares the verdict with the one of \<open>Session\<close>.
\<close>

section \<open>Rows\<close>

record bapi_return =
  br_Type :: go_string
  br_ID :: go_string
  br_Number :: go_string
  br_Message :: go_string
  br_LogNo :: go_string
  br_LogMsgNo :: go_string
  br_MessageV1 :: go_string
  br_MessageV2 :: go_string
  br_MessageV3 :: go_string
  br_MessageV4 :: go_string
  br_Parameter :: go_string
  br_Row :: int
  br_Field :: go_string
  br_System :: go_string

definition IsError :: "bapi_return \<Rightarrow> bool" where
  "IsError r \<longleftrightarrow> br_Type r = ''E'' \<or> br_Type r = ''A'' \<or> br_Type r = ''X''"

definition IsWarning :: "bapi_return \<Rightarrow> bool" where
  "IsWarning r \<longleftrightarrow> br_Type r = ''W''"

definition bapi_LogValue :: "bapi_return \<Rightarrow> 'a slog_val" where
  "bapi_LogValue r = SlogGroup
     ([(''type'', SlogString (br_Type r)), (''id'', SlogString (br_ID r)), (''number'', SlogString (br_Number r))] @
      opt_attr ''field'' (br_Field r) @
      concat (map (\<lambda>(i, v). redacted_attr (''v'' @ show_nat (i + 1)) v)
        (enumerate 0 [br_MessageV1 r, br_MessageV2 r, br_MessageV3 r, br_MessageV4 r])))"

text \<open>\<open>int(x)\<close> of an \<open>int64\<close> or \<open>int32\<close> keeps the number: \<open>int\<close> has 64 bits.\<close>

definition int_at :: "call_params \<Rightarrow> go_string \<Rightarrow> int" where
  "int_at m k = (case map_of m k of
     Some (VInt KInt x) \<Rightarrow> x | Some (VInt KInt64 x) \<Rightarrow> x | Some (VInt KInt32 x) \<Rightarrow> x | _ \<Rightarrow> 0)"

definition unmarshalRow :: "call_params \<Rightarrow> bapi_return" where
  "unmarshalRow m =
     \<lparr>br_Type = string_at m ''TYPE'', br_ID = string_at m ''ID'', br_Number = string_at m ''NUMBER'',
      br_Message = string_at m ''MESSAGE'', br_LogNo = string_at m ''LOG_NO'', br_LogMsgNo = string_at m ''LOG_MSG_NO'',
      br_MessageV1 = string_at m ''MESSAGE_V1'', br_MessageV2 = string_at m ''MESSAGE_V2'',
      br_MessageV3 = string_at m ''MESSAGE_V3'', br_MessageV4 = string_at m ''MESSAGE_V4'',
      br_Parameter = string_at m ''PARAMETER'', br_Row = int_at m ''ROW'', br_Field = string_at m ''FIELD'',
      br_System = string_at m ''SYSTEM''\<rparr>"

text \<open>The three cases of the type switch: one row, a slice of rows, a slice of anything from which the
  rows are taken. A nil slice has no elements.\<close>

abbreviation any_map_type :: gtype where "any_map_type \<equiv> TMap TString TIface"

definition ParseBAPIReturn :: "(gval \<Rightarrow> go_string) \<Rightarrow> gval \<Rightarrow> (goerr, bapi_return list) result" where
  "ParseBAPIReturn tname v =
     (if v = VNil then Ok []
      else case as_any_map v of
        Some m \<Rightarrow> Ok [unmarshalRow m]
      | None \<Rightarrow> (case v of
          VSlice t vs \<Rightarrow>
            (let xs = (case vs of None \<Rightarrow> [] | Some xs \<Rightarrow> xs)
             in if t = any_map_type then Ok (map (\<lambda>x. unmarshalRow (case as_any_map x of Some m \<Rightarrow> m | None \<Rightarrow> [])) xs)
                else if t = TIface then Ok (map unmarshalRow (List.map_filter as_any_map xs))
                else Err (PlainErr (''nwrfcparam: BAPIReturn unsupported shape '' @ tname v)))
        | _ \<Rightarrow> Err (PlainErr (''nwrfcparam: BAPIReturn unsupported shape '' @ tname v))))"

section \<open>Errors\<close>

definition asABAPApplicationError :: "bapi_return \<Rightarrow> goerr" where
  "asABAPApplicationError r = ABAPApplicationErr
     \<lparr>Code = 1, Group = 0, Key = join ''/'' [''BAPI_RETURN'', br_Type r, br_ID r, br_Number r],
      Message = br_Message r, AbapMsgClass = br_ID r, AbapMsgType = br_Type r, AbapMsgNumber = br_Number r,
      AbapMsgV1 = br_MessageV1 r, AbapMsgV2 = br_MessageV2 r, AbapMsgV3 = br_MessageV3 r,
      AbapMsgV4 = br_MessageV4 r\<rparr> []"

definition AsError :: "bapi_return list \<Rightarrow> goerr option" where
  "AsError rows =
     (case map asABAPApplicationError (filter IsError rows) of
        [] \<Rightarrow> None
      | [e] \<Rightarrow> Some e
      | es \<Rightarrow> Some (JoinErr es))"

fun check_keys :: "(gval \<Rightarrow> go_string) \<Rightarrow> call_params \<Rightarrow> go_string list \<Rightarrow> goerr option" where
  "check_keys tname resp [] = None"
| "check_keys tname resp (k # ks) =
     (case map_of resp k of
        None \<Rightarrow> check_keys tname resp ks
      | Some v \<Rightarrow> (case ParseBAPIReturn tname v of
            Err e \<Rightarrow> Some e
          | Ok rows \<Rightarrow> (case AsError rows of Some e \<Rightarrow> Some e | None \<Rightarrow> check_keys tname resp ks)))"

definition CheckRETURN :: "(gval \<Rightarrow> go_string) \<Rightarrow> call_params \<Rightarrow> goerr option" where
  "CheckRETURN tname resp = check_keys tname resp [''RETURN'', ''RET'']"

section \<open>Verdicts\<close>

lemma AsError_None [simp]: "AsError rows = None \<longleftrightarrow> (\<forall>r\<in>set rows. \<not> IsError r)"
proof -
  have "AsError rows = None \<longleftrightarrow> filter IsError rows = []"
    by (auto simp: AsError_def split: list.splits)
  then show ?thesis by (simp add: filter_empty_conv)
qed

text \<open>Each error row can be found in the returned error, and nothing else.\<close>

definition error_leaves :: "goerr \<Rightarrow> goerr list" where
  "error_leaves e = (case e of JoinErr es \<Rightarrow> es | _ \<Rightarrow> [e])"

lemma AsError_leaves: "AsError rows = Some e \<Longrightarrow> error_leaves e = map asABAPApplicationError (filter IsError rows)"
  by (auto simp: AsError_def error_leaves_def asABAPApplicationError_def split: list.splits)

lemma AsError_category:
  "AsError rows = Some e \<Longrightarrow> CategoryOf e = CategoryABAPApp \<and> errors_Is e (SentinelErr CategoryABAPApp)"
  by (auto simp: AsError_def asABAPApplicationError_def first_known_def split: list.splits)

text \<open>The rows a value stands for, where it has a shape the parser knows.\<close>

definition rows_of :: "(gval \<Rightarrow> go_string) \<Rightarrow> gval option \<Rightarrow> (goerr, bapi_return list) result" where
  "rows_of tname v = (case v of None \<Rightarrow> Ok [] | Some x \<Rightarrow> ParseBAPIReturn tname x)"

definition clean :: "(goerr, bapi_return list) result \<Rightarrow> bool" where
  "clean r = (case r of Ok rows \<Rightarrow> list_all (\<lambda>r. \<not> IsError r) rows | Err _ \<Rightarrow> False)"

lemma check_keys_None: "check_keys tname resp ks = None \<longleftrightarrow> list_all (\<lambda>k. clean (rows_of tname (map_of resp k))) ks"
proof (induction ks)
  case (Cons k ks)
  show ?case
  proof (cases "map_of resp k")
    case (Some v)
    show ?thesis
    proof (cases "ParseBAPIReturn tname v")
      case (Inr rows)
      then have "clean (rows_of tname (map_of resp k)) \<longleftrightarrow> AsError rows = None"
        using Some by (simp add: rows_of_def clean_def list_all_iff)
      then show ?thesis using Inr Some Cons by (cases "AsError rows") (simp_all del: AsError_None)
    qed (simp add: Some rows_of_def clean_def)
  qed (simp add: Cons rows_of_def clean_def)
qed simp

lemma CheckRETURN_None:
  "CheckRETURN tname resp = None \<longleftrightarrow>
     clean (rows_of tname (map_of resp ''RETURN'')) \<and> clean (rows_of tname (map_of resp ''RET''))"
  unfolding CheckRETURN_def check_keys_None by simp

section \<open>The two verdicts\<close>

text \<open>A session looks at a structure only, and at two of the three error types.\<close>

lemma session_verdict:
  "bapiReturnAsError resp \<noteq> None \<longleftrightarrow>
     (\<exists>v m. map_of resp ''RETURN'' = Some v \<and> as_any_map v = Some m \<and> string_at m ''TYPE'' \<in> {''A'', ''E''})"
  by (auto simp: bapiReturnAsError_def Let_def split: option.splits)

lemma session_weaker: "bapiReturnAsError resp \<noteq> None \<Longrightarrow> CheckRETURN tname resp \<noteq> None"
proof
  assume "bapiReturnAsError resp \<noteq> None" and c: "CheckRETURN tname resp = None"
  then obtain v m where "map_of resp ''RETURN'' = Some v" "as_any_map v = Some m"
      "string_at m ''TYPE'' \<in> {''A'', ''E''}"
    using session_verdict by blast
  then have "rows_of tname (map_of resp ''RETURN'') = Ok [unmarshalRow m]" "IsError (unmarshalRow m)"
    by (auto simp: rows_of_def ParseBAPIReturn_def IsError_def unmarshalRow_def)
  then show False using c unfolding CheckRETURN_None clean_def by auto
qed

lemmas verdict_eval = bapiReturnAsError_def CheckRETURN_def ParseBAPIReturn_def AsError_def IsError_def
  unmarshalRow_def string_at_def any_map_def string_entries_def

lemma session_misses:
  "bapiReturnAsError [(''RETURN'', any_map [(''TYPE'', VString ''X'')])] = None \<and>
   CheckRETURN tname [(''RETURN'', any_map [(''TYPE'', VString ''X'')])] \<noteq> None"
  "bapiReturnAsError [(''RETURN'', VSlice any_map_type (Some [any_map [(''TYPE'', VString ''E'')]]))] = None \<and>
   CheckRETURN tname [(''RETURN'', VSlice any_map_type (Some [any_map [(''TYPE'', VString ''E'')]]))] \<noteq> None"
  by (simp_all add: verdict_eval)


text \<open>What reaches a log is the identity of the message: two rows that differ in the text and in the
  non-empty variables are logged alike.\<close>

lemma bapi_log_redacts:
  assumes "br_Type r = br_Type s" "br_ID r = br_ID s" "br_Number r = br_Number s" "br_Field r = br_Field s"
    and "br_MessageV1 r = [] \<longleftrightarrow> br_MessageV1 s = []" "br_MessageV2 r = [] \<longleftrightarrow> br_MessageV2 s = []"
    and "br_MessageV3 r = [] \<longleftrightarrow> br_MessageV3 s = []" "br_MessageV4 r = [] \<longleftrightarrow> br_MessageV4 s = []"
  shows "bapi_LogValue r = bapi_LogValue s"
  using assms by (simp add: bapi_LogValue_def redacted_attr_def)

end
