(* ===== verification/Server.thy ===== *)
theory Server
  imports Conn
begin

text \<open>
  The inbound server (nwrfc/server.go, the handler registrations of nwrfc/transactional.go). A
  server holds its configuration, the handlers and the flag \<open>running\<close>; every method runs under its
  mutex, so it is one step. \<open>Start\<close> leaves a goroutine that waits for a derived context and then
  calls the stop function the implementation returned: the world beside the server has the contexts
  that are done, the derived contexts, the goroutines still waiting, and the state of the
  implementation. The implementation installed by \<open>SetServerImpl\<close> is an argument, \<open>None\<close> where
  none is installed.
\<close>

section \<open>State\<close>

record server_config =
  ProgramID :: go_string
  GwHost :: go_string
  GwService :: go_string
  sv_Repository :: params
  SncQOP :: go_string
  SncMyName :: go_string
  SncPartnerName :: go_string
  SncLib :: go_string
  sv_Trace :: go_string
  sv_Extra :: "(go_string \<times> go_string) list"

record 'h server =
  sv_cfg :: server_config
  sv_handlers :: "(go_string \<times> 'h) list"
  sv_running :: bool
  sv_cancel :: "nat option"

text \<open>A derived context is its index; it is done when it was cancelled or its parent is done.\<close>

record 's server_world =
  sw_bs :: 's
  sw_done :: "nat list"
  sw_derived :: "(nat \<times> bool) list"
  sw_waiting :: "(nat \<times> ('s \<Rightarrow> 's)) list"

type_synonym ('h, 's) server_impl =
  "server_config \<Rightarrow> (go_string \<times> 'h) list \<Rightarrow> 's \<Rightarrow> (goerr, 's \<Rightarrow> 's) result \<times> 's"

definition ctx_done :: "'s server_world \<Rightarrow> nat \<Rightarrow> bool" where
  "ctx_done w d \<longleftrightarrow> snd (sw_derived w ! d) \<or> fst (sw_derived w ! d) \<in> set (sw_done w)"

section \<open>Operations\<close>

definition NewServer :: "server_config \<Rightarrow> ('h server \<Rightarrow> 'h server) list \<Rightarrow> (goerr, 'h server) result" where
  "NewServer cfg opts =
     (if ProgramID cfg = [] then Err (ConfigErr ''ProgramID'' ''required'')
      else if GwHost cfg = [] \<or> GwService cfg = [] then Err (ConfigErr ''GwHost+GwService'' ''required'')
      else Ok (foldl (\<lambda>s opt. opt s) \<lparr>sv_cfg = cfg, sv_handlers = [], sv_running = False, sv_cancel = None\<rparr> opts))"

definition server_Register :: "go_string \<Rightarrow> 'h option \<Rightarrow> 'h server \<Rightarrow> goerr option \<times> 'h server" where
  "server_Register fn h s = (case h of
     None \<Rightarrow> (Some (ConfigErr ''Handler'' ''nil handler''), s)
   | Some x \<Rightarrow> (None, s\<lparr>sv_handlers := map_set fn x (sv_handlers s)\<rparr>))"

definition copyHandlers :: "(go_string \<times> 'h) list \<Rightarrow> (go_string \<times> 'h) list" where
  "copyHandlers hs = foldl (\<lambda>out (k, v). map_set k v out) [] hs"

definition Start :: "env \<Rightarrow> ('h, 's) server_impl option \<Rightarrow> nat \<Rightarrow> 'h server \<times> 's server_world \<Rightarrow>
    goerr option \<times> 'h server \<times> 's server_world" where
  "Start en impl ctx = (\<lambda>(s, w).
     if sv_running s then (Some (PlainErr ''nwrfc: Server.Start: already running''), s, w)
     else case impl of
       None \<Rightarrow> (Some (UnsupportedFeatureErr ''RFC inbound server'' zero_version (env_cur en)), s, w)
     | Some register \<Rightarrow> (case register (sv_cfg s) (copyHandlers (sv_handlers s)) (sw_bs w) of
           (Inl e, b) \<Rightarrow> (Some (mapE en e), s, w\<lparr>sw_bs := b\<rparr>)
         | (Inr stop, b) \<Rightarrow>
             let d = length (sw_derived w)
             in (None, s\<lparr>sv_running := True, sv_cancel := Some d\<rparr>,
                 w\<lparr>sw_bs := b, sw_derived := sw_derived w @ [(ctx, False)],
                   sw_waiting := sw_waiting w @ [(d, stop)]\<rparr>)))"

definition cancel_derived :: "nat \<Rightarrow> 's server_world \<Rightarrow> 's server_world" where
  "cancel_derived d w = w\<lparr>sw_derived := (sw_derived w)[d := (fst (sw_derived w ! d), True)]\<rparr>"

definition Stop :: "'h server \<times> 's server_world \<Rightarrow> goerr option \<times> 'h server \<times> 's server_world" where
  "Stop = (\<lambda>(s, w).
     if \<not> sv_running s then (None, s, w)
     else (None, s\<lparr>sv_running := False\<rparr>, (case sv_cancel s of None \<Rightarrow> w | Some d \<Rightarrow> cancel_derived d w)))"

definition Running :: "'h server \<Rightarrow> bool" where
  "Running s = sv_running s"

definition InstallTransactionHandlers :: "env \<Rightarrow> goerr" where
  "InstallTransactionHandlers en = UnsupportedFeatureErr ''tRFC/qRFC server handlers'' zero_version (env_cur en)"

definition InstallBgRFCHandlers :: "env \<Rightarrow> goerr" where
  "InstallBgRFCHandlers en = UnsupportedFeatureErr ''bgRFC server handlers'' zero_version (env_cur en)"

section \<open>Steps\<close>

inductive server_step :: "env \<Rightarrow> ('h, 's) server_impl option \<Rightarrow>
    'h server \<times> 's server_world \<Rightarrow> 'h server \<times> 's server_world \<Rightarrow> bool"
  for en impl where
  register: "server_step en impl (s, w) (snd (server_Register fn h s), w)"
| start: "server_step en impl (s, w) (snd (Start en impl ctx (s, w)))"
| stop: "server_step en impl (s, w) (snd (Stop (s, w)))"
| parent_done: "server_step en impl (s, w) (s, w\<lparr>sw_done := ctx # sw_done w\<rparr>)"
| woken: "sw_waiting w = us @ (d, f) # vs \<Longrightarrow> ctx_done w d \<Longrightarrow>
    server_step en impl (s, w) (s, w\<lparr>sw_bs := f (sw_bs w), sw_waiting := us @ vs\<rparr>)"

definition fresh_world :: "'s \<Rightarrow> 's server_world" where
  "fresh_world b = \<lparr>sw_bs = b, sw_done = [], sw_derived = [], sw_waiting = []\<rparr>"

inductive server_reach :: "env \<Rightarrow> ('h, 's) server_impl option \<Rightarrow> 'h server \<times> 's server_world \<Rightarrow> bool"
  for en impl where
  new: "NewServer cfg [] = Ok s \<Longrightarrow> server_reach en impl (s, fresh_world b)"
| "step": "server_reach en impl c \<Longrightarrow> server_step en impl c c' \<Longrightarrow> server_reach en impl c'"

section \<open>Invariant\<close>

text \<open>Every derived context but the current one is cancelled; the goroutines wait for different
  contexts.\<close>

definition server_inv :: "'h server \<times> 's server_world \<Rightarrow> bool" where
  "server_inv = (\<lambda>(s, w).
     distinct (map fst (sw_waiting w)) \<and> fst ` set (sw_waiting w) \<subseteq> {..<length (sw_derived w)} \<and>
     (\<forall>d<length (sw_derived w). snd (sw_derived w ! d) \<or> sv_running s \<and> sv_cancel s = Some d) \<and>
     (sv_running s \<longrightarrow> (\<exists>d<length (sw_derived w). sv_cancel s = Some d)))"

lemma server_inv_new: "NewServer cfg [] = Ok s \<Longrightarrow> server_inv (s, fresh_world b)"
  by (auto simp: server_inv_def fresh_world_def NewServer_def split: if_splits)

lemma server_inv_start: "server_inv (s, w) \<Longrightarrow> server_inv (snd (Start en impl ctx (s, w)))"
  by (fastforce simp: server_inv_def Start_def Let_def nth_append less_Suc_eq split: option.splits sum.splits prod.splits)

lemma server_inv_stop: "server_inv (s, w) \<Longrightarrow> server_inv (snd (Stop (s, w)))"
  by (auto simp: server_inv_def Stop_def cancel_derived_def nth_list_update split: option.splits)

lemma server_inv_step: "server_step en impl c c' \<Longrightarrow> server_inv c \<Longrightarrow> server_inv c'"
proof (induction rule: server_step.induct)
  case (register s w fn h)
  then show ?case by (auto simp: server_inv_def server_Register_def split: option.splits)
next
  case (start s w ctx)
  then show ?case by (rule server_inv_start)
next
  case (stop s w)
  then show ?case by (rule server_inv_stop)
next
  case (woken w us d f vs s)
  then show ?case by (auto simp: server_inv_def)
qed (simp add: server_inv_def)

lemma server_inv_reach: "server_reach en impl c \<Longrightarrow> server_inv c"
  by (induction rule: server_reach.induct) (auto intro: server_inv_new server_inv_step)

lemma copyHandlers_map: "distinct (map fst hs) \<Longrightarrow> copyHandlers hs = hs"
proof (induction hs rule: rev_induct)
  case (snoc h hs)
  then show ?case by (cases h) (auto simp: copyHandlers_def intro: map_set_new)
qed (simp add: copyHandlers_def)

text \<open>While the server is not running every context is cancelled.\<close>

lemma stopped_done: "server_inv (s, w) \<Longrightarrow> \<not> sv_running s \<Longrightarrow> d \<in> fst ` set (sw_waiting w) \<Longrightarrow> ctx_done w d"
  unfolding server_inv_def ctx_done_def by fastforce

section \<open>Properties\<close>

text \<open>The goroutines a stopped server leaves can all finish, in any order they stand.\<close>

inductive unregisters :: "'s server_world \<Rightarrow> 's server_world \<Rightarrow> bool" where
  none: "unregisters w w"
| one: "sw_waiting w = (d, f) # vs \<Longrightarrow> ctx_done w d \<Longrightarrow>
    unregisters (w\<lparr>sw_bs := f (sw_bs w), sw_waiting := vs\<rparr>) w' \<Longrightarrow> unregisters w w'"

lemma unregisters_all:
  "\<forall>d\<in>fst ` set (sw_waiting w). ctx_done w d \<Longrightarrow>
     unregisters w (w\<lparr>sw_bs := fold snd (sw_waiting w) (sw_bs w), sw_waiting := []\<rparr>)"
proof (induction "sw_waiting w" arbitrary: w)
  case Nil
  then have "w\<lparr>sw_bs := fold snd (sw_waiting w) (sw_bs w), sw_waiting := []\<rparr> = w" by (cases w) simp
  then show ?case by (simp add: unregisters.none)
next
  case (Cons x vs)
  obtain d f where x: "x = (d, f)" by (cases x)
  note waiting = Cons.hyps(2) [symmetric, unfolded x]
  let ?v = "w\<lparr>sw_bs := f (sw_bs w), sw_waiting := vs\<rparr>"
  have "unregisters ?v (?v\<lparr>sw_bs := fold snd (sw_waiting ?v) (sw_bs ?v), sw_waiting := []\<rparr>)"
    using Cons.prems waiting by (intro Cons.hyps(1)) (auto simp: ctx_done_def)
  then have "unregisters ?v (w\<lparr>sw_bs := fold snd (sw_waiting w) (sw_bs w), sw_waiting := []\<rparr>)"
    using waiting by simp
  moreover have "ctx_done w d" using Cons.prems waiting by simp
  ultimately show ?case using waiting unregisters.one by blast
qed

text \<open>C33: In every reachable state the pending unregistrations belong to different starts, at most one of
  them is not yet due and none when the server is not running; from a stopped server the pending stop
  functions can all run, each once.\<close>

theorem server_lifecycle:
  assumes "server_reach en impl (s, w)"
  shows "distinct (map fst (sw_waiting w)) \<and>
    card {d \<in> fst ` set (sw_waiting w). \<not> ctx_done w d} \<le> (if sv_running s then 1 else 0) \<and>
    (sv_running s \<or> unregisters w (w\<lparr>sw_bs := fold snd (sw_waiting w) (sw_bs w), sw_waiting := []\<rparr>))"
proof (intro conjI)
  have i: "server_inv (s, w)" using assms by (rule server_inv_reach)
  show "distinct (map fst (sw_waiting w))" using i by (simp add: server_inv_def)
  have "{d \<in> fst ` set (sw_waiting w). \<not> ctx_done w d} \<subseteq> (if sv_running s then {the (sv_cancel s)} else {})"
  proof
    fix d assume "d \<in> {d \<in> fst ` set (sw_waiting w). \<not> ctx_done w d}"
    then have "d < length (sw_derived w)" "\<not> ctx_done w d" using i by (auto simp: server_inv_def)
    then have "sv_running s \<and> sv_cancel s = Some d" using i unfolding server_inv_def ctx_done_def by blast
    then show "d \<in> (if sv_running s then {the (sv_cancel s)} else {})" by simp
  qed
  from card_mono [OF _ this] show "card {d \<in> fst ` set (sw_waiting w). \<not> ctx_done w d} \<le> (if sv_running s then 1 else 0)"
    by (cases "sv_running s") simp_all
  show "sv_running s \<or> unregisters w (w\<lparr>sw_bs := fold snd (sw_waiting w) (sw_bs w), sw_waiting := []\<rparr>)"
    using stopped_done [OF i] unregisters_all by blast
qed

text \<open>A small implementation: the state is the list of registered function names.\<close>

definition names_impl :: "('h, go_string list) server_impl" where
  "names_impl cfg hs b = (Ok (\<lambda>_. []), map fst hs)"

definition demo_server :: "'h \<Rightarrow> 'h server" where
  "demo_server h = \<lparr>sv_cfg = \<lparr>ProgramID = ''P'', GwHost = ''h'', GwService = ''s'', sv_Repository = empty_params,
     SncQOP = [], SncMyName = [], SncPartnerName = [], SncLib = [], sv_Trace = [], sv_Extra = []\<rparr>,
     sv_handlers = [], sv_running = False, sv_cancel = None\<rparr>"

lemma demo_reach: "server_reach en impl (demo_server h, fresh_world b)"
  by (rule server_reach.new [of "sv_cfg (demo_server h)"]) (simp add: NewServer_def demo_server_def)

lemmas demo_eval = server_Register_def Start_def Stop_def cancel_derived_def names_impl_def fresh_world_def demo_server_def
  copyHandlers_def ctx_done_def Let_def

text \<open>One handler registered, then started.\<close>

definition demo_running :: "nat \<Rightarrow> 'h \<Rightarrow> 'h server \<times> go_string list server_world" where
  "demo_running c h =
     ((demo_server h)\<lparr>sv_handlers := [(''F'', h)], sv_running := True, sv_cancel := Some 0\<rparr>,
      \<lparr>sw_bs = [''F''], sw_done = [], sw_derived = [(c, False)], sw_waiting = [(0, \<lambda>_. [])]\<rparr>)"

lemma demo_started: "server_reach en (Some names_impl) (demo_running c h)"
proof -
  have "server_reach en (Some names_impl) (snd (server_Register ''F'' (Some h) (demo_server h)), fresh_world [])"
    by (rule server_reach.step [OF demo_reach server_step.register])
  from server_reach.step [OF this server_step.start [of _ _ _ _ c]] show ?thesis
    by (simp add: demo_eval demo_running_def)
qed

theorem server_lifecycle_witness:
  "\<forall>(en :: env) c (h :: unit). \<exists>s w. demo_running c h = (s, w) \<and> distinct (map fst (sw_waiting w)) \<and>
     card {d \<in> fst ` set (sw_waiting w). \<not> ctx_done w d} \<le> 1"
proof (intro allI)
  fix en :: env and c and h :: unit
  obtain s w where e: "demo_running c h = (s, w)" by (cases "demo_running c h")
  have "sv_running s" using e by (auto simp: demo_running_def)
  then show "\<exists>s w. demo_running c h = (s, w) \<and> distinct (map fst (sw_waiting w)) \<and>
      card {d \<in> fst ` set (sw_waiting w). \<not> ctx_done w d} \<le> 1"
    using server_lifecycle [OF demo_started [of en c h, unfolded e]] e by auto
qed

text \<open>Three reachable states of a server over an implementation that lists the functions it offers:
  Stop has returned nil and Running is false while the function is still offered; a handler registered
  while the server runs is in its table and not offered; the parent context is done and nothing is
  offered any more while Running is true and Start refuses.\<close>

theorem server_misreports:
  "(\<exists>(c :: unit server \<times> _) s w. server_reach en (Some names_impl) c \<and> Stop c = (None, s, w) \<and> \<not> Running s \<and> sw_bs w = [''F'']) \<and>
   (\<exists>(s :: unit server) w. server_reach en (Some names_impl) (s, w) \<and> Running s \<and>
      map fst (sv_handlers s) = [''F'', ''G''] \<and> sw_bs w = [''F'']) \<and>
   (\<exists>(s :: unit server) w. server_reach en (Some names_impl) (s, w) \<and> Running s \<and> sw_bs w = [] \<and> sw_waiting w = [] \<and>
      (\<forall>ctx. Start en (Some names_impl) ctx (s, w) = (Some (PlainErr ''nwrfc: Server.Start: already running''), s, w)))"
proof (intro conjI)
  note r = demo_started [of en 7 "()"]
  show "\<exists>(c :: unit server \<times> _) s w. server_reach en (Some names_impl) c \<and> Stop c = (None, s, w) \<and> \<not> Running s \<and> sw_bs w = [''F'']"
    using r by (intro exI [of _ "demo_running 7 ()"]) (auto simp: demo_running_def demo_eval Running_def)
  obtain s w where e: "demo_running 7 () = (s, w)" by (cases "demo_running 7 ()")
  have st: "sv_running s" "sv_handlers s = [(''F'', ())]" "sw_bs w = [''F'']" "sw_waiting w = [] @ (0, \<lambda>_. []) # []"
      "sw_derived w = [(7, False)]"
    using e by (auto simp: demo_running_def)
  note r = r [unfolded e]
  show "\<exists>(s :: unit server) w. server_reach en (Some names_impl) (s, w) \<and> Running s \<and>
      map fst (sv_handlers s) = [''F'', ''G''] \<and> sw_bs w = [''F'']"
    using server_reach.step [OF r server_step.register [of _ _ _ _ "''G''" "Some ()"]] st
    by (intro exI [of _ "snd (server_Register ''G'' (Some ()) s)"] exI [of _ w]) (simp add: server_Register_def Running_def)
  let ?w = "w\<lparr>sw_done := 7 # sw_done w\<rparr>"
  have "server_reach en (Some names_impl) (s, ?w)"
    by (rule server_reach.step [OF r server_step.parent_done])
  from server_reach.step [OF this server_step.woken [of ?w "[]" 0 "\<lambda>_. []" "[]"]]
  have "server_reach en (Some names_impl) (s, ?w\<lparr>sw_bs := [], sw_waiting := []\<rparr>)"
    using st by (simp add: ctx_done_def)
  then show "\<exists>(s :: unit server) w. server_reach en (Some names_impl) (s, w) \<and> Running s \<and> sw_bs w = [] \<and> sw_waiting w = [] \<and>
      (\<forall>ctx. Start en (Some names_impl) ctx (s, w) = (Some (PlainErr ''nwrfc: Server.Start: already running''), s, w))"
    using st by (intro exI) (auto simp: Start_def Running_def)
qed

end
