(* ===== verification/Codegen.thy ===== *)
theory Codegen
  imports Conn_Params Sdk_Wrap
begin

text \<open>
  The generator nwrfc-gen (cmd/nwrfc-gen/main.go): Go names made from RFC names, Go types from type
  descriptors, and the lists the templates iterate over. Of the fast template the two generated
  functions marshalIn and unmarshalOut are modelled by what they do; text, formatting and files are not.

  Names are lists of runes. What package \<open>unicode\<close> knows about runes from 128 on is an argument; on
  ASCII the tables are written out.

  The lemmas say which names and types come out, that the declared structures are closed and named
  apart, and, against the reader of \<open>Sdk_Wrap\<close>, which results the fast path keeps.
\<close>

section \<open>Names\<close>

record unicode =
  ut_letter :: "rune \<Rightarrow> bool"
  ut_digit :: "rune \<Rightarrow> bool"
  ut_lower :: "rune \<Rightarrow> rune"
  ut_upper :: "rune \<Rightarrow> rune"

definition is_upper :: "rune \<Rightarrow> bool" where "is_upper r \<longleftrightarrow> 65 \<le> r \<and> r \<le> 90"
definition is_lower :: "rune \<Rightarrow> bool" where "is_lower r \<longleftrightarrow> 97 \<le> r \<and> r \<le> 122"

definition IsLetter :: "unicode \<Rightarrow> rune \<Rightarrow> bool" where
  "IsLetter u r = (if r < 128 then is_upper r \<or> is_lower r else ut_letter u r)"

definition IsDigit :: "unicode \<Rightarrow> rune \<Rightarrow> bool" where
  "IsDigit u r = (if r < 128 then 48 \<le> r \<and> r \<le> 57 else ut_digit u r)"

definition ToLower :: "unicode \<Rightarrow> rune \<Rightarrow> rune" where
  "ToLower u r = (if r < 128 then (if is_upper r then r + 32 else r) else ut_lower u r)"

definition ToUpper :: "unicode \<Rightarrow> rune \<Rightarrow> rune" where
  "ToUpper u r = (if r < 128 then (if is_lower r then r - 32 else r) else ut_upper u r)"

text \<open>\<open>strings.FieldsFunc\<close>: the maximal runs without a separator.\<close>

fun fields_func :: "(rune \<Rightarrow> bool) \<Rightarrow> rune list \<Rightarrow> rune list \<Rightarrow> rune list list" where
  "fields_func sep cur [] = (if cur = [] then [] else [rev cur])"
| "fields_func sep cur (r # rs) =
     (if sep r then (if cur = [] then [] else [rev cur]) @ fields_func sep [] rs
      else fields_func sep (r # cur) rs)"

definition splitIdentifier :: "unicode \<Rightarrow> rune list \<Rightarrow> rune list list" where
  "splitIdentifier u rs = fields_func (\<lambda>r. \<not> IsLetter u r \<and> \<not> IsDigit u r) [] rs"

definition goKeywords :: "go_string list" where
  "goKeywords =
    [''break'', ''default'', ''func'', ''interface'', ''select'', ''case'', ''defer'', ''go'', ''map'', ''struct'',
     ''chan'', ''else'', ''goto'', ''package'', ''switch'', ''const'', ''fallthrough'', ''if'', ''range'', ''type'',
     ''continue'', ''for'', ''import'', ''return'', ''var'']"

definition title :: "unicode \<Rightarrow> rune list \<Rightarrow> rune list" where
  "title u w = (case map (ToLower u) w of [] \<Rightarrow> [] | r # rs \<Rightarrow> ToUpper u r # rs)"

definition goIdentifier :: "unicode \<Rightarrow> go_string \<Rightarrow> go_string" where
  "goIdentifier u s =
     (let words = splitIdentifier u (runes s)
      in if words = [] then ''Generated''
         else let out = concat (map (title u) words);
                  got = (if out = [] then ''Generated'' else string_of_runes out);
                  first = fst (decode_rune got);
                  got = (if \<not> IsLetter u first \<and> first \<noteq> 95 then ''X'' @ got else got)
              in if got \<in> set goKeywords then got @ ''_'' else got)"

text \<open>The position tested in goPackageName is the one in the argument.\<close>

definition package_runes :: "unicode \<Rightarrow> rune list \<Rightarrow> rune list" where
  "package_runes u rs = map snd (filter (\<lambda>(i, r). r = 95 \<or> IsLetter u r \<or> (0 < i \<and> IsDigit u r)) (enumerate 0 rs))"

definition goPackageName :: "unicode \<Rightarrow> go_string \<Rightarrow> go_string" where
  "goPackageName u s =
     (let got = string_of_runes (package_runes u (map (ToLower u) (runes s)))
      in if got = [] \<or> got \<in> set goKeywords then ''rfcclient'' else got)"

definition fileBase :: "unicode \<Rightarrow> go_string \<Rightarrow> go_string" where
  "fileBase u s =
     (let words = splitIdentifier u (runes s)
      in if words = [] then ''generated''
         else join ''_'' (map (\<lambda>w. string_of_runes (map (ToLower u) w)) words))"

definition sourceNote :: "go_string \<Rightarrow> go_string" where
  "sourceNote fn =
     ''Reference descriptor for nexus-spec migration. '' @
     ''Regenerate with `nwrfc-gen describe --fn '' @ fn @ ''` against the target SAP system '' @
     ''before producing customer-specific generated code.''"

definition paramsFromEnv :: "(go_string \<Rightarrow> go_string) \<Rightarrow> params" where
  "paramsFromEnv Getenv = empty_params
     \<lparr>Dest := Getenv ''GORFC_TEST_DEST'', AsHost := Getenv ''GORFC_TEST_ASHOST'', SysNr := Getenv ''GORFC_TEST_SYSNR'',
      Client := Getenv ''GORFC_TEST_CLIENT'', User := Getenv ''GORFC_TEST_USER'', Passwd := Getenv ''GORFC_TEST_PASSWD'',
      Lang := Getenv ''GORFC_TEST_LANG''\<rparr>"

section \<open>Types\<close>

record param_doc =
  doc_GoName :: go_string
  doc_RFCName :: go_string
  doc_GoType :: go_string

record struct_doc =
  sd_GoName :: go_string
  sd_Fields :: "param_doc list"

record collector =
  emitted :: "go_string list"
  resolving :: "go_string list"
  structs :: "struct_doc list"

definition goTypeForScalar :: "rfc_type \<Rightarrow> go_string" where
  "goTypeForScalar t =
     (if t \<in> {TypeChar, TypeNum, TypeString, TypeBCD, TypeFloat, TypeDecF16, TypeDecF34, TypeUTCLong, TypeDate,
              TypeTime, TypeXMLData} then ''string''
      else if t = TypeInt1 then ''uint8''
      else if t = TypeInt2 then ''int16''
      else if t = TypeInt then ''int32''
      else if t = TypeInt8 then ''int64''
      else if t = TypeByte \<or> t = TypeXString then ''[]byte''
      else ''any'')"

definition open_map :: go_string where
  "open_map = ''map[string]any''"

text \<open>typeName with the loop over the fields and goTypeForField; the collector is passed and returned.\<close>

fun type_name :: "unicode \<Rightarrow> type_desc \<Rightarrow> go_string \<Rightarrow> collector \<Rightarrow> go_string \<times> collector"
and type_fields :: "unicode \<Rightarrow> field_desc list \<Rightarrow> go_string \<Rightarrow> collector \<Rightarrow> param_doc list \<times> collector"
where
  "type_name u (TypeDesc n fs) fallback c =
     (let name = (if n = [] then fallback else n); goName = goIdentifier u name
      in if goName \<in> set (resolving c) then (open_map, c)
         else if goName \<in> set (emitted c) then (goName, c)
         else case type_fields u fs name (c\<lparr>resolving := goName # resolving c\<rparr>) of
           (docs, c1) \<Rightarrow>
             (goName, c1\<lparr>resolving := removeAll goName (resolving c1), emitted := emitted c1 @ [goName],
                         structs := structs c1 @ [\<lparr>sd_GoName = goName, sd_Fields = docs\<rparr>]\<rparr>))"
| "type_fields u [] parent c = ([], c)"
| "type_fields u (FieldDesc n t len dec off td # fs) parent c =
     (case (if t = TypeStructure \<or> t = TypeTable
            then (case td of
                    None \<Rightarrow> (open_map, c)
                  | Some d \<Rightarrow> type_name u d (parent @ ''_'' @ n) c)
            else (goTypeForScalar t, c)) of
       (gt, c1) \<Rightarrow>
         (case type_fields u fs parent c1 of
           (docs, c2) \<Rightarrow>
             (\<lparr>doc_GoName = goIdentifier u n, doc_RFCName = n,
               doc_GoType = (if t = TypeTable then ''[]'' @ gt else gt)\<rparr> # docs, c2)))"

definition goTypeForParam :: "unicode \<Rightarrow> param_desc \<Rightarrow> collector \<Rightarrow> go_string \<times> collector" where
  "goTypeForParam u p c =
     (let named = (case pd_TypeDesc p of None \<Rightarrow> (open_map, c) | Some d \<Rightarrow> type_name u d (pd_Name p) c)
      in if pd_Type p = TypeStructure then named
         else if pd_Type p = TypeTable then (case named of (gt, c1) \<Rightarrow> (''[]'' @ gt, c1))
         else (goTypeForScalar (pd_Type p), c))"

section \<open>The data of the templates\<close>

record tmpl_data =
  tm_Package :: go_string
  tm_RFCName :: go_string
  tm_Imports :: "param_doc list"
  tm_Exports :: "param_doc list"
  tm_Changing :: "param_doc list"
  tm_Tables :: "param_doc list"
  tm_Structs :: "struct_doc list"
  tm_FastIn :: "param_doc list"
  tm_FastOut :: "param_doc list"

text \<open>A parameter is filed under each of its directions; the exact masks of the switch are the cases
  with one bit.\<close>

definition file_param :: "direction \<Rightarrow> param_doc \<Rightarrow> tmpl_data \<Rightarrow> tmpl_data" where
  "file_param d f t =
     (if d = DirImport then t\<lparr>tm_Imports := tm_Imports t @ [f]\<rparr>
      else if d = DirExport \<or> d = DirReturn then t\<lparr>tm_Exports := tm_Exports t @ [f]\<rparr>
      else if d = DirChanging then t\<lparr>tm_Changing := tm_Changing t @ [f]\<rparr>
      else if d = DirTables then t\<lparr>tm_Tables := tm_Tables t @ [f]\<rparr>
      else
        (let t = (if dir_bit d DirImport then t\<lparr>tm_Imports := tm_Imports t @ [f]\<rparr> else t);
             t = (if dir_bit d DirExport \<or> dir_bit d DirReturn then t\<lparr>tm_Exports := tm_Exports t @ [f]\<rparr> else t);
             t = (if dir_bit d DirChanging then t\<lparr>tm_Changing := tm_Changing t @ [f]\<rparr> else t)
         in if dir_bit d DirTables then t\<lparr>tm_Tables := tm_Tables t @ [f]\<rparr> else t))"

fun gen_params :: "unicode \<Rightarrow> param_desc list \<Rightarrow> collector \<times> tmpl_data \<Rightarrow> collector \<times> tmpl_data" where
  "gen_params u [] ct = ct"
| "gen_params u (p # ps) (c, t) =
     (case goTypeForParam u p c of
        (gt, c1) \<Rightarrow> gen_params u ps
          (c1, file_param (pd_Direction p) \<lparr>doc_GoName = goIdentifier u (pd_Name p), doc_RFCName = pd_Name p, doc_GoType = gt\<rparr> t))"

definition sortedStructs :: "collector \<Rightarrow> struct_doc list" where
  "sortedStructs c = sort_key sd_GoName (structs c)"

definition generate :: "unicode \<Rightarrow> go_string \<Rightarrow> func_desc \<Rightarrow> (goerr, tmpl_data) result" where
  "generate u pkg d =
     (if pkg = [] then Err (PlainErr ''package name is required'')
      else if fn_Name d = [] then Err (PlainErr ''descriptor name is required'')
      else case gen_params u (fn_Parameters d)
        (\<lparr>emitted = [], resolving = [], structs = []\<rparr>,
         \<lparr>tm_Package = goPackageName u pkg, tm_RFCName = fn_Name d, tm_Imports = [], tm_Exports = [], tm_Changing = [],
          tm_Tables = [], tm_Structs = [], tm_FastIn = [], tm_FastOut = []\<rparr>) of
        (c, t) \<Rightarrow> Ok (t\<lparr>tm_Structs := sortedStructs c, tm_FastIn := tm_Imports t @ tm_Changing t,
                        tm_FastOut := tm_Exports t @ tm_Tables t @ tm_Changing t\<rparr>))"

section \<open>The fast path\<close>

text \<open>The generated marshalIn: one map entry per input field, under its RFC name; the typed input is a
  function from Go names.\<close>

definition marshal_fast :: "param_doc list \<Rightarrow> (go_string \<Rightarrow> gval) \<Rightarrow> call_params" where
  "marshal_fast fs inp = foldl (\<lambda>m p. map_set (doc_RFCName p) (inp (doc_GoName p)) m) [] fs"

text \<open>The text of a type as the generator writes it; \<open>pkg\<close> is the path of the generated package.\<close>

fun type_text :: "go_string \<Rightarrow> gtype \<Rightarrow> go_string option" where
  "type_text pkg TString = Some ''string''"
| "type_text pkg (TInt KUint8) = Some ''uint8''"
| "type_text pkg (TInt KInt16) = Some ''int16''"
| "type_text pkg (TInt KInt32) = Some ''int32''"
| "type_text pkg (TInt KInt64) = Some ''int64''"
| "type_text pkg (TSlice (TInt KUint8)) = Some ''[]byte''"
| "type_text pkg (TSlice t) = map_option (\<lambda>s. ''[]'' @ s) (type_text pkg t)"
| "type_text pkg (TMap TString TIface) = Some open_map"
| "type_text pkg (TNamed n t) = (if has_prefix n (pkg @ ''.'') then Some (drop (length pkg + 1) n) else None)"
| "type_text pkg _ = None"

text \<open>\<open>v.(T)\<close> succeeds when the dynamic type is the one written.\<close>

definition asserts :: "go_string \<Rightarrow> go_string \<Rightarrow> gval \<Rightarrow> bool" where
  "asserts pkg gt v \<longleftrightarrow> gt = ''any'' \<or> type_text pkg (type_of v) = Some gt"

text \<open>The generated unmarshalOut: the Go name of each result field with the value it is set to, \<open>None\<close>
  where it keeps its zero value.\<close>

definition unmarshal_fast :: "go_string \<Rightarrow> param_doc list \<Rightarrow> call_params \<Rightarrow> (go_string \<times> gval option) list" where
  "unmarshal_fast pkg fs resp =
     map (\<lambda>p. (doc_GoName p, case map_of resp (doc_RFCName p) of
                 Some v \<Rightarrow> if asserts pkg (doc_GoType p) v then Some v else None
               | None \<Rightarrow> None)) fs"

section \<open>Declared structures\<close>

text \<open>The types a generated file may mention when it declares the structures \<open>E\<close>.\<close>

definition known :: "go_string set \<Rightarrow> go_string set" where
  "known E = {''string'', ''uint8'', ''int16'', ''int32'', ''int64'', ''[]byte'', ''any'', open_map} \<union> E \<union>
     (\<lambda>s. ''[]'' @ s) ` insert open_map E"

lemma known_mono: "E \<subseteq> F \<Longrightarrow> known E \<subseteq> known F"
  unfolding known_def by (intro Un_mono subset_refl image_mono insert_mono)

lemma known_scalar [simp]: "goTypeForScalar t \<in> known E"
  by (simp add: goTypeForScalar_def known_def)

lemma known_named: "g \<in> insert open_map E \<Longrightarrow> g \<in> known E \<and> ''[]'' @ g \<in> known E"
  by (auto simp: known_def)

definition field_types :: "struct_doc list \<Rightarrow> go_string set" where
  "field_types ss = doc_GoType ` (\<Union>s\<in>set ss. set (sd_Fields s))"

lemma field_types_snoc: "field_types (ss @ [s]) = field_types ss \<union> doc_GoType ` set (sd_Fields s)"
  by (auto simp: field_types_def)

definition coll_inv :: "collector \<Rightarrow> bool" where
  "coll_inv c \<longleftrightarrow> distinct (emitted c) \<and> map sd_GoName (structs c) = emitted c \<and>
     field_types (structs c) \<subseteq> known (set (emitted c))"

text \<open>What a call adds: new names are none of those being resolved, which are left as they were.\<close>

definition grows :: "collector \<Rightarrow> collector \<Rightarrow> bool" where
  "grows c c' \<longleftrightarrow> coll_inv c' \<and> resolving c' = resolving c \<and> set (emitted c) \<subseteq> set (emitted c') \<and>
     (set (emitted c') - set (emitted c)) \<inter> set (resolving c) = {}"

lemma grows_refl: "coll_inv c \<Longrightarrow> grows c c"
  by (simp add: grows_def)

lemma grows_trans: "grows a b \<Longrightarrow> grows b c \<Longrightarrow> grows a c"
  unfolding grows_def by auto

lemma grows_struct:
  assumes "grows (c\<lparr>resolving := g # resolving c\<rparr>) c1" "g \<notin> set (resolving c)" "g \<notin> set (emitted c)"
    and "doc_GoType ` set docs \<subseteq> known (set (emitted c1))"
  shows "grows c (c1\<lparr>resolving := removeAll g (resolving c1), emitted := emitted c1 @ [g],
      structs := structs c1 @ [\<lparr>sd_GoName = g, sd_Fields = docs\<rparr>]\<rparr>)"
proof -
  have "g \<notin> set (emitted c1)" using assms(1,3) by (auto simp: grows_def)
  moreover have "known (set (emitted c1)) \<subseteq> known (insert g (set (emitted c1)))" by (rule known_mono) blast
  ultimately show ?thesis using assms by (auto simp: grows_def coll_inv_def field_types_snoc)
qed

lemma type_name_grows:
  shows "coll_inv c \<Longrightarrow> type_name u td fb c = (g, c') \<Longrightarrow> grows c c' \<and> g \<in> insert open_map (set (emitted c'))"
    and "coll_inv c \<Longrightarrow> type_fields u fs parent c = (docs, c') \<Longrightarrow>
      grows c c' \<and> doc_GoType ` set docs \<subseteq> known (set (emitted c'))"
proof (induction u td fb c and u fs parent c arbitrary: g c' and docs c' rule: type_name_type_fields.induct)
  case (1 u n fs fallback c)
  define name where "name = (if n = [] then fallback else n)"
  define gn where "gn = goIdentifier u name"
  show ?case
  proof (cases "gn \<in> set (resolving c) \<or> gn \<in> set (emitted c)")
    case True
    then show ?thesis using 1(2,3) by (auto simp: Let_def name_def [symmetric] gn_def [symmetric] grows_refl split: if_splits)
  next
    case False
    obtain docs c1 where f: "type_fields u fs name (c\<lparr>resolving := gn # resolving c\<rparr>) = (docs, c1)" by fastforce
    have "coll_inv (c\<lparr>resolving := gn # resolving c\<rparr>)" using 1(2) by (simp add: coll_inv_def)
    then have "grows (c\<lparr>resolving := gn # resolving c\<rparr>) c1" "doc_GoType ` set docs \<subseteq> known (set (emitted c1))"
      using 1(1) [OF name_def gn_def] False f by auto
    from grows_struct [OF this(1) _ _ this(2)] show ?thesis
      using False 1(3) f by (auto simp: Let_def name_def [symmetric] gn_def [symmetric])
  qed
next
  case (2 u parent c)
  then show ?case by (auto simp: grows_refl)
next
  case (3 u n t len dec off td fs parent c)
  define r where "r = (if t = TypeStructure \<or> t = TypeTable
      then (case td of None \<Rightarrow> (open_map, c) | Some d \<Rightarrow> type_name u d (parent @ ''_'' @ n) c)
      else (goTypeForScalar t, c))"
  obtain gt c1 where r: "r = (gt, c1)" by fastforce
  have a: "grows c c1 \<and> (if t = TypeTable then ''[]'' @ gt else gt) \<in> known (set (emitted c1))"
  proof (cases "t = TypeStructure \<or> t = TypeTable")
    case True
    have "grows c c1 \<and> gt \<in> insert open_map (set (emitted c1))"
    proof (cases td)
      case None
      then show ?thesis using r True 3(3) by (auto simp: r_def grows_refl)
    next
      case (Some d)
      then show ?thesis using 3(1) [OF True Some 3(3)] r True by (auto simp: r_def)
    qed
    then show ?thesis using known_named by auto
  next
    case False
    then show ?thesis using r 3(3) by (auto simp: r_def grows_refl)
  qed
  obtain ds c2 where f: "type_fields u fs parent c1 = (ds, c2)" by fastforce
  have b: "grows c1 c2 \<and> doc_GoType ` set ds \<subseteq> known (set (emitted c2))"
    using 3(2) [OF r [symmetric, unfolded r_def]] f a by (auto simp: grows_def)
  have "known (set (emitted c1)) \<subseteq> known (set (emitted c2))"
    using b by (intro known_mono) (simp add: grows_def)
  moreover have "docs = \<lparr>doc_GoName = goIdentifier u n, doc_RFCName = n, doc_GoType = (if t = TypeTable then ''[]'' @ gt else gt)\<rparr> # ds \<and> c' = c2"
    using 3(4) r f by (simp add: r_def)
  ultimately show ?case using a b grows_trans [of c c1 c2] by auto
qed


section \<open>What the reader returns\<close>

text \<open>The Go type of a result of wrapVariable, which depends on the ABAP type alone.\<close>

fun wrapped_type :: "rfc_type \<Rightarrow> gtype" where
  "wrapped_type TypeInt1 = TInt KInt64"
| "wrapped_type TypeInt2 = TInt KInt64"
| "wrapped_type TypeInt = TInt KInt64"
| "wrapped_type TypeInt8 = TInt KInt64"
| "wrapped_type TypeByte = TSlice (TInt KUint8)"
| "wrapped_type TypeXString = TSlice (TInt KUint8)"
| "wrapped_type TypeDate = date_type"
| "wrapped_type TypeTime = time_type"
| "wrapped_type TypeStructure = TMap TString TIface"
| "wrapped_type TypeTable = TSlice (TMap TString TIface)"
| "wrapped_type _ = TString"

definition returns :: "('c, 'a) act \<Rightarrow> ('a \<Rightarrow> bool) \<Rightarrow> bool" where
  "returns m P \<longleftrightarrow> (\<forall>s a s'. m s = (Ok a, s') \<longrightarrow> P a)"

lemma returns_ret [simp]: "returns (ret a) P \<longleftrightarrow> P a" "returns (failA e) P"
  by (auto simp: returns_def ret_def failA_def)

lemma returns_bind: "(\<And>a. returns (f a) P) \<Longrightarrow> returns (bindA m f) P"
  by (auto simp: returns_def bindA_def split: prod.splits sum.splits)

lemma wrap_returns: "returns (wrapVariable k n t h c len td opt fld) (\<lambda>v. type_of v = wrapped_type t)"
proof -
  consider "t = TypeChar" | "t = TypeNum" | "t \<in> set string_types - {TypeChar, TypeNum}" | "t \<in> set int_types"
    | "t = TypeByte" | "t = TypeXString" | "t = TypeDate" | "t = TypeTime" | "t = TypeStructure" | "t = TypeTable"
    | "t = TypeXMLData" | x where "t = TypeOther x"
    by (cases t) (auto simp: string_types_def int_types_def)
  then show ?thesis
    by cases (auto simp: wrapVariable.simps wrap_scalar_defs string_types_def int_types_def bytes_val_def date_val_def
        time_val_def date_type_def time_type_def any_map_def rows_val_def intro!: returns_bind split: nat.splits sum.splits)
qed

section \<open>What the fast path keeps\<close>

lemma type_text_named: "type_text pkg (TNamed n t) = Some s \<Longrightarrow> c \<in> set s \<Longrightarrow> c \<in> set n"
  by (auto split: if_splits dest: in_set_dropD)

lemma asserts_wrapped:
  assumes "type_of v = wrapped_type t"
  shows "asserts pkg (goTypeForScalar t) v \<longleftrightarrow>
      t \<in> {TypeChar, TypeNum, TypeString, TypeBCD, TypeFloat, TypeDecF16, TypeDecF34, TypeUTCLong, TypeXMLData,
           TypeInt8, TypeByte, TypeXString} \<or> goTypeForScalar t = ''any''"
proof -
  have "type_text pkg (wrapped_type t) \<noteq> Some ''string''" if d: "t = TypeDate \<or> t = TypeTime"
  proof
    assume "type_text pkg (wrapped_type t) = Some ''string''"
    moreover obtain n ty where "wrapped_type t = TNamed n ty" "CHR ''s'' \<notin> set n"
      using d by (auto simp: date_type_def time_type_def)
    ultimately show False using type_text_named [of pkg n ty "''string''" "CHR ''s''"] by auto
  qed
  then show ?thesis using assms
    by (cases t) (auto simp: asserts_def goTypeForScalar_def open_map_def)
qed


section \<open>Identifiers\<close>

definition word_rune :: "rune \<Rightarrow> bool" where
  "word_rune r \<longleftrightarrow> is_upper r \<or> is_lower r \<or> 48 \<le> r \<and> r \<le> 57"

lemma runes_of_ascii: "is_ascii s \<Longrightarrow> runes s = map byte_of s"
  by (induction s) (auto simp: is_ascii_def)

lemma fields_func_all:
  "w \<in> set (fields_func sep cur rs) \<Longrightarrow> w \<noteq> [] \<and> set w \<subseteq> set cur \<union> {r \<in> set rs. \<not> sep r}"
proof (induction rs arbitrary: cur)
  case Nil
  then show ?case by (simp split: if_splits)
next
  case (Cons r rs)
  show ?case
  proof (cases "sep r")
    case True
    then have "w \<in> set (fields_func sep [] rs) \<or> cur \<noteq> [] \<and> w = rev cur"
      using Cons.prems by (simp split: if_splits) blast
    then show ?thesis using Cons.IH [of "[]"] True by auto
  next
    case False
    then show ?thesis using Cons.IH [of "r # cur"] Cons.prems by auto
  qed
qed

lemma letter_cases: "is_upper r \<Longrightarrow> \<not> is_lower r \<and> r < 128 \<and> is_lower (r + 32)" "is_lower r \<Longrightarrow> \<not> is_upper r \<and> r < 128 \<and> is_upper (r - 32)"
  unfolding is_upper_def is_lower_def by linarith+

lemma digit_cases: "48 \<le> r \<Longrightarrow> r \<le> 57 \<Longrightarrow> \<not> is_upper r \<and> \<not> is_lower r \<and> r < 128"
  by (simp add: is_upper_def is_lower_def)

lemma word_rune_case:
  assumes "word_rune r"
  shows "word_rune (ToLower u r)" "word_rune (ToUpper u r)" "\<not> is_lower (ToUpper u r)"
proof -
  consider "is_upper r" | "is_lower r" | "48 \<le> r" "r \<le> 57" using assms word_rune_def by blast
  then have "word_rune (ToLower u r) \<and> word_rune (ToUpper u r) \<and> \<not> is_lower (ToUpper u r)"
    by cases (use letter_cases [of r] letter_cases(1) [of "r - 32"] digit_cases [of r] assms in
        \<open>auto simp: ToLower_def ToUpper_def word_rune_def\<close>)
  then show "word_rune (ToLower u r)" "word_rune (ToUpper u r)" "\<not> is_lower (ToUpper u r)" by blast+
qed

lemma title_word:
  assumes "w \<noteq> []" "list_all word_rune w"
  shows "title u w \<noteq> [] \<and> list_all word_rune (title u w) \<and> \<not> is_lower (hd (title u w))"
  using assms by (cases w) (auto simp: title_def list_all_iff word_rune_case)

lemma words_of_ascii:
  assumes "is_ascii s" "w \<in> set (splitIdentifier u (runes s))"
  shows "w \<noteq> [] \<and> list_all word_rune w"
proof -
  have "w \<noteq> []" "set w \<subseteq> {r \<in> set (map byte_of s). IsLetter u r \<or> IsDigit u r}"
    using fields_func_all [OF assms(2) [unfolded splitIdentifier_def]] by (auto simp: runes_of_ascii [OF assms(1)])
  moreover have "r < 128" if "r \<in> set (map byte_of s)" for r :: rune
    using that assms(1) by (auto simp: is_ascii_def list_all_iff)
  ultimately show ?thesis by (auto simp: list_all_iff word_rune_def IsLetter_def IsDigit_def subset_iff split: if_splits)
qed

lemma string_of_word: "list_all word_rune rs \<Longrightarrow> string_of_runes rs = map char_of rs"
  by (induction rs) (auto simp: word_rune_def is_upper_def is_lower_def encode_rune_ascii)

text \<open>Go identifiers over ASCII, exported: a capital letter, then letters and digits.\<close>

definition exported_name :: "go_string \<Rightarrow> bool" where
  "exported_name s \<longleftrightarrow> s \<noteq> [] \<and> is_upper (byte_of (hd s)) \<and> list_all (\<lambda>c. word_rune (byte_of c)) s \<and> s \<notin> set goKeywords"

lemma exported_not_keyword: "s \<noteq> [] \<Longrightarrow> is_upper (byte_of (hd s)) \<Longrightarrow> s \<notin> set goKeywords"
  by (auto simp: goKeywords_def is_upper_def)

lemma goIdentifier_exported:
  assumes "is_ascii s"
  shows "exported_name (goIdentifier u s)"
proof (cases "splitIdentifier u (runes s)")
  case Nil
  then show ?thesis by (simp add: goIdentifier_def exported_name_def goKeywords_def word_rune_def is_upper_def is_lower_def)
next
  case (Cons w ws)
  define out where "out = concat (map (title u) (w # ws))"
  have t: "title u v \<noteq> [] \<and> list_all word_rune (title u v) \<and> \<not> is_lower (hd (title u v))" if "v \<in> set (w # ws)" for v
    using words_of_ascii [OF assms] that Cons title_word by metis
  have o: "out \<noteq> []" "list_all word_rune out" "\<not> is_lower (hd out)"
    using t by (auto simp: out_def list_all_iff)
  then obtain r rs where out: "out = r # rs" by (cases out) auto
  have r: "r < 128" "word_rune r" "\<not> is_lower r" using o out by (auto simp: word_rune_def is_upper_def is_lower_def)
  have got: "string_of_runes out = char_of r # map char_of rs"
    using string_of_word [OF o(2)] out by simp
  have ascii: "list_all (\<lambda>c. word_rune (byte_of c)) (string_of_runes out)"
    using o(2) string_of_word [OF o(2)] by (auto simp: list_all_iff word_rune_def is_upper_def is_lower_def)
  have first: "fst (decode_rune (string_of_runes out)) = r" using r(1) by (simp add: got)
  define name where "name = (if \<not> IsLetter u r \<and> r \<noteq> 95 then ''X'' @ string_of_runes out else string_of_runes out)"
  have n: "name \<noteq> []" "is_upper (byte_of (hd name))" "list_all (\<lambda>c. word_rune (byte_of c)) name"
    using ascii r got by (auto simp: name_def IsLetter_def word_rune_def is_upper_def is_lower_def)
  have "goIdentifier u s = (if name \<in> set goKeywords then name @ ''_'' else name)"
    using Cons o(1) by (simp add: goIdentifier_def Let_def out_def [symmetric, simplified] first name_def)
  then have "goIdentifier u s = name" using exported_not_keyword [OF n(1,2)] by simp
  then show ?thesis using n exported_not_keyword by (simp add: exported_name_def)
qed


section \<open>The lists\<close>

definition docs_of :: "tmpl_data \<Rightarrow> param_doc set" where
  "docs_of t = set (tm_Imports t) \<union> set (tm_Exports t) \<union> set (tm_Changing t) \<union> set (tm_Tables t)"

abbreviation filed :: "bool \<Rightarrow> param_doc \<Rightarrow> param_doc list" where
  "filed b f \<equiv> (if b then [f] else [])"

lemma file_param_lists:
  "tm_Imports (file_param d f t) = tm_Imports t @ filed (dir_bit d DirImport) f"
  "tm_Exports (file_param d f t) = tm_Exports t @ filed (dir_bit d DirExport \<or> dir_bit d DirReturn) f"
  "tm_Changing (file_param d f t) = tm_Changing t @ filed (dir_bit d DirChanging) f"
  "tm_Tables (file_param d f t) = tm_Tables t @ filed (dir_bit d DirTables) f"
proof -
  note bits = dir_bit_def DirImport_def DirExport_def DirReturn_def DirChanging_def DirTables_def
  consider "d = DirImport" | "d = DirExport" | "d = DirReturn" | "d = DirChanging" | "d = DirTables"
    | "d \<notin> {DirImport, DirExport, DirReturn, DirChanging, DirTables}" by blast
  then have "tm_Imports (file_param d f t) = tm_Imports t @ filed (dir_bit d DirImport) f \<and>
    tm_Exports (file_param d f t) = tm_Exports t @ filed (dir_bit d DirExport \<or> dir_bit d DirReturn) f \<and>
    tm_Changing (file_param d f t) = tm_Changing t @ filed (dir_bit d DirChanging) f \<and>
    tm_Tables (file_param d f t) = tm_Tables t @ filed (dir_bit d DirTables) f"
  proof cases
    case 6
    then show ?thesis by (simp add: file_param_def Let_def)
  qed (simp_all add: file_param_def bits)
  then show "tm_Imports (file_param d f t) = tm_Imports t @ filed (dir_bit d DirImport) f"
    "tm_Exports (file_param d f t) = tm_Exports t @ filed (dir_bit d DirExport \<or> dir_bit d DirReturn) f"
    "tm_Changing (file_param d f t) = tm_Changing t @ filed (dir_bit d DirChanging) f"
    "tm_Tables (file_param d f t) = tm_Tables t @ filed (dir_bit d DirTables) f" by blast+
qed

lemma file_param_docs: "docs_of (file_param d f t) \<subseteq> insert f (docs_of t)"
  by (auto simp: docs_of_def file_param_lists split: if_splits)

lemma goTypeForParam_grows:
  assumes "coll_inv c" "goTypeForParam u p c = (gt, c')"
  shows "grows c c' \<and> gt \<in> known (set (emitted c'))"
proof -
  obtain g c1 where n: "(case pd_TypeDesc p of None \<Rightarrow> (open_map, c) | Some d \<Rightarrow> type_name u d (pd_Name p) c) = (g, c1)"
    by fastforce
  have i: "grows c c1 \<and> g \<in> insert open_map (set (emitted c1))"
  proof (cases "pd_TypeDesc p")
    case None
    then show ?thesis using n assms(1) grows_refl by simp
  next
    case (Some d)
    then show ?thesis using n type_name_grows(1) [OF assms(1)] by simp
  qed
  then have k: "g \<in> known (set (emitted c1))" "''[]'' @ g \<in> known (set (emitted c1))" using known_named by blast+
  note e = assms(2) [unfolded goTypeForParam_def Let_def n]
  consider "pd_Type p = TypeStructure" | "pd_Type p = TypeTable" | "pd_Type p \<notin> {TypeStructure, TypeTable}" by blast
  then show ?thesis
  proof cases
    case 1
    then show ?thesis using e i k by simp
  next
    case 2
    then have "gt = ''[]'' @ g" "c' = c1" using e by auto
    then show ?thesis using i k by blast
  next
    case 3
    then have "gt = goTypeForScalar (pd_Type p)" "c' = c" using e by auto
    then show ?thesis using grows_refl [OF assms(1)] known_scalar by blast
  qed
qed

definition wanted :: "(direction \<Rightarrow> bool) \<Rightarrow> param_desc list \<Rightarrow> go_string list" where
  "wanted dir ps = map pd_Name (filter (\<lambda>p. dir (pd_Direction p)) ps)"

lemma gen_params_facts:
  assumes "coll_inv c" "doc_GoType ` docs_of t \<subseteq> known (set (emitted c))" "gen_params u ps (c, t) = (c', t')"
  shows "coll_inv c' \<and> doc_GoType ` docs_of t' \<subseteq> known (set (emitted c')) \<and>
    map doc_RFCName (tm_Imports t') = map doc_RFCName (tm_Imports t) @ wanted (\<lambda>d. dir_bit d DirImport) ps \<and>
    map doc_RFCName (tm_Exports t') = map doc_RFCName (tm_Exports t) @ wanted (\<lambda>d. dir_bit d DirExport \<or> dir_bit d DirReturn) ps \<and>
    map doc_RFCName (tm_Changing t') = map doc_RFCName (tm_Changing t) @ wanted (\<lambda>d. dir_bit d DirChanging) ps \<and>
    map doc_RFCName (tm_Tables t') = map doc_RFCName (tm_Tables t) @ wanted (\<lambda>d. dir_bit d DirTables) ps"
  using assms
proof (induction ps arbitrary: c t)
  case Nil
  then show ?case by (simp add: wanted_def)
next
  case (Cons p ps)
  obtain gt c1 where g: "goTypeForParam u p c = (gt, c1)" by fastforce
  define f where "f = \<lparr>doc_GoName = goIdentifier u (pd_Name p), doc_RFCName = pd_Name p, doc_GoType = gt\<rparr>"
  have i: "grows c c1" "gt \<in> known (set (emitted c1))" using goTypeForParam_grows [OF Cons.prems(1) g] by auto
  have "known (set (emitted c)) \<subseteq> known (set (emitted c1))" using i by (intro known_mono) (simp add: grows_def)
  moreover have "doc_GoType ` docs_of (file_param (pd_Direction p) f t) \<subseteq> insert gt (doc_GoType ` docs_of t)"
    using image_mono [OF file_param_docs, of doc_GoType "pd_Direction p" f t] by (simp add: f_def)
  ultimately have d: "doc_GoType ` docs_of (file_param (pd_Direction p) f t) \<subseteq> known (set (emitted c1))"
    using Cons.prems(2) i(2) by blast
  have "gen_params u ps (c1, file_param (pd_Direction p) f t) = (c', t')"
    using Cons.prems(3) g by (simp add: f_def)
  from Cons.IH [OF _ d this] i(1) show ?case
    by (auto simp: grows_def file_param_lists wanted_def f_def)
qed

section \<open>Properties\<close>

text \<open>C34: What the generator hands to the templates: the declared structures have different names in
  alphabetic order, every type of a parameter or field is predeclared or one of them, and the input and
  result lists of the fast path are the parameters of those directions in declaration order.\<close>

theorem codegen_generate:
  assumes "generate u pkg d = Ok t"
  shows "distinct (map sd_GoName (tm_Structs t)) \<and> sorted (map sd_GoName (tm_Structs t)) \<and>
    doc_GoType ` docs_of t \<union> field_types (tm_Structs t) \<subseteq> known (sd_GoName ` set (tm_Structs t)) \<and>
    map doc_RFCName (tm_FastIn t) =
      wanted (\<lambda>d. dir_bit d DirImport) (fn_Parameters d) @ wanted (\<lambda>d. dir_bit d DirChanging) (fn_Parameters d) \<and>
    map doc_RFCName (tm_FastOut t) =
      wanted (\<lambda>d. dir_bit d DirExport \<or> dir_bit d DirReturn) (fn_Parameters d) @
      wanted (\<lambda>d. dir_bit d DirTables) (fn_Parameters d) @ wanted (\<lambda>d. dir_bit d DirChanging) (fn_Parameters d)"
proof -
  let ?c0 = "\<lparr>emitted = [], resolving = [], structs = []\<rparr>"
  let ?t0 = "\<lparr>tm_Package = goPackageName u pkg, tm_RFCName = fn_Name d, tm_Imports = [], tm_Exports = [], tm_Changing = [],
    tm_Tables = [], tm_Structs = [], tm_FastIn = [], tm_FastOut = []\<rparr>"
  obtain c t' where g: "gen_params u (fn_Parameters d) (?c0, ?t0) = (c, t')" by fastforce
  have t: "t = t'\<lparr>tm_Structs := sortedStructs c, tm_FastIn := tm_Imports t' @ tm_Changing t',
      tm_FastOut := tm_Exports t' @ tm_Tables t' @ tm_Changing t'\<rparr>"
    using assms g by (auto simp: generate_def split: if_splits)
  have "coll_inv ?c0" "doc_GoType ` docs_of ?t0 \<subseteq> known (set (emitted ?c0))"
    by (simp_all add: coll_inv_def field_types_def docs_of_def)
  note f = gen_params_facts [OF this g]
  have c: "distinct (map sd_GoName (structs c))" "field_types (structs c) \<subseteq> known (set (emitted c))"
      "sd_GoName ` set (structs c) = set (emitted c)"
    using f by (auto simp: coll_inv_def simp flip: set_map)
  have s: "distinct (map sd_GoName (sortedStructs c))" "sorted (map sd_GoName (sortedStructs c))"
      "field_types (sortedStructs c) = field_types (structs c)" "set (sortedStructs c) = set (structs c)"
    using c(1) by (simp_all add: sortedStructs_def field_types_def distinct_map distinct_sort)
  show ?thesis using s c f by (simp add: t docs_of_def)
qed


lemma demo_chars:
  "char_of (84 :: nat) = CHR ''T''" "char_of (82 :: nat) = CHR ''R''" "char_of (111 :: nat) = CHR ''o''"
  "char_of (119 :: nat) = CHR ''w''" "char_of (49 :: nat) = CHR ''1''" "char_of (97 :: nat) = CHR ''a''"
  by code_simp+

definition demo_function :: func_desc where
  "demo_function = \<lparr>fn_Name = ''F'', fn_Parameters =
     [\<lparr>pd_Name = ''ROWS'', pd_Type = TypeTable, pd_Direction = DirTables, pd_Length = 0, pd_Decimals = 0,
       pd_Optional = False, pd_TypeDesc = Some (TypeDesc ''T_ROW'' [FieldDesc ''MAX_ROWS'' TypeInt 4 0 0 None])\<rparr>]\<rparr>"

theorem codegen_generate_witness:
  "\<forall>u. \<exists>t. generate u ''p'' demo_function = Ok t \<and> map sd_GoName (tm_Structs t) = [''TRow''] \<and>
     map doc_GoType (tm_FastOut t) = [''[]TRow''] \<and>
     doc_GoType ` docs_of t \<union> field_types (tm_Structs t) \<subseteq> known {''TRow''}"
proof
  fix u
  have n: "goIdentifier u ''T_ROW'' = ''TRow''"
    by (simp add: goIdentifier_def splitIdentifier_def IsLetter_def IsDigit_def is_upper_def is_lower_def title_def
        ToLower_def ToUpper_def encode_rune_ascii demo_chars goKeywords_def Let_def)
  obtain r where g: "generate u ''p'' demo_function = Ok r" and
    r: "map sd_GoName (tm_Structs r) = [''TRow'']" "map doc_GoType (tm_FastOut r) = [''[]TRow'']"
    by (simp add: generate_def demo_function_def goTypeForParam_def n file_param_def DirTables_def DirImport_def
        DirExport_def DirReturn_def DirChanging_def sortedStructs_def Let_def)
  moreover have "sd_GoName ` set (tm_Structs r) = {''TRow''}" using r(1) by (metis list.set_map list.simps(15) set_empty2)
  ultimately show "\<exists>t. generate u ''p'' demo_function = Ok t \<and> map sd_GoName (tm_Structs t) = [''TRow''] \<and>
     map doc_GoType (tm_FastOut t) = [''[]TRow''] \<and>
     doc_GoType ` docs_of t \<union> field_types (tm_Structs t) \<subseteq> known {''TRow''}"
    using codegen_generate [OF g] by auto
qed

text \<open>Types with different names can share a Go name; the second one is then never declared and its uses
  get the fields of the first.\<close>

lemma identifiers_collide: "goIdentifier u ''A_B'' = goIdentifier u ''A-B''"
  by (simp add: goIdentifier_def splitIdentifier_def IsLetter_def IsDigit_def is_upper_def is_lower_def)

lemma shadowed_type:
  "goIdentifier u (td_Name td) \<in> set (emitted c) \<Longrightarrow> goIdentifier u (td_Name td) \<notin> set (resolving c) \<Longrightarrow>
     td_Name td \<noteq> [] \<Longrightarrow> type_name u td fb c = (goIdentifier u (td_Name td), c)"
  by (cases td) (simp add: Let_def)

lemma package_of_digit: "goPackageName u ''-1a'' = ''1a''"
  by (simp add: goPackageName_def package_runes_def IsLetter_def IsDigit_def ToLower_def is_upper_def is_lower_def
      encode_rune_ascii demo_chars goKeywords_def Let_def enumerate_simps)

text \<open>C35: The reader returns a value of a Go type that depends on the ABAP type alone, and the assertion in
  the generated unmarshalOut accepts it exactly for the character-like types, INT8 and the byte types, and
  for structures and tables only without a declared structure: integers of less than 64 bits, dates, times
  and typed structures and tables are dropped.\<close>

theorem codegen_fast_keeps:
  assumes "fst (wrapVariable k n (pd_Type p) h c len td opt fld s) = Ok v"
  shows "type_of v = wrapped_type (pd_Type p) \<and>
    (asserts pkg (fst (goTypeForParam u p col)) v \<longleftrightarrow>
      pd_Type p \<in> {TypeChar, TypeNum, TypeString, TypeBCD, TypeFloat, TypeDecF16, TypeDecF34, TypeUTCLong, TypeInt8,
                     TypeByte, TypeXString} \<or>
      pd_Type p = TypeStructure \<and> fst (goTypeForParam u p col) \<in> {''any'', open_map} \<or>
      pd_Type p = TypeTable \<and> fst (goTypeForParam u p col) = ''[]'' @ open_map)"
proof -
  have v: "type_of v = wrapped_type (pd_Type p)"
    using wrap_returns [of k n "pd_Type p" h c len td opt fld] assms unfolding returns_def
    by (metis prod.collapse)
  have "pd_Type p \<noteq> TypeXMLData \<and> (\<forall>x. pd_Type p \<noteq> TypeOther x)"
    using assms by (auto simp: wrapVariable.simps string_types_def int_types_def failA_def)
  moreover have "asserts pkg (fst (goTypeForParam u p col)) v \<longleftrightarrow>
      fst (goTypeForParam u p col) = ''any'' \<or> fst (goTypeForParam u p col) = open_map" if "pd_Type p = TypeStructure"
    using that v by (auto simp: asserts_def)
  moreover have "asserts pkg (fst (goTypeForParam u p col)) v \<longleftrightarrow> fst (goTypeForParam u p col) = ''[]'' @ open_map"
    if "pd_Type p = TypeTable"
    using that v by (auto simp: asserts_def goTypeForParam_def Let_def split: prod.splits)
  moreover have "fst (goTypeForParam u p col) = goTypeForScalar (pd_Type p)" if "pd_Type p \<notin> {TypeStructure, TypeTable}"
    using that by (simp add: goTypeForParam_def Let_def)
  moreover have "goTypeForScalar (pd_Type p) \<noteq> ''any''" if "pd_Type p \<notin> {TypeStructure, TypeTable}" "\<forall>x. pd_Type p \<noteq> TypeOther x"
    using that by (cases "pd_Type p") (auto simp: goTypeForScalar_def)
  ultimately show ?thesis using v asserts_wrapped [OF v] by (cases "pd_Type p \<in> {TypeStructure, TypeTable}") auto
qed

theorem codegen_fast_keeps_witness:
  "\<forall>u col opt. \<exists>v. fst (wrapVariable ((undefined :: unit sdk)\<lparr>RfcGetInt := \<lambda>_ _ s. (Ok 7, s)\<rparr>) 0 TypeInt 0 ''MAX_ROWS'' 4 0 opt ''MAX_ROWS'' ()) = Ok v \<and>
     v = VInt KInt64 7 \<and>
     \<not> asserts ''p'' (fst (goTypeForParam u \<lparr>pd_Name = ''MAX_ROWS'', pd_Type = TypeInt, pd_Direction = DirExport,
         pd_Length = 4, pd_Decimals = 0, pd_Optional = False, pd_TypeDesc = None\<rparr> col)) v"
proof (intro allI)
  fix u col opt
  let ?p = "\<lparr>pd_Name = ''MAX_ROWS'', pd_Type = TypeInt, pd_Direction = DirExport,
         pd_Length = 4, pd_Decimals = 0, pd_Optional = False, pd_TypeDesc = None\<rparr>"
  let ?k = "(undefined :: unit sdk)\<lparr>RfcGetInt := \<lambda>_ _ s. (Ok 7, s)\<rparr>"
  have w: "fst (wrapVariable ?k 0 (pd_Type ?p) 0 ''MAX_ROWS'' 4 0 opt ''MAX_ROWS'' ()) = Ok (VInt KInt64 7)"
    by (simp add: wrapVariable.simps wrap_int_def string_types_def int_types_def bindA_def call_def ret_def)
  show "\<exists>v. fst (wrapVariable ?k 0 TypeInt 0 ''MAX_ROWS'' 4 0 opt ''MAX_ROWS'' ()) = Ok v \<and> v = VInt KInt64 7 \<and>
     \<not> asserts ''p'' (fst (goTypeForParam u ?p col)) v"
    using codegen_fast_keeps [OF w, of "''p''" u col] w by simp
qed

end
