(* ===== verification/Cli.thy ===== *)
theory Cli
  imports Call
begin

text \<open>
  The command line client (cmd/nwrfc/main.go): where the gateway is, how failures are classified, the
  test-connection and preflight reports, the other commands as far as the library is called, and the
  redaction of secrets in what is printed.

  The operating system is a record of functions (environment, files, a TCP probe). A report is a list of
  entries with distinct keys; printing is the last value of a command together with the exit code. An
  exit leaves deferred calls out, so a command says in its final state whether the connection was closed.

  The lemmas show that the reports are consistent with the exit code, which stage a failure gets, and
  what the redaction removes.
\<close>

section \<open>Surroundings\<close>

record os_env =
  os_Getenv :: "go_string \<Rightarrow> go_string"
  os_GOOS :: go_string
  os_GOARCH :: go_string
  os_exists :: "go_string \<Rightarrow> bool"
  os_Clean :: "go_string \<Rightarrow> go_string"
  os_Join :: "go_string list \<Rightarrow> go_string"
  os_Dial :: "go_string \<Rightarrow> int \<Rightarrow> bool"
  os_Quote :: "go_string \<Rightarrow> go_string"

datatype rep =
    RepNil
  | RepBool bool
  | RepInt int
  | RepStr go_string
  | RepCaps capabilities
  | RepMap "(go_string \<times> rep) list"
  | RepList "rep list"
  | RepFunc func_desc
  | RepParams call_params
  | RepText go_string "rep list"

text \<open>\<open>RepText\<close> is a format of \<open>fmt.Printf\<close> with its operands.\<close>

type_synonym report = "(go_string \<times> rep) list"

definition params_of_env :: "os_env \<Rightarrow> params" where
  "params_of_env os = empty_params
     \<lparr>AsHost := os_Getenv os ''GORFC_TEST_ASHOST'', SysNr := os_Getenv os ''GORFC_TEST_SYSNR'',
      Client := os_Getenv os ''GORFC_TEST_CLIENT'', User := os_Getenv os ''GORFC_TEST_USER'',
      Passwd := os_Getenv os ''GORFC_TEST_PASSWD'', Lang := os_Getenv os ''GORFC_TEST_LANG''\<rparr>"

definition paramsComplete :: "os_env \<Rightarrow> bool" where
  "paramsComplete os \<longleftrightarrow> (let p = params_of_env os in
     AsHost p \<noteq> [] \<and> SysNr p \<noteq> [] \<and> Client p \<noteq> [] \<and> User p \<noteq> [] \<and> Passwd p \<noteq> [])"

definition hasJSON :: "go_string list \<Rightarrow> bool" where
  "hasJSON args \<longleftrightarrow> list_ex (\<lambda>a. a = ''--json'' \<or> a = ''-json'') args"

section \<open>Redaction\<close>

text \<open>\<open>strings.ReplaceAll\<close> for a non-empty old string: the leftmost occurrence is replaced and the
  search goes on behind it.\<close>

function (sequential) replace_all :: "go_string \<Rightarrow> go_string \<Rightarrow> go_string \<Rightarrow> go_string" where
  "replace_all old new [] = []"
| "replace_all old new (c # s) =
     (if old \<noteq> [] \<and> has_prefix (c # s) old then new @ replace_all old new (drop (length old) (c # s))
      else c # replace_all old new s)"
  by pat_completeness auto
termination by (relation "measure (\<lambda>(old, new, s). length s)") auto

declare replace_all.simps(2) [simp del]

definition redact_keys :: "go_string list" where
  "redact_keys = [''GORFC_TEST_PASSWD'', ''GORFC_TEST_PASSWORD'', ''GORFC_TEST_MYSAPSSO2'', ''GORFC_TEST_BEARER'',
     ''GORFC_TEST_SAML2'']"

definition redactRuntimeSecrets :: "os_env \<Rightarrow> go_string \<Rightarrow> go_string" where
  "redactRuntimeSecrets os s =
     foldl (\<lambda>out key. let value = os_Getenv os key
        in if 4 \<le> length value then replace_all value RedactedPlaceholder out else out) s redact_keys"

definition errorString :: "os_env \<Rightarrow> env \<Rightarrow> goerr option \<Rightarrow> go_string" where
  "errorString os en e = (case e of None \<Rightarrow> [] | Some x \<Rightarrow> redactRuntimeSecrets os (env_text en x))"

section \<open>The gateway\<close>

text \<open>\<open>strconv.Atoi\<close> with its value on errors: zero, or the nearest 64-bit number when out of range.\<close>

definition Atoi :: "go_string \<Rightarrow> int \<times> bool" where
  "Atoi s = (case atoi s of
     None \<Rightarrow> (0, False)
   | Some n \<Rightarrow> if n > 2 ^ 63 - 1 then (2 ^ 63 - 1, False) else if n < - (2 ^ 63) then (- (2 ^ 63), False) else (n, True))"

definition gatewayCoordinates :: "params \<Rightarrow> go_string \<times> go_string \<times> int" where
  "gatewayCoordinates p =
     (if trim_space (WSHost p) \<noteq> [] then
        (let service = trim_space (WSPort p) in (trim_space (WSHost p), service, fst (Atoi service)))
      else if trim_space (AsHost p) \<noteq> [] then
        (let sysnr = trim_space (SysNr p); (n, ok) = Atoi sysnr
         in (trim_space (AsHost p), ''sapgw'' @ sysnr, if ok \<and> 0 \<le> n \<and> n \<le> 99 then 3300 + n else 0))
      else if trim_space (MsHost p) \<noteq> [] then (trim_space (MsHost p), ''sapms'' @ trim_space (R3Name p), 0)
      else ([], [], 0))"

definition annotateGatewayCoordinates :: "params \<Rightarrow> report \<Rightarrow> report" where
  "annotateGatewayCoordinates p out =
     (case gatewayCoordinates p of (host, service, port) \<Rightarrow>
        let out = map_set ''gateway_service'' (RepStr service) (map_set ''gateway_host'' (RepStr host) out)
        in if port \<noteq> 0 then map_set ''gateway_port'' (RepInt port) out else out)"

definition probeGateway :: "os_env \<Rightarrow> go_string \<Rightarrow> int \<Rightarrow> rep" where
  "probeGateway os host port =
     (if trim_space host = [] \<or> port = 0 then RepNil else RepBool (os_Dial os host port))"

section \<open>Stages\<close>

definition stageInit :: go_string where "stageInit = ''init''"
definition stageSDKUnavailable :: go_string where "stageSDKUnavailable = ''sdk_unavailable''"
definition stageParamsMissing :: go_string where "stageParamsMissing = ''params_missing''"
definition stageNetworkUnreachable :: go_string where "stageNetworkUnreachable = ''network_unreachable''"
definition stageGatewayReset :: go_string where "stageGatewayReset = ''gateway_communication_failure''"
definition stageAuthFailed :: go_string where "stageAuthFailed = ''auth_failed''"
definition stageBrokenConnection :: go_string where "stageBrokenConnection = ''broken_connection''"
definition stageTimeout :: go_string where "stageTimeout = ''timeout''"
definition stagePingFailed :: go_string where "stagePingFailed = ''ping_failed''"
definition stageOK :: go_string where "stageOK = ''ok''"

lemmas stages = stageInit_def stageSDKUnavailable_def stageParamsMissing_def stageNetworkUnreachable_def
  stageGatewayReset_def stageAuthFailed_def stageBrokenConnection_def stageTimeout_def stagePingFailed_def stageOK_def

definition recommendationFor :: "go_string \<Rightarrow> go_string" where
  "recommendationFor stage =
     (if stage = stageOK then ''connection healthy; no operator action required''
      else if stage = stageSDKUnavailable then
        ''VDI operator: install SAP NW RFC SDK and set SAPNWRFC_HOME; rerun preflight''
      else if stage = stageParamsMissing then
        ''VDI operator: provision GORFC_TEST_ASHOST/SYSNR/CLIENT/USER/PASSWD via the secret store''
      else if stage = stageNetworkUnreachable then
        ''Network ops: SAP gateway port not reachable from VDI; verify SAProuter / firewall / iconic edge allowlist for VDI source IP''
      else if stage = stageGatewayReset then
        ''SAP Basis + Network ops: TCP reached the SAP gateway but it rejected/reset before authentication; '' @
        ''verify gw/acl_mode + gw/acl_info, SAProuter route, and source-IP allowlist on the iconic SAP edge''
      else if stage = stageAuthFailed then
        ''SAP Basis + VDI operator: gateway accepted the connection; SAP rejected the credentials. '' @
        ''Verify user/client, password rotation, and SU01 lock state''
      else if stage = stageBrokenConnection then
        ''Retry once; if the failure persists, capture VDI dev_rfc trace and escalate to SAP Basis''
      else if stage = stageTimeout then
        ''Increase client timeout if the SAP system is under load; '' @
        ''otherwise escalate to SAP Basis to inspect dispatcher work-process saturation''
      else if stage = stagePingFailed then
        ''SAP Basis: dispatcher reachable and authenticated, but RFC_PING failed; inspect SM21 / dev_disp for ICM/dispatcher state''
      else ''no recommendation derived for stage'')"

definition sdkGroupName :: "nat \<Rightarrow> go_string" where
  "sdkGroupName g =
     (if g = GroupOK then ''OK''
      else if g = GroupAbapApplicationFailure then ''ABAP_APPLICATION_FAILURE''
      else if g = GroupAbapRuntimeFailure then ''ABAP_RUNTIME_FAILURE''
      else if g = GroupLogonFailure then ''LOGON_FAILURE''
      else if g = GroupCommunicationFailure then ''COMMUNICATION_FAILURE''
      else if g = GroupExternalRuntimeFailure then ''EXTERNAL_RUNTIME_FAILURE''
      else if g = GroupExternalApplicationFailure then ''EXTERNAL_APPLICATION_FAILURE''
      else if g = GroupExternalAuthorizationFailure then ''EXTERNAL_AUTHORIZATION_FAILURE''
      else ''UNKNOWN'')"

definition classifyConnectionFailure :: "goerr option \<Rightarrow> go_string \<times> go_string" where
  "classifyConnectionFailure err =
     (let stage = (case err of None \<Rightarrow> stageOK | Some e \<Rightarrow>
        if errors_Is e (SentinelErr CategoryCommunication) then stageGatewayReset
        else if errors_Is e (SentinelErr CategoryLogon) then stageAuthFailed
        else if errors_Is e (SentinelErr CategoryBrokenConn) then stageBrokenConnection
        else if errors_Is e (SentinelErr CategoryTimeout) then stageTimeout
        else stagePingFailed)
      in (stage, recommendationFor stage))"

text \<open>\<open>errors.As\<close> to the three types the report looks for; every logon subtype converts to
  \<open>*LogonError\<close>.\<close>

fun as_comm :: "goerr \<Rightarrow> (sdk_error_info \<times> go_string \<times> go_string) option" where
  "as_comm (CommunicationErr i h s) = Some (i, h, s)"
| "as_comm (WrapErr _ e) = as_comm e"
| "as_comm (JoinErr es) = first_some (map as_comm es)"
| "as_comm (BrokenConnErr _ c) = (case c of None \<Rightarrow> None | Some e \<Rightarrow> as_comm e)"
| "as_comm (CancelledErr _ c) = (case c of None \<Rightarrow> None | Some e \<Rightarrow> as_comm e)"
| "as_comm (MarshalErr _ _ _ c) = (case c of None \<Rightarrow> None | Some e \<Rightarrow> as_comm e)"
| "as_comm _ = None"

fun as_logon :: "goerr \<Rightarrow> sdk_error_info option" where
  "as_logon (LogonErr _ i _ _ _) = Some i"
| "as_logon (WrapErr _ e) = as_logon e"
| "as_logon (JoinErr es) = first_some (map as_logon es)"
| "as_logon (BrokenConnErr _ c) = (case c of None \<Rightarrow> None | Some e \<Rightarrow> as_logon e)"
| "as_logon (CancelledErr _ c) = (case c of None \<Rightarrow> None | Some e \<Rightarrow> as_logon e)"
| "as_logon (MarshalErr _ _ _ c) = (case c of None \<Rightarrow> None | Some e \<Rightarrow> as_logon e)"
| "as_logon _ = None"

fun as_broken :: "goerr \<Rightarrow> bool" where
  "as_broken (BrokenConnErr _ _) = True"
| "as_broken (WrapErr _ e) = as_broken e"
| "as_broken (JoinErr es) = list_ex as_broken es"
| "as_broken (CancelledErr _ c) = (case c of None \<Rightarrow> False | Some e \<Rightarrow> as_broken e)"
| "as_broken (MarshalErr _ _ _ c) = (case c of None \<Rightarrow> False | Some e \<Rightarrow> as_broken e)"
| "as_broken _ = False"

definition put_info :: "sdk_error_info \<Rightarrow> report \<Rightarrow> report" where
  "put_info i out = map_set ''rc'' (RepInt (Code i)) (map_set ''sdk_error_group'' (RepStr (sdkGroupName (Group i)))
     (map_set ''sdk_error_key'' (RepStr (Key i)) out))"

definition annotateConnectionFailure :: "os_env \<Rightarrow> env \<Rightarrow> goerr \<Rightarrow> report \<Rightarrow> report" where
  "annotateConnectionFailure os en e out =
     (let (stage, recommendation) = classifyConnectionFailure (Some e);
          out = map_set ''error'' (RepStr (redactRuntimeSecrets os (env_text en e)))
            (map_set ''connection'' (RepStr ''failed'') (map_set ''ok'' (RepBool False) out));
          out = map_set ''recommendation'' (RepStr recommendation) (map_set ''stage'' (RepStr stage) out);
          out = (case as_comm e of None \<Rightarrow> out | Some (i, h, s) \<Rightarrow>
            let out = put_info i out;
                out = (if h \<noteq> [] then map_set ''gateway_host'' (RepStr h) out else out);
                out = (if s \<noteq> [] then map_set ''gateway_service'' (RepStr s) out else out)
            in map_set ''connection_opened'' (RepBool False) (map_set ''auth_reached'' (RepBool False) out));
          out = (case as_logon e of None \<Rightarrow> out | Some i \<Rightarrow>
            map_set ''connection_opened'' (RepBool False) (map_set ''auth_reached'' (RepBool True) (put_info i out)))
      in if as_broken e then map_set ''connection_opened'' (RepBool False) out else out)"

section \<open>Reports\<close>

definition safePath :: "os_env \<Rightarrow> go_string \<Rightarrow> go_string" where
  "safePath os path = (if trim_space path = [] then [] else os_Clean os path)"

definition sapNWRFCHomeStatus :: "os_env \<Rightarrow> rep" where
  "sapNWRFCHomeStatus os = (let home = trim_space (os_Getenv os ''SAPNWRFC_HOME'') in
     RepMap [(''set'', RepBool (home \<noteq> [])), (''path'', RepStr (safePath os home)),
             (''exists'', RepBool (home \<noteq> [] \<and> os_exists os home))])"

definition requiredLibraryNames :: "os_env \<Rightarrow> go_string list" where
  "requiredLibraryNames os =
     (if os_GOOS os = ''windows'' then [''sapnwrfc.dll'', ''libsapucum.dll'']
      else if os_GOOS os = ''darwin'' then [''libsapnwrfc.dylib'', ''libsapucum.dylib'']
      else [''libsapnwrfc.so'', ''libsapucum.so''])"

definition fileStatus :: "os_env \<Rightarrow> go_string \<Rightarrow> go_string \<Rightarrow> rep" where
  "fileStatus os name path = RepMap [(''name'', RepStr name), (''path'', RepStr (safePath os path)),
     (''exists'', RepBool (trim_space path \<noteq> [] \<and> os_exists os path))]"

definition requiredRuntimeFiles :: "os_env \<Rightarrow> rep" where
  "requiredRuntimeFiles os = (let home = trim_space (os_Getenv os ''SAPNWRFC_HOME'');
      header = (if home \<noteq> [] then [fileStatus os ''sapnwrfc.h'' (os_Join os [home, ''include'', ''sapnwrfc.h''])] else []);
      libDir = (if home \<noteq> [] then os_Join os [home, ''lib''] else [])
    in RepList (header @ map (\<lambda>name. fileStatus os name (if libDir \<noteq> [] then os_Join os [libDir, name] else []))
      (requiredLibraryNames os)))"

definition runtimeStatus :: "os_env \<Rightarrow> version \<Rightarrow> rep" where
  "runtimeStatus os v = RepMap [(''goos'', RepStr (os_GOOS os)), (''goarch'', RepStr (os_GOARCH os)),
     (''cgo_linked'', RepBool (version_string v \<noteq> ''no-sdk''))]"

definition preflightReport :: "os_env \<Rightarrow> 's backend \<Rightarrow> env \<Rightarrow> 's \<Rightarrow> goerr option \<Rightarrow> report" where
  "preflightReport os ops en s err =
     [(''ok'', RepBool (err = None)), (''sdk_version'', RepStr (version_string (bk_version ops s))),
      (''capabilities'', RepCaps (bk_caps ops s)), (''connection'', RepStr ''not_configured''),
      (''sapnwrfc_home'', sapNWRFCHomeStatus os), (''required_files'', requiredRuntimeFiles os),
      (''runtime'', runtimeStatus os (bk_version ops s)),
      (''dynamic_loading'', RepMap [(''ok'', RepBool (err = None)), (''error'', RepStr (errorString os en err))])]"

definition stop_report :: "go_string \<Rightarrow> go_string \<Rightarrow> go_string \<Rightarrow> report \<Rightarrow> report" where
  "stop_report connection stage error out =
     map_set ''recommendation'' (RepStr (recommendationFor stage)) (map_set ''error'' (RepStr error)
       (map_set ''stage'' (RepStr stage) (map_set ''connection'' (RepStr connection) (map_set ''ok'' (RepBool False) out))))"

text \<open>The deferred \<open>c.Close()\<close>, its error dropped.\<close>

definition close_quietly :: "'s backend \<Rightarrow> env \<Rightarrow> conn \<Rightarrow> 's nw \<Rightarrow> 's nw" where
  "close_quietly ops en c st = snd (snd (conn_Close ops en c st))"

definition testConnectionReport :: "os_env \<Rightarrow> 's backend \<Rightarrow> env \<Rightarrow> ctx \<Rightarrow> 's nw \<Rightarrow> (report \<times> int) \<times> 's nw" where
  "testConnectionReport os ops en ctx st =
     (let sdkErr = ensureSDKOnce ops (nw_bs st); p = params_of_env os;
          out = annotateGatewayCoordinates p (preflightReport os ops en (nw_bs st) sdkErr);
          out = map_set ''network_reachable'' RepNil (map_set ''auth_reached'' (RepBool False)
            (map_set ''connection_opened'' (RepBool False) (map_set ''stage'' (RepStr stageInit) out)))
      in case sdkErr of
           Some e \<Rightarrow> ((stop_report ''failed'' stageSDKUnavailable (errorString os en (Some e)) out, 1), st)
         | None \<Rightarrow>
      if \<not> paramsComplete os then
        ((stop_report ''not_configured'' stageParamsMissing
           (''GORFC_TEST_ASHOST, GORFC_TEST_SYSNR, GORFC_TEST_CLIENT, GORFC_TEST_USER, '' @
            ''and GORFC_TEST_PASSWD are required'') out, 1), st)
      else (case gatewayCoordinates p of (host, _, port) \<Rightarrow>
        let out = map_set ''network_reachable'' (probeGateway os host port) out
        in if probeGateway os host port = RepBool False then
             ((stop_report ''failed'' stageNetworkUnreachable
                (''tcp probe to '' @ host @ '':'' @ show_int port @ '' failed before sdk Open'') out, 1), st)
           else (case Open ops en ctx p st of
               (Inl e, st1) \<Rightarrow> ((annotateConnectionFailure os en e out, 1), st1)
             | (Inr c, st1) \<Rightarrow>
                 let out = map_set ''auth_reached'' (RepBool True) (map_set ''connection_opened'' (RepBool True) out)
                 in (case conn_Ping ops en ctx c st1 of
                      (Some e, st2) \<Rightarrow>
                        ((map_set ''recommendation'' (RepStr (recommendationFor stagePingFailed))
                            (map_set ''stage'' (RepStr stagePingFailed) (annotateConnectionFailure os en e out)), 1),
                         close_quietly ops en c st2)
                    | (None, st2) \<Rightarrow>
                        (case conn_Attributes ops en c st2 of (r, st3) \<Rightarrow>
                           let a = (case r of Inl _ \<Rightarrow> no_attributes | Inr a \<Rightarrow> a) in
                           ((map_set ''recommendation'' (RepStr (recommendationFor stageOK))
                              (map_set ''attributes'' (RepMap [(''sys_id'', RepStr (at_SysID a)), (''client'', RepStr (at_Client a)),
                                 (''user'', RepStr (at_User a))])
                              (map_set ''stage'' (RepStr stageOK) (map_set ''connection'' (RepStr ''ok'') out))), 0),
                            close_quietly ops en c st3))))))"

text \<open>\<open>preflight\<close>: a failure after Open exits the process before the deferred Close.\<close>

definition preflight :: "os_env \<Rightarrow> 's backend \<Rightarrow> env \<Rightarrow> ctx \<Rightarrow> 's nw \<Rightarrow> (report \<times> int) \<times> 's nw" where
  "preflight os ops en ctx st =
     (let err = ensureSDKOnce ops (nw_bs st); out = preflightReport os ops en (nw_bs st) err;
          failed = (\<lambda>e. map_set ''error'' (RepStr (errorString os en (Some e)))
            (map_set ''connection'' (RepStr ''failed'') (map_set ''ok'' (RepBool False) out)))
      in case err of
           Some e \<Rightarrow> ((map_set ''error'' (RepStr (errorString os en (Some e))) out, 1), st)
         | None \<Rightarrow>
             if paramsComplete os then
               (case Open ops en ctx (params_of_env os) st of
                  (Inl e, st1) \<Rightarrow> ((failed e, 1), st1)
                | (Inr c, st1) \<Rightarrow>
                    (case conn_Ping ops en ctx c st1 of
                       (Some e, st2) \<Rightarrow> ((failed e, 1), st2)
                     | (None, st2) \<Rightarrow> ((map_set ''connection'' (RepStr ''ok'') out, 0), close_quietly ops en c st2)))
             else ((out, 0), st))"

section \<open>Commands\<close>

text \<open>What a command prints and the exit code; \<open>fail\<close> prints to the error output and exits with 1.\<close>

datatype cli_result = Printed rep int | Failed go_string "rep list" | Crashed

definition cli_version :: "go_string list \<Rightarrow> 's backend \<Rightarrow> 's \<Rightarrow> cli_result" where
  "cli_version args ops s =
     (let v = RepStr (version_string (bk_version ops s)); caps = RepCaps (bk_caps ops s)
      in if hasJSON args then Printed (RepMap [(''cli'', RepStr ''nwrfc''), (''sdk_version'', v), (''capabilities'', caps)]) 0
         else Printed (RepText ''nwrfc CLI; SDK %s; capabilities=%+v'' [v, caps]) 0)"

definition health :: "go_string list \<Rightarrow> os_env \<Rightarrow> 's backend \<Rightarrow> env \<Rightarrow> 's \<Rightarrow> cli_result" where
  "health args os ops en s =
     (let err = ensureSDKOnce ops s; v = RepStr (version_string (bk_version ops s)); caps = RepCaps (bk_caps ops s);
          code = (if err = None then 0 else 1)
      in if hasJSON args then
           Printed (RepMap ([(''ok'', RepBool (err = None)), (''sdk_version'', v), (''capabilities'', caps)] @
             (case err of None \<Rightarrow> [] | Some _ \<Rightarrow> [(''error'', RepStr (errorString os en err))]))) code
         else case err of
             Some e \<Rightarrow> Printed (RepText ''SDK unavailable: %v'' [RepStr (env_text en e)]) code
           | None \<Rightarrow> Printed (RepText ''OK: SDK %s capabilities=%+v'' [v, caps]) code)"

definition with_open :: "os_env \<Rightarrow> 's backend \<Rightarrow> env \<Rightarrow> ctx \<Rightarrow> (conn \<Rightarrow> 's nw \<Rightarrow> cli_result \<times> 's nw) \<Rightarrow> 's nw \<Rightarrow> cli_result \<times> 's nw" where
  "with_open os ops en ctx body st =
     (case Open ops en ctx (params_of_env os) st of
        (Inl e, st1) \<Rightarrow> (Failed ''Open: %v'' [RepStr (errorString os en (Some e))], st1)
      | (Inr c, st1) \<Rightarrow> body c st1)"

definition cli_ping :: "os_env \<Rightarrow> 's backend \<Rightarrow> env \<Rightarrow> ctx \<Rightarrow> 's nw \<Rightarrow> cli_result \<times> 's nw" where
  "cli_ping os ops en ctx = with_open os ops en ctx (\<lambda>c st1.
     case conn_Ping ops en ctx c st1 of
       (Some e, st2) \<Rightarrow> (Failed ''Ping: %v'' [RepStr (errorString os en (Some e))], st2)
     | (None, st2) \<Rightarrow>
         (case conn_Attributes ops en c st2 of (r, st3) \<Rightarrow>
            let a = (case r of Inl _ \<Rightarrow> no_attributes | Inr a \<Rightarrow> a) in
            (Printed (RepText ''OK: %s/%s as %s'' [RepStr (at_SysID a), RepStr (at_Client a), RepStr (at_User a)]) 0,
             close_quietly ops en c st3)))"

definition cli_describe :: "go_string \<Rightarrow> os_env \<Rightarrow> 's backend \<Rightarrow> env \<Rightarrow> ctx \<Rightarrow> 's nw \<Rightarrow> cli_result \<times> 's nw" where
  "cli_describe fn os ops en ctx = with_open os ops en ctx (\<lambda>c st1.
     case conn_Describe ops en ctx c fn st1 of
       (Inl e, st2) \<Rightarrow> (Failed ''Describe: %v'' [RepStr (errorString os en (Some e))], st2)
     | (Inr d, st2) \<Rightarrow> (Printed (RepFunc d) 0, close_quietly ops en c st2))"

text \<open>The parameters of \<open>call\<close>; \<open>Inl\<close> is the first argument without an equals sign.\<close>

fun parse_kv :: "go_string list \<Rightarrow> call_params \<Rightarrow> (go_string, call_params) result" where
  "parse_kv [] m = Ok m"
| "parse_kv (pair # kv) m =
     (case index_byte pair (CHR ''='') of
        None \<Rightarrow> Err pair
      | Some eq \<Rightarrow> parse_kv kv (map_set (take eq pair) (VString (drop (eq + 1) pair)) m))"

definition cli_call :: "go_string \<Rightarrow> go_string list \<Rightarrow> os_env \<Rightarrow> 's rt_env \<Rightarrow> ctx \<Rightarrow> 's call_state \<Rightarrow> cli_result \<times> 's call_state" where
  "cli_call fn kv os re ctx st =
     (case parse_kv kv [] of
        Inl pair \<Rightarrow> (Failed ''expected KEY=VALUE, got %q'' [RepStr pair], st)
      | Inr m \<Rightarrow>
          (case Open (re_ops re) (re_env re) ctx (params_of_env os) (fst st) of
             (Inl e, nw1) \<Rightarrow> (Failed ''Open: %v'' [RepStr (errorString os (re_env re) (Some e))], (nw1, snd st))
           | (Inr c, nw1) \<Rightarrow>
               (case CallMap re ctx (Some c) fn m [] (nw1, snd st) of
                  (CallPanic, st2) \<Rightarrow> (Crashed, st2)
                | (CallRet _ (Some e) _, st2) \<Rightarrow>
                    (Failed ''Call %s: %v'' [RepStr fn, RepStr (errorString os (re_env re) (Some e))], st2)
                | (CallRet r None _, st2) \<Rightarrow>
                    (Printed (RepParams (case r of Some x \<Rightarrow> x | None \<Rightarrow> [])) 0,
                     (close_quietly (re_ops re) (re_env re) c (fst st2), snd st2)))))"

definition with_sdk :: "os_env \<Rightarrow> 's rt_env \<Rightarrow> ('s call_state \<Rightarrow> cli_result \<times> 's call_state) \<Rightarrow> 's call_state \<Rightarrow> cli_result \<times> 's call_state" where
  "with_sdk os re body st =
     (case ensureSDKOnce (re_ops re) (nw_bs (fst st)) of
        Some e \<Rightarrow> (Failed ''nwrfc CLI requires SDK: %v'' [RepStr (env_text (re_env re) e)], st)
      | None \<Rightarrow> body st)"

definition on_nw :: "('s nw \<Rightarrow> 'a \<times> 's nw) \<Rightarrow> 's call_state \<Rightarrow> 'a \<times> 's call_state" where
  "on_nw f st = (case f (fst st) of (a, n) \<Rightarrow> (a, (n, snd st)))"

definition usage_text :: rep where
  "usage_text = RepText ''Usage: nwrfc <command> [args]'' []"

text \<open>\<open>args\<close> are the arguments after the program name.\<close>

definition cli_main :: "go_string list \<Rightarrow> os_env \<Rightarrow> 's rt_env \<Rightarrow> ctx \<Rightarrow> 's call_state \<Rightarrow> cli_result \<times> 's call_state" where
  "cli_main args os re ctx st =
     (let ops = re_ops re; en = re_env re; report = (\<lambda>(r, code). Printed (RepMap r) code) in
      case args of [] \<Rightarrow> (Printed usage_text 2, st)
      | cmd # rest \<Rightarrow>
          if cmd = ''--version'' \<or> cmd = ''version'' then (cli_version rest ops (nw_bs (fst st)), st)
          else if cmd = ''health'' then (health rest os ops en (nw_bs (fst st)), st)
          else if cmd = ''preflight'' then (case on_nw (preflight os ops en ctx) st of (r, st') \<Rightarrow> (report r, st'))
          else if cmd = ''test-connection'' then
            (case on_nw (testConnectionReport os ops en ctx) st of (r, st') \<Rightarrow> (report r, st'))
          else if cmd = ''ping'' then with_sdk os re (on_nw (cli_ping os ops en ctx)) st
          else if cmd = ''describe'' then with_sdk os re (\<lambda>st. case rest of
              [] \<Rightarrow> (Failed ''usage: nwrfc describe FUNCTION_NAME'' [], st)
            | fn # _ \<Rightarrow> on_nw (cli_describe fn os ops en ctx) st) st
          else if cmd = ''call'' then with_sdk os re (\<lambda>st. case rest of
              [] \<Rightarrow> (Failed ''usage: nwrfc call FUNCTION_NAME [PARAM=VALUE ...]'' [], st)
            | fn # kv \<Rightarrow> cli_call fn kv os re ctx st) st
          else if cmd \<in> {''-h'', ''--help'', ''help''} then (Printed usage_text 0, st)
          else (Failed ''unknown subcommand %q'' [RepStr cmd], st))"


section \<open>What redaction removes\<close>

lemma contains_append: "contains (x @ s @ y) v \<or> \<not> contains s v"
  unfolding contains_iff by (metis append.assoc)

lemma not_contains_parts: "\<not> contains (x @ y) v \<Longrightarrow> \<not> contains x v \<and> \<not> contains y v"
  using contains_append [of "[]" x y v] contains_append [of x y "[]" v] by simp

text \<open>A byte that is not in the string sought keeps its two sides apart.\<close>

lemma contains_barrier:
  assumes "b \<notin> set v" "contains (x @ b # y) v"
  shows "contains x v \<or> contains y v"
proof -
  obtain l r where e: "x @ b # y = l @ v @ r" using assms(2) contains_iff by blast
  then consider (left) z where "x = l @ v @ z" | (right) z where "y = z @ v @ r"
  proof -
    have "length (l @ v) \<le> length x \<or> length x < length l"
    proof (rule ccontr)
      assume "\<not> ?thesis"
      then have i: "length l \<le> length x" "length x - length l < length v" by auto
      have "(x @ b # y) ! length x = b" by simp
      moreover have "(l @ v @ r) ! length x = v ! (length x - length l)" using i by (simp add: nth_append)
      ultimately show False using e i(2) assms(1) by (metis nth_mem)
    qed
    then show thesis
    proof
      assume "length (l @ v) \<le> length x"
      then have "x = l @ v @ drop (length (l @ v)) x"
        using arg_cong [OF e, of "take (length (l @ v))"] append_take_drop_id [of "length (l @ v)" x] by simp
      then show thesis by (rule left)
    next
      assume "length x < length l"
      then obtain n where n: "length l = Suc (length x) + n" by (metis less_iff_Suc_add add_Suc)
      have "y = drop (Suc (length x)) l @ v @ r"
        using arg_cong [OF e, of "drop (Suc (length x))"] n by simp
      then show thesis by (rule right)
    qed
  qed
  then show ?thesis by cases (auto simp: contains_iff)
qed

text \<open>Secrets the placeholder can neither complete nor contain.\<close>

definition plain_secret :: "go_string \<Rightarrow> bool" where
  "plain_secret v \<longleftrightarrow> v \<noteq> [] \<and> is_ascii v \<and> \<not> contains ''redacted'' v"

lemma ascii_byte: "is_ascii v \<Longrightarrow> 128 \<le> (byte_of b :: nat) \<Longrightarrow> b \<notin> set v"
  by (auto simp: is_ascii_def list_all_iff)

lemma placeholder_apart:
  assumes "plain_secret v" "\<not> contains x v" "\<not> contains y v"
  shows "\<not> contains (x @ RedactedPlaceholder @ y) v"
proof
  assume c: "contains (x @ RedactedPlaceholder @ y) v"
  have a: "b \<notin> set v" if "b \<in> {CHR 0xC2, CHR 0xAB, CHR 0xBB}" for b
  proof -
    have "128 \<le> (byte_of b :: nat)" using that by auto
    then show ?thesis using assms(1) ascii_byte unfolding plain_secret_def by blast
  qed
  have e: "x @ RedactedPlaceholder @ y = x @ CHR 0xC2 # ([] @ CHR 0xAB # (''redacted'' @ CHR 0xC2 # ([] @ CHR 0xBB # y)))"
    by (simp add: RedactedPlaceholder_def)
  have n: "\<not> contains [] v" using assms(1) unfolding plain_secret_def by (auto simp: contains_iff)
  show False using c assms n a
    unfolding e plain_secret_def by (metis contains_barrier insert_iff)
qed

lemma replace_keeps_out:
  assumes "plain_secret v"
  shows "\<not> contains (x @ s) v \<Longrightarrow> \<not> contains (x @ replace_all w RedactedPlaceholder s) v"
proof (induction w RedactedPlaceholder s arbitrary: x rule: replace_all.induct)
  case (2 w c s)
  show ?case
  proof (cases "w \<noteq> [] \<and> has_prefix (c # s) w")
    case True
    have "\<not> contains ([] @ drop (length w) (c # s)) v"
      using 2(3) not_contains_parts [of "x @ take (length w) (c # s)" "drop (length w) (c # s)" v] by simp
    from 2(1) [OF True this] show ?thesis
      using True placeholder_apart [OF assms] not_contains_parts [OF 2(3)] by (simp add: replace_all.simps(2))
  next
    case False
    have "\<not> contains ((x @ [c]) @ s) v" using 2(3) by simp
    from 2(2) [OF False this] show ?thesis using False by (auto simp: replace_all.simps(2))
  qed
qed simp

lemma replace_removes:
  "plain_secret v \<Longrightarrow> \<forall>i<length x. \<not> has_prefix (drop i (x @ s)) v \<Longrightarrow>
     \<not> contains (x @ replace_all v RedactedPlaceholder s) v"
proof (induction v RedactedPlaceholder s arbitrary: x rule: replace_all.induct)
  case (1 v)
  show ?case
  proof
    assume "contains (x @ replace_all v RedactedPlaceholder []) v"
    then obtain l r where "x = l @ v @ r" by (auto simp: contains_iff)
    moreover have "v \<noteq> []" using 1(1) unfolding plain_secret_def by blast
    ultimately show False using 1(2) by (auto simp: has_prefix_def dest: spec [of _ "length l"])
  qed
next
  case (2 v c s)
  have v: "v \<noteq> []" using 2(3) unfolding plain_secret_def by blast
  show ?case
  proof (cases "has_prefix (c # s) v")
    case True
    have "\<not> contains x v"
    proof
      assume "contains x v"
      then obtain l r where "x = l @ v @ r" by (auto simp: contains_iff)
      then show False using 2(4) v by (auto simp: has_prefix_def dest: spec [of _ "length l"])
    qed
    moreover have "\<not> contains ([] @ replace_all v RedactedPlaceholder (drop (length v) (c # s))) v"
      using 2(1) [of "[]"] 2(3) True v by simp
    ultimately show ?thesis using placeholder_apart [OF 2(3)] True v by (simp add: replace_all.simps(2))
  next
    case False
    have "\<forall>i<length (x @ [c]). \<not> has_prefix (drop i ((x @ [c]) @ s)) v"
      using 2(4) False by (auto simp: less_Suc_eq)
    from 2(2) [OF _ 2(3) this] show ?thesis using False v by (simp add: replace_all.simps(2))
  qed
qed

definition redact_one :: "os_env \<Rightarrow> go_string \<Rightarrow> go_string \<Rightarrow> go_string" where
  "redact_one os out key =
     (let value = os_Getenv os key in if 4 \<le> length value then replace_all value RedactedPlaceholder out else out)"

lemma redact_foldl: "redactRuntimeSecrets os s = foldl (redact_one os) s redact_keys"
  by (simp add: redactRuntimeSecrets_def redact_one_def [abs_def])

lemma redact_keeps_out: "plain_secret v \<Longrightarrow> \<not> contains s v \<Longrightarrow> \<not> contains (foldl (redact_one os) s ks) v"
  by (induction ks arbitrary: s) (use replace_keeps_out [of v "[]"] in \<open>auto simp: redact_one_def Let_def\<close>)

lemma redact_removes:
  "key \<in> set ks \<Longrightarrow> plain_secret (os_Getenv os key) \<Longrightarrow> 4 \<le> length (os_Getenv os key) \<Longrightarrow>
     \<not> contains (foldl (redact_one os) s ks) (os_Getenv os key)"
proof (induction ks arbitrary: s)
  case (Cons k ks)
  show ?case
  proof (cases "k = key")
    case True
    have "redact_one os s key = replace_all (os_Getenv os key) RedactedPlaceholder s"
      using Cons.prems by (simp add: redact_one_def)
    then have "\<not> contains (redact_one os s key) (os_Getenv os key)"
      using replace_removes [OF Cons.prems(2), of "[]" s] by simp
    from redact_keeps_out [OF Cons.prems(2) this] show ?thesis using True by simp
  next
    case False
    then show ?thesis using Cons by simp
  qed
qed simp

section \<open>What the reports say\<close>

text \<open>The stage of a failed Open or Ping, by the group of the SDK error behind it.\<close>

lemma stage_of_group:
  assumes "rfc_category e = None" "as_sdk e = Some (op, i)"
  shows "fst (classifyConnectionFailure (Some (mapE en e))) =
    (if Group i = GroupCommunicationFailure then stageGatewayReset
     else if Group i = GroupLogonFailure then stageAuthFailed else stagePingFailed)"
  using assms
  by (cases "classifyLogon i")
    (auto simp: classifyConnectionFailure_def Let_def mapE_def mapBackendError_def sdkErrorToTyped_def buildLogonError_def
      GroupLogonFailure_def GroupCommunicationFailure_def GroupAbapApplicationFailure_def GroupAbapRuntimeFailure_def
      GroupExternalAuthorizationFailure_def GroupExternalApplicationFailure_def GroupExternalRuntimeFailure_def)

lemma annotate_keys:
  "map_of (annotateConnectionFailure os en e out) ''ok'' = Some (RepBool False)"
  "map_of (annotateConnectionFailure os en e out) ''stage'' = Some (RepStr (fst (classifyConnectionFailure (Some e))))"
  "map_of (annotateConnectionFailure os en e out) ''error'' = Some (RepStr (redactRuntimeSecrets os (env_text en e)))"
  by (auto simp: annotateConnectionFailure_def put_info_def Let_def split: prod.splits option.splits)

lemma stop_keys:
  "map_of (stop_report c st er out) ''ok'' = Some (RepBool False)"
  "map_of (stop_report c st er out) ''stage'' = Some (RepStr st)"
  by (simp_all add: stop_report_def)

lemma failure_stage: "fst (classifyConnectionFailure (Some e)) \<noteq> stageOK"
  by (simp add: classifyConnectionFailure_def Let_def stages)


section \<open>Properties\<close>

text \<open>C36: A configured secret of at least four ASCII bytes that is not itself part of the word redacted does
  not occur in a redacted text, whatever the text and the other secrets are.\<close>

theorem cli_redacts:
  assumes "key \<in> set redact_keys" "4 \<le> length (os_Getenv os key)" "is_ascii (os_Getenv os key)"
    and "\<not> contains ''redacted'' (os_Getenv os key)"
  shows "\<not> contains (redactRuntimeSecrets os s) (os_Getenv os key)"
proof -
  have "os_Getenv os key \<noteq> []" using assms(2) by auto
  then have "plain_secret (os_Getenv os key)" using assms(3,4) unfolding plain_secret_def by blast
  then show ?thesis unfolding redact_foldl by (rule redact_removes [OF assms(1) _ assms(2)])
qed

theorem cli_redacts_witness:
  "\<not> contains (redactRuntimeSecrets (undefined\<lparr>os_Getenv := \<lambda>k. if k = ''GORFC_TEST_PASSWD'' then ''s3cret'' else []\<rparr>)
      ''logon as DDIC with s3cret failed'') ''s3cret''"
  using cli_redacts [of "''GORFC_TEST_PASSWD''" "undefined\<lparr>os_Getenv := \<lambda>k. if k = ''GORFC_TEST_PASSWD'' then ''s3cret'' else []\<rparr>"]
  by (simp add: redact_keys_def is_ascii_def has_prefix_def)

text \<open>C37: The report of test-connection says ok exactly when the exit code is 0, which is when the stage is
  ok; then the SDK is there, the parameters are complete, and Open and Ping succeeded; a failed Open is
  reported at the stage of its error; and a connection that was opened is closed at the end.\<close>

theorem cli_test_connection:
  assumes "testConnectionReport os ops en ctx st = ((out, code), st')"
  shows "map_of out ''ok'' = Some (RepBool (code = 0)) \<and> code \<in> {0, 1} \<and>
    (map_of out ''stage'' = Some (RepStr stageOK)) = (code = 0) \<and>
    (code = 0) = (ensureSDKOnce ops (nw_bs st) = None \<and> paramsComplete os \<and>
      (case gatewayCoordinates (params_of_env os) of (host, _, port) \<Rightarrow> probeGateway os host port \<noteq> RepBool False) \<and>
      (\<exists>c st1 st2. Open ops en ctx (params_of_env os) st = (Ok c, st1) \<and> conn_Ping ops en ctx c st1 = (None, st2))) \<and>
    (st' = st \<or>
     (\<exists>e. Open ops en ctx (params_of_env os) st = (Err e, st') \<and>
        map_of out ''stage'' = Some (RepStr (fst (classifyConnectionFailure (Some e))))) \<or>
     (\<exists>c st1 st2. Open ops en ctx (params_of_env os) st = (Ok c, st1) \<and> st' = close_quietly ops en c st2))"
proof -
  obtain host service port where g: "gatewayCoordinates (params_of_env os) = (host, service, port)"
    by (cases "gatewayCoordinates (params_of_env os)")
  note t = assms [unfolded testConnectionReport_def Let_def g prod.case]
  show ?thesis
  proof (cases "ensureSDKOnce ops (nw_bs st)")
    case (Some e)
    then show ?thesis using t by (auto simp: stop_keys g stages)
  next
    case None
    note t = t [unfolded None option.case]
    consider "\<not> paramsComplete os" | "paramsComplete os" "probeGateway os host port = RepBool False"
      | "paramsComplete os" "probeGateway os host port \<noteq> RepBool False" by blast
    then show ?thesis
    proof cases
      case 1
      then show ?thesis using t None by (auto simp: stop_keys g stages)
    next
      case 2
      then show ?thesis using t None by (auto simp: stop_keys g stages)
    next
      case 3
      obtain r st1 where o: "Open ops en ctx (params_of_env os) st = (r, st1)" by fastforce
      show ?thesis
      proof (cases r)
        case (Inl e)
        then show ?thesis using t None 3 o failure_stage [of e] by (auto simp: annotate_keys g)
      next
        case (Inr c)
        obtain p st2 where p: "conn_Ping ops en ctx c st1 = (p, st2)" by fastforce
        show ?thesis
        proof (cases p)
          case None
          note sdk = \<open>ensureSDKOnce ops (nw_bs st) = None\<close>
          obtain a st3 where a: "conn_Attributes ops en c st2 = (a, st3)" by fastforce
          show ?thesis using t sdk 3 o Inr p None a
            by (auto simp: g preflightReport_def annotateGatewayCoordinates_def Let_def split: if_splits)
        next
          case (Some e)
          then show ?thesis using t None 3 o Inr p by (auto simp: g annotate_keys stages)
        qed
      qed
    qed
  qed
qed


definition demo_os :: os_env where
  "demo_os = undefined\<lparr>os_Getenv := \<lambda>k. if has_prefix k ''GORFC_TEST_'' then ''x'' else []\<rparr>"

definition demo_ops :: "unit backend" where
  "demo_ops = unregisteredBackend\<lparr>bk_name := ''demo'', bk_version := \<lambda>_. \<lparr>Major = 7, Minor = 50, PatchLevel = 12\<rparr>,
     bk_open := \<lambda>_ _ s. (Ok 1, s), bk_ping := \<lambda>_ _ s. (None, s)\<rparr>"

theorem cli_test_connection_witness:
  "\<forall>en st. \<exists>out st'. testConnectionReport demo_os demo_ops en background st = ((out, 0), st') \<and>
     map_of out ''ok'' = Some (RepBool True) \<and> map_of out ''stage'' = Some (RepStr stageOK)"
proof (intro allI)
  fix en st
  obtain out code st' where r: "testConnectionReport demo_os demo_ops en background st = ((out, code), st')"
    by (metis surj_pair)
  have p: "params_of_env demo_os = empty_params\<lparr>AsHost := ''x'', SysNr := ''x'', Client := ''x'', User := ''x'', Passwd := ''x'', Lang := ''x''\<rparr>"
    by (simp add: params_of_env_def demo_os_def has_prefix_def)
  have sdk: "ensureSDKOnce demo_ops (nw_bs st) = None"
    by (simp add: ensureSDKOnce_def demo_ops_def version_is_zero_def)
  have c: "paramsComplete demo_os" by (simp add: paramsComplete_def p)
  have g: "gatewayCoordinates (params_of_env demo_os) = (''x'', ''sapgwx'', 0)"
    by (simp add: p gatewayCoordinates_def trim_space_keep is_space_def empty_params_def Atoi_def atoi_def is_digit_def Let_def)
  obtain cn st1 where o: "Open demo_ops en background (params_of_env demo_os) st = (Ok cn, st1)" "c_closed cn = False"
    by (simp add: Open_def background_def p validate_def auth_count_def empty_params_def enforceCapabilities_def demo_ops_def with_bs_def
        split: prod.splits)
  obtain st2 where pi: "conn_Ping demo_ops en background cn st1 = (None, st2)"
    using o(2) by (simp add: conn_Ping_def guarded0_def checkOpen_def demo_ops_def with_bs_def split: prod.splits)
  have "code = 0"
    using cli_test_connection [OF r] sdk c g o(1) pi by (auto simp: probeGateway_def)
  then show "\<exists>out st'. testConnectionReport demo_os demo_ops en background st = ((out, 0), st') \<and>
     map_of out ''ok'' = Some (RepBool True) \<and> map_of out ''stage'' = Some (RepStr stageOK)"
    using cli_test_connection [OF r] r by auto
qed

section \<open>Misleading reports\<close>

text \<open>A Ping that fails on the network is reported as a connection that was never opened.\<close>

lemma ping_failure_hides_open:
  "as_comm e = Some (i, h, s) \<Longrightarrow> as_logon e = None \<Longrightarrow>
     map_of (annotateConnectionFailure os en e out) ''connection_opened'' = Some (RepBool False) \<and>
     map_of (annotateConnectionFailure os en e out) ''auth_reached'' = Some (RepBool False)"
  by (simp add: annotateConnectionFailure_def put_info_def Let_def split: prod.splits)

text \<open>An Open that fails with an ABAP runtime error gets the stage, and the advice, of a failed Ping.\<close>

lemma open_failure_as_ping:
  "fst (classifyConnectionFailure (Some (mapE en (SDKErr op i)))) = stagePingFailed"
  if "Group i = GroupAbapRuntimeFailure"
  using stage_of_group [of "SDKErr op i" op i en] that
  by (simp add: GroupAbapRuntimeFailure_def GroupCommunicationFailure_def GroupLogonFailure_def)

text \<open>A preflight whose Ping fails leaves without closing the connection.\<close>

lemma preflight_leaves_open:
  "ensureSDKOnce ops (nw_bs st) = None \<Longrightarrow> paramsComplete os \<Longrightarrow>
     Open ops en ctx (params_of_env os) st = (Ok c, st1) \<Longrightarrow> conn_Ping ops en ctx c st1 = (Some e, st2) \<Longrightarrow>
     \<exists>out. preflight os ops en ctx st = ((out, 1), st2)"
  by (simp add: preflight_def Let_def)

end
