(* ===== verification/Otel.thy ===== *)
theory Otel
  imports Conn
begin

text \<open>
  Log redaction and connection listeners (nwrfcotel/otel.go). A value of \<open>log/slog\<close> is the tree of
  \<open>Backend_Types\<close>; arbitrary values and values that log themselves are its \<open>SlogAny\<close> leaves. The
  handler behind the redacting one and the tracer are arguments, operations over a state.

  The lemmas show that redaction is a projection onto the trees without sensitive entries and that the
  handler behind never receives anything else, and where it stops: at opaque values and group names.
\<close>

section \<open>Redaction\<close>

fun redactAttr :: "'a slog_attr \<Rightarrow> 'a slog_attr" where
  "redactAttr (key, v) =
     (if IsSensitiveKey key then (key, SlogString RedactedPlaceholder)
      else case v of
        SlogGroup as \<Rightarrow> (key, SlogGroup (map redactAttr as))
      | _ \<Rightarrow> (key, v))"

text \<open>What the handler passes on: a record is its message and attributes.\<close>

record ('h, 'a) slog_handler =
  sh_Enabled :: "'h \<Rightarrow> int \<Rightarrow> bool"
  sh_Handle :: "'h \<Rightarrow> go_string \<Rightarrow> 'a slog_attr list \<Rightarrow> goerr option"
  sh_WithAttrs :: "'h \<Rightarrow> 'a slog_attr list \<Rightarrow> 'h"
  sh_WithGroup :: "'h \<Rightarrow> go_string \<Rightarrow> 'h"

datatype 'h redact_handler = RedactHandler 'h

definition Enabled :: "('h, 'a) slog_handler \<Rightarrow> 'h redact_handler \<Rightarrow> int \<Rightarrow> bool" where
  "Enabled sh h level = (case h of RedactHandler inner \<Rightarrow> sh_Enabled sh inner level)"

definition Handle :: "('h, 'a) slog_handler \<Rightarrow> 'h redact_handler \<Rightarrow> go_string \<Rightarrow> 'a slog_attr list \<Rightarrow> goerr option" where
  "Handle sh h msg attrs = (case h of RedactHandler inner \<Rightarrow> sh_Handle sh inner msg (map redactAttr attrs))"

definition WithAttrs :: "('h, 'a) slog_handler \<Rightarrow> 'h redact_handler \<Rightarrow> 'a slog_attr list \<Rightarrow> 'h redact_handler" where
  "WithAttrs sh h attrs = (case h of RedactHandler inner \<Rightarrow> RedactHandler (sh_WithAttrs sh inner (map redactAttr attrs)))"

definition WithGroup :: "('h, 'a) slog_handler \<Rightarrow> 'h redact_handler \<Rightarrow> go_string \<Rightarrow> 'h redact_handler" where
  "WithGroup sh h name = (case h of RedactHandler inner \<Rightarrow> RedactHandler (sh_WithGroup sh inner name))"

section \<open>Listeners\<close>

text \<open>What a logging listener writes: level, message and attributes; \<open>None\<close> when it has no logger.\<close>

definition LevelInfo :: int where "LevelInfo = 0"
definition LevelWarn :: int where "LevelWarn = 4"

definition log_OnConnEvent :: "bool \<Rightarrow> conn_event \<Rightarrow> go_string \<Rightarrow> goerr option \<Rightarrow>
    (int \<times> go_string \<times> goerr option slog_attr list) option" where
  "log_OnConnEvent logger e dest err =
     (if \<not> logger then None
      else Some (if e = EventBroken then LevelWarn else LevelInfo, ''rfc connection event'',
        [(''event'', SlogString (conn_event_String e)), (''dest'', SlogString dest), (''at'', SlogTime),
         (''err'', SlogAny err)]))"

datatype span_call = StartSpan go_string | SetAttribute go_string go_string | SetError goerr | End

definition trace_OnConnEvent :: "bool \<Rightarrow> conn_event \<Rightarrow> go_string \<Rightarrow> goerr option \<Rightarrow> span_call list" where
  "trace_OnConnEvent tracer e dest err =
     (if \<not> tracer then []
      else [StartSpan (''nwrfc.conn.'' @ conn_event_String e), SetAttribute ''nwrfc.dest'' dest] @
        (case err of None \<Rightarrow> []
         | Some x \<Rightarrow> [SetAttribute ''nwrfc.category'' (category_String (CategoryOf x)), SetError x]) @ [End])"

section \<open>Public trees\<close>

fun public :: "'a slog_attr \<Rightarrow> bool" where
  "public (key, v) =
     (if IsSensitiveKey key then v = SlogString RedactedPlaceholder
      else case v of SlogGroup as \<Rightarrow> list_all public as | _ \<Rightarrow> True)"

text \<open>Two attributes that differ at most in the values of sensitive entries.\<close>

fun similar :: "'a slog_attr \<Rightarrow> 'a slog_attr \<Rightarrow> bool" where
  "similar (k, v) (k', v') =
     (k = k' \<and> (IsSensitiveKey k \<or>
        (case v of SlogGroup as \<Rightarrow> (case v' of SlogGroup bs \<Rightarrow> list_all2 similar as bs | _ \<Rightarrow> False)
         | _ \<Rightarrow> v = v')))"

lemma redact_public: "public (redactAttr a)"
  by (induction a rule: redactAttr.induct) (auto simp: list_all_iff split: slog_val.splits)

lemma redact_id: "redactAttr a = a \<longleftrightarrow> public a"
proof (induction a rule: redactAttr.induct)
  case (1 key v)
  show ?case
  proof (cases "IsSensitiveKey key")
    case False
    show ?thesis
    proof (cases v)
      case (SlogGroup as)
      have "map redactAttr as = as \<longleftrightarrow> (\<forall>a\<in>set as. redactAttr a = a)"
        using map_eq_conv [of redactAttr as "\<lambda>a. a"] by simp
      then show ?thesis using 1 [OF False SlogGroup] SlogGroup False by (simp add: list_all_iff)
    qed (use False in simp_all)
  qed auto
qed

lemma redact_similar: "similar a b \<longleftrightarrow> redactAttr a = redactAttr b"
proof (induction a b rule: similar.induct)
  case (1 k v k' v')
  show ?case
  proof (cases "k = k' \<and> \<not> IsSensitiveKey k")
    case True
    show ?thesis
    proof (cases v)
      case (SlogGroup as)
      show ?thesis
      proof (cases v')
        case bs: (SlogGroup bs)
        have e: "similar x y \<longleftrightarrow> redactAttr x = redactAttr y" if "x \<in> set as" "y \<in> set bs" for x y
          using 1 [OF SlogGroup bs that] .
        have "list_all2 similar as bs \<longleftrightarrow> list_all2 (\<lambda>x y. redactAttr x = redactAttr y) as bs"
          by (rule list.rel_cong_simp) (simp_all add: simp_implies_def e del: similar.simps redactAttr.simps)
        then have "list_all2 similar as bs \<longleftrightarrow> map redactAttr as = map redactAttr bs"
          by (simp add: list_all2_map1 list_all2_map2 list.rel_eq flip: list.rel_eq del: similar.simps redactAttr.simps)
        then show ?thesis using True SlogGroup bs by simp
      qed (use True SlogGroup in simp_all)
    qed (use True in \<open>cases v'; auto\<close>)+
  next
    case False
    then show ?thesis by (auto split: slog_val.splits)
  qed
qed


declare similar.simps [simp del] redactAttr.simps [simp del] public.simps [simp del]

lemma similar_list: "list_all2 similar as bs \<longleftrightarrow> map redactAttr bs = map redactAttr as"
  by (auto simp: list_all2_conv_all_nth list_eq_iff_nth_eq redact_similar)

section \<open>Properties\<close>

text \<open>C38: Redaction yields a tree in which every entry with a sensitive key, at any depth, is the placeholder;
  it changes nothing else, so it is idempotent, and it maps two trees to the same one exactly when they
  differ at most below sensitive keys. Hence the handler behind cannot tell such records, or handlers
  derived with such attributes, apart.\<close>

theorem otel_redacts:
  "public (redactAttr a) \<and> (redactAttr a = a) = public a \<and> similar a b = (redactAttr a = redactAttr b) \<and>
   {bs. list_all2 similar as bs} = {bs. map redactAttr bs = map redactAttr as} \<and>
   {bs. list_all2 similar as bs} \<subseteq> {bs. Handle sh h msg bs = Handle sh h msg as \<and> WithAttrs sh h bs = WithAttrs sh h as}"
proof (intro conjI)
  show "{bs. list_all2 similar as bs} \<subseteq> {bs. Handle sh h msg bs = Handle sh h msg as \<and> WithAttrs sh h bs = WithAttrs sh h as}"
    unfolding similar_list by (cases h) (auto simp: Handle_def WithAttrs_def)
qed (simp_all add: redact_public redact_id redact_similar similar_list)

text \<open>Opaque values and the names of groups are not looked at.\<close>

lemma opaque_passes: "\<not> IsSensitiveKey k \<Longrightarrow> redactAttr (k, SlogAny x) = (k, SlogAny x)"
  by (simp add: redactAttr.simps)

lemma group_name_passes:
  "WithGroup sh (RedactHandler inner) name = RedactHandler (sh_WithGroup sh inner name)"
  by (simp add: WithGroup_def)

lemma span_carries_error:
  "SetError e \<in> set (trace_OnConnEvent True ev dest (Some e))"
  by (simp add: trace_OnConnEvent_def)

end
