(* ===== verification/Language.thy ===== *)
theory Language
  imports Sdk_Invoke Conn
begin

text \<open>
  Language codes and the INI path: the conversions of sdkbackend/lang.go and sdkbackend/ini.go over the
  C library, and the process-wide functions of nwrfc/utility.go that hand the request to the backend when it
  has the interface. The four SDK functions are arguments; an output buffer is the list of code units in
  it, zeroed before the call, of which the SDK writes the first ones.

  The lemmas show what is asked of the SDK and that the result is read within the buffer.
\<close>

section \<open>The backend\<close>

type_synonym 'c lang_call = "go_string \<Rightarrow> 'c \<Rightarrow> (sdk_error_info, uc) result \<times> 'c"

text \<open>\<open>goStrlenU\<close>: the units before the first zero.\<close>

definition sapUCToString :: "'c sdk \<Rightarrow> uc \<Rightarrow> ('c, go_string) act" where
  "sapUCToString k out = sapUCNToString k (takeWhile (\<lambda>u. u \<noteq> 0) out)"

text \<open>A buffer of \<open>n\<close> zero units after the SDK wrote \<open>us\<close> to its front.\<close>

definition written :: "nat \<Rightarrow> uc \<Rightarrow> uc" where
  "written n us = take n (us @ replicate n 0)"

definition sdk_LanguageISOToSAP :: "'c sdk \<Rightarrow> (go_string \<Rightarrow> go_string) \<Rightarrow> 'c lang_call \<Rightarrow> go_string \<Rightarrow> ('c, go_string) act" where
  "sdk_LanguageISOToSAP k quote RfcLanguageIsoToSap code =
     (if length code \<noteq> 2
      then failA (Fail (PlainErr (''nwrfc/sdkbackend: ISO language code must be 2 characters, got '' @ quote code)))
      else bindA (stringToSAPUC k code) (\<lambda>isoUC.
           bindA (call (''RfcLanguageIsoToSap('' @ code @ '')'') (RfcLanguageIsoToSap isoUC)) (\<lambda>us.
             sapUCToString k (written 2 us))))"

definition sdk_LanguageSAPToISO :: "'c sdk \<Rightarrow> (go_string \<Rightarrow> go_string) \<Rightarrow> 'c lang_call \<Rightarrow> go_string \<Rightarrow> ('c, go_string) act" where
  "sdk_LanguageSAPToISO k quote RfcLanguageSapToIso sap =
     (if length sap \<noteq> 1
      then failA (Fail (PlainErr (''nwrfc/sdkbackend: SAP language code must be 1 character, got '' @ quote sap)))
      else bindA (stringToSAPUC k sap) (\<lambda>sapUC.
           bindA (call (''RfcLanguageSapToIso('' @ sap @ '')'') (RfcLanguageSapToIso sapUC)) (\<lambda>us.
             sapUCToString k (written 3 us))))"

definition sdk_SetIniPath :: "'c sdk \<Rightarrow> (go_string \<Rightarrow> 'c \<Rightarrow> (sdk_error_info, unit) result \<times> 'c) \<Rightarrow> go_string \<Rightarrow> ('c, unit) act" where
  "sdk_SetIniPath k RfcSetIniPath dir =
     bindA (stringToSAPUC k dir) (\<lambda>dirUC. call ''RfcSetIniPath'' (RfcSetIniPath dirUC))"

definition sdk_ReloadIniFile :: "('c \<Rightarrow> (sdk_error_info, unit) result \<times> 'c) \<Rightarrow> ('c, unit) act" where
  "sdk_ReloadIniFile RfcReloadIniFile = call ''RfcReloadIniFile'' RfcReloadIniFile"

section \<open>The client\<close>

text \<open>\<open>None\<close> is a backend without the interface.\<close>

definition optional_op :: "'s backend \<Rightarrow> go_string \<Rightarrow> ('s, 'a) op option \<Rightarrow> 's nw \<Rightarrow> (goerr, 'a) result \<times> 's nw" where
  "optional_op ops feature f st = (case f of
     None \<Rightarrow> (Err (unsupported ops feature st), st)
   | Some g \<Rightarrow> with_bs g st)"

definition LanguageISOToSAP :: "'s backend \<Rightarrow> (go_string \<Rightarrow> ('s, go_string) op) option \<Rightarrow> go_string \<Rightarrow> 's nw \<Rightarrow> (goerr, go_string) result \<times> 's nw" where
  "LanguageISOToSAP ops conv code = optional_op ops ''LanguageISOToSAP'' (map_option (\<lambda>f. f code) conv)"

definition LanguageSAPToISO :: "'s backend \<Rightarrow> (go_string \<Rightarrow> ('s, go_string) op) option \<Rightarrow> go_string \<Rightarrow> 's nw \<Rightarrow> (goerr, go_string) result \<times> 's nw" where
  "LanguageSAPToISO ops conv sap = optional_op ops ''LanguageSAPToISO'' (map_option (\<lambda>f. f sap) conv)"

definition LoadCryptoLibrary :: "'s backend \<Rightarrow> (go_string \<Rightarrow> ('s, unit) op) option \<Rightarrow> go_string \<Rightarrow> 's nw \<Rightarrow> (goerr, unit) result \<times> 's nw" where
  "LoadCryptoLibrary ops cl path = optional_op ops ''LoadCryptoLibrary'' (map_option (\<lambda>f. f path) cl)"

definition SetIniPath :: "'s backend \<Rightarrow> (go_string \<Rightarrow> ('s, unit) op) option \<Rightarrow> go_string \<Rightarrow> 's nw \<Rightarrow> (goerr, unit) result \<times> 's nw" where
  "SetIniPath ops r dir = optional_op ops ''SetIniPath'' (map_option (\<lambda>f. f dir) r)"

definition ReloadIniFile :: "'s backend \<Rightarrow> ('s, unit) op option \<Rightarrow> 's nw \<Rightarrow> (goerr, unit) result \<times> 's nw" where
  "ReloadIniFile ops r = optional_op ops ''ReloadIniFile'' r"

section \<open>Lemmas\<close>

lemma length_written: "length (written n us) = n"
  by (simp add: written_def)

text \<open>A result that fits is followed by a zero unit, so it is read as it was written.\<close>

lemma written_read:
  assumes "length us < n" "0 \<notin> set us"
  shows "takeWhile (\<lambda>u. u \<noteq> 0) (written n us) = us"
proof -
  obtain m where n: "n = length us + Suc m" using less_imp_Suc_add [OF assms(1)] by auto
  have "written n us = us @ 0 # replicate m 0"
    unfolding written_def n by simp
  then show ?thesis using assms(2) by (auto simp: takeWhile_tail)
qed

text \<open>The checks of the length come before any call of the library.\<close>

lemma language_length_checked:
  "length code \<noteq> 2 \<Longrightarrow> snd (sdk_LanguageISOToSAP k q f code s) = s"
  "length sap \<noteq> 1 \<Longrightarrow> snd (sdk_LanguageSAPToISO k q g sap s) = s"
  by (simp_all add: sdk_LanguageISOToSAP_def sdk_LanguageSAPToISO_def failA_def)

text \<open>Two bytes are not two characters: the check passes for one two-byte letter.\<close>

lemma language_bytes:
  "length (encode_rune 228) = 2"
  by (simp add: encode_rune_def encode_bytes_def)

end
