(* ===== verification/Pool_Conn.thy ===== *)
theory Pool_Conn
  imports Pool Call Sdk_Backend
begin

text \<open>
  The connection pool (\<open>nwrfc/pool.go\<close>) over the connections it manages (\<open>nwrfc/conn.go\<close>).

  \<open>Pool\<close> numbers the connections and takes the outcome of every call out of the pool from its events.
  Here the two are put together: a world has the pool, the connection object behind each number, and the
  state the connections share; a step of the pool runs \<open>Open\<close>, \<open>Reset\<close> and \<open>Close\<close> where the code does,
  and sees the liveness the objects have. The callers use the connections between the steps, also after
  they have given them back.

  The lemmas relate the pool to the backend: over every backend that meets its contract the connections
  the backend holds are those of the pool that are not closed, and \<open>Pool.Close\<close> gives all of them back.
\<close>

section \<open>The world\<close>

record 's pool_env =
  pl_cfg :: pool_config
  pl_params :: params
  pl_rt :: "'s rt_env"

record 's pool_world =
  pw_pool :: pool
  pw_conns :: "nat \<Rightarrow> conn"
  pw_nw :: "'s nw"
  pw_tps :: "nat \<Rightarrow> throughput"

definition conn_alive :: "'s pool_world \<Rightarrow> nat \<Rightarrow> bool" where
  "conn_alive w c \<longleftrightarrow> Alive (pw_conns w c)"

text \<open>The pool asks the connections whether they are alive.\<close>

fun with_alive :: "(nat \<Rightarrow> bool) \<Rightarrow> event \<Rightarrow> event" where
  "with_alive alive (DoValidate t _ now) = DoValidate t alive now"
| "with_alive alive (CallRelease t c d _ now) = CallRelease t c d (alive c) now"
| "with_alive alive (CleanupTick t _ now) = CleanupTick t alive now"
| "with_alive alive ev = ev"

text \<open>Events whose outcome is that of a call to a connection.\<close>

fun calls_out :: "event \<Rightarrow> bool" where
  "calls_out (DoOpen _ _) = True"
| "calls_out (WarmOpen _) = True"
| "calls_out (DoReset _ _) = True"
| "calls_out _ = False"

text \<open>The connections a step closes, and closing them.\<close>

definition newly_closed :: "pool \<Rightarrow> pool \<Rightarrow> nat list" where
  "newly_closed p q = take (length (closedConns q) - length (closedConns p)) (closedConns q)"

definition close_one :: "'s pool_env \<Rightarrow> nat \<Rightarrow> 's pool_world \<Rightarrow> 's pool_world" where
  "close_one E c w =
     (case conn_Close (re_ops (pl_rt E)) (re_env (pl_rt E)) (pw_conns w c) (pw_nw w) of
        (_, k, st) \<Rightarrow> w\<lparr>pw_conns := (pw_conns w)(c := k), pw_nw := st\<rparr>)"

definition pool_moves :: "'s pool_env \<Rightarrow> event \<Rightarrow> 's pool_world \<Rightarrow> 's pool_world option" where
  "pool_moves E ev w =
     map_option (\<lambda>q. fold (close_one E) (newly_closed (pw_pool w) q) (w\<lparr>pw_pool := q\<rparr>))
       (pool_step (pl_cfg E) ev (pw_pool w))"

definition open_by_pool :: "'s pool_env \<Rightarrow> ctx \<Rightarrow> (bool \<Rightarrow> event) \<Rightarrow> 's pool_world \<Rightarrow> (goerr option \<times> 's pool_world) option" where
  "open_by_pool E ctx ev w =
     (case Open (re_ops (pl_rt E)) (re_env (pl_rt E)) ctx (pl_params E) (pw_nw w) of
        (Inl e, st) \<Rightarrow> map_option (\<lambda>q. (Some e, w\<lparr>pw_pool := q, pw_nw := st\<rparr>)) (pool_step (pl_cfg E) (ev False) (pw_pool w))
      | (Inr k, st) \<Rightarrow> map_option
          (\<lambda>q. (None, w\<lparr>pw_pool := q, pw_nw := st, pw_conns := (pw_conns w)(nextConn (pw_pool w) := k)\<rparr>))
          (pool_step (pl_cfg E) (ev True) (pw_pool w)))"

definition reset_by_pool :: "'s pool_env \<Rightarrow> ctx \<Rightarrow> nat \<Rightarrow> nat \<Rightarrow> 's pool_world \<Rightarrow> (goerr option \<times> 's pool_world) option" where
  "reset_by_pool E ctx t c w =
     (case conn_Reset (re_ops (pl_rt E)) (re_env (pl_rt E)) ctx (pw_conns w c) (pw_nw w) of
        (r, st) \<Rightarrow> map_option (\<lambda>q. (r, w\<lparr>pw_pool := q, pw_nw := st\<rparr>))
          (pool_step (pl_cfg E) (DoReset t (r = None)) (pw_pool w)))"

text \<open>What the owner of a connection does with it.\<close>

datatype conn_use =
    UsePing ctx
  | UseReset ctx
  | UseDescribe ctx go_string
  | UseCall ctx go_string call_params "call_options list"
  | UseClose

fun use_conn :: "'s pool_env \<Rightarrow> conn_use \<Rightarrow> nat \<Rightarrow> 's pool_world \<Rightarrow> 's pool_world" where
  "use_conn E (UsePing ctx) c w =
     w\<lparr>pw_nw := snd (conn_Ping (re_ops (pl_rt E)) (re_env (pl_rt E)) ctx (pw_conns w c) (pw_nw w))\<rparr>"
| "use_conn E (UseReset ctx) c w =
     w\<lparr>pw_nw := snd (conn_Reset (re_ops (pl_rt E)) (re_env (pl_rt E)) ctx (pw_conns w c) (pw_nw w))\<rparr>"
| "use_conn E (UseDescribe ctx fn) c w =
     w\<lparr>pw_nw := snd (conn_Describe (re_ops (pl_rt E)) (re_env (pl_rt E)) ctx (pw_conns w c) fn (pw_nw w))\<rparr>"
| "use_conn E (UseCall ctx fn m opts) c w =
     (case snd (CallMap (pl_rt E) ctx (Some (pw_conns w c)) fn m opts (pw_nw w, pw_tps w)) of
        (st, tps) \<Rightarrow> w\<lparr>pw_nw := st, pw_tps := tps\<rparr>)"
| "use_conn E UseClose c w = close_one E c w"

text \<open>One step of the world. A connection can be used once it has been opened.\<close>

datatype world_event =
    PoolStep event
  | OpenStep nat ctx
  | WarmStep ctx
  | ResetStep nat ctx
  | UseStep nat conn_use

fun world_step :: "'s pool_env \<Rightarrow> world_event \<Rightarrow> 's pool_world \<Rightarrow> 's pool_world option" where
  "world_step E (PoolStep ev) w = (if calls_out ev then None else pool_moves E (with_alive (conn_alive w) ev) w)"
| "world_step E (OpenStep t ctx) w = map_option snd (open_by_pool E ctx (DoOpen t) w)"
| "world_step E (WarmStep ctx) w = map_option snd (open_by_pool E ctx WarmOpen w)"
| "world_step E (ResetStep t ctx) w =
     (if t < length (procs (pw_pool w))
      then (case procs (pw_pool w) ! t of
              Resetting e \<Rightarrow> map_option snd (reset_by_pool E ctx t (pe_conn e) w) | _ \<Rightarrow> None)
      else None)"
| "world_step E (UseStep c u) w = (if c < nextConn (pw_pool w) then Some (use_conn E u c w) else None)"

fun world_run :: "'s pool_env \<Rightarrow> world_event list \<Rightarrow> 's pool_world \<Rightarrow> 's pool_world option" where
  "world_run E [] w = Some w"
| "world_run E (e # es) w = (case world_step E e w of None \<Rightarrow> None | Some v \<Rightarrow> world_run E es v)"

text \<open>\<open>room\<close> of the backend holds before every step.\<close>

fun world_room :: "'s pool_env \<Rightarrow> ('s \<Rightarrow> bool) \<Rightarrow> world_event list \<Rightarrow> 's pool_world \<Rightarrow> bool" where
  "world_room E room [] w = True"
| "world_room E room (e # es) w =
     (room (nw_bs (pw_nw w)) \<and> (case world_step E e w of None \<Rightarrow> True | Some v \<Rightarrow> world_room E room es v))"

definition fresh_world :: "nat \<Rightarrow> 's nw \<Rightarrow> (nat \<Rightarrow> throughput) \<Rightarrow> (nat \<Rightarrow> conn) \<Rightarrow> 's pool_world" where
  "fresh_world n st tps cs = \<lparr>pw_pool = new_pool n, pw_conns = cs, pw_nw = st, pw_tps = tps\<rparr>"

section \<open>The pool's side\<close>

lemma step_next:
  assumes "pool_step cfg ev p = Some q" "\<not> calls_out ev"
  shows "nextConn q = nextConn p"
  using assms by (cases ev) (auto simp: step_defs split: if_splits pc.splits option.splits list.splits chan.splits warm_pc.splits)

lemma step_closed:
  assumes "pool_step cfg ev p = Some q"
  shows "\<exists>cs. closedConns q = cs @ closedConns p"
  using assms by (cases ev) (auto simp: step_defs split: if_splits pc.splits option.splits list.splits chan.splits warm_pc.splits)

lemma step_open:
  "pool_step cfg (DoOpen t r) p = Some q \<Longrightarrow>
     nextConn q = (if r then Suc (nextConn p) else nextConn p) \<and> closedConns q = closedConns p"
  "pool_step cfg (WarmOpen r) p = Some q \<Longrightarrow>
     nextConn q = (if r then Suc (nextConn p) else nextConn p) \<and> closedConns q = closedConns p"
  by (auto simp: step_defs split: if_splits warm_pc.splits)

lemma step_reset:
  "pool_step cfg (DoReset t r) p = Some q \<Longrightarrow> nextConn q = nextConn p \<and> closedConns q = closedConns p"
  by (auto simp: set_pc_def split: if_splits pc.splits)

lemma newly_closed:
  assumes "pool_step cfg ev p = Some q"
  shows "closedConns q = newly_closed p q @ closedConns p"
  using step_closed [OF assms] by (auto simp: newly_closed_def)

lemma with_alive_calls_out [simp]: "calls_out (with_alive alive ev) = calls_out ev"
  by (cases ev) simp_all

lemma closed_below:
  assumes "reachable cfg p" "c \<in> set (closedConns p)"
  shows "c < nextConn p"
proof (rule ccontr)
  assume "\<not> c < nextConn p"
  moreover have "conn_occ c p = (if c < nextConn p then 1 else 0)"
    using reachable_inv [OF assms(1)] by (simp add: pool_inv_def)
  moreover have "0 \<le> occ c (idle p)" "0 \<le> occ c (checkedOut p)" "0 \<le> (\<Sum>x\<leftarrow>procs p. pc_occ c x)"
    "0 \<le> (\<Sum>x\<leftarrow>chans p. chan_occ c x)" "0 \<le> warm_occ c (warm p)"
    by (simp_all add: sum_list_nonneg_int)
  moreover have "0 < count_list (closedConns p) c" using assms(2) by (simp add: count_list_0_iff zero_less_iff_neq_zero)
  ultimately show False unfolding conn_occ_def by (smt (verit) of_nat_0_less_iff)
qed

section \<open>The backend's side\<close>

text \<open>The connections that are open, and what the invariant says: the valid handles are those that were
  valid before (\<open>base\<close>) and one for each open connection, and what the pool has closed is closed.\<close>

definition open_conns :: "'s pool_world \<Rightarrow> nat set" where
  "open_conns w = {c. c < nextConn (pw_pool w) \<and> Alive (pw_conns w c)}"

definition world_inv ::
    "('s \<Rightarrow> handle \<Rightarrow> bool) \<Rightarrow> ('s \<Rightarrow> bool) \<Rightarrow> (handle \<Rightarrow> bool) \<Rightarrow> 's pool_world \<Rightarrow> bool" where
  "world_inv live ok base w \<longleftrightarrow> ok (nw_bs (pw_nw w)) \<and>
     (\<forall>h. live (nw_bs (pw_nw w)) h \<longleftrightarrow> base h \<or> (\<exists>c \<in> open_conns w. c_handle (pw_conns w c) = h)) \<and>
     inj_on (\<lambda>c. c_handle (pw_conns w c)) (open_conns w) \<and>
     (\<forall>c \<in> open_conns w. \<not> base (c_handle (pw_conns w c)))"

definition closed_are_closed :: "'s pool_world \<Rightarrow> bool" where
  "closed_are_closed w \<longleftrightarrow> (\<forall>c \<in> set (closedConns (pw_pool w)). \<not> Alive (pw_conns w c))"

lemma close_one_frame [simp]: "pw_pool (close_one E c w) = pw_pool w"
  by (simp add: close_one_def split: prod.splits)

lemma close_many_frame [simp]: "pw_pool (fold (close_one E) cs w) = pw_pool w"
  by (induction cs arbitrary: w) simp_all

lemma close_one_alive: "Alive (pw_conns (close_one E c w) d) \<longleftrightarrow> d \<noteq> c \<and> Alive (pw_conns w d)"
  using Close_closes [of "re_ops (pl_rt E)" "re_env (pl_rt E)" "pw_conns w c" "pw_nw w"]
  by (auto simp: close_one_def Alive_def split: prod.splits)

lemma close_many_alive: "Alive (pw_conns (fold (close_one E) cs w) d) \<longleftrightarrow> d \<notin> set cs \<and> Alive (pw_conns w d)"
  by (induction cs arbitrary: w) (auto simp: close_one_alive)

lemma close_one_handle [simp]: "c_handle (pw_conns (close_one E c w) d) = c_handle (pw_conns w d)"
  by (auto simp: close_one_def conn_Close_def Let_def split: prod.splits option.splits if_splits)

context backend_contract
begin

lemma guarded0_keeps:
  assumes "ok (nw_bs st)" "\<And>r s. f (nw_bs st) = (r, s) \<Longrightarrow> ok s \<and> live s = live (nw_bs st)"
  shows "ok (nw_bs (snd (guarded0 en c f st))) \<and> live (nw_bs (snd (guarded0 en c f st))) = live (nw_bs st)"
  using assms by (cases "f (nw_bs st)") (auto simp: guarded0_def with_bs_def split: option.split)

lemma guarded_keeps:
  assumes "ok (nw_bs st)" "\<And>r s. f (nw_bs st) = (r, s) \<Longrightarrow> ok s \<and> live s = live (nw_bs st)"
  shows "ok (nw_bs (snd (guarded en c f st))) \<and> live (nw_bs (snd (guarded en c f st))) = live (nw_bs st)"
proof -
  obtain r s where f: "f (nw_bs st) = (r, s)" by force
  then show ?thesis using assms(1) assms(2) [OF f] by (cases r) (auto simp: guarded_def with_bs_def split: option.split)
qed

lemma use_keeps_backend:
  assumes "ok (nw_bs st)"
  shows "ok (nw_bs (snd (conn_Ping ops en ctx c st))) \<and> live (nw_bs (snd (conn_Ping ops en ctx c st))) = live (nw_bs st)"
    and "ok (nw_bs (snd (conn_Reset ops en ctx c st))) \<and> live (nw_bs (snd (conn_Reset ops en ctx c st))) = live (nw_bs st)"
    and "ok (nw_bs (snd (conn_Describe ops en ctx c fn st))) \<and>
      live (nw_bs (snd (conn_Describe ops en ctx c fn st))) = live (nw_bs st)"
  unfolding conn_Ping_def conn_Reset_def conn_Describe_def
  by (rule guarded0_keeps guarded_keeps, rule assms, erule keeps_live [OF assms])+

lemma CallMap_keeps_backend:
  assumes "ok (nw_bs (fst st))" "re_ops re = ops"
  shows "ok (nw_bs (fst (snd (CallMap re ctx (Some c) fn m opts st)))) \<and>
    live (nw_bs (fst (snd (CallMap re ctx (Some c) fn m opts st)))) = live (nw_bs (fst st))"
proof (cases "Alive c")
  case True
  obtain q s where i: "bk_invoke ops ctx (c_handle c) fn m (toBackend (first_option opts)) (nw_bs (fst st)) = (q, s)"
    by force
  have "ok s \<and> live s = live (nw_bs (fst st))" using invoke_live [OF assms(1) i] .
  then show ?thesis using True i assms(2) by (cases q) (simp_all add: CallMap_invokes)
qed (use assms in \<open>simp add: CallMap_def Call_refused\<close>)

lemma close_one_inv:
  assumes "world_inv live ok base w" "re_ops (pl_rt E) = ops" "c < nextConn (pw_pool w)"
  shows "world_inv live ok base (close_one E c w)"
proof (cases "Alive (pw_conns w c)")
  case True
  obtain e k st where cl: "conn_Close ops (re_env (pl_rt E)) (pw_conns w c) (pw_nw w) = (e, k, st)"
    using prod_cases3 by blast
  have st: "nw_bs (pw_nw (close_one E c w)) = nw_bs st" using cl assms(2) by (simp add: close_one_def)
  have "open_conns (close_one E c w) = open_conns w - {c}" by (auto simp: open_conns_def close_one_alive)
  moreover have "c \<in> open_conns w" using True assms(3) by (simp add: open_conns_def)
  moreover have "ok (nw_bs st) \<and> (\<forall>h. live (nw_bs st) h \<longleftrightarrow> h \<noteq> c_handle (pw_conns w c) \<and> live (nw_bs (pw_nw w)) h)"
    using Close_live [OF _ _ cl] True assms(1) by (simp add: world_inv_def Alive_def)
  ultimately show ?thesis using assms(1) unfolding world_inv_def st by (auto simp: inj_on_def)
next
  case False
  then have "close_one E c w = w\<lparr>pw_conns := (pw_conns w)(c := pw_conns w c), pw_nw := pw_nw w\<rparr>"
    by (simp add: close_one_def conn_Close_def Alive_def)
  then show ?thesis using assms(1) by simp
qed

lemma close_many_inv:
  "world_inv live ok base w \<Longrightarrow> re_ops (pl_rt E) = ops \<Longrightarrow> \<forall>c \<in> set cs. c < nextConn (pw_pool w) \<Longrightarrow>
   world_inv live ok base (fold (close_one E) cs w)"
  by (induction cs arbitrary: w) (simp_all add: close_one_inv)

lemma open_by_pool_inv:
  assumes "world_inv live ok base w" "re_ops (pl_rt E) = ops" "room (nw_bs (pw_nw w))"
    and "open_by_pool E ctx ev w = Some (r, v)"
    and next_conn: "\<And>b q. pool_step (pl_cfg E) (ev b) (pw_pool w) = Some q \<Longrightarrow>
      nextConn q = (if b then Suc (nextConn (pw_pool w)) else nextConn (pw_pool w))"
  shows "world_inv live ok base v"
proof -
  define st0 where "st0 = pw_nw w"
  have ok: "ok (nw_bs st0)" "room (nw_bs st0)" using assms(1,3) by (simp_all add: world_inv_def st0_def)
  obtain x st where o: "Open ops (re_env (pl_rt E)) ctx (pl_params E) st0 = (x, st)" by force
  show ?thesis
  proof (cases x)
    case (Inl e)
    obtain q where q: "pool_step (pl_cfg E) (ev False) (pw_pool w) = Some q" "v = w\<lparr>pw_pool := q, pw_nw := st\<rparr>"
      using assms(2,4) o Inl by (auto simp: open_by_pool_def st0_def)
    have "open_conns v = open_conns w" using next_conn [OF q(1)] q(2) by (simp add: open_conns_def)
    moreover have "ok (nw_bs st) \<and> live (nw_bs st) = live (nw_bs st0)"
      using Open_failed [OF ok] o Inl by blast
    ultimately show ?thesis using assms(1) q(2) by (simp add: world_inv_def st0_def)
  next
    case (Inr k)
    define n where "n = nextConn (pw_pool w)"
    obtain q where q: "pool_step (pl_cfg E) (ev True) (pw_pool w) = Some q"
      "v = w\<lparr>pw_pool := q, pw_nw := st, pw_conns := (pw_conns w)(n := k)\<rparr>"
      using assms(2,4) o Inr by (auto simp: open_by_pool_def st0_def n_def)
    have lv: "\<not> c_closed k" "ok (nw_bs st)" "\<not> live (nw_bs st0) (c_handle k)"
      "live (nw_bs st) h \<longleftrightarrow> h = c_handle k \<or> live (nw_bs st0) h" for h
      using Open_live [OF ok] o Inr by blast+
    have oc: "open_conns v = insert n (open_conns w)" "n \<notin> open_conns w"
      using next_conn [OF q(1)] q(2) lv(1) by (auto simp: open_conns_def Alive_def n_def)
    have h: "c_handle (pw_conns v c) = (if c = n then c_handle k else c_handle (pw_conns w c))" for c
      using q(2) by simp
    have "\<forall>c \<in> open_conns w. live (nw_bs st0) (c_handle (pw_conns w c))" "base x \<Longrightarrow> live (nw_bs st0) x" for x
      using assms(1) by (auto simp: world_inv_def st0_def)
    then have "c_handle k \<noteq> c_handle (pw_conns w c)" if "c \<in> open_conns w" for c using that lv(3) by auto
    then show ?thesis using assms(1) lv oc q(2) \<open>\<And>x. base x \<Longrightarrow> live (nw_bs st0) x\<close>
      unfolding world_inv_def by (auto simp: h st0_def inj_on_def)
  qed
qed

lemma use_conn_inv:
  assumes "world_inv live ok base w" "re_ops (pl_rt E) = ops" "c < nextConn (pw_pool w)"
  shows "world_inv live ok base (use_conn E u c w)"
proof -
  have ok: "ok (nw_bs (pw_nw w))" using assms(1) by (simp add: world_inv_def)
  have frame: "world_inv live ok base (w\<lparr>pw_nw := st\<rparr>)" "world_inv live ok base (w\<lparr>pw_nw := st, pw_tps := tps\<rparr>)"
    if "ok (nw_bs st) \<and> live (nw_bs st) = live (nw_bs (pw_nw w))" for st tps
    using that assms(1) by (auto simp: world_inv_def open_conns_def)
  show ?thesis
  proof (cases u)
    case (UseCall ctx fn m opts)
    obtain st tps where r: "snd (CallMap (pl_rt E) ctx (Some (pw_conns w c)) fn m opts (pw_nw w, pw_tps w)) = (st, tps)"
      by force
    then have "ok (nw_bs st) \<and> live (nw_bs st) = live (nw_bs (pw_nw w))"
      using CallMap_keeps_backend [of "(pw_nw w, pw_tps w)" "pl_rt E" ctx "pw_conns w c" fn m opts] ok assms(2) by simp
    then show ?thesis using frame(2) r UseCall by simp
  qed (simp_all add: assms close_one_inv frame(1) use_keeps_backend [OF ok])
qed

lemma pool_moves_inv:
  assumes "world_inv live ok base w" "re_ops (pl_rt E) = ops" "reachable (pl_cfg E) (pw_pool w)"
    and "\<not> calls_out ev" "pool_moves E ev w = Some v"
  shows "world_inv live ok base v"
proof -
  obtain q where q: "pool_step (pl_cfg E) ev (pw_pool w) = Some q"
    "v = fold (close_one E) (newly_closed (pw_pool w) q) (w\<lparr>pw_pool := q\<rparr>)"
    using assms(5) by (auto simp: pool_moves_def)
  have "reachable (pl_cfg E) q" using assms(3) q(1) by (rule reachable.step)
  then have "\<forall>c \<in> set (newly_closed (pw_pool w) q). c < nextConn q"
    using closed_below newly_closed [OF q(1)] by simp
  moreover have "world_inv live ok base (w\<lparr>pw_pool := q\<rparr>)"
    using assms(1) step_next [OF q(1) assms(4)] by (simp add: world_inv_def open_conns_def)
  ultimately show ?thesis using close_many_inv [of base "w\<lparr>pw_pool := q\<rparr>" E] assms(2) q(2) by simp
qed

lemma world_step_inv:
  assumes "world_inv live ok base w" "re_ops (pl_rt E) = ops" "room (nw_bs (pw_nw w))"
    and "reachable (pl_cfg E) (pw_pool w)" "world_step E e w = Some v"
  shows "world_inv live ok base v"
proof (cases e)
  case (PoolStep ev)
  then show ?thesis using pool_moves_inv [OF assms(1,2,4), of "with_alive (conn_alive w) ev" v] assms(5) by (simp split: if_splits)
next
  case (OpenStep t ctx)
  then obtain r where "open_by_pool E ctx (DoOpen t) w = Some (r, v)" using assms(5) by auto
  from open_by_pool_inv [OF assms(1-3) this] show ?thesis using step_open(1) by blast
next
  case (WarmStep ctx)
  then obtain r where "open_by_pool E ctx WarmOpen w = Some (r, v)" using assms(5) by auto
  from open_by_pool_inv [OF assms(1-3) this] show ?thesis using step_open(2) by blast
next
  case (ResetStep t ctx)
  then obtain c r where "reset_by_pool E ctx t c w = Some (r, v)"
    using assms(5) by (auto split: if_splits pc.splits)
  then obtain q st where q: "pool_step (pl_cfg E) (DoReset t (r = None)) (pw_pool w) = Some q"
    "conn_Reset ops (re_env (pl_rt E)) ctx (pw_conns w c) (pw_nw w) = (r, st)" "v = w\<lparr>pw_pool := q, pw_nw := st\<rparr>"
    using assms(2) by (auto simp: reset_by_pool_def simp del: pool_step.simps split: prod.splits)
  then show ?thesis
    using assms(1) use_keeps_backend(2) [of "pw_nw w" "re_env (pl_rt E)" ctx "pw_conns w c"] step_reset [OF q(1)]
    by (simp add: world_inv_def open_conns_def)
next
  case (UseStep c u)
  then show ?thesis using use_conn_inv [OF assms(1,2), of c u] assms(5) by (simp split: if_splits)
qed

end

section \<open>Runs\<close>

lemma world_step_pool:
  assumes "world_step E e w = Some v"
  shows "pw_pool v = pw_pool w \<or> (\<exists>ev. pool_step (pl_cfg E) ev (pw_pool w) = Some (pw_pool v))"
proof (cases e)
  case (UseStep c u)
  then show ?thesis using assms by (cases u) (auto split: if_splits prod.splits)
qed (use assms in \<open>auto simp: pool_moves_def open_by_pool_def reset_by_pool_def simp del: pool_step.simps
      split: if_splits pc.splits prod.splits sum.splits\<close>)

lemma world_step_reachable:
  "reachable (pl_cfg E) (pw_pool w) \<Longrightarrow> world_step E e w = Some v \<Longrightarrow> reachable (pl_cfg E) (pw_pool v)"
  using world_step_pool [of E e w v] by (auto intro: reachable.step)

lemma world_run_reachable:
  "reachable (pl_cfg E) (pw_pool w) \<Longrightarrow> world_run E es w = Some v \<Longrightarrow> reachable (pl_cfg E) (pw_pool v)"
  by (induction es arbitrary: w) (auto split: option.splits intro: world_step_reachable)

lemma use_conn_closed: "closed_are_closed w \<Longrightarrow> closed_are_closed (use_conn E u c w)"
  by (cases u) (auto simp: closed_are_closed_def close_one_alive split: prod.splits)

lemma world_step_closed:
  assumes "closed_are_closed w" "reachable (pl_cfg E) (pw_pool w)" "world_step E e w = Some v"
  shows "closed_are_closed v"
proof (cases e)
  case (PoolStep ev)
  then obtain ev q where q: "pool_step (pl_cfg E) ev (pw_pool w) = Some q"
    "v = fold (close_one E) (newly_closed (pw_pool w) q) (w\<lparr>pw_pool := q\<rparr>)"
    using assms(3) by (auto simp: pool_moves_def split: if_splits)
  then show ?thesis using newly_closed [OF q(1)] assms(1) by (auto simp: closed_are_closed_def close_many_alive)
next
  case (UseStep c u)
  then show ?thesis using use_conn_closed assms(1,3) by (auto split: if_splits)
qed (use assms(1,3) closed_below [OF assms(2), of "nextConn (pw_pool w)"] in
    \<open>auto simp: open_by_pool_def reset_by_pool_def closed_are_closed_def
      simp del: pool_step.simps dest!: step_open step_reset
      split: if_splits pc.splits prod.splits sum.splits\<close>)

context backend_contract
begin

lemma world_run_inv:
  "world_inv live ok base w \<Longrightarrow> re_ops (pl_rt E) = ops \<Longrightarrow> world_room E room es w \<Longrightarrow>
   reachable (pl_cfg E) (pw_pool w) \<Longrightarrow> closed_are_closed w \<Longrightarrow> world_run E es w = Some v \<Longrightarrow>
   world_inv live ok base v \<and> closed_are_closed v"
proof (induction es arbitrary: w)
  case (Cons e es)
  then obtain u where u: "world_step E e w = Some u" "world_run E es u = Some v" "world_room E room es u"
    by (auto split: option.splits)
  show ?case using Cons.IH [of u] u Cons.prems(2) world_step_inv [OF Cons.prems(1,2) _ Cons.prems(4) u(1)]
      world_step_closed [OF Cons.prems(5,4) u(1)] world_step_reachable [OF Cons.prems(4) u(1)] Cons.prems(3) by simp
qed simp

text \<open>From the creation of the pool on. The third part holds once the pool is closed and nothing is under
  way: see \<open>pool_close_complete\<close>.\<close>

lemma pool_run:
  assumes "ok (nw_bs st)" "re_ops (pl_rt E) = ops" "world_room E room es (fresh_world n st tps cs)"
    and "world_run E es (fresh_world n st tps cs) = Some w"
  shows "live (nw_bs (pw_nw w)) h \<longleftrightarrow> live (nw_bs st) h \<or> (\<exists>c \<in> open_conns w. c_handle (pw_conns w c) = h)"
    and "inj_on (\<lambda>c. c_handle (pw_conns w c)) (open_conns w)"
    and "c \<in> open_conns w \<Longrightarrow> c \<notin> set (closedConns (pw_pool w)) \<and> \<not> live (nw_bs st) (c_handle (pw_conns w c))"
    and "\<forall>c < nextConn (pw_pool w). c \<in> set (closedConns (pw_pool w)) \<Longrightarrow> live (nw_bs (pw_nw w)) = live (nw_bs st)"
proof -
  have "world_inv live ok (live (nw_bs st)) (fresh_world n st tps cs)"
    using assms(1) by (simp add: world_inv_def open_conns_def fresh_world_def new_pool_def)
  moreover have "reachable (pl_cfg E) (pw_pool (fresh_world n st tps cs))"
    by (simp add: fresh_world_def reachable.start)
  moreover have "closed_are_closed (fresh_world n st tps cs)"
    by (simp add: closed_are_closed_def fresh_world_def new_pool_def)
  ultimately have inv: "world_inv live ok (live (nw_bs st)) w" "closed_are_closed w"
    using world_run_inv assms(2-4) by blast+
  show live: "live (nw_bs (pw_nw w)) h \<longleftrightarrow> live (nw_bs st) h \<or> (\<exists>c \<in> open_conns w. c_handle (pw_conns w c) = h)" for h
    using inv(1) by (simp add: world_inv_def)
  show "inj_on (\<lambda>c. c_handle (pw_conns w c)) (open_conns w)"
    "c \<in> open_conns w \<Longrightarrow> c \<notin> set (closedConns (pw_pool w)) \<and> \<not> live (nw_bs st) (c_handle (pw_conns w c))"
    using inv by (auto simp: world_inv_def closed_are_closed_def open_conns_def)
  assume "\<forall>c < nextConn (pw_pool w). c \<in> set (closedConns (pw_pool w))"
  then have "open_conns w = {}" using inv(2) by (auto simp: open_conns_def closed_are_closed_def)
  then show "live (nw_bs (pw_nw w)) = live (nw_bs st)" using live by (auto simp: fun_eq_iff)
qed

end

section \<open>Properties\<close>

text \<open>Closed, drained, and nothing under way: no goroutine in a pool operation, no caller with a connection,
  no entry in a channel, no warm-up between its \<open>Open\<close> and its locked section.\<close>

definition warm_busy :: "warm_pc \<Rightarrow> bool" where
  "warm_busy x = (case x of WarmOpened _ _ \<Rightarrow> True | _ \<Rightarrow> False)"

definition quiet :: "pool \<Rightarrow> bool" where
  "quiet p \<longleftrightarrow> drained p \<and> list_all is_free (procs p) \<and> checkedOut p = [] \<and>
     list_all (\<lambda>x. chan_slots x = 0) (chans p) \<and> \<not> warm_busy (warm p)"

lemma quiet_complete:
  assumes "reachable cfg p" "quiet p"
  shows "openCount p = 0" "c < nextConn p \<Longrightarrow> c \<in> set (closedConns p)"
proof -
  have "openCount p = 0 \<and> (\<forall>c. count_list (closedConns p) c = (if c < nextConn p then 1 else 0))"
    using assms by (intro pool_close_complete) (auto simp: quiet_def list_all_iff warm_busy_def)
  then show "openCount p = 0" "c < nextConn p \<Longrightarrow> c \<in> set (closedConns p)"
    by (simp, metis count_notin zero_neq_one)
qed

text \<open>C27: A pool over the SDK backend, under every schedule of its goroutines, of the SDK's answers and of
  what the callers do with the connections (including closing them and using them after giving them back):
  the handles the SDK backend holds are those from before the pool and one for each connection of the pool that is
  not closed, different connections have different handles, and what the pool has closed is closed. Once
  \<open>Close\<close> has drained the pool and nothing is under way, the counter is zero and the backend holds exactly
  what it held before the pool was created.\<close>

theorem pool_gives_back_connections:
  assumes "re_ops (pl_rt E) = sdk_backend k f v" "cr_wf (sb_conns (nw_bs st))"
    and "world_room E (\<lambda>s. cr_next (sb_conns s) \<noteq> - 1) es (fresh_world n st tps cs)"
    and "world_run E es (fresh_world n st tps cs) = Some w"
  shows "(\<forall>h. sb_live (nw_bs (pw_nw w)) h \<longleftrightarrow>
      sb_live (nw_bs st) h \<or> (\<exists>c \<in> open_conns w. c_handle (pw_conns w c) = h)) \<and>
    inj_on (\<lambda>c. c_handle (pw_conns w c)) (open_conns w) \<and>
    open_conns w \<inter> set (closedConns (pw_pool w)) = {} \<and>
    (quiet (pw_pool w) \<longrightarrow> openCount (pw_pool w) = 0 \<and> sb_live (nw_bs (pw_nw w)) = sb_live (nw_bs st))"
proof -
  note run = sdkb.pool_run [OF assms(2,1,3,4)]
  have "reachable (pl_cfg E) (pw_pool w)"
    by (rule world_run_reachable [OF _ assms(4)]) (simp add: fresh_world_def reachable.start)
  from quiet_complete [OF this] show ?thesis using run by auto
qed

text \<open>One connection from before, one opened, used, given back and closed by the pool.\<close>

definition quiet_sdk :: "unit sdk" where
  "quiet_sdk = undefined\<lparr>RfcOpenConnection := \<lambda>_ s. (Ok 5, s), RfcCloseConnection := \<lambda>_ s. (Ok (), s),
     RfcPing := \<lambda>_ _ s. (Ok (), s), RfcUTF8ToSAPUC := \<lambda>_. None\<rparr>"

definition demo_pool_env :: "unit sdk_state pool_env" where
  "demo_pool_env = \<lparr>pl_cfg = demo_cfg 0, pl_params = empty_params\<lparr>Dest := ''QAS''\<rparr>,
     pl_rt = \<lparr>re_ops = sdk_backend quiet_sdk 2 zero_version, re_env = undefined, re_fo = undefined, re_tn = undefined\<rparr>\<rparr>"

definition demo_run :: "world_event list" where
  "demo_run = [PoolStep WarmNext, PoolStep (CallAcquire 0), PoolStep (DoTryGet 0 False), OpenStep 0 background,
     PoolStep (DoOpenCheck 0 0), PoolStep (DoValidate 0 (\<lambda>_. True) 0), PoolStep (DoCheckout 0 0),
     UseStep 0 (UsePing background), PoolStep (CallRelease 0 0 False True 0), PoolStep (DoPut 0),
     PoolStep (CallClose 0), PoolStep (DoDrain 0)]"

definition demo_nw :: "unit sdk_state nw" where
  "demo_nw = \<lparr>nw_bs = one_conn, nw_listeners = [], nw_log = [], nw_maxTrace = 0\<rparr>"

definition demo_nw2 :: "unit sdk_state nw" where
  "demo_nw2 = demo_nw\<lparr>nw_bs := one_conn\<lparr>sb_conns := \<lparr>cr_next = 2, cr_m = (cr_m (sb_conns one_conn))
     (2 \<mapsto> \<lparr>ch_id = 2, ch_closed = False, ch_sdkPtr = 5\<rparr>)\<rparr>\<rparr>\<rparr>"

definition demo_conn :: conn where
  "demo_conn = \<lparr>c_handle = 2, c_dest = ''QAS'', c_closed = False, c_tp = None\<rparr>"

lemma demo_pool_env [simp]:
  "pl_cfg demo_pool_env = demo_cfg 0" "re_ops (pl_rt demo_pool_env) = sdk_backend quiet_sdk 2 zero_version"
  "pl_params demo_pool_env = empty_params\<lparr>Dest := ''QAS''\<rparr>"
  by (simp_all add: demo_pool_env_def)

lemma demo_sdk [simp]:
  "RfcOpenConnection quiet_sdk b c = (Ok 5, c)" "RfcCloseConnection quiet_sdk q c = (Ok (), c)"
  "RfcPing quiet_sdk d q c = (Ok (), c)" "RfcUTF8ToSAPUC quiet_sdk x = None"
  by (simp_all add: quiet_sdk_def)

lemma demo_params: "toBackendParams (empty_params\<lparr>Dest := ''QAS''\<rparr>) = [(''dest'', ''QAS'')]"
  "validate (empty_params\<lparr>Dest := ''QAS''\<rparr>) = None" "MaxTraceLevel empty_params = 0" "WSHost empty_params = []"
  by (simp_all add: toBackendParams_def param_fields_def put_param_def empty_params_def validate_def auth_count_def)

lemmas demo_state = demo_nw_def demo_nw2_def demo_conn_def one_conn_def

lemma demo_sdk_Open: "sdk_Open quiet_sdk background [(''dest'', ''QAS'')] (nw_bs demo_nw) = (Ok 2, nw_bs demo_nw2)"
  by (simp add: sdk_Open_def openConn_def lift_def bindA_def check_ctx_def stringToSAPUC_def background_def conn_put_def
      demo_state)

lemma demo_open: "Open (sdk_backend quiet_sdk 2 zero_version) en background (empty_params\<lparr>Dest := ''QAS''\<rparr>) demo_nw =
    (Ok demo_conn, demo_nw2)"
  using demo_sdk_Open
  by (simp add: Open_def demo_params enforceCapabilities_def sdk_backend_def with_bs_def fireEvent_def background_def)
    (simp add: demo_state)

lemma demo_ping: "conn_Ping (sdk_backend quiet_sdk 2 zero_version) en background demo_conn demo_nw2 = (None, demo_nw2)"
  by (simp add: conn_Ping_def guarded0_def checkOpen_def with_bs_def sdk_backend_def sdk_Ping_def op_err_def with_conn_def
      conn_get_def pingConn_def bindA_def check_ctx_def watched_def lift_def background_def demo_state)

definition demo_nw3 :: "unit sdk_state nw" where
  "demo_nw3 = snd (snd (conn_Close (sdk_backend quiet_sdk 2 zero_version) undefined demo_conn demo_nw2))"

lemma demo_close: "conn_Close (sdk_backend quiet_sdk 2 zero_version) undefined demo_conn demo_nw2 =
    (None, demo_conn\<lparr>c_closed := True\<rparr>, demo_nw3)"
  by (simp add: demo_nw3_def conn_Close_def Let_def with_bs_def sdk_backend_def sdk_Close_def op_err_def with_conn_def
      conn_get_def closeConn_def call_def lift_def demo_state)

lemma demo_room:
  "cr_next (sb_conns (nw_bs demo_nw)) = 1" "cr_next (sb_conns (nw_bs demo_nw2)) = 2"
  "cr_next (sb_conns (nw_bs demo_nw3)) = 2"
  by (simp_all add: demo_nw3_def conn_Close_def Let_def with_bs_def sdk_backend_def sdk_Close_def op_err_def with_conn_def
      conn_get_def closeConn_def call_def lift_def fireEvent_def mark_closed_def conn_remove_def demo_state)

lemma demo_alive: "Alive demo_conn"
  by (simp add: Alive_def demo_conn_def)

lemmas demo_run_defs = demo_open demo_ping demo_close demo_alive pool_moves_def newly_closed_def open_by_pool_def
  close_one_def conn_alive_def step_defs is_free_def entryValid_def after_reset_def demo_cfg_def

lemma pool_gives_back_connections_witness:
  "\<exists>w. world_run demo_pool_env demo_run (fresh_world 2 demo_nw undefined undefined) = Some w \<and>
     nextConn (pw_pool w) = 1 \<and> sb_live (nw_bs (pw_nw w)) = sb_live one_conn"
proof -
  let ?w = "fresh_world 2 demo_nw undefined undefined"
  have env: "re_env (pl_rt demo_pool_env) = undefined" by (simp add: demo_pool_env_def)
  obtain w where w: "world_run demo_pool_env demo_run ?w = Some w" "quiet (pw_pool w)" "nextConn (pw_pool w) = 1"
    by (simp add: demo_run_def fresh_world_def new_pool_def replicate_two env demo_run_defs quiet_def drained_def
        warm_busy_def close_chans_def)
  have room: "world_room demo_pool_env (\<lambda>s. cr_next (sb_conns s) \<noteq> - 1) demo_run ?w"
    by (simp add: demo_run_def fresh_world_def new_pool_def replicate_two env demo_run_defs demo_room)
  have "cr_wf (sb_conns (nw_bs demo_nw))" by (simp add: demo_state cr_wf_def issued_upto_def)
  from pool_gives_back_connections [OF demo_pool_env(2) this room w(1)] w show ?thesis
    by (auto simp: demo_nw_def)
qed

end
