(* ===== verification/Pool_Do.thy ===== *)
theory Pool_Do
  imports Pool_Conn
begin

text \<open>
  One goroutine at a time: \<open>Pool.Acquire\<close>, \<open>Pool.Release\<close> and \<open>Pool.Do\<close> (\<open>nwrfc/pool.go\<close>) as
  functions, for a caller nobody interferes with. \<open>Acquire\<close> runs the steps of its goroutine to the end;
  the only thing that can happen while it waits for a release is that its context ends, and every context
  here has a deadline (that of the caller or \<open>AcquireTimeout\<close>).

  The interface \<open>pool_client\<close> is what \<open>Do\<close> relies on, and is interpreted on the pool. The lemmas show
  that \<open>Acquire\<close> always returns, and that \<open>Do\<close> gives the connection back on every path.
\<close>

section \<open>Acquire and Release\<close>

definition next_event :: "ctx \<Rightarrow> int \<Rightarrow> nat \<Rightarrow> pc \<Rightarrow> event option" where
  "next_event ctx now t x =
     (case x of
        TryGet \<Rightarrow> Some (DoTryGet t (ctx_err ctx \<noteq> None))
      | Opened _ \<Rightarrow> Some (DoOpenCheck t now)
      | OpenUndo _ \<Rightarrow> Some (DoOpenUndo t)
      | pc.Register \<Rightarrow> Some (DoRegister t)
      | Wait _ \<Rightarrow> Some (CtxDone t)
      | Cancelled _ \<Rightarrow> Some (DoRemoveWaiter t)
      | Got _ \<Rightarrow> Some (DoValidate t (\<lambda>_. True) now)
      | AfterAcquiring _ \<Rightarrow> Some (DoAfterAcquire t True)
      | CheckingOut _ \<Rightarrow> Some (DoCheckout t now)
      | Discarding _ _ \<Rightarrow> Some (DoDiscard t)
      | Putting _ \<Rightarrow> Some (DoPut t)
      | _ \<Rightarrow> None)"

text \<open>The error of a failed \<open>Acquire\<close>; \<open>err\<close> is that of the \<open>Open\<close> or \<open>Reset\<close> before.\<close>

definition acquire_err :: "ctx \<Rightarrow> goerr option \<Rightarrow> acquire_error \<Rightarrow> goerr" where
  "acquire_err ctx err why =
     (case why of
        PoolClosed \<Rightarrow> ConfigErr ''Pool'' ''closed''
      | CtxErr \<Rightarrow> (case ctx_err ctx of Some e \<Rightarrow> e | None \<Rightarrow>
                    (case ctx_err_after ctx of Some e \<Rightarrow> e | None \<Rightarrow> DeadlineExceeded))
      | _ \<Rightarrow> (case err of Some e \<Rightarrow> e | None \<Rightarrow> DeadlineExceeded))"

fun drive :: "nat \<Rightarrow> 's pool_env \<Rightarrow> ctx \<Rightarrow> int \<Rightarrow> nat \<Rightarrow> goerr option \<Rightarrow> 's pool_world \<Rightarrow>
    ((goerr, nat) result \<times> 's pool_world) option" where
  "drive 0 E ctx now t err w = None"
| "drive (Suc n) E ctx now t err w =
     (case procs (pw_pool w) ! t of
        Returned (Acquired c) \<Rightarrow> Some (Ok c, w)
      | Returned (AcquireFailed why) \<Rightarrow> Some (Err (acquire_err ctx err why), w)
      | Opening \<Rightarrow> (case open_by_pool E ctx (DoOpen t) w of None \<Rightarrow> None | Some (e, v) \<Rightarrow> drive n E ctx now t e v)
      | Resetting x \<Rightarrow> (case reset_by_pool E ctx t (pe_conn x) w of None \<Rightarrow> None | Some (e, v) \<Rightarrow> drive n E ctx now t e v)
      | x \<Rightarrow> (case next_event ctx now t x of
            None \<Rightarrow> None
          | Some ev \<Rightarrow> (case pool_moves E (with_alive (conn_alive w) ev) w of
                None \<Rightarrow> None | Some v \<Rightarrow> drive n E ctx now t err v)))"

definition acquire_fuel :: "pool \<Rightarrow> nat" where
  "acquire_fuel p = 10 * length (idle p) + 13"

definition acquire_alone :: "'s pool_env \<Rightarrow> int \<Rightarrow> nat \<Rightarrow> ctx \<Rightarrow> 's pool_world \<Rightarrow>
    ((goerr, nat) result \<times> 's pool_world) option" where
  "acquire_alone E now t ctx w =
     (case pool_moves E (CallAcquire t) w of
        None \<Rightarrow> None | Some v \<Rightarrow> drive (acquire_fuel (pw_pool v)) E ctx now t None v)"

definition release_alone :: "'s pool_env \<Rightarrow> int \<Rightarrow> nat \<Rightarrow> nat \<Rightarrow> bool \<Rightarrow> 's pool_world \<Rightarrow> 's pool_world option" where
  "release_alone E now t c d w =
     (case pool_moves E (with_alive (conn_alive w) (CallRelease t c d True now)) w of
        None \<Rightarrow> None
      | Some v \<Rightarrow> (case procs (pw_pool v) ! t of
            Discarding _ _ \<Rightarrow> pool_moves E (DoDiscard t) v
          | Putting _ \<Rightarrow> pool_moves E (DoPut t) v
          | _ \<Rightarrow> Some v))"

section \<open>Do\<close>

text \<open>What a callback does: panic, or return its error; \<open>'a\<close> is what it leaves in the caller's
  variables.\<close>

datatype 'a fn_result = FnPanic | FnRet "goerr option" 'a

datatype 'a do_result = DoPanic | DoRefused goerr | DoRet "goerr option" 'a

definition fn_outcome :: "'a fn_result \<Rightarrow> do_outcome" where
  "fn_outcome r = (case r of FnPanic \<Rightarrow> Panicked | FnRet None _ \<Rightarrow> ReturnedNil | FnRet (Some _) _ \<Rightarrow> ReturnedErr)"

definition do_returns :: "'a fn_result \<Rightarrow> 'a do_result" where
  "do_returns r = (case r of FnPanic \<Rightarrow> DoPanic | FnRet e a \<Rightarrow> DoRet e a)"

definition pool_Do :: "(ctx \<Rightarrow> 'w \<Rightarrow> ((goerr, nat) result \<times> 'w) option) \<Rightarrow> (nat \<Rightarrow> bool \<Rightarrow> 'w \<Rightarrow> 'w option) \<Rightarrow>
    ctx \<Rightarrow> (nat \<Rightarrow> 'w \<Rightarrow> 'a fn_result \<times> 'w) \<Rightarrow> 'w \<Rightarrow> ('a do_result \<times> 'w) option" where
  "pool_Do acquire release ctx fn w =
     (case acquire ctx w of
        None \<Rightarrow> None
      | Some (Inl e, v) \<Rightarrow> Some (DoRefused (WrapErr ''nwrfc: pool acquire: '' e), v)
      | Some (Inr c, v) \<Rightarrow> (case fn c v of
            (r, u) \<Rightarrow> map_option (\<lambda>x. (do_returns r, x)) (release c (do_discard (fn_outcome r)) u)))"

section \<open>What Do relies on\<close>

text \<open>\<open>held w\<close> are the connections callers have. Both operations return; \<open>acquire\<close> hands out a
  connection nobody has, or changes nothing of it.\<close>

locale pool_client =
  fixes acquire :: "ctx \<Rightarrow> 'w \<Rightarrow> ((goerr, nat) result \<times> 'w) option"
    and release :: "nat \<Rightarrow> bool \<Rightarrow> 'w \<Rightarrow> 'w option"
    and held :: "'w \<Rightarrow> nat set"
    and inv :: "'w \<Rightarrow> bool"
  assumes acquire_returns: "inv w \<Longrightarrow> \<exists>r v. acquire ctx w = Some (r, v) \<and> inv v \<and>
      (case r of Inl _ \<Rightarrow> held v = held w | Inr c \<Rightarrow> c \<notin> held w \<and> held v = insert c (held w))"
    and release_returns: "inv w \<Longrightarrow> \<exists>v. release c d w = Some v \<and> inv v \<and> held v = held w - {c}"
begin

lemma Do_balanced:
  assumes "inv w" and "\<And>c v. inv v \<Longrightarrow> c \<in> held v \<Longrightarrow> inv (snd (fn c v)) \<and> held (snd (fn c v)) = held v"
  shows "\<exists>r v. pool_Do acquire release ctx fn w = Some (r, v) \<and> inv v \<and> held v = held w"
proof -
  obtain r v where a: "acquire ctx w = Some (r, v)" "inv v"
    "case r of Inl _ \<Rightarrow> held v = held w | Inr c \<Rightarrow> c \<notin> held w \<and> held v = insert c (held w)"
    using acquire_returns [OF assms(1)] by blast
  show ?thesis
  proof (cases r)
    case (Inl e)
    then show ?thesis using a by (auto simp: pool_Do_def)
  next
    case (Inr c)
    then have h: "c \<notin> held w" "held v = insert c (held w)" using a(3) by auto
    obtain q u where f: "fn c v = (q, u)" by force
    then have u: "inv u" "held u = insert c (held w)" using assms(2) [OF a(2), of c] h by auto
    obtain x where "release c (do_discard (fn_outcome q)) u = Some x" "inv x" "held x = held u - {c}"
      using release_returns [OF u(1)] by blast
    then show ?thesis using a(1) Inr f h(1) u(2) by (auto simp: pool_Do_def)
  qed
qed

end

section \<open>Acquire returns\<close>

fun acquiring :: "pc \<Rightarrow> bool" where
  "acquiring Ready = False"
| "acquiring (AfterAcquiring _) = False"
| "acquiring (Putting _) = False"
| "acquiring (Expiring _) = False"
| "acquiring Draining = False"
| "acquiring (Discarding _ ReleaseDone) = False"
| "acquiring _ = True"

fun fresh_alive :: "(nat \<Rightarrow> bool) \<Rightarrow> pc \<Rightarrow> bool" where
  "fresh_alive alive (Opened c) = alive c"
| "fresh_alive alive (Resetting e) = alive (pe_conn e)"
| "fresh_alive alive (CheckingOut e) = alive (pe_conn e)"
| "fresh_alive alive (Returned (Acquired c)) = alive c"
| "fresh_alive alive _ = True"

text \<open>The steps left: only an idle entry that is no longer valid leads back to the beginning.\<close>

fun rank :: "nat \<Rightarrow> (pool_entry \<Rightarrow> bool) \<Rightarrow> pc \<Rightarrow> nat" where
  "rank n valid (Returned _) = 0"
| "rank n valid TryGet = n + 9"
| "rank n valid Opening = 8"
| "rank n valid (Opened _) = 7"
| "rank n valid (OpenUndo _) = 1"
| "rank n valid pc.Register = 8"
| "rank n valid (Wait _) = 7"
| "rank n valid (Cancelled _) = 6"
| "rank n valid (Got None) = n + 10"
| "rank n valid (Got (Some e)) = (if valid e then 5 else n + 12)"
| "rank n valid (Resetting _) = 4"
| "rank n valid (CheckingOut _) = 3"
| "rank n valid (Discarding _ RetryLoop) = n + 11"
| "rank n valid (Discarding _ _) = 2"
| "rank n valid _ = 0"

definition steps_left :: "'s pool_env \<Rightarrow> int \<Rightarrow> nat \<Rightarrow> 's pool_world \<Rightarrow> nat" where
  "steps_left E now t w = rank (10 * length (idle (pw_pool w)))
     (\<lambda>e. entryValid (pl_cfg E) (conn_alive w) now (Some e)) (procs (pw_pool w) ! t)"

definition returned :: "pc \<Rightarrow> bool" where
  "returned x = (case x of Returned _ \<Rightarrow> True | _ \<Rightarrow> False)"

definition same_held :: "nat \<Rightarrow> 's pool_world \<Rightarrow> 's pool_world \<Rightarrow> bool" where
  "same_held t w v \<longleftrightarrow> checkedOut (pw_pool v) = checkedOut (pw_pool w) \<and>
     (\<forall>c. procs (pw_pool v) ! t \<noteq> Returned (Acquired c))"

text \<open>A step that is not the last locked section of \<open>Acquire\<close>.\<close>

definition good_step :: "'s pool_env \<Rightarrow> int \<Rightarrow> nat \<Rightarrow> 's pool_world \<Rightarrow> 's pool_world \<Rightarrow> bool" where
  "good_step E now t w v \<longleftrightarrow> length (procs (pw_pool v)) = length (procs (pw_pool w)) \<and>
     acquiring (procs (pw_pool v) ! t) \<and> fresh_alive (conn_alive v) (procs (pw_pool v) ! t) \<and>
     steps_left E now t v < steps_left E now t w"

lemma conn_alive_pool [simp]: "conn_alive (w\<lparr>pw_pool := q\<rparr>) = conn_alive w"
  by (simp add: conn_alive_def fun_eq_iff)

lemma pool_moves_pool: "pool_moves E ev w = Some v \<Longrightarrow> pool_step (pl_cfg E) ev (pw_pool w) = Some (pw_pool v)"
  by (auto simp: pool_moves_def)

lemma pool_moves_same:
  assumes "pool_step (pl_cfg E) ev (pw_pool w) = Some q" "closedConns q = closedConns (pw_pool w)"
  shows "pool_moves E ev w = Some (w\<lparr>pw_pool := q\<rparr>)"
  using assms by (simp add: pool_moves_def newly_closed_def)

lemma pool_moves_some:
  "pool_step (pl_cfg E) ev (pw_pool w) = Some q \<Longrightarrow> \<exists>v. pool_moves E ev w = Some v \<and> pw_pool v = q"
  by (simp add: pool_moves_def)

lemmas good_defs = good_step_def steps_left_def same_held_def

lemma step_TryGet:
  assumes "procs (pw_pool w) ! t = TryGet" "t < length (procs (pw_pool w))"
  shows "\<exists>v. pool_moves E (DoTryGet t d) w = Some v \<and> good_step E now t w v \<and> same_held t w v"
proof -
  have "pool_step (pl_cfg E) (DoTryGet t d) (pw_pool w) = Some (tryGet (pl_cfg E) d t (pw_pool w))"
    using assms by simp
  from pool_moves_same [OF this] show ?thesis
    using assms by (auto simp: tryGet_def set_pc_def good_defs) (cases "idle (pw_pool w)", simp_all)
qed

lemma step_OpenCheck:
  assumes "procs (pw_pool w) ! t = Opened c" "t < length (procs (pw_pool w))" "conn_alive w c"
  shows "\<exists>v. pool_moves E (DoOpenCheck t now) w = Some v \<and> good_step E now t w v \<and> same_held t w v"
proof (cases "closed (pw_pool w)")
  case True
  have "pool_step (pl_cfg E) (DoOpenCheck t now) (pw_pool w) = Some (open_check now c t (pw_pool w))" using assms by simp
  from pool_moves_some [OF this] show ?thesis
    using True assms by (auto simp: open_check_def set_pc_def close_conn_def good_defs)
next
  case False
  have "pool_step (pl_cfg E) (DoOpenCheck t now) (pw_pool w) = Some (open_check now c t (pw_pool w))" using assms by simp
  from pool_moves_same [OF this] show ?thesis
    using False assms by (auto simp: open_check_def set_pc_def good_defs entryValid_def)
qed

lemma step_quiet:
  assumes "t < length (procs (pw_pool w))" "next_event ctx now t x = Some ev" "procs (pw_pool w) ! t = x"
    and "x = pc.Register \<or> (\<exists>ch. x = Wait ch \<or> x = Cancelled ch) \<or> (\<exists>e. x = OpenUndo e) \<or> (\<exists>m. x = Got m)"
    and "\<not> HasAfterAcquire (pl_cfg E)"
  shows "\<exists>v. pool_moves E (with_alive (conn_alive w) ev) w = Some v \<and> good_step E now t w v \<and> same_held t w v"
proof -
  have "\<exists>q. pool_step (pl_cfg E) (with_alive (conn_alive w) ev) (pw_pool w) = Some q \<and>
      closedConns q = closedConns (pw_pool w) \<and> checkedOut q = checkedOut (pw_pool w) \<and> idle q = idle (pw_pool w) \<and>
      length (procs q) = length (procs (pw_pool w)) \<and> acquiring (procs q ! t) \<and> fresh_alive (conn_alive w) (procs q ! t) \<and>
      rank (10 * length (idle q)) (\<lambda>e. entryValid (pl_cfg E) (conn_alive w) now (Some e)) (procs q ! t) <
        rank (10 * length (idle q)) (\<lambda>e. entryValid (pl_cfg E) (conn_alive w) now (Some e)) x \<and>
      (\<forall>c. procs q ! t \<noteq> Returned (Acquired c))"
    using assms
    by (auto simp: next_event_def register_waiter_def removeWaiter_def open_undo_def validate_entry_def after_reset_def
        set_pc_def Let_def entryValid_def split: option.splits if_splits)
  then obtain q where q: "pool_step (pl_cfg E) (with_alive (conn_alive w) ev) (pw_pool w) = Some q"
      "closedConns q = closedConns (pw_pool w)" "checkedOut q = checkedOut (pw_pool w)"
      "length (procs q) = length (procs (pw_pool w))" "acquiring (procs q ! t)" "fresh_alive (conn_alive w) (procs q ! t)"
      "rank (10 * length (idle q)) (\<lambda>e. entryValid (pl_cfg E) (conn_alive w) now (Some e)) (procs q ! t) <
        rank (10 * length (idle q)) (\<lambda>e. entryValid (pl_cfg E) (conn_alive w) now (Some e)) x"
      "idle q = idle (pw_pool w)" "\<forall>c. procs q ! t \<noteq> Returned (Acquired c)" by blast
  then show ?thesis using pool_moves_same [OF q(1,2)] assms(3) by (simp add: good_defs)
qed

lemma step_Discard:
  assumes "t < length (procs (pw_pool w))" "procs (pw_pool w) ! t = Discarding e k" "k \<noteq> ReleaseDone"
  shows "\<exists>v. pool_moves E (DoDiscard t) w = Some v \<and> good_step E now t w v \<and> same_held t w v"
proof -
  have "pool_step (pl_cfg E) (DoDiscard t) (pw_pool w) = Some (discardConn e k t (pw_pool w))" using assms by simp
  from pool_moves_some [OF this] show ?thesis
    using assms by (cases k) (auto simp: discardConn_def set_pc_def dec_open_def close_conn_def good_defs)
qed

lemma step_Checkout:
  assumes "t < length (procs (pw_pool w))" "procs (pw_pool w) ! t = CheckingOut e" "conn_alive w (pe_conn e)"
  shows "\<exists>v. pool_moves E (DoCheckout t now) w = Some v \<and> good_step E now t w v \<and>
    (same_held t w v \<or> procs (pw_pool v) ! t = Returned (Acquired (pe_conn e)) \<and>
       pe_conn ` set (checkedOut (pw_pool v)) = insert (pe_conn e) (pe_conn ` set (checkedOut (pw_pool w))))"
proof -
  have "pool_step (pl_cfg E) (DoCheckout t now) (pw_pool w) = Some (checkout now e t (pw_pool w))" using assms by simp
  from pool_moves_same [OF this] show ?thesis
    using assms by (auto simp: checkout_def set_pc_def Let_def good_defs)
qed

lemma step_Open:
  assumes "t < length (procs (pw_pool w))" "procs (pw_pool w) ! t = Opening"
  shows "\<exists>e v. open_by_pool E ctx (DoOpen t) w = Some (e, v) \<and> good_step E now t w v \<and> same_held t w v"
proof -
  have alive: "Alive k" if "Open ops en ctx p st = (Ok k, st')" for ops en p k and st st' :: "'a nw"
    using that by (auto simp: Open_def Alive_def Let_def split: option.splits prod.splits sum.splits if_splits)
  obtain r st where o: "Open (re_ops (pl_rt E)) (re_env (pl_rt E)) ctx (pl_params E) (pw_nw w) = (r, st)" by force
  then show ?thesis
    using assms alive [of _ _ _ _ _ st]
    by (cases r) (auto simp: open_by_pool_def open_result_def set_pc_def good_defs conn_alive_def)
qed

lemma step_Reset:
  assumes "t < length (procs (pw_pool w))" "procs (pw_pool w) ! t = Resetting x" "\<not> HasAfterAcquire (pl_cfg E)"
    and "conn_alive w (pe_conn x)"
  shows "\<exists>e v. reset_by_pool E ctx t (pe_conn x) w = Some (e, v) \<and> good_step E now t w v \<and> same_held t w v"
  using assms
  by (auto simp: reset_by_pool_def after_reset_def set_pc_def good_defs conn_alive_def split: prod.splits)

text \<open>One call of the driver that has not returned is one good step.\<close>

definition held :: "'s pool_world \<Rightarrow> nat set" where
  "held w = pe_conn ` set (checkedOut (pw_pool w))"

definition handed_out :: "nat \<Rightarrow> 's pool_world \<Rightarrow> 's pool_world \<Rightarrow> bool" where
  "handed_out t w v \<longleftrightarrow> (\<exists>e. procs (pw_pool w) ! t = CheckingOut e \<and>
     procs (pw_pool v) ! t = Returned (Acquired (pe_conn e)) \<and> held v = insert (pe_conn e) (held w))"

lemma drive_step:
  assumes "t < length (procs (pw_pool w))" "acquiring (procs (pw_pool w) ! t)" "\<not> returned (procs (pw_pool w) ! t)"
    and "fresh_alive (conn_alive w) (procs (pw_pool w) ! t)" "\<not> HasAfterAcquire (pl_cfg E)"
  shows "\<exists>e v. (\<forall>n. drive (Suc n) E ctx now t err w = drive n E ctx now t e v) \<and> good_step E now t w v \<and>
    (\<exists>ev. pool_step (pl_cfg E) ev (pw_pool w) = Some (pw_pool v)) \<and> (same_held t w v \<or> handed_out t w v)"
proof -
  define x where "x = procs (pw_pool w) ! t"
  note x = x_def [symmetric]
  have event: "\<exists>e v. (\<forall>n. drive (Suc n) E ctx now t err w = drive n E ctx now t e v) \<and> good_step E now t w v \<and>
      (\<exists>ev. pool_step (pl_cfg E) ev (pw_pool w) = Some (pw_pool v)) \<and> (same_held t w v \<or> handed_out t w v)"
    if "next_event ctx now t x = Some ev" "pool_moves E (with_alive (conn_alive w) ev) w = Some v"
      "good_step E now t w v" "same_held t w v \<or> handed_out t w v" for ev v
  proof -
    have "drive (Suc n) E ctx now t err w = drive n E ctx now t err v" for n
      using that(1,2) x by (cases x) (auto simp: next_event_def)
    then show ?thesis using that(3,4) pool_moves_pool [OF that(2)] by blast
  qed
  show ?thesis
  proof (cases x)
    case TryGet
    then obtain v where "pool_moves E (DoTryGet t (ctx_err ctx \<noteq> None)) w = Some v" "good_step E now t w v" "same_held t w v"
      using step_TryGet x assms(1) by metis
    then show ?thesis using TryGet by (intro event) (auto simp: next_event_def)
  next
    case Opening
    then obtain e v where v: "open_by_pool E ctx (DoOpen t) w = Some (e, v)" "good_step E now t w v" "same_held t w v"
      using step_Open x assms(1) by metis
    moreover have "\<exists>ev. pool_step (pl_cfg E) ev (pw_pool w) = Some (pw_pool v)"
      using v(1) by (auto simp: open_by_pool_def simp del: pool_step.simps split: prod.splits sum.splits)
    moreover have "drive (Suc n) E ctx now t err w = drive n E ctx now t e v" for n
      using v(1) Opening x by simp
    ultimately show ?thesis by blast
  next
    case (Opened c)
    then obtain v where "pool_moves E (DoOpenCheck t now) w = Some v" "good_step E now t w v" "same_held t w v"
      using step_OpenCheck x assms(1,4) by (metis fresh_alive.simps(1))
    then show ?thesis using Opened by (intro event) (auto simp: next_event_def)
  next
    case (Resetting y)
    then obtain e v where v: "reset_by_pool E ctx t (pe_conn y) w = Some (e, v)" "good_step E now t w v" "same_held t w v"
      using step_Reset x assms(1,4,5) by (metis fresh_alive.simps(2))
    moreover have "\<exists>ev. pool_step (pl_cfg E) ev (pw_pool w) = Some (pw_pool v)"
      using v(1) by (auto simp: reset_by_pool_def simp del: pool_step.simps split: prod.splits)
    moreover have "drive (Suc n) E ctx now t err w = drive n E ctx now t e v" for n
      using v(1) Resetting x by simp
    ultimately show ?thesis by blast
  next
    case (CheckingOut e)
    then obtain v where "pool_moves E (DoCheckout t now) w = Some v" "good_step E now t w v" "same_held t w v \<or> handed_out t w v"
      using step_Checkout [OF assms(1)] x assms(4) unfolding handed_out_def held_def by (metis fresh_alive.simps(3))
    then show ?thesis using CheckingOut by (intro event) (auto simp: next_event_def)
  next
    case (Discarding e k)
    then have "k \<noteq> ReleaseDone" using assms(2) x by auto
    then obtain v where "pool_moves E (DoDiscard t) w = Some v" "good_step E now t w v" "same_held t w v"
      using step_Discard Discarding x assms(1) by metis
    then show ?thesis using Discarding by (intro event) (auto simp: next_event_def)
  next
    case (OpenUndo e)
    then show ?thesis using step_quiet [OF assms(1) _ _ _ assms(5), of ctx now x "DoOpenUndo t"] x event
      by (auto simp: next_event_def)
  next
    case Register
    then show ?thesis using step_quiet [OF assms(1) _ _ _ assms(5), of ctx now x "DoRegister t"] x event
      by (auto simp: next_event_def)
  next
    case (Wait ch)
    then show ?thesis using step_quiet [OF assms(1) _ _ _ assms(5), of ctx now x "CtxDone t"] x event
      by (auto simp: next_event_def)
  next
    case (Cancelled ch)
    then show ?thesis using step_quiet [OF assms(1) _ _ _ assms(5), of ctx now x "DoRemoveWaiter t"] x event
      by (auto simp: next_event_def)
  next
    case (Got m)
    then show ?thesis using step_quiet [OF assms(1) _ _ _ assms(5), of ctx now x "DoValidate t (\<lambda>_. True) now"] x event
      by (auto simp: next_event_def)
  qed (use assms(2,3) x in \<open>auto simp: returned_def\<close>)
qed

lemma drive_returns:
  assumes "reachable (pl_cfg E) (pw_pool w)" "t < length (procs (pw_pool w))" "acquiring (procs (pw_pool w) ! t)"
    and "fresh_alive (conn_alive w) (procs (pw_pool w) ! t)" "\<not> HasAfterAcquire (pl_cfg E)"
    and "\<And>c. procs (pw_pool w) ! t \<noteq> Returned (Acquired c)" "steps_left E now t w < n"
  shows "\<exists>r v. drive n E ctx now t err w = Some (r, v) \<and> reachable (pl_cfg E) (pw_pool v) \<and>
    length (procs (pw_pool v)) = length (procs (pw_pool w)) \<and> returned (procs (pw_pool v) ! t) \<and>
    (case r of Inl _ \<Rightarrow> held v = held w | Inr c \<Rightarrow> c \<notin> held w \<and> held v = insert c (held w) \<and> conn_alive v c)"
  using assms
proof (induction n arbitrary: w err)
  case (Suc n)
  show ?case
  proof (cases "returned (procs (pw_pool w) ! t)")
    case True
    then obtain why where "procs (pw_pool w) ! t = Returned (AcquireFailed why)"
      using Suc.prems(6) by (auto simp: returned_def split: pc.splits) (metis acquire_result.exhaust)
    then show ?thesis using Suc.prems(1) by (simp add: returned_def)
  next
    case False
    obtain e v where v: "drive (Suc n) E ctx now t err w = drive n E ctx now t e v" "good_step E now t w v"
      "reachable (pl_cfg E) (pw_pool v)" "same_held t w v \<or> handed_out t w v"
      using drive_step [OF Suc.prems(2,3) False Suc.prems(4,5)] Suc.prems(1) reachable.step by metis
    have good: "length (procs (pw_pool v)) = length (procs (pw_pool w))" "acquiring (procs (pw_pool v) ! t)"
      "fresh_alive (conn_alive v) (procs (pw_pool v) ! t)" "steps_left E now t v < n"
      using v(2) Suc.prems(7) by (auto simp: good_step_def)
    from v(4) show ?thesis
    proof
      assume "same_held t w v"
      then have h: "held v = held w" "\<And>c. procs (pw_pool v) ! t \<noteq> Returned (Acquired c)"
        by (simp_all add: same_held_def held_def)
      show ?thesis unfolding v(1) h(1) [symmetric] good(1) [symmetric]
        by (rule Suc.IH) (use v(3) good Suc.prems(2,5) h(2) in simp_all)
    next
      assume "handed_out t w v"
      then obtain x where x: "procs (pw_pool w) ! t = CheckingOut x"
        "procs (pw_pool v) ! t = Returned (Acquired (pe_conn x))" "held v = insert (pe_conn x) (held w)"
        by (auto simp: handed_out_def)
      obtain m where "n = Suc m" using good(4) by (cases n) simp_all
      then have "drive (Suc n) E ctx now t err w = Some (Ok (pe_conn x), v)" using v(1) x(2) by simp
      moreover have "pe_conn x \<notin> held w"
      proof -
        have "conn_occ (pe_conn x) (pw_pool w) \<le> 1"
          using reachable_inv [OF Suc.prems(1)] by (simp add: pool_inv_def)
        from conn_occ_le(2) [OF this Suc.prems(2)] x(1) have "occ (pe_conn x) (checkedOut (pw_pool w)) = 0" by simp
        then show ?thesis using occ_zero_filter by (fastforce simp: held_def filter_id_conv)
      qed
      ultimately show ?thesis using x v(3) good(1,3) by (simp add: returned_def)
    qed
  qed
qed simp

section \<open>The pool provides the interface\<close>

definition alone_inv :: "'s pool_env \<Rightarrow> nat \<Rightarrow> 's pool_world \<Rightarrow> bool" where
  "alone_inv E t w \<longleftrightarrow> \<not> HasAfterAcquire (pl_cfg E) \<and> reachable (pl_cfg E) (pw_pool w) \<and>
     t < length (procs (pw_pool w)) \<and> is_free (procs (pw_pool w) ! t)"

lemma returned_free: "returned x \<Longrightarrow> is_free x"
  by (cases x) (simp_all add: returned_def is_free_def)

lemma acquire_alone_returns:
  assumes "alone_inv E t w"
  shows "\<exists>r v. acquire_alone E now t ctx w = Some (r, v) \<and> alone_inv E t v \<and>
    (case r of Inl _ \<Rightarrow> held v = held w | Inr c \<Rightarrow> c \<notin> held w \<and> held v = insert c (held w) \<and> conn_alive v c)"
proof -
  define q where "q = set_pc t (if closed (pw_pool w) then Returned (AcquireFailed PoolClosed) else TryGet) (pw_pool w)"
  have step: "pool_step (pl_cfg E) (CallAcquire t) (pw_pool w) = Some q"
    using assms by (simp add: alone_inv_def q_def)
  define v where "v = w\<lparr>pw_pool := q\<rparr>"
  have mv: "pool_moves E (CallAcquire t) w = Some v"
    using pool_moves_same [of E "CallAcquire t" w q] step by (simp add: v_def q_def set_pc_def)
  have v: "reachable (pl_cfg E) (pw_pool v)" "t < length (procs (pw_pool v))" "acquiring (procs (pw_pool v) ! t)"
    "fresh_alive (conn_alive v) (procs (pw_pool v) ! t)" "procs (pw_pool v) ! t \<noteq> Returned (Acquired c)"
    "steps_left E now t v < acquire_fuel (pw_pool v)" "held v = held w" for c
    using assms reachable.step [OF _ step]
    by (auto simp: alone_inv_def v_def q_def set_pc_def steps_left_def acquire_fuel_def held_def)
  have "\<exists>r u. drive (acquire_fuel (pw_pool v)) E ctx now t None v = Some (r, u) \<and> reachable (pl_cfg E) (pw_pool u) \<and>
      length (procs (pw_pool u)) = length (procs (pw_pool v)) \<and> returned (procs (pw_pool u) ! t) \<and>
      (case r of Inl _ \<Rightarrow> held u = held v | Inr c \<Rightarrow> c \<notin> held v \<and> held u = insert c (held v) \<and> conn_alive u c)"
    by (rule drive_returns) (use v assms in \<open>simp_all add: alone_inv_def\<close>)
  then show ?thesis unfolding v(7) using v(2) assms mv returned_free by (auto simp: acquire_alone_def alone_inv_def)
qed

lemma held_after_Release:
  "pe_conn ` set (filter (\<lambda>x. pe_conn x \<noteq> c) es) = pe_conn ` set es - {c}"
  by auto

lemma release_alone_returns:
  assumes "alone_inv E t w"
  shows "\<exists>v. release_alone E now t c d w = Some v \<and> alone_inv E t v \<and> held v = held w - {c}"
proof -
  define p where "p = pw_pool w"
  define q where "q = Release c d (conn_alive w c) now t p"
  have t: "t < length (procs p)" "reachable (pl_cfg E) p" using assms by (simp_all add: alone_inv_def p_def)
  have step: "pool_step (pl_cfg E) (CallRelease t c d (conn_alive w c) now) p = Some q"
    using assms by (simp add: alone_inv_def q_def p_def)
  define v where "v = w\<lparr>pw_pool := q\<rparr>"
  have mv: "pool_moves E (with_alive (conn_alive w) (CallRelease t c d True now)) w = Some v"
    using pool_moves_same [of E _ w q] step
    by (auto simp: v_def p_def q_def Release_def set_pc_def Let_def split: option.splits)
  have r: "reachable (pl_cfg E) q" using t(2) step by (rule reachable.step)
  have len: "length (procs q) = length (procs p)" and h: "pe_conn ` set (checkedOut q) = pe_conn ` set (checkedOut p) - {c}"
    by (auto simp: q_def Release_def set_pc_def Let_def find_None_iff split: option.splits)
  have last: "\<exists>u. pool_moves E ev v = Some u \<and> alone_inv E t u \<and> held u = held w - {c}"
    if ex: "\<exists>q'. pool_step (pl_cfg E) ev q = Some q' \<and> is_free (procs q' ! t) \<and> length (procs q') = length (procs q) \<and>
      checkedOut q' = checkedOut q" for ev
  proof -
    obtain q' where q': "pool_step (pl_cfg E) ev q = Some q'" "is_free (procs q' ! t)" "length (procs q') = length (procs q)"
      "checkedOut q' = checkedOut q" using ex by blast
    obtain u where u: "pool_moves E ev v = Some u" "pw_pool u = q'"
      using pool_moves_some [of E ev v q'] q'(1) by (auto simp: v_def)
    have "reachable (pl_cfg E) q'" using r q'(1) by (rule reachable.step)
    then show ?thesis using u q' assms len h t(1) by (simp add: alone_inv_def held_def p_def)
  qed
  consider (out) e where "procs q ! t = Discarding e ReleaseDone" | (putting) e where "procs q ! t = Putting e"
    | (none) "procs q = procs p"
    using t(1) by (cases "find (\<lambda>x. pe_conn x = c) (checkedOut p)"; cases "d \<or> \<not> conn_alive w c")
      (simp_all add: q_def Release_def set_pc_def)
  then show ?thesis
  proof cases
    case out
    have "\<exists>u. pool_moves E (DoDiscard t) v = Some u \<and> alone_inv E t u \<and> held u = held w - {c}"
      by (rule last) (use out t(1) len in \<open>simp add: discardConn_def set_pc_def dec_open_def close_conn_def is_free_def\<close>)
    then show ?thesis using mv out by (simp add: release_alone_def v_def)
  next
    case putting
    obtain q' where q': "releaseInternal e t q = Some q'" using send_enabled [OF r] by blast
    then have "is_free (procs q' ! t) \<and> length (procs q') = length (procs q) \<and> checkedOut q' = checkedOut q"
      using t(1) len by (auto simp: releaseInternal_def send_def set_pc_def dec_open_def close_conn_def is_free_def
          split: if_splits list.splits)
    then have "\<exists>u. pool_moves E (DoPut t) v = Some u \<and> alone_inv E t u \<and> held u = held w - {c}"
      by (intro last) (use putting q' t(1) len in simp)
    then show ?thesis using mv putting by (simp add: release_alone_def v_def)
  next
    case none
    have f: "is_free (procs p ! t)" using assms by (simp add: alone_inv_def p_def)
    have "release_alone E now t c d w = Some v"
      using mv none f by (auto simp: release_alone_def v_def is_free_def split: pc.splits)
    moreover have "alone_inv E t v" using assms r len f none by (simp add: alone_inv_def v_def p_def)
    moreover have "held v = held w - {c}" using h by (simp add: held_def v_def p_def)
    ultimately show ?thesis by blast
  qed
qed

interpretation alone: pool_client "\<lambda>ctx. acquire_alone E now t ctx" "\<lambda>c d. release_alone E now t c d" held "alone_inv E t"
  for E now t
proof unfold_locales
  fix w :: "'a pool_world" and ctx
  assume "alone_inv E t w"
  from acquire_alone_returns [OF this, of now ctx] obtain r v where a: "acquire_alone E now t ctx w = Some (r, v)"
    "alone_inv E t v"
    "case r of Inl _ \<Rightarrow> held v = held w | Inr c \<Rightarrow> c \<notin> held w \<and> held v = insert c (held w) \<and> conn_alive v c" by blast
  then show "\<exists>r v. acquire_alone E now t ctx w = Some (r, v) \<and> alone_inv E t v \<and>
      (case r of Inl _ \<Rightarrow> held v = held w | Inr c \<Rightarrow> c \<notin> held w \<and> held v = insert c (held w))"
    by (auto split: sum.splits)
qed (rule release_alone_returns)

text \<open>A released connection that is to be discarded is closed.\<close>

lemma release_discards:
  assumes "alone_inv E t w" "c \<in> held w" "release_alone E now t c True w = Some v"
  shows "\<not> conn_alive v c"
proof -
  define p where "p = pw_pool w"
  obtain e where e: "find (\<lambda>x. pe_conn x = c) (checkedOut p) = Some e"
    using assms(2) by (cases "find (\<lambda>x. pe_conn x = c) (checkedOut p)") (auto simp: held_def p_def find_None_iff)
  then have c: "pe_conn e = c" by (auto simp: find_Some_iff)
  define q where "q = set_pc t (Discarding e ReleaseDone) (p\<lparr>checkedOut := filter (\<lambda>x. pe_conn x \<noteq> c) (checkedOut p)\<rparr>)"
  have t: "t < length (procs p)" "is_free (procs p ! t)" using assms(1) by (simp_all add: alone_inv_def p_def)
  have "pool_step (pl_cfg E) (CallRelease t c True (conn_alive w c) now) p = Some q"
    using t e by (simp add: q_def Release_def)
  then have mv: "pool_moves E (with_alive (conn_alive w) (CallRelease t c True True now)) w = Some (w\<lparr>pw_pool := q\<rparr>)"
    using pool_moves_same [of E _ w q] by (simp add: p_def q_def set_pc_def)
  have "v = close_one E c (w\<lparr>pw_pool := discardConn e ReleaseDone t q\<rparr>)"
    using assms(3) mv t(1) c by (simp add: release_alone_def pool_moves_def newly_closed_def q_def discardConn_def set_pc_def
        close_conn_def dec_open_def split: if_splits)
  then show ?thesis by (simp add: conn_alive_def close_one_alive)
qed

end
