(* ===== verification/Bridge.thy ===== *)
theory Bridge
  imports Pool_Do Cli
begin

text \<open>
  The HTTP bridge (cmd/nwrfc-bridge/main.go): the handler of \<open>/rfc/\<close>, the one of \<open>/health\<close>, and the
  configuration of the pool.

  A body is given by its first JSON value, or the error of the parser; numbers are the float64 that
  package json makes of them. What the handler encodes is a JSON value too; the printed text, with the
  escapes and the indentation of package json, is not modelled. The pool is the one of \<open>Pool_Do\<close>.

  The lemmas show what a refused request leaves alone, which status the answer to an SDK error has, and
  what the trip through JSON loses.
\<close>

section \<open>JSON\<close>

datatype json =
    JNull
  | JBool bool
  | JNumber go_string
  | JString go_string
  | JArray "json list"
  | JObject "(go_string \<times> json) list"

text \<open>The library: the first value of a text or the parser's error; the float64 of a number literal, where
  it is in range; the literal printed for a float, where it is finite; base64.\<close>

record json_lib =
  js_parse :: "go_string \<Rightarrow> (go_string, json) result"
  js_float :: "go_string \<Rightarrow> 64 word option"
  js_show :: "fkind \<Rightarrow> 64 word \<Rightarrow> go_string option"
  js_base64 :: "8 word list \<Rightarrow> go_string"

definition cannot_unmarshal :: "go_string \<Rightarrow> go_string \<Rightarrow> go_string" where
  "cannot_unmarshal what type = ''json: cannot unmarshal '' @ what @ '' into Go value of type '' @ type"

text \<open>Decoding into \<open>any\<close>: the first number out of range is the error, a later member of an object
  replaces an earlier one of the same name.\<close>

fun json_any :: "json_lib \<Rightarrow> json \<Rightarrow> (go_string, gval) result"
and json_list :: "json_lib \<Rightarrow> json list \<Rightarrow> (go_string, gval list) result"
and json_members :: "json_lib \<Rightarrow> (go_string \<times> json) list \<Rightarrow> call_params \<Rightarrow> (go_string, call_params) result"
where
  "json_any L JNull = Ok VNil"
| "json_any L (JBool b) = Ok (VBool b)"
| "json_any L (JNumber s) = (case js_float L s of
     Some w \<Rightarrow> Ok (VFloat KFloat64 w) | None \<Rightarrow> Err (cannot_unmarshal (''number '' @ s) ''float64''))"
| "json_any L (JString s) = Ok (VString s)"
| "json_any L (JArray js) = (case json_list L js of Inl e \<Rightarrow> Err e | Inr vs \<Rightarrow> Ok (VSlice TIface (Some vs)))"
| "json_any L (JObject ms) = (case json_members L ms [] of Inl e \<Rightarrow> Err e | Inr m \<Rightarrow> Ok (any_map m))"
| "json_list L [] = Ok []"
| "json_list L (j # js) = (case json_any L j of Inl e \<Rightarrow> Err e | Inr v \<Rightarrow>
     (case json_list L js of Inl e \<Rightarrow> Err e | Inr vs \<Rightarrow> Ok (v # vs)))"
| "json_members L [] m = Ok m"
| "json_members L ((k, j) # ms) m = (case json_any L j of Inl e \<Rightarrow> Err e | Inr v \<Rightarrow> json_members L ms (map_set k v m))"

text \<open>Decoding into a variable of type \<open>CallParams\<close>: null leaves it nil.\<close>

definition json_params :: "json_lib \<Rightarrow> json \<Rightarrow> (go_string, call_params) result" where
  "json_params L j =
     (case j of
        JNull \<Rightarrow> Ok []
      | JObject ms \<Rightarrow> json_members L ms []
      | JBool _ \<Rightarrow> Err (cannot_unmarshal ''bool'' ''backend.CallParams'')
      | JNumber _ \<Rightarrow> Err (cannot_unmarshal ''number'' ''backend.CallParams'')
      | JString _ \<Rightarrow> Err (cannot_unmarshal ''string'' ''backend.CallParams'')
      | JArray _ \<Rightarrow> Err (cannot_unmarshal ''array'' ''backend.CallParams''))"

text \<open>Encoding: a byte slice is base64 text, a struct (here a date or a time) an object of its exported
  fields, a map an object with sorted names; what has no JSON (a float that is not finite, a map whose keys
  are neither strings nor integers) makes the whole encoding fail.\<close>

fun json_key :: "gtype \<Rightarrow> bool" where
  "json_key TString = True"
| "json_key (TInt _) = True"
| "json_key _ = False"

fun key_text :: "gval \<Rightarrow> go_string" where
  "key_text (VString s) = s"
| "key_text (VInt _ n) = show_int n"
| "key_text _ = []"

definition sorted_object :: "(go_string \<times> json) list \<Rightarrow> json" where
  "sorted_object ms = JObject (sort_key fst ms)"

fun to_json :: "json_lib \<Rightarrow> gval \<Rightarrow> json option"
and list_json :: "json_lib \<Rightarrow> gval list \<Rightarrow> json list option"
and entries_json :: "json_lib \<Rightarrow> (gval \<times> gval) list \<Rightarrow> (go_string \<times> json) list option"
and fields_json :: "json_lib \<Rightarrow> (go_string \<times> go_string \<times> bool \<times> bool \<times> gtype) list \<Rightarrow> gval list \<Rightarrow> (go_string \<times> json) list option"
where
  "to_json L VNil = Some JNull"
| "to_json L (VBool b) = Some (JBool b)"
| "to_json L (VString s) = Some (JString s)"
| "to_json L (VInt k n) = Some (JNumber (show_int n))"
| "to_json L (VFloat k w) = map_option JNumber (js_show L k w)"
| "to_json L (VSlice t None) = Some JNull"
| "to_json L (VSlice t (Some vs)) =
     (if t = TInt KUint8 then Some (JString (js_base64 L (map byte_val vs)))
      else map_option JArray (list_json L vs))"
| "to_json L (VArray t vs) = map_option JArray (list_json L vs)"
| "to_json L (VPtr t None) = Some JNull"
| "to_json L (VPtr t (Some v)) = to_json L v"
| "to_json L (VMap k t None) = (if json_key (under k) then Some JNull else None)"
| "to_json L (VMap k t (Some kvs)) = (if json_key (under k) then map_option sorted_object (entries_json L kvs) else None)"
| "to_json L (VStruct fs vs) = map_option JObject (fields_json L fs vs)"
| "to_json L (VNamed n v) = to_json L v"
| "list_json L [] = Some []"
| "list_json L (v # vs) = (case to_json L v of None \<Rightarrow> None | Some j \<Rightarrow> map_option (\<lambda>js. j # js) (list_json L vs))"
| "entries_json L [] = Some []"
| "entries_json L ((k, v) # kvs) = (case to_json L v of None \<Rightarrow> None | Some j \<Rightarrow>
     map_option (\<lambda>ms. (key_text (raw k), j) # ms) (entries_json L kvs))"
| "fields_json L ((n, tag, exported, emb, t) # fs) (v # vs) =
     (if exported then (case to_json L v of None \<Rightarrow> None | Some j \<Rightarrow> map_option (\<lambda>ms. (n, j) # ms) (fields_json L fs vs))
      else fields_json L fs vs)"
| "fields_json L _ _ = Some []"

section \<open>Requests and replies\<close>

record http_request =
  hr_Method :: go_string
  hr_Path :: go_string
  hr_Body :: go_string

text \<open>\<open>http.Error\<close> with its status and text; a JSON reply of status 200, whose body is empty when the
  encoding fails; a panic, which the server turns into a dropped connection.\<close>

datatype http_reply = HttpError nat go_string | HttpJSON "json option" | HttpPanic

definition trim_prefix :: "go_string \<Rightarrow> go_string \<Rightarrow> go_string" where
  "trim_prefix s p = (if has_prefix s p then drop (length p) s else s)"

definition bridge_status :: "category \<Rightarrow> nat" where
  "bridge_status c =
     (if c = CategoryLogon \<or> c = CategoryConfig then 401
      else if c = CategoryABAPApp \<or> c = CategoryABAPRuntime then 400
      else if c = CategoryTimeout \<or> c = CategoryCancelled then 504
      else 502)"

text \<open>What is looked at before the pool: the method, the function name, the body.\<close>

definition bridge_request :: "json_lib \<Rightarrow> http_request \<Rightarrow> (nat \<times> go_string, go_string \<times> call_params) result" where
  "bridge_request L r =
     (if hr_Method r \<noteq> ''POST'' then Err (405, ''POST only'')
      else let fn = trim_prefix (hr_Path r) ''/rfc/''
           in if fn = [] \<or> contains fn ''/'' then Err (400, ''function name required'')
              else case (case js_parse L (hr_Body r) of Inl e \<Rightarrow> Err e | Inr j \<Rightarrow> json_params L j) of
                  Inl e \<Rightarrow> Err (400, ''invalid JSON: '' @ e)
                | Inr m \<Rightarrow> Ok (fn, m))"

text \<open>The callback given to \<open>Do\<close>.\<close>

definition bridge_call :: "'s pool_env \<Rightarrow> ctx \<Rightarrow> go_string \<Rightarrow> call_params \<Rightarrow> nat \<Rightarrow> 's pool_world \<Rightarrow>
    call_params option fn_result \<times> 's pool_world" where
  "bridge_call E ctx fn m c w =
     (case CallMap (pl_rt E) ctx (Some (pw_conns w c)) fn m [] (pw_nw w, pw_tps w) of
        (r, st, tps) \<Rightarrow>
          ((case r of CallPanic \<Rightarrow> FnPanic | CallRet resp e _ \<Rightarrow> FnRet e resp), w\<lparr>pw_nw := st, pw_tps := tps\<rparr>))"

definition error_reply :: "(goerr \<Rightarrow> go_string) \<Rightarrow> goerr \<Rightarrow> http_reply" where
  "error_reply text e = HttpError (bridge_status (CategoryOf e)) (text e)"

definition bridge_reply :: "json_lib \<Rightarrow> (goerr \<Rightarrow> go_string) \<Rightarrow> call_params option do_result \<Rightarrow> http_reply" where
  "bridge_reply L text r =
     (case r of
        DoPanic \<Rightarrow> HttpPanic
      | DoRefused e \<Rightarrow> error_reply text e
      | DoRet (Some e) _ \<Rightarrow> error_reply text e
      | DoRet None resp \<Rightarrow> HttpJSON (case resp of None \<Rightarrow> Some JNull | Some m \<Rightarrow> to_json L (any_map m)))"

text \<open>\<open>ServeHTTP\<close>, run by goroutine \<open>t\<close>; \<open>ctx\<close> is the request's context with the timeout.\<close>

definition ServeHTTP :: "'s pool_env \<Rightarrow> json_lib \<Rightarrow> int \<Rightarrow> nat \<Rightarrow> ctx \<Rightarrow> http_request \<Rightarrow> 's pool_world \<Rightarrow>
    (http_reply \<times> 's pool_world) option" where
  "ServeHTTP E L now t ctx r w =
     (case bridge_request L r of
        Inl (status, msg) \<Rightarrow> Some (HttpError status msg, w)
      | Inr (fn, m) \<Rightarrow> map_option (\<lambda>(x, v). (bridge_reply L (env_text (re_env (pl_rt E))) x, v))
          (pool_Do (acquire_alone E now t) (release_alone E now t) ctx (bridge_call E ctx fn m) w))"

section \<open>The health handler and the program\<close>

definition caps_json :: "capabilities \<Rightarrow> json" where
  "caps_json c = JObject [(''WebSocketRFC'', JBool (WebSocketRFC c)), (''Throughput'', JBool (Throughput c)),
     (''BgRFC'', JBool (BgRFC c)), (''UTCLong'', JBool (UTCLongCap c)), (''FastSerialization'', JBool (FastSerialization c))]"

definition bridge_health :: "'s pool_env \<Rightarrow> 's pool_world \<Rightarrow> http_reply" where
  "bridge_health E w =
     (let ops = re_ops (pl_rt E); s = nw_bs (pw_nw w); stats = Stats (pw_pool w)
      in HttpJSON (Some (sorted_object
        [(''sdk'', JString (version_string (bk_version ops s))), (''open'', JNumber (show_int (ps_Open stats))),
         (''idle'', JNumber (show_int (int (ps_Idle stats)))), (''caps'', caps_json (bk_caps ops s))])))"

text \<open>\<open>NewPool\<close> checks the configuration before it starts the warm-up and the cleanup.\<close>

definition NewPool_check :: "int \<Rightarrow> int \<Rightarrow> params \<Rightarrow> goerr option" where
  "NewPool_check minSize maxSize p =
     (if maxSize \<le> 0 then Some (ConfigErr ''MaxSize'' ''must be > 0'')
      else if minSize < 0 \<or> minSize > maxSize then Some (ConfigErr ''MinSize'' ''must satisfy 0 <= MinSize <= MaxSize'')
      else validate p)"

definition bridge_config :: "int \<Rightarrow> pool_config" where
  "bridge_config poolSize = \<lparr>MinSize = 2, MaxSize = nat poolSize, MaxLifetime = 0, IdleTimeout = 300000000000,
     AlwaysReset = False, HasAfterAcquire = False\<rparr>"

text \<open>The program up to the listener: the exit code, or the pool's configuration and parameters. (The
  parameters are those of the command line client.)\<close>

definition bridge_main :: "os_env \<Rightarrow> 's backend \<Rightarrow> 's \<Rightarrow> int \<Rightarrow> int + (pool_config \<times> params)" where
  "bridge_main os ops s poolSize =
     (if ensureSDKOnce ops s \<noteq> None then Inl 1
      else if NewPool_check 2 poolSize (params_of_env os) \<noteq> None then Inl 1
      else Inr (bridge_config poolSize, params_of_env os))"

section \<open>Properties\<close>

lemma bridge_call_frame: "pw_pool (snd (bridge_call E ctx fn m c w)) = pw_pool w"
  by (simp add: bridge_call_def split: prod.splits)



text \<open>What a call that fails leaves to \<open>Do\<close>.\<close>

lemma bridge_call_fails:
  assumes "conn_alive v c"
    and "bk_invoke (re_ops (pl_rt E)) ctx (c_handle (pw_conns v c)) fn m (toBackend no_call_options) (nw_bs (pw_nw v)) = (Err e, s)"
  shows "\<exists>u. bridge_call E ctx fn m c v = (FnRet (Some (mapE (re_env (pl_rt E)) e)) None, u) \<and> pw_pool u = pw_pool v \<and>
    pw_conns u = pw_conns v"
  using assms by (simp add: bridge_call_def CallMap_invokes conn_alive_def first_option_def)

text \<open>C29: What a client is told when the SDK refuses the call: a logon failure is 401, an error of the ABAP
  program 400, every other group 502, with the text of the mapped error. The connection it happened on is closed
  and nobody holds it.\<close>

theorem bridge_error_status:
  assumes "alone_inv E t w" "bridge_request L req = Ok (fn, m)" "acquire_alone E now t ctx w = Some (Ok c, v)"
    and "bk_invoke (re_ops (pl_rt E)) ctx (c_handle (pw_conns v c)) fn m (toBackend no_call_options) (nw_bs (pw_nw v)) = (Err e, s)"
    and "as_sdk e = Some (op, info)" "rfc_category e = None"
  shows "\<exists>u. ServeHTTP E L now t ctx req w =
      Some (HttpError (if Group info = GroupLogonFailure then 401
                       else if Group info = GroupAbapApplicationFailure \<or> Group info = GroupAbapRuntimeFailure then 400
                       else 502) (env_text (re_env (pl_rt E)) (mapE (re_env (pl_rt E)) e)), u) \<and>
    held u = held w \<and> \<not> conn_alive u c"
proof -
  have a: "alone_inv E t v" "c \<notin> held w" "held v = insert c (held w)" "conn_alive v c"
    using acquire_alone_returns [OF assms(1), of now ctx] assms(3) by auto
  obtain u where u: "bridge_call E ctx fn m c v = (FnRet (Some (mapE (re_env (pl_rt E)) e)) None, u)"
    "pw_pool u = pw_pool v" using bridge_call_fails [OF a(4) assms(4)] by blast
  then have u': "alone_inv E t u" "held u = insert c (held w)" using a by (simp_all add: alone_inv_def held_def)
  obtain x where x: "release_alone E now t c True u = Some x" "held x = held u - {c}"
    using release_alone_returns [OF u'(1)] by blast
  have "\<not> conn_alive x c" using release_discards [OF u'(1) _ x(1)] u'(2) by simp
  moreover have "CategoryOf (mapE (re_env (pl_rt E)) e) = group_category (Group info)"
    using mapBackendError_group [OF assms(5,6)] by (simp add: mapE_def)
  ultimately show ?thesis
    using assms(2,3) u(1) u'(2) x a(2)
    by (simp add: ServeHTTP_def pool_Do_def fn_outcome_def do_discard_def do_returns_def bridge_reply_def error_reply_def
        group_category_def bridge_status_def group_defs)
qed

text \<open>A backend that opens connections and refuses every call as a failed logon.\<close>

definition demo_info :: sdk_error_info where
  "demo_info = \<lparr>Code = 2, Group = 3, Key = ''RFC_LOGON_FAILURE'', Message = ''no'', AbapMsgClass = [], AbapMsgType = [],
     AbapMsgNumber = [], AbapMsgV1 = [], AbapMsgV2 = [], AbapMsgV3 = [], AbapMsgV4 = []\<rparr>"

definition refusing :: "unit pool_env" where
  "refusing = \<lparr>pl_cfg = demo_cfg 0, pl_params = empty_params\<lparr>Dest := ''QAS''\<rparr>,
     pl_rt = \<lparr>re_ops = unregisteredBackend\<lparr>bk_open := \<lambda>_ _ s. (Ok 7, s),
         bk_invoke := \<lambda>_ _ _ _ _ s. (Err (SDKErr ''RfcInvoke'' demo_info), s)\<rparr>,
       re_env = undefined, re_fo = undefined, re_tn = undefined\<rparr>\<rparr>"

definition refusing_nw :: "unit nw" where
  "refusing_nw = \<lparr>nw_bs = (), nw_listeners = [], nw_log = [], nw_maxTrace = 0\<rparr>"

lemma refusing_cfg: "pl_cfg refusing = demo_cfg 0" "ctx_err background = None"
  by (simp_all add: refusing_def background_def)

lemma refusing_open: "Open (re_ops (pl_rt refusing)) en background (pl_params refusing) refusing_nw =
    (Ok \<lparr>c_handle = 7, c_dest = ''QAS'', c_closed = False, c_tp = None\<rparr>, refusing_nw)"
  by (simp add: refusing_def refusing_nw_def Open_def demo_params enforceCapabilities_def unregisteredBackend_def
      with_bs_def fireEvent_def background_def)

lemma refusing_acquire:
  "\<exists>v. acquire_alone refusing 0 0 background (fresh_world 1 refusing_nw undefined undefined) = Some (Ok 0, v)"
  by (simp add: acquire_alone_def fresh_world_def new_pool_def pool_moves_def newly_closed_def is_free_def step_defs
      acquire_fuel_def eval_nat_numeral next_event_def refusing_cfg open_by_pool_def refusing_open entryValid_def
      after_reset_def conn_alive_def Alive_def demo_cfg_def)

lemma bridge_error_status_witness:
  "\<exists>u. ServeHTTP refusing ((undefined :: json_lib)\<lparr>js_parse := \<lambda>_. Ok (JObject [])\<rparr>) 0 0 background
      \<lparr>hr_Method = ''POST'', hr_Path = ''/rfc/RFC_PING'', hr_Body = ''{}''\<rparr> (fresh_world 1 refusing_nw undefined undefined) =
      Some (HttpError 401 (env_text (undefined :: env) (mapE undefined (SDKErr ''RfcInvoke'' demo_info))), u) \<and> \<not> conn_alive u 0"
proof -
  let ?w = "fresh_world 1 refusing_nw undefined undefined" and ?L = "(undefined :: json_lib)\<lparr>js_parse := \<lambda>_. Ok (JObject [])\<rparr>"
    and ?r = "\<lparr>hr_Method = ''POST'', hr_Path = ''/rfc/RFC_PING'', hr_Body = ''{}''\<rparr>"
  have inv: "alone_inv refusing 0 ?w"
    by (simp add: alone_inv_def refusing_cfg fresh_world_def reachable.start) (simp add: new_pool_def is_free_def demo_cfg_def)
  have req: "bridge_request ?L ?r = Ok (''RFC_PING'', [])"
    by (simp add: bridge_request_def json_params_def trim_prefix_def has_prefix_def Let_def)
  obtain v where v: "acquire_alone refusing 0 0 background ?w = Some (Ok 0, v)" using refusing_acquire by blast
  have env: "re_env (pl_rt refusing) = undefined" by (simp add: refusing_def)
  have call: "bk_invoke (re_ops (pl_rt refusing)) background h fn m opt s = (Err (SDKErr ''RfcInvoke'' demo_info), s)" for h fn m opt s
    by (simp add: refusing_def)
  from bridge_error_status [OF inv req v call, of "''RfcInvoke''" demo_info, unfolded env] show ?thesis
    by (auto simp: demo_info_def group_defs)
qed

section \<open>Weaknesses\<close>

text \<open>The status of the pool's own refusals: waiting for a connection until the deadline is 502 and not 504,
  since \<open>ctx.Err()\<close> has no category; a closed pool is 401, the status of a failed logon.\<close>

lemma bridge_pool_refusals:
  assumes "bridge_request L req = Ok (fn, m)"
  shows "acquire_alone E now t ctx w = Some (Err DeadlineExceeded, v) \<Longrightarrow>
      \<exists>msg. ServeHTTP E L now t ctx req w = Some (HttpError 502 msg, v)"
    and "acquire_alone E now t ctx w = Some (Err (ConfigErr ''Pool'' ''closed''), v) \<Longrightarrow>
      \<exists>msg. ServeHTTP E L now t ctx req w = Some (HttpError 401 msg, v)"
  using assms
  by (simp_all add: ServeHTTP_def pool_Do_def bridge_reply_def error_reply_def bridge_status_def DeadlineExceeded_def)

text \<open>A function in a namespace, such as \<open>/ABC/FN\<close>, cannot be called: its name has a slash.\<close>

lemma bridge_no_namespaces:
  "hr_Method req = ''POST'' \<Longrightarrow> hr_Path req = ''/rfc/'' @ fn \<Longrightarrow> contains fn ''/'' \<Longrightarrow>
   ServeHTTP E L now t ctx req w = Some (HttpError 400 ''function name required'', w)"
  by (simp add: ServeHTTP_def bridge_request_def trim_prefix_def has_prefix_def)

text \<open>A number of a body is a float64, which no integer field takes; base64 text is no byte field's value. So
  the bridge cannot set integers and bytes, not even to what it has answered with itself.\<close>

lemma bridge_cannot_set:
  assumes "json_any L j = Ok v" "j = JNumber s \<or> j = JString s"
  shows "t \<in> set int_types \<Longrightarrow> fillVariable k t container cName v td field c =
      (Err (Fail (errMarshal field (fmt_T k v) (rfc_type_String t) (Some (cannot_convert k v ''int'')))), c)"
    and "t = TypeByte \<or> t = TypeXString \<Longrightarrow> fillVariable k t container cName v td field c =
      (Err (Fail (errMarshal field (fmt_T k v) (rfc_type_String t) (Some (PlainErr ''expected []byte'')))), c)"
  using assms
  by (auto simp: fillVariable.simps string_types_def int_types_def fill_int_def fill_bytes_def coerceToInt64_def fail_marshal_def failA_def
      split: option.splits)

text \<open>With \<open>-pool 1\<close> the program stops with exit code 1: it asks for two warm connections.\<close>

lemma bridge_pool_of_one: "poolSize < 2 \<Longrightarrow> bridge_main os ops s poolSize = Inl 1"
  by (simp add: bridge_main_def NewPool_check_def)

text \<open>A pool size it accepts is the configuration of \<open>Pool\<close> with the sizes in order, and \<open>Acquire\<close> returns.\<close>

lemma bridge_main_config:
  assumes "bridge_main os ops s poolSize = Inr (cfg, p)"
  shows "MinSize cfg \<le> MaxSize cfg" "0 < MaxSize cfg" "\<not> HasAfterAcquire cfg" "validate p = None"
  using assms by (auto simp: bridge_main_def bridge_config_def NewPool_check_def split: if_splits)

end
