(* ===== verification/Codegen_Text.thy ===== *)
theory Codegen_Text
  imports Codegen Cli
begin

text \<open>
  The texts nwrfc-gen writes (cmd/nwrfc-gen/main.go): the four templates as functions from their data to
  lines, the commands describe and generate, and the files they read and write.

  The operations of the file system are arguments and return a new state of it; so are package format, and
  the JSON of descriptors. A command ends with an exit code.

  The lemmas show that the declarations can be read back from a generated file, which files are written, and
  what a run that fails leaves behind.
\<close>

section \<open>Lines\<close>

definition newline :: char where "newline = CHR 0x0A"

definition unlines :: "go_string list \<Rightarrow> go_string" where
  "unlines ls = concat (map (\<lambda>l. l @ [newline]) ls)"

definition tabs :: "nat \<Rightarrow> go_string" where
  "tabs n = replicate n (CHR 0x09)"

definition field_line :: "param_doc \<Rightarrow> go_string" where
  \<open>field_line d = tabs 1 @ doc_GoName d @ '' '' @ doc_GoType d @ '' `rfc:"'' @ doc_RFCName d @ ''"`''\<close>

definition embedded :: "tmpl_data \<Rightarrow> go_string list" where
  "embedded t = (if tm_Changing t = [] then [] else [tabs 1 @ ''InOut''])"

definition struct_lines :: "struct_doc \<Rightarrow> go_string list" where
  "struct_lines s = [[], ''type '' @ sd_GoName s @ '' struct {''] @ map field_line (sd_Fields s) @ [''}'']"

definition echo_line :: "param_doc \<Rightarrow> go_string" where
  \<open>echo_line d = tabs 2 @ ''out["'' @ doc_RFCName d @ ''"] = in["'' @ doc_RFCName d @ ''"]''\<close>

definition raw_line :: "param_doc \<Rightarrow> go_string" where
  \<open>raw_line d = tabs 1 @ ''raw["'' @ doc_RFCName d @ ''"] = in.'' @ doc_GoName d\<close>

definition read_lines :: "param_doc \<Rightarrow> go_string list" where
  \<open>read_lines d = [tabs 1 @ ''if v, ok := raw["'' @ doc_RFCName d @ ''"]; ok {''] @
     (if doc_GoType d = ''any'' then [tabs 2 @ ''out.'' @ doc_GoName d @ '' = v'']
      else [tabs 2 @ ''if tv, ok := v.('' @ doc_GoType d @ ''); ok {'', tabs 3 @ ''out.'' @ doc_GoName d @ '' = tv'',
            tabs 2 @ ''}'']) @
     [tabs 1 @ ''}'']\<close>

section \<open>Templates\<close>

definition source_lines :: "tmpl_data \<Rightarrow> go_string list" where
  \<open>source_lines t =
     [''// Code generated by nwrfc-gen. DO NOT EDIT.'',
      ''// SPDX-License-Identifier: Apache-2.0'',
      [],
      ''package '' @ tm_Package t,
      [],
      ''import ('',
      tabs 1 @ ''"context"'',
      [],
      tabs 1 @ ''"github.com/cjordaoc/gorfc/nwrfc"'',
      '')'',
      [],
      ''// InOut contains CHANGING parameters for '' @ tm_RFCName t @ ''.'',
      ''type InOut struct {''] @
     map field_line (tm_Changing t) @
     [''}'',
      [],
      ''// In contains IMPORT parameters for '' @ tm_RFCName t @ ''.'',
      ''type In struct {''] @
     embedded t @
     map field_line (tm_Imports t) @
     [''}'',
      [],
      ''// Out contains EXPORT, TABLES, and CHANGING results for '' @ tm_RFCName t @ ''.'',
      ''type Out struct {''] @
     embedded t @
     map field_line (tm_Exports t) @
     map field_line (tm_Tables t) @
     [''}'',
      []] @
     concat (map struct_lines (tm_Structs t)) @
     [[],
      [],
      ''// Call invokes '' @ tm_RFCName t @ '' using conn.'',
      ''func Call(ctx context.Context, conn *nwrfc.Conn, in In) (Out, error) {'',
      tabs 1 @ ''var out Out'',
      tabs 1 @ ''_, err := nwrfc.Call(ctx, conn, "'' @ tm_RFCName t @ ''", in, &out)'',
      tabs 1 @ ''return out, err'',
      ''}'',
      [],
      ''// CallWithPool invokes '' @ tm_RFCName t @ '' using pool.Do.'',
      ''func CallWithPool(ctx context.Context, pool *nwrfc.Pool, in In) (Out, error) {'',
      tabs 1 @ ''var out Out'',
      tabs 1 @ ''err := pool.Do(ctx, func(conn *nwrfc.Conn) error {'',
      tabs 2 @ ''var err error'',
      tabs 2 @ ''out, err = Call(ctx, conn, in)'',
      tabs 2 @ ''return err'',
      tabs 1 @ ''})'',
      tabs 1 @ ''return out, err'',
      ''}'']\<close>

definition test_lines :: "tmpl_data \<Rightarrow> go_string list" where
  \<open>test_lines t =
     [''// Code generated by nwrfc-gen. DO NOT EDIT.'',
      ''// SPDX-License-Identifier: Apache-2.0'',
      [],
      ''package '' @ tm_Package t,
      [],
      ''import ('',
      tabs 1 @ ''"context"'',
      tabs 1 @ ''"testing"'',
      [],
      tabs 1 @ ''"github.com/cjordaoc/gorfc/nwrfc"'',
      tabs 1 @ ''"github.com/cjordaoc/gorfc/nwrfcmock"'',
      '')'',
      [],
      ''func TestGeneratedCall(t *testing.T) {'',
      tabs 1 @ ''mock := nwrfcmock.New()'',
      tabs 1 @ ''mock.HandleFunc("'' @ tm_RFCName t @ ''", func(ctx context.Context, in nwrfcmock.CallParams) (nwrfcmock.CallParams, error) {'',
      tabs 2 @ ''out := nwrfcmock.CallParams{}''] @
     map echo_line (tm_Changing t) @
     [tabs 2 @ ''return out, nil'',
      tabs 1 @ ''})'',
      tabs 1 @ ''restore := nwrfcmock.Install(mock)'',
      tabs 1 @ ''t.Cleanup(restore)'',
      [],
      tabs 1 @ ''conn, err := nwrfc.Open(context.Background(), nwrfc.Params{Dest: "MOCK"})'',
      tabs 1 @ ''if err != nil {'',
      tabs 2 @ ''t.Fatalf("Open: %v", err)'',
      tabs 1 @ ''}'',
      tabs 1 @ ''t.Cleanup(func() {'',
      tabs 2 @ ''if err := conn.Close(); err != nil {'',
      tabs 3 @ ''t.Fatalf("Close: %v", err)'',
      tabs 2 @ ''}'',
      tabs 1 @ ''})'',
      [],
      tabs 1 @ ''if _, err := Call(context.Background(), conn, In{}); err != nil {'',
      tabs 2 @ ''t.Fatalf("Call: %v", err)'',
      tabs 1 @ ''}'',
      ''}'',
      [],
      ''func TestGeneratedCallWithPool(t *testing.T) {'',
      tabs 1 @ ''mock := nwrfcmock.New()'',
      tabs 1 @ ''mock.HandleFunc("'' @ tm_RFCName t @ ''", func(ctx context.Context, in nwrfcmock.CallParams) (nwrfcmock.CallParams, error) {'',
      tabs 2 @ ''return nwrfcmock.CallParams{}, nil'',
      tabs 1 @ ''})'',
      tabs 1 @ ''restore := nwrfcmock.Install(mock)'',
      tabs 1 @ ''t.Cleanup(restore)'',
      [],
      tabs 1 @ ''pool, err := nwrfc.NewPool(nwrfc.PoolConfig{'',
      tabs 2 @ ''Params:  nwrfc.Params{Dest: "MOCK"},'',
      tabs 2 @ ''MaxSize: 1,'',
      tabs 1 @ ''})'',
      tabs 1 @ ''if err != nil {'',
      tabs 2 @ ''t.Fatalf("NewPool: %v", err)'',
      tabs 1 @ ''}'',
      tabs 1 @ ''t.Cleanup(func() {'',
      tabs 2 @ ''if err := pool.Close(); err != nil {'',
      tabs 3 @ ''t.Fatalf("Pool.Close: %v", err)'',
      tabs 2 @ ''}'',
      tabs 1 @ ''})'',
      [],
      tabs 1 @ ''if _, err := CallWithPool(context.Background(), pool, In{}); err != nil {'',
      tabs 2 @ ''t.Fatalf("CallWithPool: %v", err)'',
      tabs 1 @ ''}'',
      tabs 1 @ ''if got := mock.CallCount(); got != 1 {'',
      tabs 2 @ ''t.Fatalf("CallCount=%d want 1", got)'',
      tabs 1 @ ''}'',
      ''}'']\<close>

definition fast_lines :: "tmpl_data \<Rightarrow> go_string list" where
  \<open>fast_lines t =
     [''// Code generated by nwrfc-gen --fast. DO NOT EDIT.'',
      ''// SPDX-License-Identifier: Apache-2.0'',
      [],
      ''package '' @ tm_Package t,
      [],
      ''import ('',
      tabs 1 @ ''"context"'',
      [],
      tabs 1 @ ''"github.com/cjordaoc/gorfc/nwrfc"'',
      '')'',
      [],
      ''// In contains the IMPORT and CHANGING parameters for '' @ tm_RFCName t @ ''.'',
      ''type In struct {''] @
     map field_line (tm_FastIn t) @
     [''}'',
      [],
      ''// Out contains the EXPORT, TABLES, and CHANGING results for '' @ tm_RFCName t @ ''.'',
      ''type Out struct {''] @
     map field_line (tm_FastOut t) @
     [''}'',
      []] @
     concat (map struct_lines (tm_Structs t)) @
     [[],
      [],
      ''// marshalIn converts the typed input struct into a'',
      ''// map[string]any of tm_RFCName t parameters. It is reflection-free: every'',
      ''// field is a direct, statically typed assignment, so the per-call'',
      ''// reflection cost paid inside nwrfc.Call is eliminated here.'',
      ''func marshalIn(in In) map[string]any {'',
      tabs 1 @ ''raw := make(map[string]any, '' @ show_nat (length (tm_FastIn t)) @ '')''] @
     map raw_line (tm_FastIn t) @
     [tabs 1 @ ''return raw'',
      ''}'',
      [],
      ''// unmarshalOut reads a map[string]any of tm_RFCName t parameters into the'',
      ''// typed output struct. It is reflection-free: every field is read'',
      ''// through an explicit, statically typed assertion.'',
      ''func unmarshalOut(raw map[string]any, out *Out) {''] @
     concat (map read_lines (tm_FastOut t)) @
     [''}'',
      [],
      ''// CallFast invokes '' @ tm_RFCName t @ '' through the reflection-free'',
      ''// generated path. It is the throughput-tuned sibling of the'',
      ''// standard generated Call: behavior is identical, but'',
      ''// marshal/unmarshal avoid the reflection cost in nwrfc.Call.'',
      ''func CallFast(ctx context.Context, conn *nwrfc.Conn, in In) (Out, error) {'',
      tabs 1 @ ''var out Out'',
      tabs 1 @ ''raw, err := nwrfc.CallMap(ctx, conn, "'' @ tm_RFCName t @ ''", marshalIn(in))'',
      tabs 1 @ ''if err != nil {'',
      tabs 2 @ ''return out, err'',
      tabs 1 @ ''}'',
      tabs 1 @ ''unmarshalOut(raw, &out)'',
      tabs 1 @ ''return out, nil'',
      ''}'']\<close>

definition fast_test_lines :: "tmpl_data \<Rightarrow> go_string list" where
  \<open>fast_test_lines t =
     [''// Code generated by nwrfc-gen --fast. DO NOT EDIT.'',
      ''// SPDX-License-Identifier: Apache-2.0'',
      [],
      ''package '' @ tm_Package t,
      [],
      ''import ('',
      tabs 1 @ ''"context"'',
      tabs 1 @ ''"testing"'',
      [],
      tabs 1 @ ''"github.com/cjordaoc/gorfc/nwrfc"'',
      tabs 1 @ ''"github.com/cjordaoc/gorfc/nwrfcmock"'',
      '')'',
      [],
      ''func TestGeneratedCallFast(t *testing.T) {'',
      tabs 1 @ ''mock := nwrfcmock.New()'',
      tabs 1 @ ''mock.HandleFunc("'' @ tm_RFCName t @ ''", func(ctx context.Context, in nwrfcmock.CallParams) (nwrfcmock.CallParams, error) {'',
      tabs 2 @ ''out := nwrfcmock.CallParams{}''] @
     map echo_line (tm_Changing t) @
     [tabs 2 @ ''return out, nil'',
      tabs 1 @ ''})'',
      tabs 1 @ ''restore := nwrfcmock.Install(mock)'',
      tabs 1 @ ''t.Cleanup(restore)'',
      [],
      tabs 1 @ ''conn, err := nwrfc.Open(context.Background(), nwrfc.Params{Dest: "MOCK"})'',
      tabs 1 @ ''if err != nil {'',
      tabs 2 @ ''t.Fatalf("Open: %v", err)'',
      tabs 1 @ ''}'',
      tabs 1 @ ''t.Cleanup(func() {'',
      tabs 2 @ ''if err := conn.Close(); err != nil {'',
      tabs 3 @ ''t.Fatalf("Close: %v", err)'',
      tabs 2 @ ''}'',
      tabs 1 @ ''})'',
      [],
      tabs 1 @ ''if _, err := CallFast(context.Background(), conn, In{}); err != nil {'',
      tabs 2 @ ''t.Fatalf("CallFast: %v", err)'',
      tabs 1 @ ''}'',
      ''}'']\<close>

section \<open>Rendering\<close>

record gen_lib =
  gl_format :: "go_string \<Rightarrow> (goerr, go_string) result"
  gl_parse :: "go_string \<Rightarrow> (goerr, func_desc) result"
  gl_print :: "go_string \<Rightarrow> func_desc \<Rightarrow> (goerr, go_string) result"

record generated_files =
  gf_Source :: go_string
  gf_Test :: go_string

definition render :: "gen_lib \<Rightarrow> go_string list \<Rightarrow> (goerr, go_string) result" where
  "render L ls = (case gl_format L (unlines ls) of Inl e \<Rightarrow> Err (WrapErr ''gofmt: '' e) | Inr s \<Rightarrow> Ok s)"

definition render_files :: "gen_lib \<Rightarrow> bool \<Rightarrow> tmpl_data \<Rightarrow> (goerr, generated_files) result" where
  "render_files L fast t =
     (case render L (if fast then fast_lines t else source_lines t) of
        Inl e \<Rightarrow> Err e
      | Inr src \<Rightarrow> (case render L (if fast then fast_test_lines t else test_lines t) of
            Inl e \<Rightarrow> Err e | Inr tst \<Rightarrow> Ok \<lparr>gf_Source = src, gf_Test = tst\<rparr>))"

definition generate_files :: "gen_lib \<Rightarrow> unicode \<Rightarrow> go_string \<Rightarrow> func_desc \<Rightarrow> bool \<Rightarrow> (goerr, generated_files) result" where
  "generate_files L u pkg d fast = (case generate u pkg d of Inl e \<Rightarrow> Err e | Inr t \<Rightarrow> render_files L fast t)"

section \<open>Files\<close>

record 'f files =
  fl_read :: "go_string \<Rightarrow> 'f \<Rightarrow> (goerr, go_string) result"
  fl_mkdir :: "go_string \<Rightarrow> 'f \<Rightarrow> goerr option \<times> 'f"
  fl_write :: "go_string \<Rightarrow> go_string \<Rightarrow> 'f \<Rightarrow> goerr option \<times> 'f"
  fl_stdout :: "go_string \<Rightarrow> 'f \<Rightarrow> goerr option \<times> 'f"
  fl_Dir :: "go_string \<Rightarrow> go_string"
  fl_Join :: "go_string list \<Rightarrow> go_string"

text \<open>\<open>if err := f(); err != nil { return fmt.Errorf(msg+": %w", err) }\<close>.\<close>

definition or_wrap :: "go_string \<Rightarrow> ('f \<Rightarrow> goerr option \<times> 'f) \<Rightarrow> ('f \<Rightarrow> goerr option \<times> 'f) \<Rightarrow> 'f \<Rightarrow> goerr option \<times> 'f" where
  "or_wrap msg f g x = (case f x of (Some e, y) \<Rightarrow> (Some (WrapErr (msg @ '': '') e), y) | (None, y) \<Rightarrow> g y)"

definition write_to :: "'f files \<Rightarrow> go_string \<Rightarrow> go_string \<Rightarrow> ('f \<Rightarrow> goerr option \<times> 'f) \<Rightarrow> 'f \<Rightarrow> goerr option \<times> 'f" where
  "write_to F path b = or_wrap (''write '' @ path) (fl_write F path b)"

definition make_dir :: "'f files \<Rightarrow> go_string \<Rightarrow> ('f \<Rightarrow> goerr option \<times> 'f) \<Rightarrow> 'f \<Rightarrow> goerr option \<times> 'f" where
  "make_dir F dir = or_wrap (''mkdir '' @ dir) (fl_mkdir F dir)"

definition done_ok :: "'f \<Rightarrow> goerr option \<times> 'f" where
  "done_ok x = (None, x)"

definition writeDescriptorJSON :: "gen_lib \<Rightarrow> 'f files \<Rightarrow> go_string \<Rightarrow> func_desc \<Rightarrow> 'f \<Rightarrow> goerr option \<times> 'f" where
  "writeDescriptorJSON L F path d x =
     (case gl_print L (sourceNote (fn_Name d)) d of
        Inl e \<Rightarrow> (Some (WrapErr ''encode descriptor: '' e), x)
      | Inr b \<Rightarrow> (let dir = fl_Dir F path; wr = write_to F path (b @ [newline]) done_ok
                  in if dir = ''.'' then wr x else make_dir F dir wr x))"

definition trim_suffix :: "go_string \<Rightarrow> go_string \<Rightarrow> go_string" where
  "trim_suffix s p = (if has_suffix s p then take (length s - length p) s else s)"

text \<open>A directory gets two files, written in the order \<open>flip\<close> of a map iteration.\<close>

definition writeGenerated :: "'f files \<Rightarrow> unicode \<Rightarrow> bool \<Rightarrow> go_string \<Rightarrow> go_string \<Rightarrow> generated_files \<Rightarrow> 'f \<Rightarrow> goerr option \<times> 'f" where
  "writeGenerated F u flip out fn g x =
     (if out = [] then fl_stdout F (gf_Source g) x
      else if has_suffix out ''.go'' then
        (let dir = fl_Dir F out;
             wr = write_to F out (gf_Source g) (write_to F (trim_suffix out ''.go'' @ ''_test.go'') (gf_Test g) done_ok)
         in if dir = ''.'' then wr x else make_dir F dir wr x)
      else make_dir F out
        (let base = fileBase u fn; p = fl_Join F [out, base @ ''.go'']; q = fl_Join F [out, base @ ''_test.go'']
         in if flip then write_to F q (gf_Test g) (write_to F p (gf_Source g) done_ok)
            else write_to F p (gf_Source g) (write_to F q (gf_Test g) done_ok)) x)"

section \<open>Commands\<close>

text \<open>The exit code and the error printed; \<open>fail\<close> exits without running deferred calls.\<close>

datatype gen_exit = GenDone | GenFail goerr | GenUsage go_string

record gen_args =
  ga_json :: go_string
  ga_fn :: go_string
  ga_out :: go_string
  ga_save :: go_string
  ga_pkg :: go_string
  ga_fast :: bool

definition describe_live :: "'s backend \<Rightarrow> env \<Rightarrow> ctx \<Rightarrow> (go_string \<Rightarrow> go_string) \<Rightarrow> go_string \<Rightarrow> 's nw \<Rightarrow>
    (goerr, conn \<times> (goerr, func_desc) result) result \<times> 's nw" where
  "describe_live ops en ctx Getenv fn st =
     (case Open ops en ctx (paramsFromEnv Getenv) st of
        (Inl e, st1) \<Rightarrow> (Err (WrapErr ''Open: '' e), st1)
      | (Inr c, st1) \<Rightarrow> (case conn_Describe ops en ctx c fn st1 of
            (Inl e, st2) \<Rightarrow> (Ok (c, Err (WrapErr ''Describe: '' e)), st2)
          | (Inr d, st2) \<Rightarrow> (Ok (c, Ok d), st2)))"

definition runDescribe :: "gen_lib \<Rightarrow> 'f files \<Rightarrow> 's backend \<Rightarrow> env \<Rightarrow> ctx \<Rightarrow> (go_string \<Rightarrow> go_string) \<Rightarrow> go_string \<Rightarrow> go_string \<Rightarrow>
    'f \<times> 's nw \<Rightarrow> gen_exit \<times> 'f \<times> 's nw" where
  "runDescribe L F ops en ctx Getenv fn out w =
     (if fn = [] then (GenUsage ''describe: --fn required'', w)
      else if out = [] then (GenUsage ''describe: --out required'', w)
      else case describe_live ops en ctx Getenv fn (snd w) of
          (Inl e, st) \<Rightarrow> (GenFail e, fst w, st)
        | (Inr (c, Inl e), st) \<Rightarrow> (GenFail e, fst w, st)
        | (Inr (c, Inr d), st) \<Rightarrow> (case writeDescriptorJSON L F out d (fst w) of
              (Some e, x) \<Rightarrow> (GenFail e, x, st)
            | (None, x) \<Rightarrow> (GenDone, x, close_quietly ops en c st)))"

definition loadDescriptor :: "gen_lib \<Rightarrow> 'f files \<Rightarrow> 's backend \<Rightarrow> env \<Rightarrow> ctx \<Rightarrow> (go_string \<Rightarrow> go_string) \<Rightarrow> go_string \<Rightarrow> go_string \<Rightarrow>
    'f \<times> 's nw \<Rightarrow> (goerr, func_desc) result \<times> 's nw" where
  "loadDescriptor L F ops en ctx Getenv path fn w =
     (if path \<noteq> [] then
        (case fl_read F path (fst w) of
           Inl e \<Rightarrow> Err (WrapErr (''read '' @ path @ '': '') e)
         | Inr b \<Rightarrow> (case gl_parse L b of Inl e \<Rightarrow> Err (WrapErr (''parse '' @ path @ '': '') e) | Inr d \<Rightarrow> Ok d), snd w)
      else if fn \<noteq> [] then
        (case describe_live ops en ctx Getenv fn (snd w) of
           (Inl e, st) \<Rightarrow> (Err e, st)
         | (Inr (c, r), st) \<Rightarrow> (r, close_quietly ops en c st))
      else (Err (PlainErr ''--json or --fn required''), snd w))"

definition runGenerate :: "gen_lib \<Rightarrow> 'f files \<Rightarrow> unicode \<Rightarrow> bool \<Rightarrow> 's backend \<Rightarrow> env \<Rightarrow> ctx \<Rightarrow> (go_string \<Rightarrow> go_string) \<Rightarrow>
    gen_args \<Rightarrow> 'f \<times> 's nw \<Rightarrow> gen_exit \<times> 'f \<times> 's nw" where
  "runGenerate L F u flip ops en ctx Getenv a w =
     (case loadDescriptor L F ops en ctx Getenv (ga_json a) (ga_fn a) w of
        (Inl e, st) \<Rightarrow> (GenFail e, fst w, st)
      | (Inr d, st) \<Rightarrow>
          (case (if ga_save a = [] then (None, fst w) else writeDescriptorJSON L F (ga_save a) d (fst w)) of
             (Some e, x) \<Rightarrow> (GenFail e, x, st)
           | (None, x) \<Rightarrow> (case generate_files L u (ga_pkg a) d (ga_fast a) of
                 Inl e \<Rightarrow> (GenFail (WrapErr ''generate: '' e), x, st)
               | Inr g \<Rightarrow> (case writeGenerated F u flip (ga_out a) (fn_Name d) g x of
                     (Some e, y) \<Rightarrow> (GenFail e, y, st) | (None, y) \<Rightarrow> (GenDone, y, st)))))"

section \<open>Reading a generated file\<close>

datatype decl = Embedded go_string | Declared param_doc

definition word_of :: "go_string \<Rightarrow> go_string" where
  "word_of s = takeWhile (\<lambda>c. c \<noteq> CHR '' '') s"

definition read_field :: "go_string \<Rightarrow> decl" where
  "read_field l =
     (let s = drop 1 l; name = word_of s; rest = drop (length name) s
      in if rest = [] then Embedded name
         else let r = drop 1 rest; ty = word_of r; tag = drop (length ty + 7) r
              in Declared \<lparr>doc_GoName = name, doc_RFCName = take (length tag - 2) tag, doc_GoType = ty\<rparr>)"

definition struct_header :: "go_string \<Rightarrow> go_string" where
  "struct_header n = ''type '' @ n @ '' struct {''"

definition read_struct :: "go_string \<Rightarrow> go_string list \<Rightarrow> decl list" where
  "read_struct n ls = map read_field (takeWhile (\<lambda>l. l \<noteq> ''}'') (drop 1 (dropWhile (\<lambda>l. l \<noteq> struct_header n) ls)))"

definition doc_plain :: "param_doc \<Rightarrow> bool" where
  "doc_plain d \<longleftrightarrow> CHR '' '' \<notin> set (doc_GoName d) \<and> CHR '' '' \<notin> set (doc_GoType d) \<and>
     newline \<notin> set (doc_GoName d) \<and> newline \<notin> set (doc_GoType d) \<and> newline \<notin> set (doc_RFCName d)"

definition tmpl_plain :: "tmpl_data \<Rightarrow> bool" where
  "tmpl_plain t \<longleftrightarrow> newline \<notin> set (tm_RFCName t) \<and> newline \<notin> set (tm_Package t) \<and>
     list_all doc_plain (tm_Imports t @ tm_Exports t @ tm_Changing t @ tm_Tables t) \<and>
     list_all (\<lambda>s. newline \<notin> set (sd_GoName s) \<and> list_all doc_plain (sd_Fields s)) (tm_Structs t)"

lemma split_unlines:
  "list_all (\<lambda>l. newline \<notin> set l) ls \<Longrightarrow> split_byte newline (unlines ls) = ls @ [[]]"
proof (induction ls)
  case (Cons l ls)
  have "split_byte newline (l @ newline # s) = l # split_byte newline s" if "newline \<notin> set l" for l s
    using that by (induction l) auto
  then show ?case using Cons by (simp add: unlines_def)
qed (simp add: unlines_def)

lemma word_of_append: "CHR '' '' \<notin> set w \<Longrightarrow> word_of (w @ CHR '' '' # s) = w"
  unfolding word_of_def by (induction w) auto

lemma read_field_line: "doc_plain d \<Longrightarrow> read_field (field_line d) = Declared d"
  by (simp add: read_field_def field_line_def tabs_def Let_def word_of_append doc_plain_def)

lemma read_embedded: "read_field (tabs 1 @ ''InOut'') = Embedded ''InOut''"
  by (simp add: read_field_def tabs_def word_of_def Let_def)

lemma field_line_apart: "field_line d \<noteq> ''}''" "field_line d \<noteq> struct_header n"
  "tabs 1 @ s \<noteq> ''}''" "tabs 1 @ s \<noteq> struct_header n"
  by (simp_all add: field_line_def tabs_def struct_header_def)

lemma read_struct_skip:
  "list_all (\<lambda>l. l \<noteq> struct_header n) xs \<Longrightarrow> read_struct n (xs @ ys) = read_struct n ys"
  by (simp add: read_struct_def dropWhile_append2 list_all_iff)

lemma read_struct_at:
  assumes "list_all (\<lambda>l. l \<noteq> ''}'') ds"
  shows "read_struct n (struct_header n # ds @ ''}'' # zs) = map read_field ds"
  using assms by (simp add: read_struct_def takeWhile_append2 list_all_iff)

lemma plain_field_line: "doc_plain d \<Longrightarrow> newline \<notin> set (field_line d)"
  by (simp add: doc_plain_def field_line_def tabs_def newline_def)

lemma plain_field_lines: "list_all doc_plain ds \<Longrightarrow> list_all (\<lambda>l. newline \<notin> set l) (map field_line ds)"
  by (simp add: list_all_iff plain_field_line)

lemma plain_struct:
  "newline \<notin> set (sd_GoName s) \<Longrightarrow> list_all doc_plain (sd_Fields s) \<Longrightarrow> list_all (\<lambda>l. newline \<notin> set l) (struct_lines s)"
  unfolding struct_lines_def list_all_append by (intro conjI plain_field_lines) (simp_all add: newline_def)

lemma plain_struct_lines:
  "list_all (\<lambda>s. newline \<notin> set (sd_GoName s) \<and> list_all doc_plain (sd_Fields s)) ss \<Longrightarrow>
   list_all (\<lambda>l. newline \<notin> set l) (concat (map struct_lines ss))"
  by (induction ss) (simp_all add: plain_struct)

lemma plain_embedded: "list_all (\<lambda>l. newline \<notin> set l) (embedded t)"
  by (simp add: embedded_def tabs_def newline_def)

lemma plain_lines:
  assumes "tmpl_plain t"
  shows "list_all (\<lambda>l. newline \<notin> set l) (source_lines t)"
proof -
  have "newline \<notin> set (tm_RFCName t)" "newline \<notin> set (tm_Package t)" using assms by (simp_all add: tmpl_plain_def)
  moreover have "list_all doc_plain (tm_Changing t)" "list_all doc_plain (tm_Imports t)" "list_all doc_plain (tm_Exports t)"
    "list_all doc_plain (tm_Tables t)" using assms by (simp_all add: tmpl_plain_def)
  moreover have "list_all (\<lambda>l. newline \<notin> set l) (concat (map struct_lines (tm_Structs t)))"
    using assms by (intro plain_struct_lines) (simp add: tmpl_plain_def)
  ultimately show ?thesis
    unfolding source_lines_def list_all_append
    by (intro conjI plain_field_lines plain_embedded) (simp_all add: newline_def tabs_def)
qed

lemma list_all_field_lines: "list_all (\<lambda>l. l \<noteq> ''}'') (map field_line ds)"
  "list_all (\<lambda>l. l \<noteq> struct_header n) (map field_line ds)"
  "list_all (\<lambda>l. l \<noteq> ''}'') (embedded t)" "list_all (\<lambda>l. l \<noteq> struct_header n) (embedded t)"
  by (simp_all add: list_all_iff field_line_apart embedded_def del: One_nat_def)

lemma map_read: "list_all doc_plain ds \<Longrightarrow> map read_field (map field_line ds) = map Declared ds"
  by (simp add: list_all_iff read_field_line)

lemma map_read_embedded: "map read_field (embedded t) = (if tm_Changing t = [] then [] else [Embedded ''InOut''])"
  by (simp add: embedded_def read_embedded del: One_nat_def)

text \<open>A declaration of the template after lines that are not its header.\<close>

lemma read_declaration:
  assumes "list_all (\<lambda>l. l \<noteq> struct_header n) xs" "list_all (\<lambda>l. l \<noteq> ''}'') ds"
  shows "read_struct n (xs @ (struct_header n # ds @ ''}'' # zs)) = map read_field ds"
  using read_struct_skip [OF assms(1)] read_struct_at [OF assms(2)] by simp

lemma source_reads:
  assumes "tmpl_plain t"
  shows "read_struct ''InOut'' (source_lines t @ zs) = map Declared (tm_Changing t)"
    and "read_struct ''In'' (source_lines t @ zs) =
      (if tm_Changing t = [] then [] else [Embedded ''InOut'']) @ map Declared (tm_Imports t)"
    and "read_struct ''Out'' (source_lines t @ zs) =
      (if tm_Changing t = [] then [] else [Embedded ''InOut'']) @ map Declared (tm_Exports t @ tm_Tables t)"
proof -
  have plain: "list_all doc_plain (tm_Changing t)" "list_all doc_plain (tm_Imports t)" "list_all doc_plain (tm_Exports t @ tm_Tables t)"
    using assms by (simp_all add: tmpl_plain_def)
  define h where "h = take 12 (source_lines t)"
  define h2 where "h2 = [[], ''// In contains IMPORT parameters for '' @ tm_RFCName t @ ''.'']"
  define h3 where "h3 = [[], ''// Out contains EXPORT, TABLES, and CHANGING results for '' @ tm_RFCName t @ ''.'']"
  define i where "i = struct_header ''InOut'' # map field_line (tm_Changing t)"
  define j where "j = struct_header ''In'' # embedded t @ map field_line (tm_Imports t)"
  define k where "k = struct_header ''Out'' # embedded t @ map field_line (tm_Exports t @ tm_Tables t)"
  obtain rest where src: "source_lines t = h @ i @ ''}'' # h2 @ j @ ''}'' # h3 @ k @ ''}'' # rest"
    unfolding h_def i_def h2_def j_def h3_def k_def source_lines_def struct_header_def by (simp add: eval_nat_numeral)
  have apart: "list_all (\<lambda>l. l \<noteq> struct_header n) h" "list_all (\<lambda>l. l \<noteq> struct_header n) h2"
    "list_all (\<lambda>l. l \<noteq> struct_header n) h3" for n
    by (simp_all add: h_def h2_def h3_def source_lines_def eval_nat_numeral struct_header_def tabs_def)
  have heads: "struct_header ''InOut'' \<noteq> struct_header ''In''" "struct_header ''InOut'' \<noteq> struct_header ''Out''"
    "struct_header ''In'' \<noteq> struct_header ''Out''" "''}'' \<noteq> struct_header n" for n by (simp_all add: struct_header_def)
  show "read_struct ''InOut'' (source_lines t @ zs) = map Declared (tm_Changing t)"
    using read_declaration [OF apart(1) list_all_field_lines(1)] map_read [OF plain(1)] by (simp add: src i_def)
  have "list_all (\<lambda>l. l \<noteq> struct_header ''In'') (h @ i @ ''}'' # h2)"
    using apart heads list_all_field_lines(2) by (simp add: i_def)
  from read_declaration [OF this, of "embedded t @ map field_line (tm_Imports t)"]
  show "read_struct ''In'' (source_lines t @ zs) =
      (if tm_Changing t = [] then [] else [Embedded ''InOut'']) @ map Declared (tm_Imports t)"
    using list_all_field_lines map_read [OF plain(2)] map_read_embedded [of t] by (simp add: src j_def)
  have "list_all (\<lambda>l. l \<noteq> struct_header ''Out'') (h @ i @ ''}'' # h2 @ j @ ''}'' # h3)"
    using apart heads list_all_field_lines(2,4) by (simp add: i_def j_def)
  from read_declaration [OF this, of "embedded t @ map field_line (tm_Exports t @ tm_Tables t)"]
  show "read_struct ''Out'' (source_lines t @ zs) =
      (if tm_Changing t = [] then [] else [Embedded ''InOut'']) @ map Declared (tm_Exports t @ tm_Tables t)"
    using list_all_field_lines map_read [OF plain(3)] map_read_embedded [of t] by (simp add: src k_def)
qed

text \<open>A generated file says what the descriptor said: its three parameter types, read back from the text,
  have the names, the types and the tags of the parameters in their order, with \<open>InOut\<close> embedded in both
  when there are CHANGING parameters.\<close>

lemma codegen_readable:
  assumes "tmpl_plain t"
  defines "file \<equiv> split_byte newline (unlines (source_lines t))"
  shows "read_struct ''InOut'' file = map Declared (tm_Changing t) \<and>
    read_struct ''In'' file = (if tm_Changing t = [] then [] else [Embedded ''InOut'']) @ map Declared (tm_Imports t) \<and>
    read_struct ''Out'' file =
      (if tm_Changing t = [] then [] else [Embedded ''InOut'']) @ map Declared (tm_Exports t @ tm_Tables t)"
  unfolding file_def split_unlines [OF plain_lines [OF assms(1)]] using source_reads [OF assms(1)] by simp

section \<open>Weaknesses\<close>

text \<open>A structure of the dictionary whose Go name is that of a parameter type is declared a second time, which
  does not compile.\<close>

lemma two_declarations:
  assumes "s \<in> set (tm_Structs t)" "sd_GoName s = ''Out''"
  shows "2 \<le> count_list (source_lines t) (struct_header ''Out'')"
proof -
  have "struct_header ''Out'' \<in> set (concat (map struct_lines (tm_Structs t)))"
    using assms by (force simp: struct_lines_def struct_header_def)
  then have "1 \<le> count_list (concat (map struct_lines (tm_Structs t))) (struct_header ''Out'')"
    by (simp add: Suc_le_eq count_list_0_iff zero_less_iff_neq_zero)
  then show ?thesis by (simp add: source_lines_def struct_header_def)
qed

text \<open>When the description fails, describe exits with the connection open; generate closes it.\<close>

lemma describe_leaves_open:
  assumes "describe_live ops en ctx Getenv fn (snd w) = (Ok (c, Err e), st)" "fn \<noteq> []" "out \<noteq> []"
  shows "runDescribe L F ops en ctx Getenv fn out w = (GenFail e, fst w, st)"
    and "loadDescriptor L F ops en ctx Getenv [] fn w = (Err e, close_quietly ops en c st)"
  using assms by (simp_all add: runDescribe_def loadDescriptor_def)

text \<open>A failure of the second write leaves the first file behind.\<close>

lemma half_written:
  assumes "fl_mkdir F out x = (None, y)" "fl_write F p (gf_Source g) y = (None, z)" "fl_write F q (gf_Test g) z = (Some e, z')"
    and "p = fl_Join F [out, fileBase u fn @ ''.go'']" "q = fl_Join F [out, fileBase u fn @ ''_test.go'']"
    and "out \<noteq> []" "\<not> has_suffix out ''.go''"
  shows "writeGenerated F u False out fn g x = (Some (WrapErr (''write '' @ q @ '': '') e), z')"
  using assms by (simp add: writeGenerated_def make_dir_def write_to_def or_wrap_def Let_def)

text \<open>A run that refuses its arguments or cannot load or generate writes no generated file.\<close>

lemma generate_fails_before_writing:
  assumes "ga_save a = []" "loadDescriptor L F ops en ctx Getenv (ga_json a) (ga_fn a) w = (Ok d, st)"
    and "generate_files L u (ga_pkg a) d (ga_fast a) = Err e"
  shows "runGenerate L F u flip ops en ctx Getenv a w = (GenFail (WrapErr ''generate: '' e), fst w, st)"
  using assms by (simp add: runGenerate_def)

end
