(* ===== verification/Wiring.thy ===== *)
theory Wiring
  imports Server Conn Mock_Backend Sdk_C Ucs2 Conn_Params
begin

text \<open>
  What the packages keep once per process, and the helpers between them: the registered providers and INI
  file system (\<open>nwrfc/provider.go\<close>, \<open>inifs.go\<close>), the memoized probes (\<open>utility.go\<close>), the accessors of
  the test backend (\<open>nwrfcmock/mock.go\<close>), the composition of dates and times (\<open>internal/backend/types.go\<close>)
  and three conversions at the C boundary (\<open>ucs.go\<close>, \<open>unit.go\<close>, \<open>trace.go\<close> of internal/sdkbackend).

  Each global variable is a field of a record; its mutex makes a read or a write one step. The lemmas show
  that the last registration wins, that a probe never changes its answer, that the initial date is not turned
  into the zero time, and which part of a unit's identifier reaches the SDK.
\<close>

section \<open>Global variables\<close>

type_synonym dest_provider = "go_string \<Rightarrow> (goerr, params) result"
type_synonym server_provider = "go_string \<Rightarrow> (goerr, server_config) result"
type_synonym ini_fs = "(goerr, go_string list) result"

record globals =
  gv_destProvider :: "dest_provider option"
  gv_serverProvider :: "server_provider option"
  gv_iniFS :: "ini_fs option"

definition SetDestinationProvider :: "dest_provider option \<Rightarrow> globals \<Rightarrow> globals" where
  "SetDestinationProvider p g = g\<lparr>gv_destProvider := p\<rparr>"

definition SetServerProvider :: "server_provider option \<Rightarrow> globals \<Rightarrow> globals" where
  "SetServerProvider p g = g\<lparr>gv_serverProvider := p\<rparr>"

definition SetIniFS :: "ini_fs option \<Rightarrow> globals \<Rightarrow> globals" where
  "SetIniFS f g = g\<lparr>gv_iniFS := f\<rparr>"

definition resolveServer :: "globals \<Rightarrow> go_string \<Rightarrow> (goerr, server_config) result" where
  "resolveServer g name =
     (case gv_serverProvider g of
        None \<Rightarrow> Err (ConfigErr ''ServerProvider'' ''no provider registered (call SetServerProvider)'')
      | Some p \<Rightarrow> p name)"

text \<open>The destination resolved with the registered provider, and opened with the registered INI files.\<close>

definition resolve_registered :: "globals \<Rightarrow> go_string \<Rightarrow> (goerr, params) result" where
  "resolve_registered g = resolveDestination (gv_destProvider g)"

definition open_registered :: "'s backend \<Rightarrow> env \<Rightarrow> ctx \<Rightarrow> globals \<Rightarrow> go_string \<Rightarrow> 's nw \<Rightarrow> (goerr, conn) result \<times> 's nw" where
  "open_registered ops en c g = OpenDest ops en c (gv_destProvider g) (gv_iniFS g)"

text \<open>The last registration counts, and the three variables are independent.\<close>

lemma registrations:
  "resolve_registered (SetDestinationProvider p (SetDestinationProvider q g)) = resolveDestination p"
  "resolve_registered (SetServerProvider sp (SetIniFS f g)) = resolve_registered g"
  "resolveServer (SetServerProvider (Some r) (SetDestinationProvider p g)) = r"
  "open_registered ops en c (SetIniFS f (SetDestinationProvider p g)) = OpenDest ops en c p f"
  by (simp_all add: resolve_registered_def SetDestinationProvider_def SetServerProvider_def SetIniFS_def
      resolveServer_def open_registered_def fun_eq_iff)

section \<open>Memoized probes\<close>

text \<open>\<open>sync.OnceValue\<close>: the first call stores the result.\<close>

definition once_value :: "('s \<Rightarrow> 'a) \<Rightarrow> 's \<Rightarrow> 'a option \<Rightarrow> 'a \<times> 'a option" where
  "once_value f s cache = (case cache of Some a \<Rightarrow> (a, cache) | None \<Rightarrow> (f s, Some (f s)))"

record sdk_cache =
  once_err :: "goerr option option"
  once_version :: "version option"
  once_caps :: "capabilities option"

definition EnsureSDK :: "'s backend \<Rightarrow> 's \<Rightarrow> sdk_cache \<Rightarrow> goerr option \<times> sdk_cache" where
  "EnsureSDK ops s k = (case once_value (ensureSDKOnce ops) s (once_err k) of (e, c) \<Rightarrow> (e, k\<lparr>once_err := c\<rparr>))"

definition SDKVersion :: "'s backend \<Rightarrow> 's \<Rightarrow> sdk_cache \<Rightarrow> version \<times> sdk_cache" where
  "SDKVersion ops s k = (case once_value (bk_version ops) s (once_version k) of (v, c) \<Rightarrow> (v, k\<lparr>once_version := c\<rparr>))"

definition Capabilities :: "'s backend \<Rightarrow> 's \<Rightarrow> sdk_cache \<Rightarrow> capabilities \<times> sdk_cache" where
  "Capabilities ops s k = (case once_value (bk_caps ops) s (once_caps k) of (v, c) \<Rightarrow> (v, k\<lparr>once_caps := c\<rparr>))"

text \<open>After the first call the answers are fixed, whichever backend is registered later: a program that asks
  before a backend is installed is told forever that there is none.\<close>

lemma once_fixed:
  "fst (EnsureSDK ops' s' (snd (EnsureSDK ops s k))) = fst (EnsureSDK ops s k)"
  "fst (SDKVersion ops' s' (snd (SDKVersion ops s k))) = fst (SDKVersion ops s k)"
  "fst (Capabilities ops' s' (snd (Capabilities ops s k))) = fst (Capabilities ops s k)"
  by (simp_all add: EnsureSDK_def SDKVersion_def Capabilities_def once_value_def split: option.split)

lemma probed_too_early:
  assumes "once_err k = None"
  shows "fst (EnsureSDK ops s (snd (EnsureSDK unregisteredBackend s' k))) \<noteq> None"
  using assms by (simp add: EnsureSDK_def once_value_def ensureSDKOnce_def unregisteredBackend_def)

text \<open>The cap on the trace level: read, and reset between tests.\<close>

definition currentMaxTraceLevel :: "'s nw \<Rightarrow> int" where
  "currentMaxTraceLevel st = nw_maxTrace st"

definition resetMaxTraceLevelForTest :: "'s nw \<Rightarrow> 's nw" where
  "resetMaxTraceLevelForTest st = st\<lparr>nw_maxTrace := 0\<rparr>"

section \<open>The test backend\<close>

definition SetVersion :: "version \<Rightarrow> 'u mock \<Rightarrow> 'u mock" where
  "SetVersion v m = m\<lparr>mk_version := v\<rparr>"

definition SetCapabilities :: "capabilities \<Rightarrow> 'u mock \<Rightarrow> 'u mock" where
  "SetCapabilities c m = m\<lparr>mk_capabilities := c\<rparr>"

definition CallCount :: "'u mock \<Rightarrow> int" where "CallCount m = sint (mk_callCount m)"
definition OpenCount :: "'u mock \<Rightarrow> int" where "OpenCount m = sint (mk_openCount m)"
definition CloseCount :: "'u mock \<Rightarrow> int" where "CloseCount m = sint (mk_closeCount m)"

definition Install :: "'b \<Rightarrow> 'b option \<Rightarrow> 'b option \<times> 'b option" where
  "Install m active = SetTesting (Some m) active"

text \<open>The second component is what the restore function stores. Two installations restored in the order they
  were made leave the first mock active.\<close>

lemma restore_out_of_order:
  "let (a1, r1) = Install m1 orig; (a2, r2) = Install m2 a1 in a1 = Some m1 \<and> a2 = Some m2 \<and> r1 = orig \<and> r2 = Some m1"
  by (simp add: Install_def SetTesting_def)

section \<open>Dates and times together\<close>

text \<open>\<open>time.Date\<close> in UTC: months and days out of range carry over. The result is the number of seconds since
  1 January of year 1, which is the zero \<open>time.Time\<close>.\<close>

definition days_before_year :: "int \<Rightarrow> int" where
  "days_before_year y = 365 * (y - 1) + (y - 1) div 4 - (y - 1) div 100 + (y - 1) div 400"

definition days_before_month :: "int \<Rightarrow> int \<Rightarrow> int" where
  "days_before_month y m = (\<Sum>k\<leftarrow>[1..m - 1]. daysInMonth y k)"

definition time_Date :: "int \<Rightarrow> int \<Rightarrow> int \<Rightarrow> int \<Rightarrow> int \<Rightarrow> int \<Rightarrow> int" where
  "time_Date y m d h mi s =
     (let y' = y + (m - 1) div 12; m' = (m - 1) mod 12 + 1
      in 86400 * (days_before_year y' + days_before_month y' m' + d - 1) + 3600 * h + 60 * mi + s)"

definition AsTime :: "date \<Rightarrow> gtime \<Rightarrow> int" where
  "AsTime d t = time_Date (uint (Year d)) (uint (Month d)) (uint (Day d)) (uint (Hour t)) (uint (Minute t)) (uint (Second t))"

text \<open>A year is as long as its months, and the next day of a month is 86400 seconds later.\<close>

lemma AsTime_next_day:
  assumes "uint (Day d) < 2 ^ 16 - 1"
  shows "AsTime (d\<lparr>Day := Day d + 1\<rparr>) t = AsTime d t + 86400"
proof -
  have "uint (Day d + 1) = uint (Day d) + 1"
    using assms uint_add_lem [of "Day d" 1] by simp
  then show ?thesis by (simp add: AsTime_def time_Date_def Let_def)
qed

text \<open>The initial date at midnight is not the zero time but a day of the year before year 0, although the comment
  promises the zero \<open>time.Time\<close>.\<close>

lemma AsTime_initial:
  "AsTime \<lparr>Year = 0, Month = 0, Day = 0\<rparr> \<lparr>Hour = 0, Minute = 0, Second = 0\<rparr> = time_Date (- 1) 11 30 0 0 0"
  "AsTime \<lparr>Year = 0, Month = 0, Day = 0\<rparr> \<lparr>Hour = 0, Minute = 0, Second = 0\<rparr> \<noteq> time_Date 1 1 1 0 0 0"
  by code_simp+

section \<open>The C boundary\<close>

text \<open>A name in a fixed field: trailing NULs and blanks go, an undecodable one is empty.\<close>

definition strip_padding :: "uc \<Rightarrow> uc" where
  "strip_padding u = rev (dropWhile (\<lambda>c. c = 0 \<or> c = 32) (rev u))"

definition sapUCSliceToString :: "'c sdk \<Rightarrow> uc \<Rightarrow> go_string" where
  "sapUCSliceToString k u =
     (let v = strip_padding u
      in if v = [] then [] else case RfcSAPUCToUTF8 k v of Inl _ \<Rightarrow> [] | Inr s \<Rightarrow> s)"

lemma strip_padding_append: "\<forall>c\<in>set w. c = 0 \<or> c = 32 \<Longrightarrow> strip_padding (u @ w) = strip_padding u"
  unfolding strip_padding_def rev_append by (subst dropWhile_append2) auto

lemma padding_ignored: "sapUCSliceToString k (u @ replicate n 32 @ replicate j 0) = sapUCSliceToString k u"
  unfolding sapUCSliceToString_def by (subst strip_padding_append) auto

text \<open>\<open>RfcSetTraceEncoding\<close> is not called by anything; \<open>encode\<close> is the SDK function.\<close>

definition setTraceEncoding :: "'c sdk \<Rightarrow> (go_string \<Rightarrow> ('c, unit) ccall) \<Rightarrow> go_string \<Rightarrow> ('c, unit) act" where
  "setTraceEncoding k encode encoding = bindA (stringToSAPUC k encoding) (\<lambda>uc. call ''RfcSetTraceEncoding'' (encode uc))"

text \<open>The identifier of a unit is copied into 33 code units, out of a buffer that \<open>mallocU\<close> made one longer than
  the string has bytes. \<open>junk\<close> is what the allocation held before: the conversion overwrites it with the code units
  of the string and a terminator. \<open>None\<close> is a read past the end of the buffer.\<close>

definition sapuc_buffer :: "nat list \<Rightarrow> go_string \<Rightarrow> nat list" where
  "sapuc_buffer junk s = (let e = utf16_Encode (runes s) in e @ 0 # drop (length e + 1) junk)"

definition copy_unit_id :: "nat list \<Rightarrow> nat list option" where
  "copy_unit_id buf = (if length buf < 33 then None else Some (take 33 buf))"

definition goUnitIdentifierToC :: "'c sdk \<Rightarrow> nat list \<Rightarrow> unit_identifier \<Rightarrow> ('c, (char \<times> nat list) option) act" where
  "goUnitIdentifierToC k junk i = bindA (stringToSAPUC k (snd i)) (\<lambda>s.
     ret (map_option (\<lambda>u. (fst i, u)) (copy_unit_id (sapuc_buffer junk s))))"

text \<open>The callers check that the string has 32 bytes, so the copy stays inside the buffer. But an identifier with
  characters of more than one byte has fewer code units, and the rest of the copy is whatever the allocation
  held.\<close>

lemma copy_unit_id_in_bounds:
  "length s < length junk \<Longrightarrow> length s = 32 \<Longrightarrow> copy_unit_id (sapuc_buffer junk s) \<noteq> None"
  by (simp add: copy_unit_id_def sapuc_buffer_def Let_def)

lemma copy_unit_id_tail:
  assumes "length junk = 33" and "length (utf16_Encode (runes s)) \<le> 32"
  shows "copy_unit_id (sapuc_buffer junk s)
    = Some (utf16_Encode (runes s) @ 0 # drop (length (utf16_Encode (runes s)) + 1) junk)"
  using assms by (simp add: copy_unit_id_def sapuc_buffer_def Let_def)

lemma copy_unit_id_exact:
  assumes "length junk = 33" and "length (utf16_Encode (runes s)) = 32"
  shows "copy_unit_id (sapuc_buffer junk s) = Some (utf16_Encode (runes s) @ [0])"
  using assms copy_unit_id_tail [of junk s] by simp

end
